(* ===== verification/Nvcv_Prelude.thy ===== *)
theory Nvcv_Prelude
  imports Main "HOL-Library.Word"
begin

text \<open>
  Shared vocabulary of the development: the status codes of the library as a datatype, the
  outcome of an operation that may throw as a sum type with its sequencing operator, and the
  generic facts on lists, bits and sums that the component theories use.
\<close>

unbundle bit_operations_syntax

section \<open>Machine integers\<close>

text \<open>A 32-bit or 64-bit signed result, as the machine computes it.\<close>

definition wrap32 :: "int \<Rightarrow> int" where
  "wrap32 n = (n + 2 ^ 31) mod 2 ^ 32 - 2 ^ 31"

lemma wrap32_id [simp]: "- (2 ^ 31) \<le> n \<Longrightarrow> n < 2 ^ 31 \<Longrightarrow> wrap32 n = n"
  by (simp add: wrap32_def)

definition wrap64 :: "int \<Rightarrow> int" where
  "wrap64 n = (n + 2 ^ 63) mod 2 ^ 64 - 2 ^ 63"

lemma wrap64_id [simp]: "- (2 ^ 63) \<le> n \<Longrightarrow> n < 2 ^ 63 \<Longrightarrow> wrap64 n = n"
  by (simp add: wrap64_def)

section \<open>Status codes and outcomes\<close>

datatype NVCVStatus =
    NVCV_SUCCESS
  | NVCV_ERROR_NOT_IMPLEMENTED
  | NVCV_ERROR_INVALID_ARGUMENT
  | NVCV_ERROR_INVALID_IMAGE_FORMAT
  | NVCV_ERROR_INVALID_OPERATION
  | NVCV_ERROR_DEVICE
  | NVCV_ERROR_NOT_READY
  | NVCV_ERROR_OUT_OF_MEMORY
  | NVCV_ERROR_INTERNAL
  | NVCV_ERROR_NOT_COMPATIBLE
  | NVCV_ERROR_OVERFLOW
  | NVCV_ERROR_UNDERFLOW

text \<open>
  A failed operation throws an \<open>Exception\<close> with a status code, stops the process in an
  \<open>NVCV_ASSERT\<close> (debug builds), throws a \<open>std::logic_error\<close> or a \<open>std::runtime_error\<close>, lets an
  exception escape from a \<open>noexcept\<close> function, which terminates the process, or does what C++
  leaves undefined: access memory outside an array or divide by zero. The message text of an
  exception is not part of the model.
\<close>

datatype failure = Throw NVCVStatus | AssertFailed | LogicError | RuntimeError | Terminated | OutOfBounds | DivisionByZero

type_synonym 'a result = "failure + 'a"

definition bind_result :: "'a result \<Rightarrow> ('a \<Rightarrow> 'b result) \<Rightarrow> 'b result" where
  "bind_result r f = (case r of Inl e \<Rightarrow> Inl e | Inr x \<Rightarrow> f x)"

definition throw_if :: "bool \<Rightarrow> NVCVStatus \<Rightarrow> 'a result \<Rightarrow> 'a result" where
  "throw_if c e r = (if c then Inl (Throw e) else r)"

definition nvcv_assert :: "bool \<Rightarrow> 'a result \<Rightarrow> 'a result" where
  "nvcv_assert c r = (if c then r else Inl AssertFailed)"

definition in_bounds :: "bool \<Rightarrow> 'a result \<Rightarrow> 'a result" where
  "in_bounds c r = (if c then r else Inl OutOfBounds)"

named_theorems result_simps \<open>rules that execute the outcome combinators\<close>

lemma bind_result_simps [simp, result_simps]:
  "bind_result (Inl e) f = Inl e"
  "bind_result (Inr x) f = f x"
  by (simp_all add: bind_result_def)

lemma throw_if_simps [simp, result_simps]:
  "throw_if True e r = Inl (Throw e)"
  "throw_if False e r = r"
  by (simp_all add: throw_if_def)

lemma nvcv_assert_simps [simp, result_simps]:
  "nvcv_assert True r = r"
  "nvcv_assert False r = Inl AssertFailed"
  by (simp_all add: nvcv_assert_def)

lemma in_bounds_simps [simp, result_simps]:
  "in_bounds True r = r"
  "in_bounds False r = Inl OutOfBounds"
  by (simp_all add: in_bounds_def)

lemma in_bounds_eq_Inr [result_simps]:
  "in_bounds c r = Inr y \<longleftrightarrow> c \<and> r = Inr y"
  by (simp add: in_bounds_def)

lemma bind_result_eq_Inr [result_simps]:
  "bind_result r f = Inr y \<longleftrightarrow> (\<exists>x. r = Inr x \<and> f x = Inr y)"
  by (cases r) auto

lemma throw_if_eq_Inr [result_simps]:
  "throw_if c e r = Inr y \<longleftrightarrow> \<not> c \<and> r = Inr y"
  by (simp add: throw_if_def)

lemma nvcv_assert_eq_Inr [result_simps]:
  "nvcv_assert c r = Inr y \<longleftrightarrow> c \<and> r = Inr y"
  by (simp add: nvcv_assert_def)

section \<open>Stateful operations\<close>

text \<open>An operation that may fail and changes a state \<open>'s\<close> either way.\<close>

type_synonym ('a, 's) st = "'s \<Rightarrow> 'a result \<times> 's"

definition st_return :: "'a \<Rightarrow> ('a, 's) st" where
  "st_return x = (\<lambda>s. (Inr x, s))"

definition st_fail :: "failure \<Rightarrow> ('a, 's) st" where
  "st_fail e = (\<lambda>s. (Inl e, s))"

definition st_bind :: "('a, 's) st \<Rightarrow> ('a \<Rightarrow> ('b, 's) st) \<Rightarrow> ('b, 's) st" where
  "st_bind m f = (\<lambda>s. case m s of (Inl e, s') \<Rightarrow> (Inl e, s') | (Inr x, s') \<Rightarrow> f x s')"

definition st_lift :: "'a result \<Rightarrow> ('a, 's) st" where
  "st_lift r = (\<lambda>s. (r, s))"

definition st_throw_if :: "bool \<Rightarrow> failure \<Rightarrow> ('a, 's) st \<Rightarrow> ('a, 's) st" where
  "st_throw_if c e m = (if c then st_fail e else m)"

lemma st_simps [simp]:
  "st_return x s = (Inr x, s)" "st_fail e s = (Inl e, s)" "st_lift r s = (r, s)"
  "st_throw_if True e m = st_fail e" "st_throw_if False e m = m"
  by (simp_all add: st_return_def st_fail_def st_lift_def st_throw_if_def)

lemma st_bind_simps [simp]:
  "m s = (Inl e, s') \<Longrightarrow> st_bind m f s = (Inl e, s')"
  "m s = (Inr x, s') \<Longrightarrow> st_bind m f s = f x s'"
  by (simp_all add: st_bind_def)

lemma st_bind_Inr:
  "st_bind m f s = (Inr y, s'') \<longleftrightarrow> (\<exists>x s'. m s = (Inr x, s') \<and> f x s' = (Inr y, s''))"
  by (auto simp: st_bind_def split: prod.splits sum.splits)

lemma st_throw_if_app: "st_throw_if c e m s = (if c then (Inl e, s) else m s)"
  by (simp add: st_throw_if_def)

section \<open>Bits of integers\<close>

named_theorems bit_facts \<open>facts about the bits of machine integers\<close>

lemma mask_AND_int [bit_facts]: "(x::int) AND (2 ^ k - 1) = x mod 2 ^ k"
  by (simp add: take_bit_eq_mod [symmetric] take_bit_eq_mask mask_eq_exp_minus_1)

lemma AND_minus_exp_int [bit_facts]: "(x::int) AND - (2 ^ k) = x - x mod 2 ^ k"
proof -
  have "x AND - (2 ^ k) = x AND NOT (mask k)"
    by (simp add: not_eq_complement mask_eq_exp_minus_1)
  also have "\<dots> = push_bit k (drop_bit k x)"
    by (rule bit_eqI) (auto simp: bit_simps)
  also have "\<dots> = x - take_bit k x"
    using bits_ident [of k x] by linarith
  finally show ?thesis
    by (simp add: take_bit_eq_mod)
qed

end
