(* ===== verification/Lock_Free_Stack.thy ===== *)
theory Lock_Free_Stack
  imports Nvcv_Prelude
begin

text \<open>
  The intrusive stack of \<open>src/nvcv/src/priv/LockFreeStack.hpp\<close>, used by any number of threads at
  once. A node is a word-aligned address; \<open>nextp\<close> is the \<open>next\<close> field of every node, \<open>m_head\<close> the
  atomic head whose lowest bit marks it as locked by a popping thread. Each atomic access of the
  code is one step of a relation, a compare-exchange may fail at any time
  (\<open>compare_exchange_weak\<close>), and the threads interleave freely.

  The theory proves that the stack is linearizable (every run is a run of a list-valued stack),
  that no node is lost, duplicated or owned by two threads, and that a thread which holds the
  lock bit keeps all others from completing an operation. The sequential operations, which the
  handle manager calls, close the theory with their interface as a locale.
\<close>

section \<open>Pointers and the lock bit\<close>

type_synonym ptr = "64 word"

definition doGetUnlocked :: "ptr \<Rightarrow> ptr" where
  "doGetUnlocked p = p AND -2"

definition doGetLocked :: "ptr \<Rightarrow> ptr" where
  "doGetLocked p = p OR 1"

definition aligned :: "ptr \<Rightarrow> bool" where
  "aligned p \<longleftrightarrow> \<not> bit p 0"

lemma unlocked_eq: "doGetUnlocked p = p AND NOT 1"
  by (simp add: doGetUnlocked_def)

lemma bit_unlocked [bit_facts]: "bit (doGetUnlocked p) n \<longleftrightarrow> n \<noteq> 0 \<and> bit p n"
  unfolding unlocked_eq bit_and_iff bit_not_iff bit_1_iff
  using bit_imp_le_length [of p n] by (auto simp: possible_bit_def)

lemma bit_locked [bit_facts]: "bit (doGetLocked p) n \<longleftrightarrow> n = 0 \<or> bit p n"
  by (auto simp: doGetLocked_def bit_or_iff bit_1_iff)

lemma unlocked_aligned [simp]: "aligned p \<Longrightarrow> doGetUnlocked p = p"
  by (rule bit_eqI) (metis aligned_def bit_unlocked)

lemma unlocked_locked [simp]: "aligned p \<Longrightarrow> doGetUnlocked (doGetLocked p) = p"
  by (rule bit_eqI) (metis aligned_def bit_locked bit_unlocked)

lemma locked_unlocked: "\<not> aligned p \<Longrightarrow> doGetLocked (doGetUnlocked p) = p"
  by (rule bit_eqI) (metis aligned_def bit_locked bit_unlocked)

lemma aligned_zero [simp]: "aligned 0"
  by (simp add: aligned_def)

lemma not_aligned_locked [simp]: "\<not> aligned (doGetLocked p)"
  by (simp add: aligned_def bit_locked)

lemma aligned_unlocked [simp]: "aligned (doGetUnlocked p)"
  by (simp add: aligned_def bit_unlocked)

section \<open>Steps of the threads\<close>

text \<open>
  The control points between two atomic accesses, with the local variables alive there. A chain
  being pushed is the list of nodes from \<open>newHead\<close> to \<open>last\<close>; \<open>push n\<close> is the chain \<open>[n]\<close>.
\<close>

datatype pc =
    Idle
  | PopLoad
  | PopLock ptr
  | PopReload
  | PopNext ptr
  | PopSwing ptr ptr
  | PushLoad "ptr list"
  | PushLink "ptr list" ptr
  | PushSwing "ptr list" ptr

text \<open>
  \<open>owned s t\<close> are the nodes thread \<open>t\<close> may use: what its pops returned or it allocated, and has
  not pushed. It is bookkeeping of the model, not a variable of the code.
\<close>

record stack_state =
  m_head :: ptr
  nextp :: "ptr \<Rightarrow> ptr"
  pcs :: "nat \<Rightarrow> pc"
  owned :: "nat \<Rightarrow> ptr set"

datatype label = Tau | Popped nat "ptr option" | Pushed nat "ptr list"

definition goto :: "nat \<Rightarrow> pc \<Rightarrow> stack_state \<Rightarrow> stack_state" where
  "goto t p s = s\<lparr>pcs := (pcs s)(t := p)\<rparr>"

fun linked :: "(ptr \<Rightarrow> ptr) \<Rightarrow> ptr list \<Rightarrow> bool" where
  "linked nx [] \<longleftrightarrow> True"
| "linked nx [x] \<longleftrightarrow> True"
| "linked nx (x # y # zs) \<longleftrightarrow> nx x = y \<and> linked nx (y # zs)"

inductive lstep :: "nat \<Rightarrow> stack_state \<Rightarrow> label \<Rightarrow> stack_state \<Rightarrow> bool" where
  relink: "pcs s t = Idle \<Longrightarrow> p \<in> owned s t \<Longrightarrow>
     lstep t s Tau (s\<lparr>nextp := (nextp s)(p := q)\<rparr>)"
| pop_call: "pcs s t = Idle \<Longrightarrow> lstep t s Tau (goto t PopLoad s)"
| pop_empty: "pcs s t = PopLoad \<Longrightarrow> doGetUnlocked (m_head s) = 0 \<Longrightarrow>
     lstep t s (Popped t None) (goto t Idle s)"
| pop_load: "pcs s t = PopLoad \<Longrightarrow> doGetUnlocked (m_head s) \<noteq> 0 \<Longrightarrow>
     lstep t s Tau (goto t (PopLock (doGetUnlocked (m_head s))) s)"
| pop_lock: "pcs s t = PopLock h \<Longrightarrow> m_head s = h \<Longrightarrow>
     lstep t s Tau (goto t PopReload (s\<lparr>m_head := doGetLocked h\<rparr>))"
| pop_lock_fail: "pcs s t = PopLock h \<Longrightarrow> lstep t s Tau (goto t PopLoad s)"
| pop_reload: "pcs s t = PopReload \<Longrightarrow> lstep t s Tau (goto t (PopNext (m_head s)) s)"
| pop_next: "pcs s t = PopNext old \<Longrightarrow>
     lstep t s Tau (goto t (PopSwing old (nextp s (doGetUnlocked old))) s)"
| pop_swing: "pcs s t = PopSwing old new \<Longrightarrow> m_head s = old \<Longrightarrow>
     lstep t s (Popped t (Some (doGetUnlocked old)))
       (goto t Idle (s\<lparr>m_head := new,
          owned := (owned s)(t := insert (doGetUnlocked old) (owned s t))\<rparr>))"
| pop_swing_fail: "pcs s t = PopSwing old new \<Longrightarrow> lstep t s Tau (goto t PopReload s)"
| push_call: "pcs s t = Idle \<Longrightarrow> ns \<noteq> [] \<Longrightarrow> distinct ns \<Longrightarrow> set ns \<subseteq> owned s t \<Longrightarrow>
     linked (nextp s) ns \<Longrightarrow>
     lstep t s Tau (goto t (PushLoad ns) (s\<lparr>owned := (owned s)(t := owned s t - set ns)\<rparr>))"
| push_load: "pcs s t = PushLoad ns \<Longrightarrow>
     lstep t s Tau (goto t (PushLink ns (doGetUnlocked (m_head s))) s)"
| push_link: "pcs s t = PushLink ns old \<Longrightarrow>
     lstep t s Tau (goto t (PushSwing ns old) (s\<lparr>nextp := (nextp s)(last ns := old)\<rparr>))"
| push_swing: "pcs s t = PushSwing ns old \<Longrightarrow> m_head s = old \<Longrightarrow>
     lstep t s (Pushed t ns) (goto t Idle (s\<lparr>m_head := hd ns\<rparr>))"
| push_swing_fail: "pcs s t = PushSwing ns old \<Longrightarrow> lstep t s Tau (goto t (PushLoad ns) s)"

text \<open>A run of the threads in \<open>T\<close>: any of them may take the next step; the labels are collected.\<close>

inductive run :: "nat set \<Rightarrow> stack_state \<Rightarrow> label list \<Rightarrow> stack_state \<Rightarrow> bool" where
  run_nil: "run T s [] s"
| run_snoc: "run T s ls s' \<Longrightarrow> t \<in> T \<Longrightarrow> lstep t s' l s'' \<Longrightarrow> run T s (ls @ [l]) s''"

section \<open>The stack as a list\<close>

text \<open>What each completed operation does to the list, and what it may return.\<close>

fun spec_step :: "ptr list \<Rightarrow> label \<Rightarrow> ptr list option" where
  "spec_step xs Tau = Some xs"
| "spec_step xs (Popped t None) = (if xs = [] then Some [] else None)"
| "spec_step xs (Popped t (Some n)) =
     (case xs of [] \<Rightarrow> None | x # xs' \<Rightarrow> if x = n then Some xs' else None)"
| "spec_step xs (Pushed t ns) = Some (ns @ xs)"

fun spec_run :: "ptr list \<Rightarrow> label list \<Rightarrow> ptr list option" where
  "spec_run xs [] = Some xs"
| "spec_run xs (l # ls) = Option.bind (spec_step xs l) (\<lambda>ys. spec_run ys ls)"

lemma spec_run_snoc:
  "spec_run xs (ls @ [l]) = Option.bind (spec_run xs ls) (\<lambda>ys. spec_step ys l)"
proof (induction ls arbitrary: xs)
  case Nil
  then show ?case by (cases "spec_step xs l") auto
next
  case (Cons a ls)
  then show ?case by (cases "spec_step xs a") auto
qed

fun path :: "(ptr \<Rightarrow> ptr) \<Rightarrow> ptr \<Rightarrow> ptr list \<Rightarrow> bool" where
  "path nx p [] \<longleftrightarrow> p = 0"
| "path nx p (x # xs) \<longleftrightarrow> p = x \<and> x \<noteq> 0 \<and> path nx (nx x) xs"

lemma path_unique: "path nx p xs \<Longrightarrow> path nx p ys \<Longrightarrow> xs = ys"
proof (induction nx p xs arbitrary: ys rule: path.induct)
  case (1 nx p)
  then show ?case by (cases ys) auto
next
  case (2 nx p x xs)
  then show ?case by (cases ys) auto
qed

lemma path_update [simp]: "q \<notin> set xs \<Longrightarrow> path (nx(q := r)) p xs = path nx p xs"
  by (induction nx p xs rule: path.induct) auto

lemma path_null [simp]: "path nx 0 xs \<longleftrightarrow> xs = []"
  by (cases xs) auto

lemma linked_update [simp]: "q \<notin> set ns \<Longrightarrow> linked (nx(q := r)) ns = linked nx ns"
  by (induction nx ns rule: linked.induct) auto

lemma linked_update_last:
  "distinct ns \<Longrightarrow> linked nx ns \<Longrightarrow> linked (nx(last ns := r)) ns"
  by (induction nx ns rule: linked.induct) auto

lemma path_append:
  "linked nx ns \<Longrightarrow> ns \<noteq> [] \<Longrightarrow> 0 \<notin> set ns \<Longrightarrow> path nx (nx (last ns)) xs \<Longrightarrow>
   path nx (hd ns) (ns @ xs)"
  by (induction nx ns rule: linked.induct) auto

section \<open>The invariant\<close>

fun in_flight :: "pc \<Rightarrow> ptr list" where
  "in_flight (PushLoad ns) = ns"
| "in_flight (PushLink ns old) = ns"
| "in_flight (PushSwing ns old) = ns"
| "in_flight _ = []"

fun holds_lock :: "pc \<Rightarrow> bool" where
  "holds_lock PopReload \<longleftrightarrow> True"
| "holds_lock (PopNext old) \<longleftrightarrow> True"
| "holds_lock (PopSwing old new) \<longleftrightarrow> True"
| "holds_lock _ \<longleftrightarrow> False"

text \<open>What the locals of a thread know about the shared state.\<close>

fun pc_ok :: "stack_state \<Rightarrow> pc \<Rightarrow> bool" where
  "pc_ok s (PopLock h) \<longleftrightarrow> aligned h \<and> h \<noteq> 0"
| "pc_ok s (PopNext old) \<longleftrightarrow> old = m_head s"
| "pc_ok s (PopSwing old new) \<longleftrightarrow> old = m_head s \<and> new = nextp s (doGetUnlocked old)"
| "pc_ok s (PushLoad ns) \<longleftrightarrow> ns \<noteq> [] \<and> distinct ns \<and> linked (nextp s) ns"
| "pc_ok s (PushLink ns old) \<longleftrightarrow> ns \<noteq> [] \<and> distinct ns \<and> linked (nextp s) ns \<and> aligned old"
| "pc_ok s (PushSwing ns old) \<longleftrightarrow>
     ns \<noteq> [] \<and> distinct ns \<and> linked (nextp s) ns \<and> aligned old \<and> nextp s (last ns) = old"
| "pc_ok s _ \<longleftrightarrow> True"

definition held :: "stack_state \<Rightarrow> nat \<Rightarrow> ptr set" where
  "held s t = owned s t \<union> set (in_flight (pcs s t))"

text \<open>Every node of \<open>N\<close> is in the stack or held by exactly one thread.\<close>

definition partitioned :: "ptr set \<Rightarrow> stack_state \<Rightarrow> ptr list \<Rightarrow> bool" where
  "partitioned N s xs \<longleftrightarrow> distinct xs \<and> set xs \<union> (\<Union>t. held s t) = N
     \<and> (\<forall>t. set xs \<inter> held s t = {} \<and> owned s t \<inter> set (in_flight (pcs s t)) = {})
     \<and> (\<forall>t u. t \<noteq> u \<longrightarrow> held s t \<inter> held s u = {})"

text \<open>A locked head has exactly one holder and a node under the lock bit.\<close>

definition lock_ok :: "stack_state \<Rightarrow> bool" where
  "lock_ok s \<longleftrightarrow>
     (if aligned (m_head s) then \<forall>t. \<not> holds_lock (pcs s t)
      else doGetUnlocked (m_head s) \<noteq> 0 \<and> m_head s = doGetLocked (doGetUnlocked (m_head s))
        \<and> (\<exists>!t. holds_lock (pcs s t)))"

definition stack_inv :: "ptr set \<Rightarrow> stack_state \<Rightarrow> ptr list \<Rightarrow> bool" where
  "stack_inv N s xs \<longleftrightarrow> (\<forall>n\<in>N. aligned n \<and> n \<noteq> 0)
     \<and> path (nextp s) (doGetUnlocked (m_head s)) xs \<and> partitioned N s xs
     \<and> lock_ok s \<and> (\<forall>t. pc_ok s (pcs s t))"

definition initial :: "ptr set \<Rightarrow> stack_state \<Rightarrow> bool" where
  "initial N s \<longleftrightarrow> m_head s = 0 \<and> (\<forall>t. pcs s t = Idle) \<and> (\<forall>n\<in>N. aligned n \<and> n \<noteq> 0)
     \<and> (\<Union>t. owned s t) = N \<and> (\<forall>t u. t \<noteq> u \<longrightarrow> owned s t \<inter> owned s u = {})"

lemma initial_inv: "initial N s \<Longrightarrow> stack_inv N s []"
  by (auto simp: initial_def stack_inv_def partitioned_def lock_ok_def held_def)

section \<open>Every step keeps the invariant\<close>

lemma goto_simps [simp]:
  "m_head (goto t p s) = m_head s" "nextp (goto t p s) = nextp s"
  "owned (goto t p s) = owned s" "pcs (goto t p s) = (pcs s)(t := p)"
  by (simp_all add: goto_def)

lemma goto_same: "pcs s t = p \<Longrightarrow> goto t p s = s"
  by (auto simp: goto_def)

lemma pc_ok_cong:
  "m_head s' = m_head s \<Longrightarrow> nextp s' = nextp s \<Longrightarrow> pc_ok s' p = pc_ok s p"
  by (cases p) auto

lemma pc_ok_head: "\<not> holds_lock p \<Longrightarrow> nextp s' = nextp s \<Longrightarrow> pc_ok s' p = pc_ok s p"
  by (cases p) auto

lemma pc_ok_next:
  assumes "pc_ok s p" "q \<notin> set (in_flight p)" "q \<noteq> doGetUnlocked (m_head s)"
    and "m_head s' = m_head s" "nextp s' = (nextp s)(q := r)"
  shows "pc_ok s' p"
  using assms by (cases p) auto

lemma partitioned_cong:
  assumes "owned s' = owned s" "\<And>u. in_flight (pcs s' u) = in_flight (pcs s u)"
  shows "partitioned N s' xs = partitioned N s xs"
  using assms by (simp add: partitioned_def held_def)

lemma lock_ok_cong:
  assumes "m_head s' = m_head s" "\<And>u. holds_lock (pcs s' u) = holds_lock (pcs s u)"
  shows "lock_ok s' = lock_ok s"
  using assms by (simp add: lock_ok_def)

lemma stack_invD:
  assumes "stack_inv N s xs"
  shows "\<forall>n\<in>N. aligned n \<and> n \<noteq> 0"
    and "path (nextp s) (doGetUnlocked (m_head s)) xs"
    and "partitioned N s xs" "lock_ok s" "\<And>t. pc_ok s (pcs s t)"
  using assms by (auto simp: stack_inv_def)

lemma stack_invI:
  assumes "\<forall>n\<in>N. aligned n \<and> n \<noteq> 0"
    and "path (nextp s) (doGetUnlocked (m_head s)) xs"
    and "partitioned N s xs" "lock_ok s" "\<And>t. pc_ok s (pcs s t)"
  shows "stack_inv N s xs"
  using assms by (auto simp: stack_inv_def)

lemma partitioned_disjoint: "partitioned N s xs \<Longrightarrow> q \<in> held s t \<Longrightarrow> q \<notin> set xs"
  by (auto simp: partitioned_def)

lemma partitioned_exclusive:
  "partitioned N s xs \<Longrightarrow> q \<in> held s t \<Longrightarrow> t \<noteq> u \<Longrightarrow> q \<notin> held s u"
  by (fastforce simp: partitioned_def)

lemma partitioned_nodes:
  "partitioned N s xs \<Longrightarrow> set xs \<subseteq> N" "partitioned N s xs \<Longrightarrow> held s t \<subseteq> N"
  by (auto simp: partitioned_def)

text \<open>A node held by a thread is not the node the head points to.\<close>

lemma held_not_head:
  assumes "stack_inv N s xs" "q \<in> held s t"
  shows "q \<noteq> doGetUnlocked (m_head s)"
proof
  assume q: "q = doGetUnlocked (m_head s)"
  note I = stack_invD [OF assms(1)]
  have "q \<in> N" using partitioned_nodes(2) [OF I(3)] assms(2) by (rule subsetD)
  then have "q \<noteq> 0" using I(1) by simp
  with q I(2) have "q \<in> set xs" by (cases xs) auto
  with partitioned_disjoint [OF I(3) assms(2)] show False ..
qed

lemma inv_goto:
  assumes I: "stack_inv N s xs" and "in_flight p = in_flight (pcs s t)"
    and "holds_lock p = holds_lock (pcs s t)" and "pc_ok s p"
  shows "stack_inv N (goto t p s) xs"
proof (rule stack_invI)
  note D = stack_invD [OF I]
  show "\<forall>n\<in>N. aligned n \<and> n \<noteq> 0" by (rule D(1))
  show "path (nextp (goto t p s)) (doGetUnlocked (m_head (goto t p s))) xs" using D(2) by simp
  show "partitioned N (goto t p s) xs"
    using D(3) assms(2) by (subst partitioned_cong [of _ s]) auto
  show "lock_ok (goto t p s)" using D(4) assms(3) by (subst lock_ok_cong [of _ s]) auto
  show "pc_ok (goto t p s) (pcs (goto t p s) u)" for u
    using D(5) [of u] assms(4) by (simp add: pc_ok_cong [of "goto t p s" s])
qed

lemma inv_set_next:
  assumes I: "stack_inv N s xs" and q: "q \<in> held s t"
    and s': "s' = goto t p (s\<lparr>nextp := (nextp s)(q := r)\<rparr>)"
    and "in_flight p = in_flight (pcs s t)" "holds_lock p = holds_lock (pcs s t)" "pc_ok s' p"
  shows "stack_inv N s' xs"
proof (rule stack_invI)
  note D = stack_invD [OF I]
  show "\<forall>n\<in>N. aligned n \<and> n \<noteq> 0" by (rule D(1))
  show "path (nextp s') (doGetUnlocked (m_head s')) xs"
    using D(2) partitioned_disjoint [OF D(3) q] by (simp add: s')
  show "partitioned N s' xs" using D(3) assms(4) by (subst partitioned_cong [of _ s]) (auto simp: s')
  show "lock_ok s'" using D(4) assms(5) by (subst lock_ok_cong [of _ s]) (auto simp: s')
  show "pc_ok s' (pcs s' u)" for u
  proof (cases "u = t")
    case False
    with partitioned_exclusive [OF D(3) q, of u] have "q \<notin> set (in_flight (pcs s u))"
      by (auto simp: held_def)
    with pc_ok_next [OF D(5) this held_not_head [OF I q], of s' r] False show ?thesis
      by (simp add: s')
  qed (use assms(6) in \<open>simp add: s'\<close>)
qed

lemma no_holder:
  assumes "stack_inv N s xs" "aligned (m_head s)"
  shows "\<not> holds_lock (pcs s u)"
  using stack_invD(4) [OF assms(1)] assms(2) by (simp add: lock_ok_def)

lemma one_holder:
  assumes "stack_inv N s xs" "holds_lock (pcs s t)"
  shows "\<not> aligned (m_head s)" "doGetUnlocked (m_head s) \<noteq> 0"
    and "holds_lock (pcs s u) \<longleftrightarrow> u = t"
  using stack_invD(4) [OF assms(1)] assms(2) by (auto simp: lock_ok_def split: if_splits)

lemma inv_pop_lock:
  assumes I: "stack_inv N s xs" and t: "pcs s t = PopLock h" and h: "m_head s = h"
    and s': "s' = goto t PopReload (s\<lparr>m_head := doGetLocked h\<rparr>)"
  shows "stack_inv N s' xs"
proof (rule stack_invI)
  note D = stack_invD [OF I]
  have al: "aligned h" "h \<noteq> 0" using D(5) [of t] t by auto
  note nh = no_holder [OF I, unfolded h, OF al(1)]
  show "\<forall>n\<in>N. aligned n \<and> n \<noteq> 0" by (rule D(1))
  show "path (nextp s') (doGetUnlocked (m_head s')) xs" using D(2) h al by (simp add: s')
  show "partitioned N s' xs"
    using D(3) t by (subst partitioned_cong [of _ s]) (auto simp: s')
  have "\<exists>!u. holds_lock (pcs s' u)" using nh by (auto simp: s')
  then show "lock_ok s'" using al by (simp add: lock_ok_def s')
  show "pc_ok s' (pcs s' u)" for u
    using D(5) [of u] pc_ok_head [OF nh [of u], of s'] by (simp add: s')
qed

lemma partitioned_pop:
  assumes "partitioned N s (x # xs)"
    and "owned s' = (owned s)(t := insert x (owned s t))"
    and "\<And>u. in_flight (pcs s' u) = in_flight (pcs s u)"
  shows "partitioned N s' xs"
proof -
  have h: "held s' u = (if u = t then insert x (held s u) else held s u)" for u
    using assms(2,3) by (auto simp: held_def)
  have "(\<Union>u. held s' u) = insert x (\<Union>u. held s u)" by (auto simp: h split: if_splits)
  moreover have x: "x \<notin> held s u" "x \<notin> set (in_flight (pcs s u))" for u
    using assms(1) by (auto simp: partitioned_def held_def)
  ultimately show ?thesis
    using assms unfolding partitioned_def
    by (intro conjI allI impI) (fastforce simp: h x split: if_splits)+
qed

lemma inv_pop_swing:
  assumes I: "stack_inv N s xs" and t: "pcs s t = PopSwing old new" and old: "m_head s = old"
    and s': "s' = goto t Idle (s\<lparr>m_head := new,
          owned := (owned s)(t := insert (doGetUnlocked old) (owned s t))\<rparr>)"
  shows "\<exists>xs'. xs = doGetUnlocked old # xs' \<and> stack_inv N s' xs'"
proof -
  note D = stack_invD [OF I]
  have hold: "holds_lock (pcs s t)" by (simp add: t)
  note one = one_holder [OF I hold]
  have new: "new = nextp s (doGetUnlocked old)" using D(5) [of t] t by simp
  obtain xs' where xs: "xs = doGetUnlocked old # xs'" and p: "path (nextp s) new xs'"
    using D(2) one(2) old new by (cases xs) auto
  have N: "set xs' \<subseteq> N" using partitioned_nodes(1) [OF D(3)] xs by auto
  have al: "aligned new" using p D(1) N by (cases xs') auto
  have "stack_inv N s' xs'"
  proof (rule stack_invI)
    show "\<forall>n\<in>N. aligned n \<and> n \<noteq> 0" by (rule D(1))
    show "path (nextp s') (doGetUnlocked (m_head s')) xs'" using p al by (simp add: s')
    show "partitioned N s' xs'"
      by (rule partitioned_pop [OF D(3) [unfolded xs], of s' t]) (auto simp: s' t)
    show "lock_ok s'" using al one(3) by (simp add: lock_ok_def s')
    show "pc_ok s' (pcs s' u)" for u
      using D(5) [of u] one(3) [of u] pc_ok_head [of "pcs s u" s' s] by (simp add: s')
  qed
  with xs show ?thesis by blast
qed

lemma partitioned_move:
  assumes "partitioned N s xs" and "held s' = held s"
    and "owned s' t \<inter> set (in_flight (pcs s' t)) = {}"
    and "\<And>u. u \<noteq> t \<Longrightarrow> owned s' u = owned s u \<and> pcs s' u = pcs s u"
  shows "partitioned N s' xs"
  using assms unfolding partitioned_def
  by (intro conjI allI impI) (simp_all, metis)

lemma inv_push_call:
  assumes I: "stack_inv N s xs" and t: "pcs s t = Idle"
    and ns: "ns \<noteq> []" "distinct ns" "set ns \<subseteq> owned s t" "linked (nextp s) ns"
    and s': "s' = goto t (PushLoad ns) (s\<lparr>owned := (owned s)(t := owned s t - set ns)\<rparr>)"
  shows "stack_inv N s' xs"
proof (rule stack_invI)
  note D = stack_invD [OF I]
  show "\<forall>n\<in>N. aligned n \<and> n \<noteq> 0" by (rule D(1))
  show "path (nextp s') (doGetUnlocked (m_head s')) xs" using D(2) by (simp add: s')
  have "held s' = held s" using ns(3) t by (auto simp: held_def s' fun_eq_iff)
  then show "partitioned N s' xs"
    by (rule partitioned_move [OF D(3), of _ t]) (auto simp: s')
  show "lock_ok s'" using D(4) t by (subst lock_ok_cong [of _ s]) (auto simp: s')
  show "pc_ok s' (pcs s' u)" for u
    using D(5) [of u] ns pc_ok_cong [of s' s "pcs s u"] by (simp add: s')
qed

lemma partitioned_push:
  assumes "partitioned N s xs" and "in_flight (pcs s t) = ns" "distinct ns"
    and "owned s' = owned s" "in_flight (pcs s' t) = []"
    and "\<And>u. u \<noteq> t \<Longrightarrow> pcs s' u = pcs s u"
  shows "partitioned N s' (ns @ xs)"
proof -
  have h: "held s' u = (if u = t then held s u - set ns else held s u)" for u
    using assms by (auto simp: held_def partitioned_def)
  have ns: "set ns \<subseteq> held s t" using assms(2) by (simp add: held_def)
  have n: "set ns \<inter> held s u = {}" if "u \<noteq> t" for u
    using assms(1) ns that by (fastforce simp: partitioned_def)
  have "set (ns @ xs) \<union> (\<Union>u. held s' u) = set xs \<union> (\<Union>u. held s u)"
    using ns by (auto simp: h split: if_splits)
  moreover have "set (ns @ xs) \<inter> held s' u = {} \<and> owned s' u \<inter> set (in_flight (pcs s' u)) = {}" for u
    using assms n [of u] by (cases "u = t") (auto simp: h partitioned_def)
  moreover have "distinct (ns @ xs)" using assms(1,3) ns by (auto simp: partitioned_def)
  moreover have "held s' u \<inter> held s' v = {}" if "u \<noteq> v" for u v
    using that partitioned_exclusive [OF assms(1)] by (auto simp: h split: if_splits)
  ultimately show ?thesis using assms(1) unfolding partitioned_def by auto
qed

lemma inv_push_swing:
  assumes I: "stack_inv N s xs" and t: "pcs s t = PushSwing ns old" and old: "m_head s = old"
    and s': "s' = goto t Idle (s\<lparr>m_head := hd ns\<rparr>)"
  shows "stack_inv N s' (ns @ xs)"
proof (rule stack_invI)
  note D = stack_invD [OF I]
  have ok: "ns \<noteq> []" "distinct ns" "linked (nextp s) ns" "aligned old" "nextp s (last ns) = old"
    using D(5) [of t] t by auto
  note nh = no_holder [OF I, unfolded old, OF ok(4)]
  have "held s t \<subseteq> N" using partitioned_nodes(2) [OF D(3)] .
  then have N: "set ns \<subseteq> N" by (simp add: held_def t)
  then have hd: "aligned (hd ns)" using D(1) ok(1) by (simp add: subset_iff)
  have nz: "0 \<notin> set ns" using N D(1) by auto
  show "\<forall>n\<in>N. aligned n \<and> n \<noteq> 0" by (rule D(1))
  have "path (nextp s) old xs" using D(2) old ok(4) by simp
  with path_append [OF ok(3,1) nz] ok(5) hd
  show "path (nextp s') (doGetUnlocked (m_head s')) (ns @ xs)" by (simp add: s')
  show "partitioned N s' (ns @ xs)"
    by (rule partitioned_push [OF D(3) _ ok(2), of t]) (auto simp: s' t)
  show "lock_ok s'" using hd nh by (simp add: lock_ok_def s')
  show "pc_ok s' (pcs s' u)" for u
    using D(5) [of u] pc_ok_head [OF nh [of u], of s'] by (simp add: s')
qed

lemma step_simulates:
  assumes "stack_inv N s xs" "lstep t s l s'"
  shows "\<exists>xs'. stack_inv N s' xs' \<and> spec_step xs l = Some xs'"
  using assms(2)
proof cases
  case (relink p q)
  have "s' = goto t Idle (s\<lparr>nextp := (nextp s)(p := q)\<rparr>)"
    using relink by (simp add: goto_same)
  moreover have "p \<in> held s t" using relink by (simp add: held_def)
  ultimately show ?thesis using relink inv_set_next [OF assms(1), of p t s' Idle q] by auto
next
  case (pop_empty)
  then have "xs = []" using stack_invD(2) [OF assms(1)] by simp
  with pop_empty inv_goto [OF assms(1), of Idle t] show ?thesis by auto
next
  case (pop_lock h)
  with inv_pop_lock [OF assms(1)] show ?thesis by auto
next
  case (pop_swing old new)
  with inv_pop_swing [OF assms(1), of t old new s'] show ?thesis by auto
next
  case (push_call ns)
  with inv_push_call [OF assms(1)] show ?thesis by auto
next
  case (push_link ns old)
  have "last ns \<in> held s t" and "pc_ok s' (PushSwing ns old)"
    using stack_invD(5) [OF assms(1), of t] push_link
    by (auto simp: held_def linked_update_last)
  with inv_set_next [OF assms(1), of "last ns" t s' "PushSwing ns old" old] push_link
  show ?thesis by auto
next
  case (push_swing ns old)
  with inv_push_swing [OF assms(1)] show ?thesis by auto
qed (use inv_goto [OF assms(1), of _ t] stack_invD(5) [OF assms(1), of t] in \<open>auto\<close>)

lemma run_simulates:
  assumes "run T s ls s'" "stack_inv N s xs"
  shows "\<exists>xs'. stack_inv N s' xs' \<and> spec_run xs ls = Some xs'"
  using assms
proof (induction rule: run.induct)
  case (run_snoc T s ls s' t l s'')
  then obtain ys where "stack_inv N s' ys" "spec_run xs ls = Some ys" by blast
  with step_simulates [OF this(1) run_snoc.hyps(3)] show ?case by (auto simp: spec_run_snoc)
qed auto

lemma reachable_inv:
  assumes "initial N s0" "run T s0 ls s"
  obtains xs where "stack_inv N s xs" "spec_run [] ls = Some xs"
  using run_simulates [OF assms(2) initial_inv [OF assms(1)]] by blast

text \<open>
  Property C1: the stack is linearizable. However the threads interleave and whichever
  compare-exchanges fail, the operations completed so far, in the order of their last atomic
  access, are a run of a sequential stack that starts empty (every pop returned the top of that
  stack, or null when it was empty), and the chain at the head is exactly its content.
\<close>

theorem stack_linearizable:
  assumes "initial N s0" "run T s0 ls s"
  shows "\<exists>xs. spec_run [] ls = Some xs \<and> path (nextp s) (doGetUnlocked (m_head s)) xs"
  using reachable_inv [OF assms] stack_invD(2) by metis

text \<open>A run with two threads: thread 0 pushes node 16, thread 1 pops it.\<close>

definition demo_start :: stack_state where
  "demo_start = \<lparr>m_head = 0, nextp = (\<lambda>_. 0), pcs = (\<lambda>_. Idle),
     owned = (\<lambda>t. if t = 0 then {16} else {})\<rparr>"

lemma demo_initial: "initial {16} demo_start"
  by (auto simp: initial_def demo_start_def aligned_def)

lemma run_append: "run T s ls s' \<Longrightarrow> t \<in> T \<Longrightarrow> lstep t s' l s'' \<Longrightarrow> ms = ls @ [l] \<Longrightarrow> run T s ms s''"
  using run_snoc by blast

definition demo_pushed :: stack_state where
  "demo_pushed = \<lparr>m_head = 16, nextp = (\<lambda>_. 0), pcs = (\<lambda>_. Idle), owned = (\<lambda>_. {})\<rparr>"

lemma demo_push: "run UNIV demo_start [Tau, Tau, Tau, Pushed 0 [16]] demo_pushed"
proof -
  define s1 where "s1 = goto 0 (PushLoad [16]) (demo_start\<lparr>owned := (\<lambda>_. {})\<rparr>)"
  define s2 where "s2 = goto 0 (PushLink [16] 0) s1"
  define s3 where "s3 = goto 0 (PushSwing [16] 0) (s2\<lparr>nextp := (nextp s2)(16 := 0)\<rparr>)"
  have "lstep 0 demo_start Tau s1"
    using push_call [of demo_start 0 "[16]"]
    by (simp add: s1_def demo_start_def fun_upd_def if_distrib cong: if_cong)
  moreover have "lstep 0 s1 Tau s2"
    using push_load [of s1 0 "[16]"] by (simp add: s2_def s1_def demo_start_def)
  moreover have "lstep 0 s2 Tau s3"
    using push_link [of s2 0 "[16]" 0] by (simp add: s3_def s2_def)
  moreover have "lstep 0 s3 (Pushed 0 [16]) demo_pushed"
    using push_swing [of s3 0 "[16]" 0]
    by (simp add: s3_def s2_def s1_def demo_start_def demo_pushed_def goto_def fun_upd_def
        cong: if_cong)
  ultimately show ?thesis
    by (intro run_append [OF run_append [OF run_append [OF run_append [OF run_nil]]]]) auto
qed

text \<open>Once a node is at the head of an unlocked stack, one thread alone can pop it.\<close>

lemma solo_pop:
  assumes "pcs s t = Idle" "aligned (m_head s)" "m_head s \<noteq> 0"
  shows "run {t} s [Tau, Tau, Tau, Tau, Tau, Popped t (Some (m_head s))]
    (goto t Idle (s\<lparr>m_head := nextp s (m_head s),
       owned := (owned s)(t := insert (m_head s) (owned s t))\<rparr>))"
proof -
  define s1 where "s1 = goto t PopLoad s"
  define s2 where "s2 = goto t (PopLock (m_head s)) s1"
  define s3 where "s3 = goto t PopReload (s2\<lparr>m_head := doGetLocked (m_head s)\<rparr>)"
  define s4 where "s4 = goto t (PopNext (doGetLocked (m_head s))) s3"
  define s5 where "s5 = goto t (PopSwing (doGetLocked (m_head s)) (nextp s (m_head s))) s4"
  note defs = s1_def s2_def s3_def s4_def s5_def
  have "lstep t s Tau s1" using pop_call [of s t] assms by (simp add: defs)
  moreover have "lstep t s1 Tau s2" using pop_load [of s1 t] assms by (simp add: defs)
  moreover have "lstep t s2 Tau s3" using pop_lock [of s2 t] assms by (simp add: defs)
  moreover have "lstep t s3 Tau s4" using pop_reload [of s3 t] by (simp add: defs)
  moreover have "lstep t s4 Tau s5" using pop_next [of s4 t] assms by (simp add: defs)
  moreover have "lstep t s5 (Popped t (Some (m_head s)))
      (goto t Idle (s\<lparr>m_head := nextp s (m_head s),
         owned := (owned s)(t := insert (m_head s) (owned s t))\<rparr>))"
    using pop_swing [of s5 t] assms by (simp add: defs goto_def)
  ultimately show ?thesis
    by (intro run_append [OF run_append [OF run_append [OF run_append
            [OF run_append [OF run_append [OF run_nil]]]]]]) auto
qed

lemma run_trans: "run T s' ms s'' \<Longrightarrow> run T s ls s' \<Longrightarrow> run T s (ls @ ms) s''"
proof (induction rule: run.induct)
  case (run_snoc T s' ms u t l v)
  then show ?case using run.run_snoc [of T s "ls @ ms" u t l v] by simp
qed auto

lemma run_mono: "run T s ls s' \<Longrightarrow> T \<subseteq> T' \<Longrightarrow> run T' s ls s'"
  by (induction rule: run.induct) (auto intro: run.intros)

lemma demo_push_pop:
  "\<exists>s. run UNIV demo_start ([Tau, Tau, Tau, Pushed 0 [16]]
      @ [Tau, Tau, Tau, Tau, Tau, Popped 1 (Some 16)]) s"
proof -
  have "\<exists>s. run {1} demo_pushed [Tau, Tau, Tau, Tau, Tau, Popped 1 (Some 16)] s"
    using solo_pop [of demo_pushed 1] by (auto simp: demo_pushed_def aligned_def)
  then show ?thesis using run_trans [OF _ demo_push] run_mono by blast
qed

theorem stack_linearizable_witness:
  "\<exists>(s :: stack_state) xs. spec_run [] ([Tau, Tau, Tau, Pushed 0 [16]]
      @ [Tau, Tau, Tau, Tau, Tau, Popped 1 (Some 16)]) = Some xs
     \<and> path (nextp s) (doGetUnlocked (m_head s)) xs"
proof -
  obtain s where "run UNIV demo_start ([Tau, Tau, Tau, Pushed 0 [16]]
      @ [Tau, Tau, Tau, Tau, Tau, Popped 1 (Some 16)]) s"
    using demo_push_pop by blast
  from stack_linearizable [OF demo_initial this] show ?thesis by blast
qed

text \<open>
  Property C29: nodes are exclusive. In every reachable state each node is at exactly one place,
  in the stack once or with exactly one thread (owned, or in a chain it is pushing), nothing
  else is in the stack, and a thread about to read \<open>next\<close> of the head reads it from a node of
  the stack, never through a null or locked pointer.
\<close>

theorem stack_nodes_exclusive:
  assumes "initial N s0" "run T s0 ls s"
  shows "\<exists>xs. path (nextp s) (doGetUnlocked (m_head s)) xs \<and> distinct xs \<and> set xs \<subseteq> N
    \<and> (\<forall>n\<in>N. n \<in> set xs \<and> (\<forall>t. n \<notin> held s t) \<or> n \<notin> set xs \<and> (\<exists>!t. n \<in> held s t))
    \<and> (\<forall>t old. pcs s t = PopNext old \<longrightarrow> doGetUnlocked old \<in> set xs)"
proof -
  obtain xs where I: "stack_inv N s xs" using reachable_inv [OF assms] .
  note D = stack_invD [OF I]
  have "n \<in> set xs \<and> (\<forall>t. n \<notin> held s t) \<or> n \<notin> set xs \<and> (\<exists>!t. n \<in> held s t)" if "n \<in> N" for n
  proof (cases "n \<in> set xs")
    case False
    moreover have "n \<in> set xs \<union> (\<Union>t. held s t)" using D(3) that by (simp add: partitioned_def)
    ultimately obtain t where "n \<in> held s t" by blast
    with False partitioned_exclusive [OF D(3) this] show ?thesis by metis
  qed (use partitioned_disjoint [OF D(3)] in auto)
  moreover have "doGetUnlocked old \<in> set xs" if "pcs s t = PopNext old" for t old
    using one_holder(2) [OF I, of t] D(2) D(5) [of t] that by (cases xs) auto
  ultimately show ?thesis
    using D(2) D(3) partitioned_nodes(1) [OF D(3)] by (auto simp: partitioned_def)
qed

theorem stack_nodes_exclusive_witness:
  "\<exists>xs. path (nextp demo_pushed) (doGetUnlocked (m_head demo_pushed)) xs \<and> distinct xs
    \<and> set xs \<subseteq> {16}
    \<and> (\<forall>n\<in>{16}. n \<in> set xs \<and> (\<forall>t. n \<notin> held demo_pushed t)
         \<or> n \<notin> set xs \<and> (\<exists>!t. n \<in> held demo_pushed t))
    \<and> (\<forall>t old. pcs demo_pushed t = PopNext old \<longrightarrow> doGetUnlocked old \<in> set xs)"
  by (rule stack_nodes_exclusive [OF demo_initial demo_push])

lemma step_blocked:
  assumes I: "stack_inv N s xs" and t: "holds_lock (pcs s t)" and "u \<noteq> t" "lstep u s l s'"
  shows "l = Tau \<and> m_head s' = m_head s \<and> pcs s' t = pcs s t"
proof -
  note one = one_holder [OF I t]
  have u: "\<not> holds_lock (pcs s u)" using one(3) assms(3) by simp
  have ok: "pc_ok s (pcs s u)" using stack_invD(5) [OF I] .
  from assms(4) show ?thesis
    by cases (use one(1,2) u ok assms(3) in \<open>simp_all\<close>)
qed

text \<open>
  Property C30: the lock bit blocks. While thread \<open>t\<close> is between locking the head and swinging
  it, no run of the other threads, however long, completes a pop or a push or changes the head:
  the stack is not lock-free, every other operation waits for \<open>t\<close>.
\<close>

theorem lock_holder_blocks:
  assumes "stack_inv N s xs" "holds_lock (pcs s t)" "run (UNIV - {t}) s ls s'"
  shows "(\<forall>l\<in>set ls. l = Tau) \<and> m_head s' = m_head s \<and> pcs s' t = pcs s t"
  using assms(3,1,2)
proof (induction "UNIV - {t}" s ls s' rule: run.induct)
  case (run_snoc s ls s' u l s'')
  then obtain ys where "stack_inv N s' ys" using run_simulates by blast
  with run_snoc step_blocked [of N s' ys t u l s''] show ?case by auto
qed simp

lemma demo_locked:
  defines "s \<equiv> goto 1 PopReload (demo_pushed\<lparr>m_head := doGetLocked 16\<rparr>)"
  shows "stack_inv {16} s [16]" and "holds_lock (pcs s 1)"
    and "run (UNIV - {1}) s [Tau, Tau, Tau] (goto 0 PopLoad s)"
proof -
  have a: "aligned 16" by (simp add: aligned_def)
  show "stack_inv {16} s [16]" "holds_lock (pcs s 1)"
    by (auto simp: s_def demo_pushed_def stack_inv_def partitioned_def lock_ok_def held_def a
        split: if_splits)
  have h: "doGetUnlocked (m_head s) = 16" by (simp add: s_def a)
  have i: "pcs s 0 = Idle" by (simp add: s_def demo_pushed_def)
  have a: "lstep 0 s Tau (goto 0 PopLoad s)" using pop_call [of s 0] i by simp
  have b: "lstep 0 (goto 0 PopLoad s) Tau (goto 0 (PopLock 16) (goto 0 PopLoad s))"
    using pop_load [of "goto 0 PopLoad s" 0] h by simp
  have c: "lstep 0 (goto 0 (PopLock 16) (goto 0 PopLoad s)) Tau (goto 0 PopLoad s)"
    using pop_lock_fail [of "goto 0 (PopLock 16) (goto 0 PopLoad s)" 0 16] by (simp add: goto_def)
  show "run (UNIV - {1}) s [Tau, Tau, Tau] (goto 0 PopLoad s)"
    by (rule run_append [OF run_append [OF run_append [OF run_nil _ a refl] _ b refl] _ c]) auto
qed

theorem lock_holder_blocks_witness:
  "\<exists>(s :: stack_state) s'. run (UNIV - {1}) s [Tau, Tau, Tau] s' \<and> (\<forall>l\<in>set [Tau, Tau, Tau]. l = Tau)
     \<and> m_head s' = m_head s \<and> pcs s' 1 = pcs s 1"
  using lock_holder_blocks [OF demo_locked] demo_locked(3) by metis

section \<open>The operations one at a time\<close>

text \<open>
  The same operations when no other thread interferes and no exchange fails, on the head and
  the \<open>next\<close> fields: \<open>heap\<close> is the pair of both. Null is address 0.
\<close>

type_synonym heap = "ptr \<times> (ptr \<Rightarrow> ptr)"

definition stack_pop :: "heap \<Rightarrow> ptr \<times> heap" where
  "stack_pop = (\<lambda>(hd, nx). let h = doGetUnlocked hd in
     if h = 0 then (0, (hd, nx)) else (h, (nx h, nx)))"

definition stack_pushStack :: "ptr \<Rightarrow> ptr \<Rightarrow> heap \<Rightarrow> heap" where
  "stack_pushStack newHead newLast = (\<lambda>(hd, nx). (newHead, nx(newLast := doGetUnlocked hd)))"

definition stack_push :: "ptr \<Rightarrow> heap \<Rightarrow> heap" where
  "stack_push newNode = (\<lambda>(hd, nx). (newNode, nx(newNode := doGetUnlocked hd)))"

definition stack_top :: "heap \<Rightarrow> ptr" where
  "stack_top = (\<lambda>(hd, nx). doGetUnlocked hd)"

definition stack_release :: "heap \<Rightarrow> ptr \<times> heap" where
  "stack_release = (\<lambda>(hd, nx). (hd, (0, nx)))"

definition stack_clear :: "heap \<Rightarrow> heap" where
  "stack_clear = (\<lambda>(hd, nx). (0, nx))"

definition stack_empty :: "heap \<Rightarrow> bool" where
  "stack_empty = (\<lambda>(hd, nx). hd = 0)"

definition node :: "ptr \<Rightarrow> bool" where
  "node n \<longleftrightarrow> aligned n \<and> n \<noteq> 0"

definition holds_list :: "heap \<Rightarrow> ptr list \<Rightarrow> bool" where
  "holds_list = (\<lambda>(hd, nx) xs. aligned hd \<and> path nx hd xs \<and> distinct xs \<and> (\<forall>x\<in>set xs. node x))"

text \<open>What a user of the stack relies on, for any representation of the list of nodes.\<close>

locale node_stack =
  fixes rep :: "'h \<Rightarrow> ptr list \<Rightarrow> bool"
    and pop :: "'h \<Rightarrow> ptr \<times> 'h"
    and push :: "ptr \<Rightarrow> 'h \<Rightarrow> 'h"
    and top :: "'h \<Rightarrow> ptr"
  assumes pop_nil: "rep h [] \<Longrightarrow> pop h = (0, h)"
    and pop_cons: "rep h (x # xs) \<Longrightarrow> fst (pop h) = x \<and> rep (snd (pop h)) xs"
    and push_rep: "rep h xs \<Longrightarrow> node n \<Longrightarrow> n \<notin> set xs \<Longrightarrow> rep (push n h) (n # xs)"
    and top_rep: "rep h xs \<Longrightarrow> top h = (case xs of [] \<Rightarrow> 0 | x # _ \<Rightarrow> x)"

fun pop_n :: "('h \<Rightarrow> ptr \<times> 'h) \<Rightarrow> nat \<Rightarrow> 'h \<Rightarrow> ptr list \<times> 'h" where
  "pop_n pop 0 h = ([], h)"
| "pop_n pop (Suc n) h =
     (let (x, h') = pop h; (xs, h'') = pop_n pop n h' in (x # xs, h''))"

context node_stack
begin

lemma push_all:
  assumes "rep h xs" "\<forall>n\<in>set ns. node n" "distinct ns" "set ns \<inter> set xs = {}"
  shows "rep (fold push ns h) (rev ns @ xs)"
  using assms
proof (induction ns arbitrary: h xs)
  case (Cons n ns)
  then have "rep (push n h) (n # xs)" by (simp add: push_rep)
  then show ?case using Cons.IH [of "push n h" "n # xs"] Cons.prems by simp
qed simp

lemma pop_all:
  assumes "rep h (ns @ xs)"
  shows "fst (pop_n pop (length ns) h) = ns \<and> rep (snd (pop_n pop (length ns) h)) xs"
  using assms
proof (induction ns arbitrary: h)
  case (Cons n ns)
  then have "fst (pop h) = n" "rep (snd (pop h)) (ns @ xs)"
    using pop_cons [of h n "ns @ xs"] by auto
  with Cons.IH [of "snd (pop h)"] show ?case by (auto simp: case_prod_beta Let_def)
qed simp

lemma push_pop_lifo:
  assumes "rep h xs" "\<forall>n\<in>set ns. node n" "distinct ns" "set ns \<inter> set xs = {}"
  shows "fst (pop_n pop (length ns) (fold push ns h)) = rev ns"
    and "rep (snd (pop_n pop (length ns) (fold push ns h))) xs"
  using pop_all [OF push_all [OF assms]] by simp_all

end

lemma stack_pop_cons:
  "holds_list h (x # xs) \<Longrightarrow> fst (stack_pop h) = x \<and> holds_list (snd (stack_pop h)) xs"
  by (cases h; cases xs) (auto simp: stack_pop_def holds_list_def node_def Let_def)

lemma stack_push_rep:
  "holds_list h xs \<Longrightarrow> node n \<Longrightarrow> n \<notin> set xs \<Longrightarrow> holds_list (stack_push n h) (n # xs)"
  by (cases h) (auto simp: stack_push_def holds_list_def node_def)

interpretation seq_stack: node_stack holds_list stack_pop stack_push stack_top
proof unfold_locales
  show "holds_list h [] \<Longrightarrow> stack_pop h = (0, h)" for h
    by (cases h) (auto simp: stack_pop_def holds_list_def)
  show "holds_list h xs \<Longrightarrow> stack_top h = (case xs of [] \<Rightarrow> 0 | x # _ \<Rightarrow> x)" for h xs
    by (cases h) (auto simp: stack_top_def holds_list_def split: list.split)
qed (simp_all add: stack_pop_cons stack_push_rep)

lemma stack_pushStack_rep:
  assumes "holds_list (hd0, nx) xs" "ns \<noteq> []" "linked nx ns" "\<forall>n\<in>set ns. node n" "distinct ns"
    and "set ns \<inter> set xs = {}"
  shows "holds_list (stack_pushStack (hd ns) (last ns) (hd0, nx)) (ns @ xs)"
proof -
  have l: "last ns \<notin> set xs" using last_in_set [OF assms(2)] assms(6) by auto
  have "path (nx(last ns := hd0)) (hd ns) (ns @ xs)"
    using assms l by (intro path_append linked_update_last) (auto simp: holds_list_def node_def)
  then show ?thesis
    using assms by (auto simp: stack_pushStack_def holds_list_def node_def)
qed

text \<open>
  Used by one thread the stack is last-in first-out. Pushing the nodes \<open>ns\<close> one by
  one on a stack that holds \<open>xs\<close> and popping as many returns them in reverse, leaves \<open>xs\<close>, and
  one more pop on an empty rest returns null.
\<close>

theorem sequential_stack_lifo:
  assumes "holds_list h xs" "\<forall>n\<in>set ns. node n" "distinct ns" "set ns \<inter> set xs = {}"
  shows "fst (pop_n stack_pop (length ns) (fold stack_push ns h)) = rev ns
    \<and> holds_list (snd (pop_n stack_pop (length ns) (fold stack_push ns h))) xs
    \<and> (xs = [] \<longrightarrow> fst (stack_pop (snd (pop_n stack_pop (length ns) (fold stack_push ns h)))) = 0)"
  using seq_stack.push_pop_lifo [OF assms] by (auto dest!: seq_stack.pop_nil)

theorem sequential_stack_lifo_witness:
  "fst (pop_n stack_pop 2 (fold stack_push [16, 32] (0, \<lambda>_. 0))) = [32, 16]"
proof -
  have "holds_list (0, \<lambda>_. 0) []" "\<forall>n\<in>set [16, 32]. node n" "distinct [16, 32 :: ptr]"
    by (auto simp: holds_list_def node_def aligned_def)
  from sequential_stack_lifo [OF this] show ?thesis by (simp add: numeral_2_eq_2)
qed

text \<open>
  \<open>release\<close> is only right when no pop is under way. On an unlocked stack it returns
  the head of exactly the stored nodes; while a thread holds the lock it returns the pointer with
  the lock bit still set, and the popping thread goes on to read \<open>next\<close> through null.
\<close>

theorem release_needs_quiescence:
  assumes "stack_inv N s xs"
  shows "((\<forall>t. \<not> holds_lock (pcs s t)) \<longrightarrow> path (nextp s) (fst (stack_release (m_head s, nextp s))) xs)
    \<and> (holds_lock (pcs s t) \<longrightarrow> \<not> aligned (fst (stack_release (m_head s, nextp s)))
       \<and> (pcs s t = PopReload \<longrightarrow>
           (let s' = s\<lparr>m_head := fst (snd (stack_release (m_head s, nextp s)))\<rparr>
            in lstep t s' Tau (goto t (PopNext 0) s') \<and> doGetUnlocked 0 = 0)))"
proof -
  have "aligned (m_head s)" if "\<forall>t. \<not> holds_lock (pcs s t)"
    using stack_invD(4) [OF assms] that by (auto simp: lock_ok_def split: if_splits)
  moreover have "lstep t (s\<lparr>m_head := 0\<rparr>) Tau (goto t (PopNext 0) (s\<lparr>m_head := 0\<rparr>))"
    if "pcs s t = PopReload"
    using pop_reload [of "s\<lparr>m_head := 0\<rparr>" t] that by simp
  ultimately show ?thesis
    using stack_invD(2) [OF assms] one_holder(1) [OF assms]
    by (auto simp: stack_release_def Let_def)
qed

theorem release_needs_quiescence_witness:
  "\<exists>s. holds_lock (pcs s 1) \<and> \<not> aligned (fst (stack_release (m_head (s :: stack_state), nextp s)))"
  using release_needs_quiescence [OF demo_locked(1)] demo_locked(2) by metis

end
