(* ===== verification/Handle_Manager.thy ===== *)
theory Handle_Manager
  imports Lock_Free_Stack
begin

text \<open>
  The handle manager of \<open>src/nvcv/src/priv/HandleManager.hpp\<close> and \<open>HandleManagerImpl.hpp\<close>: pools
  of reference-counted resources, handed out as handles that carry the resource address and, in
  the four lowest bits, the generation of its object. The free list is the list that
  \<open>Lock_Free_Stack\<close> shows its stack to implement; the operations are modelled one at a time.

  Memory is read as a resource at any address (\<open>res\<close>), since the code does so before it knows
  that an address is one; the invariant speaks of the addresses of the pools only. The address
  of a new pool, which the allocator chooses, and the outcome of the object's constructor are
  arguments of the operations.
\<close>

section \<open>Resources and handles\<close>

type_synonym handle = "64 word"

record 'a resource =
  generation :: "4 word"
  m_ptrObj :: "'a option"
  m_refCount :: int

definition live :: "'a resource \<Rightarrow> bool" where
  "live r \<longleftrightarrow> m_ptrObj r \<noteq> None"

definition fresh_resource :: "'a resource" where
  "fresh_resource = \<lparr>generation = 0, m_ptrObj = None, m_refCount = 0\<rparr>"

definition res_decRef :: "'a resource \<Rightarrow> int \<times> 'a resource" where
  "res_decRef r = (wrap32 (m_refCount r - 1), r\<lparr>m_refCount := wrap32 (m_refCount r - 1)\<rparr>)"

definition res_incRef :: "'a resource \<Rightarrow> int \<times> 'a resource" where
  "res_incRef r = (wrap32 (m_refCount r + 1), r\<lparr>m_refCount := wrap32 (m_refCount r + 1)\<rparr>)"

definition constructObject :: "'a \<Rightarrow> 'a resource \<Rightarrow> 'a resource" where
  "constructObject x r = r\<lparr>m_ptrObj := Some x, generation := generation r + 1\<rparr>"

definition destroyObject :: "'a resource \<Rightarrow> 'a resource" where
  "destroyObject r = r\<lparr>m_ptrObj := None\<rparr>"

text \<open>
  The manager. \<open>resourceStack\<close> lists the pools as first address and number of resources,
  \<open>rsize\<close> is \<open>sizeof(Resource)\<close>.
\<close>

record 'a manager =
  res :: "ptr \<Rightarrow> 'a resource"
  resourceStack :: "(ptr \<times> nat) list"
  freeResources :: "ptr list"
  hasFixedSize :: bool
  totalCapacity :: int
  usedCount :: int
  rsize :: nat

definition set_res :: "ptr \<Rightarrow> 'a resource \<Rightarrow> 'a manager \<Rightarrow> 'a manager" where
  "set_res p r m = m\<lparr>res := (res m)(p := r)\<rparr>"

definition doGetHandleGeneration :: "handle \<Rightarrow> 8 word" where
  "doGetHandleGeneration h = ucast (h AND 15)"

definition doGetHandleFromResource :: "'a manager \<Rightarrow> ptr \<Rightarrow> handle" where
  "doGetHandleFromResource m r = (if r \<noteq> 0 then r OR ucast (generation (res m r)) else 0)"

definition doGetResourceFromHandle :: "handle \<Rightarrow> ptr" where
  "doGetResourceFromHandle h = (if h \<noteq> 0 then h AND -16 else 0)"

definition isManagedResource :: "'a manager \<Rightarrow> ptr \<Rightarrow> bool" where
  "isManagedResource m r =
     list_ex (\<lambda>(b, n). b \<le> r \<and> r < b + word_of_nat (n * rsize m)) (resourceStack m)"

definition getValidResource :: "'a manager \<Rightarrow> handle \<Rightarrow> ptr option" where
  "getValidResource m h =
     (if h = 0 then None
      else let r = doGetResourceFromHandle h in
        if r \<noteq> 0 \<and> isManagedResource m r \<and> live (res m r)
           \<and> ucast (generation (res m r)) = doGetHandleGeneration h
        then Some r else None)"

definition validate :: "'a manager \<Rightarrow> handle \<Rightarrow> 'a option" where
  "validate m h = (case getValidResource m h of None \<Rightarrow> None | Some r \<Rightarrow> m_ptrObj (res m r))"

section \<open>Operations\<close>

definition pool_nodes :: "nat \<Rightarrow> ptr \<times> nat \<Rightarrow> ptr list" where
  "pool_nodes sz = (\<lambda>(b, n). map (\<lambda>i. b + word_of_nat (i * sz)) [0..<n])"

definition allocate :: "ptr \<Rightarrow> nat \<Rightarrow> 'a manager \<Rightarrow> 'a manager" where
  "allocate base count m =
     (let data = pool_nodes (rsize m) (base, count) in
      m\<lparr>resourceStack := (base, count) # resourceStack m,
        res := (\<lambda>p. if p \<in> set data then fresh_resource else res m p),
        freeResources := data @ freeResources m\<rparr>)"

definition doAllocate :: "ptr \<Rightarrow> nat \<Rightarrow> 'a manager \<Rightarrow> 'a manager result" where
  "doAllocate base count m = nvcv_assert (0 < count) (Inr (allocate base count m))"

definition kMinHandles :: int where
  "kMinHandles = 1024"

definition to_size_t :: "int \<Rightarrow> nat" where
  "to_size_t n = nat (n mod 2 ^ 64)"

definition doGrow :: "ptr \<Rightarrow> 'a manager \<Rightarrow> 'a manager result" where
  "doGrow base m =
     throw_if (hasFixedSize m) NVCV_ERROR_OUT_OF_MEMORY
       (if freeResources m = []
        then doAllocate base
          (to_size_t (if totalCapacity m \<noteq> 0 then totalCapacity m else kMinHandles)) m
        else Inr m)"

lemma doGrow_free: "doGrow base m = Inr m' \<Longrightarrow> freeResources m' \<noteq> []"
  by (auto simp: doGrow_def doAllocate_def allocate_def pool_nodes_def Let_def result_simps
      split: if_splits)

function doFetchFreeResource :: "ptr \<Rightarrow> 'a manager \<Rightarrow> ptr result \<times> 'a manager" where
  "doFetchFreeResource base m =
     (case freeResources m of
        r # rest \<Rightarrow>
          (let (n, rr) = res_incRef (res m r);
               m' = set_res r rr (m\<lparr>freeResources := rest, usedCount := usedCount m + 1\<rparr>)
           in (nvcv_assert (n = 1) (Inr r), m'))
      | [] \<Rightarrow>
          (case doGrow base m of
             Inl e \<Rightarrow> (Inl e, m)
           | Inr m' \<Rightarrow> doFetchFreeResource base m'))"
  by pat_completeness auto

termination
  by (relation "measure (\<lambda>(b, m). if freeResources m = [] then 1 else 0)")
    (auto dest: doGrow_free)

definition doReturnResource :: "ptr \<Rightarrow> 'a manager \<Rightarrow> 'a manager" where
  "doReturnResource r m =
     m\<lparr>freeResources := r # freeResources m, usedCount := usedCount m - 1\<rparr>"

text \<open>An exception of the constructor returns the resource and is passed on.\<close>

definition create :: "ptr \<Rightarrow> 'a result \<Rightarrow> 'a manager \<Rightarrow> (handle \<times> 'a) result \<times> 'a manager" where
  "create base ctor m =
     (case doFetchFreeResource base m of
        (Inl e, m1) \<Rightarrow> (Inl e, m1)
      | (Inr r, m1) \<Rightarrow>
          if live (res m1 r) then (Inl AssertFailed, m1)
          else (case ctor of
             Inr x \<Rightarrow>
               (let m2 = set_res r (constructObject x (res m1 r)) m1
                in (Inr (doGetHandleFromResource m2 r, x), m2))
           | Inl e \<Rightarrow>
               (Inl e, doReturnResource r (set_res r (snd (res_decRef (res m1 r))) m1))))"

definition decRef :: "handle \<Rightarrow> 'a manager \<Rightarrow> int result \<times> 'a manager" where
  "decRef h m =
     (if h = 0 then (Inr 0, m)
      else case getValidResource m h of
        None \<Rightarrow> (Inl (Throw NVCV_ERROR_INVALID_ARGUMENT), m)
      | Some r \<Rightarrow>
          (let (ref, rr) = res_decRef (res m r) in
           if ref = 0 then (Inr ref, doReturnResource r (set_res r (destroyObject rr) m))
           else (Inr ref, set_res r rr m)))"

definition incRef :: "handle \<Rightarrow> 'a manager \<Rightarrow> int result \<times> 'a manager" where
  "incRef h m =
     (case getValidResource m h of
        None \<Rightarrow> (Inl (Throw NVCV_ERROR_INVALID_ARGUMENT), m)
      | Some r \<Rightarrow> (let (ref, rr) = res_incRef (res m r) in (Inr ref, set_res r rr m)))"

definition refCount :: "handle \<Rightarrow> 'a manager \<Rightarrow> int result" where
  "refCount h m =
     (case getValidResource m h of
        None \<Rightarrow> Inl (Throw NVCV_ERROR_INVALID_ARGUMENT)
      | Some r \<Rightarrow> Inr (m_refCount (res m r)))"

text \<open>
  \<open>clear\<close> reports leaks as the environment variable \<open>NVCV_LEAK_DETECTION\<close> says; unset means
  \<open>warn\<close> in a debug build and no report otherwise. Any value but \<open>warn\<close> ends in \<open>abort\<close>.
\<close>

definition clear_manager :: "string option \<Rightarrow> 'a manager \<Rightarrow> unit result \<times> 'a manager" where
  "clear_manager leakDetection m =
     (if usedCount m > 0 \<and> leakDetection \<noteq> None \<and> leakDetection \<noteq> Some ''warn''
      then (Inl AssertFailed, m)
      else (Inr (), m\<lparr>freeResources := [], resourceStack := []\<rparr>))"

definition with_result :: "'a manager result \<Rightarrow> 'a manager \<Rightarrow> unit result \<times> 'a manager" where
  "with_result r m = (case r of Inl e \<Rightarrow> (Inl e, m) | Inr m' \<Rightarrow> (Inr (), m'))"

definition setFixedSize :: "string option \<Rightarrow> ptr \<Rightarrow> int \<Rightarrow> 'a manager \<Rightarrow> unit result \<times> 'a manager" where
  "setFixedSize leakDetection base maxSize m =
     (if usedCount m > 0 then (Inl (Throw NVCV_ERROR_INVALID_OPERATION), m)
      else if totalCapacity m \<ge> maxSize then (Inr (), m)
      else case clear_manager leakDetection m of
        (Inl e, m1) \<Rightarrow> (Inl e, m1)
      | (Inr _, m1) \<Rightarrow>
          (let m2 = m1\<lparr>hasFixedSize := True\<rparr>
           in with_result (doAllocate base (to_size_t (maxSize - totalCapacity m2)) m2) m2))"

definition setDynamicSize :: "ptr \<Rightarrow> int \<Rightarrow> 'a manager \<Rightarrow> unit result \<times> 'a manager" where
  "setDynamicSize base minSize m =
     (let m1 = m\<lparr>hasFixedSize := False\<rparr> in
      if totalCapacity m1 < minSize then with_result (doAllocate base (to_size_t minSize) m1) m1
      else (Inr (), m1))"

definition new_manager :: "nat \<Rightarrow> (ptr \<Rightarrow> 'a resource) \<Rightarrow> 'a manager" where
  "new_manager sz mem = \<lparr>res = mem, resourceStack = [], freeResources = [],
     hasFixedSize = False, totalCapacity = 0, usedCount = 0, rsize = sz\<rparr>"

declare doFetchFreeResource.simps [simp del]

section \<open>Handles encode resource and generation\<close>

lemma word_minus_16: "(- 16 :: 64 word) = NOT (mask 4)"
  by (simp add: mask_eq_exp_minus_1)

lemma word_15: "(15 :: 64 word) = mask 4"
  by (simp add: mask_eq_exp_minus_1)

lemma bit_ucast4: "bit (ucast (g :: 4 word) :: 64 word) n \<longleftrightarrow> n < 4 \<and> bit g n"
proof -
  have "bit g n \<Longrightarrow> n < 4" using bit_imp_le_length [of g n] by simp
  moreover have "bit (ucast g :: 64 word) n \<longleftrightarrow> n < 64 \<and> bit g n"
    by (simp add: bit_ucast_iff)
  ultimately show ?thesis by (cases "bit g n") simp_all
qed

lemma bit_mask4: "bit (mask 4 :: 64 word) n \<longleftrightarrow> n < 4"
  unfolding bit_mask_iff by simp linarith

definition aligned16 :: "ptr \<Rightarrow> bool" where
  "aligned16 p \<longleftrightarrow> p AND mask 4 = 0"

lemma aligned16_bit: 
  assumes "aligned16 p" "n < 4"
  shows "\<not> bit p n"
proof -
  have "\<not> bit (p AND mask 4) n" using assms(1) unfolding aligned16_def by simp
  with assms(2) show ?thesis unfolding bit_and_iff bit_mask4 by simp
qed

lemma handle_resource:
  assumes "aligned16 p"
  shows "(p OR ucast (g :: 4 word)) AND - 16 = p"
proof (rule bit_eqI)
  fix n assume "possible_bit TYPE(64 word) n"
  then have n: "n < 64" by simp
  have "bit ((p OR ucast g) AND NOT (mask 4)) n \<longleftrightarrow> bit p n"
    using aligned16_bit [OF assms, of n] n
    unfolding bit_and_iff bit_or_iff bit_not_iff bit_mask4 bit_ucast4 by auto
  then show "bit ((p OR ucast g) AND - 16) n \<longleftrightarrow> bit p n" by (simp only: word_minus_16)
qed

lemma handle_generation:
  assumes "aligned16 p"
  shows "(p OR ucast (g :: 4 word)) AND 15 = ucast g"
proof (rule bit_eqI)
  fix n assume "possible_bit TYPE(64 word) n"
  have "bit ((p OR ucast g) AND mask 4) n \<longleftrightarrow> bit (ucast g :: 64 word) n"
    using aligned16_bit [OF assms, of n]
    unfolding bit_and_iff bit_or_iff bit_mask4 bit_ucast4 by auto
  then show "bit ((p OR ucast g) AND 15) n \<longleftrightarrow> bit (ucast g :: 64 word) n"
    by (simp only: word_15)
qed

lemma uint_ucast_4 [simp]:
  "uint (ucast (g :: 4 word) :: 64 word) = uint g" "uint (ucast g :: 8 word) = uint g"
  by (simp_all add: uint_up_ucast is_up)

lemma ucast_4_8: "(ucast (ucast (g :: 4 word) :: 64 word) :: 8 word) = ucast g"
proof -
  have "uint g < 2 ^ 8" using uint_lt2p [of g] by simp
  then have "uint (ucast (ucast g :: 64 word) :: 8 word) = uint (ucast g :: 8 word)"
    by (simp add: unsigned_ucast_eq unsigned_take_bit_eq take_bit_int_eq_self)
  then show ?thesis by (simp only: word_uint_eq_iff)
qed

lemma ucast_4_8_inj [simp]: "(ucast (g :: 4 word) :: 8 word) = ucast g' \<longleftrightarrow> g = g'"
  by (simp add: word_uint_eq_iff)

section \<open>The invariant\<close>

text \<open>What the allocator promises of a pool: aligned, not null, not wrapping around.\<close>

fun pool_ok :: "nat \<Rightarrow> ptr \<times> nat \<Rightarrow> bool" where
  "pool_ok sz (b, n) \<longleftrightarrow> 0 < n \<and> 0 < sz \<and> 16 dvd sz \<and> b \<noteq> 0 \<and> 16 dvd uint b
     \<and> uint b + int (n * sz) < 2 ^ 64"

definition addrs :: "'a manager \<Rightarrow> ptr list" where
  "addrs m = concat (map (pool_nodes (rsize m)) (resourceStack m))"

definition fresh_pool :: "'a manager \<Rightarrow> ptr \<Rightarrow> nat \<Rightarrow> bool" where
  "fresh_pool m base n \<longleftrightarrow> pool_ok (rsize m) (base, n)
     \<and> set (pool_nodes (rsize m) (base, n)) \<inter> set (addrs m) = {}"

fun resource_ok :: "bool \<Rightarrow> 'a resource \<Rightarrow> bool" where
  "resource_ok is_free r \<longleftrightarrow>
     (if is_free then \<not> live r \<and> m_refCount r = 0
      else live r \<and> 1 \<le> m_refCount r \<and> m_refCount r < 2 ^ 31)"

definition manager_inv :: "'a manager \<Rightarrow> bool" where
  "manager_inv m \<longleftrightarrow> list_all (pool_ok (rsize m)) (resourceStack m) \<and> distinct (addrs m)
     \<and> distinct (freeResources m) \<and> set (freeResources m) \<subseteq> set (addrs m)
     \<and> (\<forall>a\<in>set (addrs m). resource_ok (a \<in> set (freeResources m)) (res m a))
     \<and> usedCount m = int (length (addrs m)) - int (length (freeResources m))
     \<and> totalCapacity m = 0"

lemma aligned16_uint: "aligned16 p \<longleftrightarrow> 16 dvd uint p"
proof -
  have "p AND mask 4 = 0 \<longleftrightarrow> uint (take_bit 4 p) = 0"
    by (simp add: take_bit_eq_mask uint_0_iff)
  also have "uint (take_bit 4 p) = uint p mod 16"
    by (simp only: unsigned_take_bit_eq take_bit_eq_mod [of 4 "uint p"]) simp
  finally show ?thesis by (simp add: aligned16_def dvd_eq_mod_eq_0)
qed

lemma uint_pool_addr:
  assumes "pool_ok sz (b, n)" "k \<le> n * sz"
  shows "uint (b + word_of_nat k) = uint b + int k"
proof -
  have lt: "uint b + int k < 2 ^ 64" using assms by (auto simp del: of_nat_mult)
  then have "int k < 2 ^ 64" using uint_ge_0 [of b] by linarith
  then have "k < 2 ^ 64" by simp
  then have "uint (word_of_nat k :: ptr) = int k"
    by (simp add: unsigned_of_nat take_bit_nat_eq_self)
  with lt show ?thesis by (simp add: uint_plus_if_size word_size)
qed

lemma pool_nodes_ok:
  assumes "pool_ok sz (b, n)" "a \<in> set (pool_nodes sz (b, n))"
  shows "aligned16 a" "a \<noteq> 0" "b \<le> a \<and> a < b + word_of_nat (n * sz)"
proof -
  obtain i where i: "i < n" "a = b + word_of_nat (i * sz)"
    using assms(2) by (auto simp: pool_nodes_def)
  have le: "i * sz < n * sz" using i assms(1) by simp
  have u: "uint a = uint b + int (i * sz)"
    using uint_pool_addr [OF assms(1), of "i * sz"] le i(2) by simp
  have "16 dvd i * sz" using assms(1) by simp
  then have "16 dvd int (i * sz)" by (metis int_dvd_int_iff of_nat_numeral)
  then show "aligned16 a" using assms(1) u by (simp add: aligned16_uint)
  have "uint b \<noteq> 0" using assms(1) by (simp add: uint_0_iff)
  then have "0 < uint b" using uint_ge_0 [of b] by linarith
  then have "0 < uint a" using u by linarith
  then show "a \<noteq> 0" by auto
  have "uint (b + word_of_nat (n * sz)) = uint b + int (n * sz)"
    by (rule uint_pool_addr [OF assms(1)]) simp
  with u le show "b \<le> a \<and> a < b + word_of_nat (n * sz)"
    by (simp add: word_le_def word_less_def del: of_nat_mult)
qed

lemma manager_invD:
  assumes "manager_inv m"
  shows "\<And>p. p \<in> set (resourceStack m) \<Longrightarrow> pool_ok (rsize m) p" "distinct (addrs m)"
    and "distinct (freeResources m)" "set (freeResources m) \<subseteq> set (addrs m)"
    and "\<And>a. a \<in> set (addrs m) \<Longrightarrow> resource_ok (a \<in> set (freeResources m)) (res m a)"
    and "usedCount m = int (length (addrs m)) - int (length (freeResources m))"
    and "totalCapacity m = 0"
  using assms by (auto simp: manager_inv_def list_all_iff)

lemma addr_ok:
  assumes "manager_inv m" "a \<in> set (addrs m)"
  shows "aligned16 a" "a \<noteq> 0" "isManagedResource m a"
proof -
  obtain b n where p: "(b, n) \<in> set (resourceStack m)" "a \<in> set (pool_nodes (rsize m) (b, n))"
    using assms(2) by (auto simp: addrs_def)
  note * = pool_nodes_ok [OF manager_invD(1) [OF assms(1) p(1)] p(2)]
  show "aligned16 a" "a \<noteq> 0" by (fact *)+
  show "isManagedResource m a" using *(3) p(1) by (auto simp: isManagedResource_def list_ex_iff)
qed

lemma pool_nodes_distinct: 
  assumes "pool_ok sz (b, n)"
  shows "distinct (pool_nodes sz (b, n))"
proof -
  have "i = j" if "i < n" "j < n" "b + word_of_nat (i * sz) = b + word_of_nat (j * sz)" for i j
  proof -
    have "i * sz \<le> n * sz" "j * sz \<le> n * sz" using that by auto
    from this [THEN uint_pool_addr [OF assms]] that(3) have "int (i * sz) = int (j * sz)"
      by (metis add_left_cancel)
    then show ?thesis using assms by simp
  qed
  then show ?thesis by (auto simp: pool_nodes_def distinct_map inj_on_def)
qed

lemma length_pool_nodes [simp]: "length (pool_nodes sz (b, n)) = n"
  by (simp add: pool_nodes_def)

section \<open>Valid handles\<close>

definition gen_of :: "handle \<Rightarrow> 4 word" where
  "gen_of h = ucast h"

text \<open>A handle whose address part is a resource of the manager.\<close>

definition proper :: "'a manager \<Rightarrow> handle \<Rightarrow> bool" where
  "proper m h \<longleftrightarrow> doGetResourceFromHandle h \<in> set (addrs m)"

lemma gen_of_handle [simp]: "aligned16 p \<Longrightarrow> gen_of (p OR ucast g) = g"
proof -
  assume p: "aligned16 p"
  have "ucast (p OR ucast g) = (ucast ((p OR ucast g) AND 15) :: 4 word)"
  proof (rule bit_eqI)
    fix n assume "possible_bit TYPE(4 word) n"
    then have n: "n < 4" by simp
    show "bit (ucast (p OR ucast g) :: 4 word) n
        \<longleftrightarrow> bit (ucast ((p OR ucast g) AND 15) :: 4 word) n"
      unfolding word_15 bit_ucast_iff bit_and_iff bit_mask4 using n by simp
  qed
  also have "\<dots> = g"
    unfolding handle_generation [OF p] by (rule bit_eqI) (simp add: bit_ucast_iff bit_ucast4)
  finally show ?thesis by (simp add: gen_of_def)
qed

lemma generation_gen_of: "doGetHandleGeneration h = ucast (gen_of h)"
proof (rule bit_eqI)
  fix n assume "possible_bit TYPE(8 word) n"
  then have n: "n < 8" by simp
  have "bit (gen_of h) n \<longleftrightarrow> n < 4 \<and> bit h n" for n
    by (auto simp: gen_of_def bit_ucast_iff)
  then show "bit (doGetHandleGeneration h) n \<longleftrightarrow> bit (ucast (gen_of h) :: 8 word) n"
    unfolding doGetHandleGeneration_def word_15 bit_ucast_iff bit_and_iff bit_mask4
    using n by auto
qed

lemma proper_addr: "manager_inv m \<Longrightarrow> a \<in> set (addrs m) \<Longrightarrow> doGetResourceFromHandle (a OR ucast (g :: 4 word)) = a"
proof -
  assume a: "manager_inv m" "a \<in> set (addrs m)"
  note k = addr_ok [OF a]
  have "a OR ucast g \<noteq> 0" using handle_resource [OF k(1), of g] k(2) by auto
  then show ?thesis using handle_resource [OF k(1), of g] by (simp add: doGetResourceFromHandle_def)
qed

lemma getValid_proper:
  assumes "manager_inv m" "proper m h"
  shows "getValidResource m h =
    (if live (res m (doGetResourceFromHandle h))
       \<and> generation (res m (doGetResourceFromHandle h)) = gen_of h
     then Some (doGetResourceFromHandle h) else None)"
proof -
  note a = addr_ok [OF assms(1), of "doGetResourceFromHandle h"]
  have "h \<noteq> 0" using a(2) assms(2) by (auto simp: proper_def doGetResourceFromHandle_def)
  then show ?thesis
    using a assms(2) by (simp add: getValidResource_def Let_def generation_gen_of proper_def)
qed

text \<open>The handles the manager has given out and not yet destroyed.\<close>

definition valid_handle :: "'a manager \<Rightarrow> handle \<Rightarrow> bool" where
  "valid_handle m h \<longleftrightarrow> proper m h \<and> getValidResource m h \<noteq> None"

definition count_of :: "'a manager \<Rightarrow> handle \<Rightarrow> int" where
  "count_of m h = m_refCount (res m (doGetResourceFromHandle h))"

lemma valid_handle_iff:
  "manager_inv m \<Longrightarrow> valid_handle m h \<longleftrightarrow> proper m h
     \<and> live (res m (doGetResourceFromHandle h))
     \<and> generation (res m (doGetResourceFromHandle h)) = gen_of h"
  by (auto simp: valid_handle_def getValid_proper split: if_splits)

lemma handle_decompose: "h \<noteq> 0 \<Longrightarrow> h = doGetResourceFromHandle h OR ucast (gen_of h)"
proof (rule bit_eqI)
  fix n assume h: "h \<noteq> 0" and "possible_bit TYPE(64 word) n"
  then have n: "n < 64" by simp
  have g: "bit (ucast (gen_of h) :: 64 word) n \<longleftrightarrow> n < 4 \<and> bit h n"
    by (auto simp: bit_ucast4 gen_of_def bit_ucast_iff)
  have d: "doGetResourceFromHandle h = h AND NOT (mask 4)"
    using h by (simp only: doGetResourceFromHandle_def word_minus_16 if_True not_False_eq_True)
  show "bit h n \<longleftrightarrow> bit (doGetResourceFromHandle h OR ucast (gen_of h)) n"
    using n unfolding d bit_or_iff bit_and_iff bit_not_iff bit_mask4 g by auto
qed

text \<open>Two valid handles of the same resource are the same handle.\<close>

lemma valid_same:
  assumes "manager_inv m" "valid_handle m h" "valid_handle m h'"
    and "doGetResourceFromHandle h = doGetResourceFromHandle h'"
  shows "h = h'"
proof -
  have "h \<noteq> 0" "h' \<noteq> 0" using assms(2,3) by (auto simp: valid_handle_def getValidResource_def)
  moreover have "gen_of h = gen_of h'" using assms by (simp add: valid_handle_iff)
  ultimately show ?thesis using handle_decompose assms(4) by metis
qed

section \<open>The operations keep the invariant\<close>

lemma set_res_simps [simp]:
  "addrs (set_res a r m) = addrs m" "freeResources (set_res a r m) = freeResources m"
  "res (set_res a r m) = (res m)(a := r)" "resourceStack (set_res a r m) = resourceStack m"
  "usedCount (set_res a r m) = usedCount m" "totalCapacity (set_res a r m) = totalCapacity m"
  "hasFixedSize (set_res a r m) = hasFixedSize m" "rsize (set_res a r m) = rsize m"
  by (simp_all add: set_res_def addrs_def)

lemma addrs_update [simp]:
  "addrs (m\<lparr>freeResources := xs, usedCount := n\<rparr>) = addrs m"
  "addrs (m\<lparr>hasFixedSize := b\<rparr>) = addrs m"
  by (simp_all add: addrs_def)

lemma doReturn_simps [simp]:
  "addrs (doReturnResource a m) = addrs m" "res (doReturnResource a m) = res m"
  "freeResources (doReturnResource a m) = a # freeResources m"
  "hasFixedSize (doReturnResource a m) = hasFixedSize m"
  by (simp_all add: doReturnResource_def addrs_def)

lemma inv_set_res:
  assumes "manager_inv m" "resource_ok (a \<in> set (freeResources m)) r"
  shows "manager_inv (set_res a r m)"
  using assms unfolding manager_inv_def by (auto simp del: resource_ok.simps)

lemma inv_return:
  assumes "manager_inv m" "a \<in> set (addrs m)" "a \<notin> set (freeResources m)"
    and "\<not> live r" "m_refCount r = 0"
  shows "manager_inv (doReturnResource a (set_res a r m))"
  using assms unfolding manager_inv_def
  by (simp add: doReturnResource_def) (auto simp: live_def)

lemma inv_take:
  assumes I: "manager_inv m" and f: "freeResources m = a # rest"
    and r: "live r" "1 \<le> m_refCount r" "m_refCount r < 2 ^ 31"
  shows "manager_inv (set_res a r (m\<lparr>freeResources := rest, usedCount := usedCount m + 1\<rparr>))"
proof -

  have "a \<notin> set rest" using manager_invD(3) [OF I] f by simp
  with I f r show ?thesis unfolding manager_inv_def by (auto split: if_splits)
qed

lemma inv_allocate:
  assumes I: "manager_inv m" and "fresh_pool m base n"
  shows "manager_inv (allocate base n m)"
proof -
  have a: "addrs (allocate base n m) = pool_nodes (rsize m) (base, n) @ addrs m"
    by (simp add: allocate_def addrs_def Let_def)
  have d: "distinct (pool_nodes (rsize m) (base, n))"
    using pool_nodes_distinct assms(2) by (simp add: fresh_pool_def)
  show ?thesis
    using I assms(2) d unfolding manager_inv_def fresh_pool_def a
    by (auto simp: allocate_def Let_def fresh_resource_def live_def list_all_iff
        simp del: pool_ok.simps split: if_splits)
qed

section \<open>What each operation does\<close>

definition grown :: "ptr \<Rightarrow> 'a manager \<Rightarrow> 'a manager" where
  "grown base m = (if freeResources m = [] then allocate base (nat kMinHandles) m else m)"

definition can_create :: "ptr \<Rightarrow> 'a manager \<Rightarrow> bool" where
  "can_create base m \<longleftrightarrow> manager_inv m
     \<and> (freeResources m = [] \<longrightarrow> \<not> hasFixedSize m \<and> fresh_pool m base (nat kMinHandles))"

lemma grown_inv: "can_create base m \<Longrightarrow> manager_inv (grown base m)"
  by (simp add: can_create_def grown_def inv_allocate)

lemma grown_free: "freeResources (grown base m) \<noteq> []"
  by (auto simp: grown_def allocate_def pool_nodes_def kMinHandles_def Let_def)

lemma grown_addrs: "set (addrs m) \<subseteq> set (addrs (grown base m))"
  by (auto simp: grown_def addrs_def allocate_def Let_def)

lemma fetch_grown:
  assumes "can_create base m"
  shows "doFetchFreeResource base m = doFetchFreeResource base (grown base m)"
proof (cases "freeResources m")
  case Nil
  moreover have "totalCapacity m = 0" using assms manager_invD(7) by (auto simp: can_create_def)
  ultimately have "doGrow base m = Inr (grown base m)"
    using assms by (simp add: can_create_def doGrow_def doAllocate_def grown_def kMinHandles_def
        to_size_t_def)
  with Nil show ?thesis by (subst doFetchFreeResource.simps) simp
qed (simp add: grown_def)

lemma fetch_take:
  assumes I: "manager_inv m" and f: "freeResources m = a # rest"
  shows "doFetchFreeResource base m = (Inr a, set_res a ((res m a)\<lparr>m_refCount := 1\<rparr>)
    (m\<lparr>freeResources := rest, usedCount := usedCount m + 1\<rparr>))"
proof -
  have "resource_ok True (res m a)"
    using manager_invD(4) [OF I] manager_invD(5) [OF I, of a] f by simp
  then show ?thesis
    using f by (simp add: doFetchFreeResource.simps res_incRef_def)
qed

lemma free_ok:
  assumes "manager_inv m" "freeResources m = a # rest"
  shows "a \<in> set (addrs m)" "\<not> live (res m a)" "m_refCount (res m a) = 0" "a \<notin> set rest"
  using manager_invD(3,4) [OF assms(1)] manager_invD(5) [OF assms(1), of a] assms(2)
  by auto

lemma create_take:
  assumes I: "manager_inv m" and f: "freeResources m = a # rest"
  shows "create base (Inr x) m =
      (Inr (a OR ucast (generation (res m a) + 1), x),
       set_res a \<lparr>generation = generation (res m a) + 1, m_ptrObj = Some x, m_refCount = 1\<rparr>
         (m\<lparr>freeResources := rest, usedCount := usedCount m + 1\<rparr>))"
    and "create base (Inl (Throw e)) m = (Inl (Throw e), m)"
proof -
  note a = free_ok [OF I f]
  have nz: "a \<noteq> 0" using addr_ok(2) [OF I a(1)] .
  have nl: "\<not> live ((res m a)\<lparr>m_refCount := n\<rparr>)" for n using a(2) by (simp add: live_def)
  show "create base (Inr x) m =
      (Inr (a OR ucast (generation (res m a) + 1), x),
       set_res a \<lparr>generation = generation (res m a) + 1, m_ptrObj = Some x, m_refCount = 1\<rparr>
         (m\<lparr>freeResources := rest, usedCount := usedCount m + 1\<rparr>))"
    using nz nl by (cases "res m a") (simp add: create_def fetch_take [OF assms]
        doGetHandleFromResource_def constructObject_def Let_def set_res_def)
  have "(res m a)\<lparr>m_refCount := 0\<rparr> = res m a" using a(3) by (cases "res m a") simp
  then have "set_res a ((res m a)\<lparr>m_refCount := 0\<rparr>)
      (m\<lparr>freeResources := rest, usedCount := usedCount m + 1\<rparr>)
    = m\<lparr>freeResources := rest, usedCount := usedCount m + 1\<rparr>"
    by (simp add: set_res_def)
  then show "create base (Inl (Throw e)) m = (Inl (Throw e), m)"
    using nl f a(3) by (simp add: create_def fetch_take [OF assms] res_decRef_def set_res_def
        doReturnResource_def)
qed

lemma create_grown: "can_create base m \<Longrightarrow> create base c m = create base c (grown base m)"
  by (simp add: create_def fetch_grown)

lemma valid_grown:
  assumes "can_create base m"
  shows "valid_handle (grown base m) h = valid_handle m h"
    and "valid_handle m h \<Longrightarrow> validate (grown base m) h = validate m h
          \<and> count_of (grown base m) h = count_of m h"
proof -
  have I: "manager_inv m" using assms by (simp add: can_create_def)
  have G: "manager_inv (grown base m)" using assms by (rule grown_inv)
  have r: "a \<in> set (addrs m) \<Longrightarrow> res (grown base m) a = res m a" for a
    using assms by (auto simp: grown_def allocate_def Let_def can_create_def fresh_pool_def)
  have n: "a \<in> set (addrs (grown base m)) \<Longrightarrow> a \<notin> set (addrs m) \<Longrightarrow> \<not> live (res (grown base m) a)" for a
    by (auto simp: grown_def allocate_def addrs_def Let_def fresh_resource_def live_def
        split: if_splits)
  show v: "valid_handle (grown base m) h = valid_handle m h"
    using r [of "doGetResourceFromHandle h"] n [of "doGetResourceFromHandle h"]
      grown_addrs [of m base]
    by (cases "doGetResourceFromHandle h \<in> set (addrs m)")
      (auto simp: valid_handle_iff [OF I] valid_handle_iff [OF G] proper_def)
  show "validate (grown base m) h = validate m h \<and> count_of (grown base m) h = count_of m h"
    if "valid_handle m h"
  proof -
    have "valid_handle (grown base m) h" using that v by simp
    then show ?thesis using that r I G getValid_proper [OF I] getValid_proper [OF G]
      by (auto simp: validate_def count_of_def valid_handle_def proper_def split: if_splits)
  qed
qed

text \<open>Replacing the resource of one address does not touch the handles of the others.\<close>

lemma valid_other:
  assumes "manager_inv m" "manager_inv m'" "addrs m' = addrs m"
    and "res m' = (res m)(a := r)" "doGetResourceFromHandle h \<noteq> a"
  shows "valid_handle m' h = valid_handle m h" "count_of m' h = count_of m h"
    and "valid_handle m h \<Longrightarrow> validate m' h = validate m h"
proof -
  show v: "valid_handle m' h = valid_handle m h"
    using assms by (simp add: valid_handle_iff proper_def)
  show "count_of m' h = count_of m h" using assms by (simp add: count_of_def)
  show "validate m' h = validate m h" if "valid_handle m h"
    using assms that v getValid_proper [OF assms(1), of h] getValid_proper [OF assms(2), of h]
    by (simp add: validate_def valid_handle_def proper_def)
qed

lemma validD:
  assumes "manager_inv m" "valid_handle m h"
  defines "a \<equiv> doGetResourceFromHandle h"
  shows "a \<in> set (addrs m)" "a \<notin> set (freeResources m)" "h \<noteq> 0" "live (res m a)"
    and "getValidResource m h = Some a" "1 \<le> m_refCount (res m a)" "m_refCount (res m a) < 2 ^ 31"
proof -
  have v: "a \<in> set (addrs m)" "live (res m a)" "generation (res m a) = gen_of h"
    using assms by (auto simp: valid_handle_iff proper_def)
  then show "a \<in> set (addrs m)" "live (res m a)" by blast+
  show "getValidResource m h = Some a"
    using v getValid_proper [OF assms(1), of h] by (simp add: proper_def a_def)
  then show "h \<noteq> 0" by (auto simp: getValidResource_def)
  show "a \<notin> set (freeResources m)" "1 \<le> m_refCount (res m a)" "m_refCount (res m a) < 2 ^ 31"
    using manager_invD(5) [OF assms(1) v(1)] v(2) by (auto split: if_splits)
qed

lemma incRef_valid:
  assumes I: "manager_inv m" and v: "valid_handle m h" and c: "count_of m h + 1 < 2 ^ 31"
  defines "a \<equiv> doGetResourceFromHandle h"
  defines "m' \<equiv> set_res a ((res m a)\<lparr>m_refCount := m_refCount (res m a) + 1\<rparr>) m"
  shows "incRef h m = (Inr (count_of m h + 1), m')" "manager_inv m'" "valid_handle m' h"
    and "count_of m' h = count_of m h + 1" "validate m' h = validate m h"
proof -
  note d = validD [OF I v, folded a_def]
  show e: "incRef h m = (Inr (count_of m h + 1), m')"
    using d c by (simp add: incRef_def res_incRef_def count_of_def m'_def flip: a_def)
  show i: "manager_inv m'"
    unfolding m'_def using d c by (intro inv_set_res [OF I]) (simp add: count_of_def a_def live_def)
  show "valid_handle m' h"
    using v d(4) I i by (simp add: valid_handle_iff m'_def proper_def live_def flip: a_def)
  then show "validate m' h = validate m h"
    using validD(5) [OF i] d(5) by (simp add: validate_def m'_def flip: a_def)
  show "count_of m' h = count_of m h + 1" by (simp add: m'_def count_of_def flip: a_def)
qed

lemma decRef_valid:
  assumes I: "manager_inv m" and v: "valid_handle m h" and c: "count_of m h > 1"
  defines "a \<equiv> doGetResourceFromHandle h"
  defines "m' \<equiv> set_res a ((res m a)\<lparr>m_refCount := m_refCount (res m a) - 1\<rparr>) m"
  shows "decRef h m = (Inr (count_of m h - 1), m')" "manager_inv m'" "valid_handle m' h"
    and "count_of m' h = count_of m h - 1" "validate m' h = validate m h"
proof -
  note d = validD [OF I v, folded a_def]
  show e: "decRef h m = (Inr (count_of m h - 1), m')"
    using d c by (simp add: decRef_def res_decRef_def count_of_def m'_def flip: a_def)
  show i: "manager_inv m'"
    unfolding m'_def using d c by (intro inv_set_res [OF I]) (simp add: count_of_def a_def live_def)
  show "valid_handle m' h"
    using v d(4) I i by (simp add: valid_handle_iff m'_def proper_def live_def flip: a_def)
  then show "validate m' h = validate m h"
    using validD(5) [OF i] d(5) by (simp add: validate_def m'_def flip: a_def)
  show "count_of m' h = count_of m h - 1" by (simp add: m'_def count_of_def flip: a_def)
qed

lemma decRef_last:
  assumes I: "manager_inv m" and v: "valid_handle m h" and c: "count_of m h = 1"
  defines "a \<equiv> doGetResourceFromHandle h"
  defines "m' \<equiv> doReturnResource a
    (set_res a ((res m a)\<lparr>m_refCount := 0, m_ptrObj := None\<rparr>) m)"
  shows "decRef h m = (Inr 0, m')" "manager_inv m'" "\<not> valid_handle m' h"
proof -
  note d = validD [OF I v, folded a_def]
  show "decRef h m = (Inr 0, m')"
    using d c by (simp add: decRef_def res_decRef_def destroyObject_def count_of_def m'_def
        flip: a_def)
  show i: "manager_inv m'"
    unfolding m'_def by (rule inv_return [OF I d(1,2)]) (simp_all add: live_def)
  show "\<not> valid_handle m' h"
    using I i by (simp add: valid_handle_iff m'_def live_def flip: a_def)
qed

section \<open>Creation\<close>

lemma create_cases:
  assumes can: "can_create base m"
  obtains a rest h m' where "freeResources (grown base m) = a # rest"
    and "create base (Inr x) m = (Inr (h, x), m')"
    and "create base (Inl (Throw e)) m = (Inl (Throw e), grown base m)"
    and "h = a OR ucast (generation (res (grown base m) a) + 1)"
    and "doGetResourceFromHandle h = a" "gen_of h = generation (res (grown base m) a) + 1"
    and "m' = set_res a \<lparr>generation = gen_of h, m_ptrObj = Some x, m_refCount = 1\<rparr>
         ((grown base m)\<lparr>freeResources := rest, usedCount := usedCount (grown base m) + 1\<rparr>)"
    and "manager_inv m'" "addrs m' = addrs (grown base m)"
    and "res m' = (res (grown base m))(a := \<lparr>generation = gen_of h, m_ptrObj = Some x, m_refCount = 1\<rparr>)"
proof -
  let ?g = "grown base m"
  obtain a rest where f: "freeResources ?g = a # rest"
    using grown_free by (meson neq_Nil_conv)
  have I: "manager_inv ?g" using grown_inv [OF can] .
  note fo = free_ok [OF I f]
  define h where "h = a OR ucast (generation (res ?g a) + 1)"
  have r: "doGetResourceFromHandle h = a" unfolding h_def by (rule proper_addr [OF I fo(1)])
  have gn: "gen_of h = generation (res ?g a) + 1"
    unfolding h_def by (rule gen_of_handle [OF addr_ok(1) [OF I fo(1)]])
  let ?m' = "set_res a \<lparr>generation = gen_of h, m_ptrObj = Some x, m_refCount = 1\<rparr>
         (?g\<lparr>freeResources := rest, usedCount := usedCount ?g + 1\<rparr>)"
  have i: "manager_inv ?m'" by (rule inv_take [OF I f]) (simp_all add: live_def)
  have c: "create base (Inr x) m = (Inr (h, x), ?m')"
    and e: "create base (Inl (Throw e)) m = (Inl (Throw e), ?g)"
    using create_take [OF I f] by (simp_all add: create_grown [OF can] gn flip: h_def)
  show ?thesis by (rule that [OF f c e h_def r gn refl i]) simp_all
qed

lemma create_new_handle:
  assumes can: "can_create base m"
  shows "\<exists>h m'. create base (Inr x) m = (Inr (h, x), m') \<and> manager_inv m'
    \<and> \<not> valid_handle m h \<and> valid_handle m' h \<and> validate m' h = Some x \<and> refCount h m' = Inr 1
    \<and> (\<forall>h'. h' \<noteq> h \<longrightarrow> valid_handle m' h' = valid_handle m h'
         \<and> (valid_handle m h' \<longrightarrow> validate m' h' = validate m h' \<and> count_of m' h' = count_of m h'))"
  using can
proof (rule create_cases [where x = x])
  fix a rest h m'
  let ?g = "grown base m" let ?r = "\<lparr>generation = gen_of h, m_ptrObj = Some x, m_refCount = 1\<rparr>"
  assume f: "freeResources ?g = a # rest" and c: "create base (Inr x) m = (Inr (h, x), m')"
    and h: "doGetResourceFromHandle h = a" and g: "gen_of h = generation (res ?g a) + 1"
    and i: "manager_inv m'" "addrs m' = addrs ?g" "res m' = (res ?g)(a := ?r)"
  have G: "manager_inv ?g" by (rule grown_inv [OF can])
  note fo = free_ok [OF G f]
  have nv: "\<not> valid_handle ?g h'" if "doGetResourceFromHandle h' = a" for h'
    using that fo(2) by (simp add: valid_handle_iff [OF G])
  have v: "valid_handle m' h"
    using fo(1) by (simp add: valid_handle_iff [OF i(1)] proper_def i h live_def)
  moreover from this have "validate m' h = Some x" "refCount h m' = Inr 1"
    using validD(5) [OF i(1) v] by (simp_all add: validate_def refCount_def i h)
  moreover have "valid_handle m' h' = valid_handle m h' \<and> (valid_handle m h' \<longrightarrow>
      validate m' h' = validate m h' \<and> count_of m' h' = count_of m h')" if "h' \<noteq> h" for h'
  proof (cases "doGetResourceFromHandle h' = a")
    case True
    then show ?thesis
      using nv [OF True] valid_grown(1) [OF can] valid_same [OF i(1) _ v, of h'] that h by auto
  next
    case False
    from valid_other [OF G i(1) i(2) i(3) False] show ?thesis using valid_grown [OF can, of h'] by simp
  qed
  ultimately show ?thesis using c i(1) nv [OF h] valid_grown(1) [OF can] by blast
qed

text \<open>
  Creating an object gives a new handle. When the manager can create (a free
  resource, or a pool that may grow), \<open>create\<close> succeeds, the handle was not valid before, now
  refers to the new object with reference count 1, and every other handle keeps its validity,
  object and count.
\<close>

theorem create_gives_new_handle:
  assumes can: "can_create base m"
  shows "\<exists>h m'. create base (Inr x) m = (Inr (h, x), m') \<and> manager_inv m'
    \<and> \<not> valid_handle m h \<and> valid_handle m' h \<and> validate m' h = Some x \<and> refCount h m' = Inr 1
    \<and> (\<forall>h'. h' \<noteq> h \<longrightarrow> valid_handle m' h' = valid_handle m h'
         \<and> (valid_handle m h' \<longrightarrow> validate m' h' = validate m h' \<and> count_of m' h' = count_of m h'))"
  by (rule create_new_handle [OF can])

text \<open>A manager whose memory holds one pool of two resources of 256 bytes at address 4096.\<close>

definition demo_pool :: "'a manager" where
  "demo_pool = snd (setFixedSize None 4096 2 (new_manager 256 (\<lambda>_. fresh_resource)))"

lemma upt_two: "[0..<2] = [0, 1]"
  by (simp add: numeral_2_eq_2)

lemma demo_pool_eq: "demo_pool = \<lparr>res = (\<lambda>_. fresh_resource), resourceStack = [(4096, 2)],
   freeResources = [4096, 4352], hasFixedSize = True, totalCapacity = 0, usedCount = 0, rsize = 256\<rparr>"
  by (simp add: demo_pool_def setFixedSize_def new_manager_def clear_manager_def with_result_def
      doAllocate_def allocate_def pool_nodes_def to_size_t_def Let_def upt_two fun_eq_iff)

lemma demo_pool_can_create: "can_create 0 demo_pool"
  by (simp add: can_create_def manager_inv_def demo_pool_eq addrs_def pool_nodes_def upt_two
      fresh_resource_def live_def)

abbreviation demo_manager :: "nat manager" where
  "demo_manager \<equiv> demo_pool"

lemmas demo_manager_eq = demo_pool_eq [where 'a = nat]

lemmas demo_can_create = demo_pool_can_create [where 'a = nat]

theorem create_gives_new_handle_witness:
  "\<exists>h m'. create 0 (Inr 7) demo_manager = (Inr (h, 7), m') \<and> manager_inv m'
    \<and> validate m' h = Some 7 \<and> refCount h m' = Inr 1"
  using create_gives_new_handle [OF demo_can_create, of 7] by blast

section \<open>Reference counting as an interface\<close>

text \<open>
  What the owners of shared objects rely on. \<open>valid\<close>, \<open>count\<close> and the invariant are read off the
  provider's state; \<open>inc\<close> and \<open>dec\<close> return the new count or an error.
\<close>

locale refcounted =
  fixes inv :: "'s \<Rightarrow> bool"
    and valid :: "'s \<Rightarrow> 'h \<Rightarrow> bool"
    and count :: "'s \<Rightarrow> 'h \<Rightarrow> int"
    and inc :: "'h \<Rightarrow> 's \<Rightarrow> int result \<times> 's"
    and dec :: "'h \<Rightarrow> 's \<Rightarrow> int result \<times> 's"
  assumes count_pos: "inv s \<Longrightarrow> valid s h \<Longrightarrow> 1 \<le> count s h"
    and inc_ok: "inv s \<Longrightarrow> valid s h \<Longrightarrow> count s h + 1 < 2 ^ 31 \<Longrightarrow>
      fst (inc h s) = Inr (count s h + 1) \<and> inv (snd (inc h s))
      \<and> valid (snd (inc h s)) h' = valid s h'
      \<and> (valid s h' \<longrightarrow> count (snd (inc h s)) h' = count s h' + (if h' = h then 1 else 0))"
    and dec_shared: "inv s \<Longrightarrow> valid s h \<Longrightarrow> 1 < count s h \<Longrightarrow>
      fst (dec h s) = Inr (count s h - 1) \<and> inv (snd (dec h s))
      \<and> valid (snd (dec h s)) h' = valid s h'
      \<and> (valid s h' \<longrightarrow> count (snd (dec h s)) h' = count s h' - (if h' = h then 1 else 0))"
    and dec_last: "inv s \<Longrightarrow> valid s h \<Longrightarrow> count s h = 1 \<Longrightarrow>
      fst (dec h s) = Inr 0 \<and> inv (snd (dec h s))
      \<and> valid (snd (dec h s)) h' = (valid s h' \<and> h' \<noteq> h)
      \<and> (valid s h' \<and> h' \<noteq> h \<longrightarrow> count (snd (dec h s)) h' = count s h')"

definition for_each :: "('h \<Rightarrow> 's \<Rightarrow> int result \<times> 's) \<Rightarrow> 'h list \<Rightarrow> 's \<Rightarrow> 's" where
  "for_each f hs s = fold (\<lambda>h s. snd (f h s)) hs s"

lemma for_each_simps [simp]:
  "for_each f [] s = s" "for_each f (h # hs) s = for_each f hs (snd (f h s))"
  by (simp_all add: for_each_def)

context refcounted
begin

lemma inc_all:
  assumes "inv s" "\<forall>h\<in>set hs. valid s h \<and> count s h + int (count_list hs h) < 2 ^ 31"
  shows "inv (for_each inc hs s) \<and> valid (for_each inc hs s) h = valid s h
    \<and> (valid s h \<longrightarrow> count (for_each inc hs s) h = count s h + int (count_list hs h))"
  using assms
proof (induction hs arbitrary: s)
  case (Cons x hs)
  let ?s = "snd (inc x s)"
  have c: "count s x + 1 < 2 ^ 31" using Cons.prems(2) by (simp add: ac_simps)
  note i = inc_ok [OF Cons.prems(1) _ c]
  have "\<forall>h\<in>set hs. valid ?s h \<and> count ?s h + int (count_list hs h) < 2 ^ 31"
    using i Cons.prems(2) by (fastforce split: if_splits)
  with Cons.IH [of ?s] i Cons.prems show ?case by auto
qed simp

lemma dec_all:
  assumes "inv s" "\<forall>h\<in>set hs. valid s h \<and> int (count_list hs h) < count s h"
  shows "inv (for_each dec hs s) \<and> valid (for_each dec hs s) h = valid s h
    \<and> (valid s h \<longrightarrow> count (for_each dec hs s) h = count s h - int (count_list hs h))"
  using assms
proof (induction hs arbitrary: s)
  case (Cons x hs)
  let ?s = "snd (dec x s)"
  have c: "1 < count s x" using Cons.prems(2) by simp
  note i = dec_shared [OF Cons.prems(1) _ c]
  have "\<forall>h\<in>set hs. valid ?s h \<and> int (count_list hs h) < count ?s h"
    using i Cons.prems(2) by (fastforce split: if_splits)
  with Cons.IH [of ?s] i Cons.prems show ?case by auto
qed simp

lemma count_list_replicate: "count_list (replicate n x) y = (if y = x then n else 0)"
  by (induction n) auto

text \<open>Taking a reference for each handle of a list and dropping them again changes nothing.\<close>

lemma balanced:
  assumes "inv s" "\<forall>h\<in>set hs. valid s h \<and> count s h + int (count_list hs h) < 2 ^ 31"
  defines "s' \<equiv> for_each dec hs (for_each inc hs s)"
  shows "inv s' \<and> valid s' h = valid s h \<and> (valid s h \<longrightarrow> count s' h = count s h)"
proof -
  let ?i = "for_each inc hs s"
  note i = inc_all [OF assms(1,2)]
  have "\<forall>h\<in>set hs. valid ?i h \<and> int (count_list hs h) < count ?i h"
    using i assms(2) count_pos [OF assms(1)] by force
  with dec_all [of ?i hs h] i show ?thesis unfolding s'_def by auto
qed

text \<open>An object lives until its last reference is dropped.\<close>

lemma dies_last:
  assumes "inv s" "valid s h" "count s h + int n < 2 ^ 31"
  defines "k \<equiv> nat (count s h) + n"
  defines "s' \<equiv> for_each inc (replicate n h) s"
  shows "j < k \<Longrightarrow> valid (for_each dec (replicate j h) s') h"
    and "\<not> valid (for_each dec (replicate k h) s') h"
proof -
  have i: "inv s'" "valid s' h" "count s' h = int k"
    using inc_all [of s "replicate n h" h] count_pos [OF assms(1,2)] assms(1-3)
    unfolding s'_def k_def by (auto simp: count_list_replicate)
  have *: "inv (for_each dec (replicate j h) s') \<and> valid (for_each dec (replicate j h) s') h
      \<and> count (for_each dec (replicate j h) s') h = int k - int j" if "j < k" for j
    using dec_all [OF i(1), of "replicate j h" h] i that by (auto simp: count_list_replicate)
  then show "j < k \<Longrightarrow> valid (for_each dec (replicate j h) s') h" by blast
  obtain j where j: "k = Suc j" using count_pos [OF assms(1,2)] by (cases k) (auto simp: k_def)
  let ?s = "for_each dec (replicate j h) s'"
  have "for_each dec (replicate k h) s' = snd (dec h ?s)"
    by (simp only: j for_each_def replicate_append_same [symmetric] replicate_Suc fold_append
        comp_apply fold_simps)
  with dec_last [of ?s h h] * [of j] j show "\<not> valid (for_each dec (replicate k h) s') h" by auto
qed

end

lemma incRef_refcounted:
  assumes "manager_inv m" "valid_handle m h" "count_of m h + 1 < 2 ^ 31"
  shows "fst (incRef h m) = Inr (count_of m h + 1) \<and> manager_inv (snd (incRef h m))
      \<and> valid_handle (snd (incRef h m)) h' = valid_handle m h'
      \<and> (valid_handle m h' \<longrightarrow>
           count_of (snd (incRef h m)) h' = count_of m h' + (if h' = h then 1 else 0))"
proof (cases "h' = h")
  case False
  note i = incRef_valid [OF assms]
  show ?thesis
  proof (cases "doGetResourceFromHandle h' = doGetResourceFromHandle h")
    case True
    with False have "\<not> valid_handle m h'" "\<not> valid_handle (snd (incRef h m)) h'"
      using valid_same assms(1,2) i(1,2,3) by auto
    with i False show ?thesis by simp
  next
    case neq: False
    from valid_other [OF assms(1) i(2) _ _ neq] i False show ?thesis by simp
  qed
qed (use incRef_valid [OF assms] assms(2) in simp)

lemma decRef_refcounted:
  assumes "manager_inv m" "valid_handle m h" "1 < count_of m h"
  shows "fst (decRef h m) = Inr (count_of m h - 1) \<and> manager_inv (snd (decRef h m))
      \<and> valid_handle (snd (decRef h m)) h' = valid_handle m h'
      \<and> (valid_handle m h' \<longrightarrow>
           count_of (snd (decRef h m)) h' = count_of m h' - (if h' = h then 1 else 0))"
proof (cases "h' = h")
  case False
  note i = decRef_valid [OF assms]
  show ?thesis
  proof (cases "doGetResourceFromHandle h' = doGetResourceFromHandle h")
    case True
    with False have "\<not> valid_handle m h'" "\<not> valid_handle (snd (decRef h m)) h'"
      using valid_same assms(1,2) i(1,2,3) by auto
    with i False show ?thesis by simp
  next
    case neq: False
    from valid_other [OF assms(1) i(2) _ _ neq] i False show ?thesis by simp
  qed
qed (use decRef_valid [OF assms] assms(2) in simp)

lemma decRef_last_refcounted:
  assumes "manager_inv m" "valid_handle m h" "count_of m h = 1"
  shows "fst (decRef h m) = Inr 0 \<and> manager_inv (snd (decRef h m))
      \<and> valid_handle (snd (decRef h m)) h' = (valid_handle m h' \<and> h' \<noteq> h)
      \<and> (valid_handle m h' \<and> h' \<noteq> h \<longrightarrow> count_of (snd (decRef h m)) h' = count_of m h')"
proof -
  note i = decRef_last [OF assms]
  show ?thesis
  proof (cases "doGetResourceFromHandle h' = doGetResourceFromHandle h")
    case True
    have "valid_handle m h' \<Longrightarrow> h' = h" using valid_same assms(1,2) True by blast
    moreover have "\<not> valid_handle (snd (decRef h m)) h'"
      using i(1,2) True by (simp add: valid_handle_iff live_def)
    ultimately show ?thesis using i by auto
  next
    case neq: False
    then have "h' \<noteq> h" by auto
    with valid_other [OF assms(1) i(2) _ _ neq] i show ?thesis by simp
  qed
qed

interpretation handles: refcounted manager_inv valid_handle count_of incRef decRef
proof unfold_locales
  show "1 \<le> count_of m h" if "manager_inv m" "valid_handle m h" for m :: "'a manager" and h
    using validD(6) [OF that] by (simp add: count_of_def)
qed (fact incRef_refcounted decRef_refcounted decRef_last_refcounted)+


text \<open>
  References are balanced. Taking one reference per entry of a list of valid
  handles (entries may repeat) and dropping them again leaves every handle with the validity
  and the count it had.
\<close>

theorem references_balanced:
  assumes "manager_inv m"
    and "\<forall>h\<in>set hs. valid_handle m h \<and> count_of m h + int (count_list hs h) < 2 ^ 31"
  defines "m' \<equiv> for_each decRef hs (for_each incRef hs m)"
  shows "manager_inv m' \<and> valid_handle m' h = valid_handle m h
    \<and> (valid_handle m h \<longrightarrow> count_of m' h = count_of m h)"
  unfolding m'_def using handles.balanced [OF assms(1,2)] by blast

text \<open>That manager after it created one object.\<close>

definition demo_with :: "'a \<Rightarrow> 'a manager" where
  "demo_with x = snd (create 0 (Inr x) demo_pool)"

abbreviation demo_created :: "nat manager" where
  "demo_created \<equiv> demo_with 7"

lemma demo_create:
  fixes x :: 'a
  shows "create 0 (Inr x) demo_pool = (Inr (4097, x), demo_with x)"
    and "res (demo_with x) = (\<lambda>_. fresh_resource)(4096 := \<lparr>generation = 1, m_ptrObj = Some x, m_refCount = 1\<rparr>)"
    and "addrs (demo_with x) = [4096, 4352]"
  using create_take(1) [of demo_pool 4096 "[4352]" 0 x] demo_pool_can_create [where 'a = 'a]
  by (simp_all add: demo_with_def can_create_def demo_pool_eq fresh_resource_def addrs_def pool_nodes_def upt_two)

lemma demo_with: "manager_inv (demo_with x)" "valid_handle (demo_with x) 4097"
  "count_of (demo_with x) 4097 = 1" "validate (demo_with x) 4097 = Some x"
proof -
  have c: "manager_inv (demo_with x)" "valid_handle (demo_with x) 4097" "refCount 4097 (demo_with x) = Inr 1"
    "validate (demo_with x) 4097 = Some x"
    using create_new_handle [OF demo_pool_can_create, of x] demo_create(1) [of x] by auto
  with validD(5) [OF c(1,2)] show "manager_inv (demo_with x)" "valid_handle (demo_with x) 4097"
    "count_of (demo_with x) 4097 = 1" "validate (demo_with x) 4097 = Some x"
    by (simp_all add: refCount_def count_of_def)
qed

lemmas demo_created = demo_with [of "7 :: nat"]


theorem references_balanced_witness:
  "valid_handle (for_each decRef [4097, 4097] (for_each incRef [4097, 4097] demo_created)) 4097"
proof -
  have "\<forall>h\<in>set [4097, 4097]. valid_handle demo_created h
      \<and> count_of demo_created h + int (count_list [4097, 4097] h) < 2 ^ 31"
    using demo_created by simp
  from references_balanced [OF demo_created(1) this, of 4097] show ?thesis
    using demo_created(2) by blast
qed

section \<open>Stale handles\<close>

text \<open>
  A sequence of calls of the clients, with the handles created on the way. Clients may use any
  handle that is valid or rejected; the addresses of the two growing calls are the allocator's.
\<close>

inductive calls :: "'a manager \<Rightarrow> handle list \<Rightarrow> 'a manager \<Rightarrow> bool" where
  calls_nil: "calls m [] m"
| calls_create: "calls m hs m1 \<Longrightarrow> can_create base m1 \<Longrightarrow>
     create base (Inr x) m1 = (Inr (h, y), m2) \<Longrightarrow> calls m (hs @ [h]) m2"
| calls_create_throws: "calls m hs m1 \<Longrightarrow> can_create base m1 \<Longrightarrow>
     create base (Inl (Throw e)) m1 = (Inl e', m2) \<Longrightarrow> calls m hs m2"
| calls_incRef: "calls m hs m1 \<Longrightarrow> valid_handle m1 h \<Longrightarrow> count_of m1 h + 1 < 2 ^ 31 \<Longrightarrow>
     incRef h m1 = (r, m2) \<Longrightarrow> calls m hs m2"
| calls_decRef: "calls m hs m1 \<Longrightarrow> valid_handle m1 h \<Longrightarrow> decRef h m1 = (r, m2) \<Longrightarrow> calls m hs m2"
| calls_rejected: "calls m hs m1 \<Longrightarrow> getValidResource m1 h = None \<Longrightarrow>
     incRef h m1 = (r, m2) \<or> decRef h m1 = (r, m2) \<Longrightarrow> calls m hs m2"

inductive_cases calls_snocE: "calls m (hs @ [h]) m'"

text \<open>What a call may do to the resource at address \<open>a\<close>, once that is not in use.\<close>

definition tracks :: "ptr \<Rightarrow> 4 word \<Rightarrow> nat \<Rightarrow> 'a manager \<Rightarrow> bool" where
  "tracks a g k m \<longleftrightarrow> manager_inv m \<and> a \<in> set (addrs m)
     \<and> generation (res m a) = g + word_of_nat k \<and> (k = 0 \<longrightarrow> \<not> live (res m a))"

lemma rejected_same:
  "getValidResource m h = None \<Longrightarrow> incRef h m = (r, m') \<or> decRef h m = (r, m') \<Longrightarrow> m' = m"
  by (auto simp: incRef_def decRef_def split: if_splits)

lemma tracks_create:
  assumes t: "tracks a g k m" and can: "can_create base m" and c: "create base (Inr x) m = (Inr (h, y), m')"
  shows "tracks a g (k + (if doGetResourceFromHandle h = a then 1 else 0)) m'"
  using can
proof (rule create_cases [where x = x])
  fix b rest h' m''
  assume *: "freeResources (grown base m) = b # rest" "create base (Inr x) m = (Inr (h', x), m'')"
    "doGetResourceFromHandle h' = b" "gen_of h' = generation (res (grown base m) b) + 1"
    "manager_inv m''" "addrs m'' = addrs (grown base m)"
    "res m'' = (res (grown base m))(b := \<lparr>generation = gen_of h', m_ptrObj = Some x, m_refCount = 1\<rparr>)"
  have e: "h' = h" "m'' = m'" using * c by auto
  have r: "res (grown base m) a = res m a"
    using t can by (auto simp: grown_def allocate_def Let_def can_create_def fresh_pool_def tracks_def)
  have "a \<in> set (addrs (grown base m))" using t grown_addrs [of m base] by (auto simp: tracks_def)
  with * r t show ?thesis unfolding e tracks_def by (auto simp: algebra_simps)
qed

lemma tracks_grown:
  assumes "tracks a g k m" "can_create base m"
  shows "tracks a g k (grown base m)"
proof -
  have "res (grown base m) a = res m a"
    using assms by (auto simp: grown_def allocate_def Let_def can_create_def fresh_pool_def tracks_def)
  with assms grown_inv [OF assms(2)] grown_addrs [of m base] show ?thesis
    by (auto simp: tracks_def)
qed

lemma tracks_incRef:
  assumes "tracks a g k m" "valid_handle m h" "count_of m h + 1 < 2 ^ 31" "incRef h m = (r, m')"
  shows "tracks a g k m'"
  using incRef_valid [OF _ assms(2,3)] assms by (auto simp: tracks_def live_def)

lemma tracks_decRef:
  assumes t: "tracks a g k m" and v: "valid_handle m h" and d: "decRef h m = (r, m')"
  shows "tracks a g k m'"
proof -
  have I: "manager_inv m" using t by (simp add: tracks_def)
  show ?thesis
  proof (cases "count_of m h = 1")
    case True
    from decRef_last [OF I v True] t d show ?thesis by (auto simp: tracks_def live_def)
  next
    case False
    with handles.count_pos [OF I v] have "1 < count_of m h" by simp
    from decRef_valid [OF I v this] t d show ?thesis by (auto simp: tracks_def live_def)
  qed
qed

lemma calls_tracks:
  assumes "calls m hs m'" "tracks a g 0 m"
  shows "tracks a g (length (filter (\<lambda>h. doGetResourceFromHandle h = a) hs)) m'"
  using assms
proof (induction rule: calls.induct)
  case (calls_create m hs m1 base x h y m2)
  then show ?case using tracks_create [OF _ calls_create.hyps(2,3)] by fastforce
next
  case (calls_create_throws m hs m1 base e e' m2)
  from create_cases [OF this(2), of _ e] this(3) have "m2 = grown base m1" by (metis Pair_inject)
  with calls_create_throws tracks_grown show ?case by blast
next
  case (calls_incRef m hs m1 h r m2)
  then show ?case using tracks_incRef by blast
next
  case (calls_decRef m hs m1 h r m2)
  then show ?case using tracks_decRef by blast
next
  case (calls_rejected m hs m1 h r m2)
  then show ?case using rejected_same by blast
qed simp

text \<open>
  Property C25: generations detect stale handles, until they wrap. Take a handle whose object has
  just been destroyed. Whatever the clients then call, if \<open>k\<close> of the objects created later landed
  on the same resource, the old handle is accepted exactly when that resource is in use again
  and \<open>k\<close> is a multiple of 16: fifteen reuses are told apart, the sixteenth is not, and the old
  handle then refers to somebody else's object.
\<close>

theorem stale_handle_detected:
  assumes "manager_inv m" "proper m h" "\<not> live (res m (doGetResourceFromHandle h))"
    and "generation (res m (doGetResourceFromHandle h)) = gen_of h" and "calls m hs m'"
  defines "k \<equiv> length (filter (\<lambda>h'. doGetResourceFromHandle h' = doGetResourceFromHandle h) hs)"
  shows "getValidResource m' h \<noteq> None \<longleftrightarrow>
    live (res m' (doGetResourceFromHandle h)) \<and> 16 dvd k \<and> 0 < k"
proof -
  let ?a = "doGetResourceFromHandle h"
  have "tracks ?a (gen_of h) 0 m" using assms(1-4) by (simp add: tracks_def proper_def)
  from calls_tracks [OF assms(5) this]
  have t: "tracks ?a (gen_of h) k m'" by (simp add: k_def)
  have "(word_of_nat k :: 4 word) = 0 \<longleftrightarrow> 16 dvd k"
    using word_of_nat_eq_0_iff [where 'a = 4, of k] by simp
  with t getValid_proper [of m' h] show ?thesis by (auto simp: tracks_def proper_def)
qed

definition demo_destroyed :: "nat manager" where
  "demo_destroyed = snd (decRef 4097 demo_created)"

lemma demo_destroyed:
  "manager_inv demo_destroyed" "proper demo_destroyed 4097" "doGetResourceFromHandle 4097 = 4096"
  "\<not> live (res demo_destroyed 4096)" "generation (res demo_destroyed 4096) = gen_of 4097"
proof -
  note d = decRef_last [OF demo_created(1-3)]
  have v: "proper demo_created 4097" "generation (res demo_created 4096) = gen_of 4097"
    using demo_created(2) unfolding valid_handle_iff [OF demo_created(1)]
    by (simp_all add: doGetResourceFromHandle_def)
  show a: "doGetResourceFromHandle 4097 = 4096" by (simp add: doGetResourceFromHandle_def)
  show "manager_inv demo_destroyed" "proper demo_destroyed 4097" "\<not> live (res demo_destroyed 4096)"
    "generation (res demo_destroyed 4096) = gen_of 4097"
    using d v a by (simp_all add: demo_destroyed_def proper_def live_def)
qed

theorem stale_handle_detected_witness:
  "\<exists>h m'. create 0 (Inr 9) demo_destroyed = (Inr (h, 9), m') \<and> getValidResource m' 4097 = None"
proof -
  have can: "can_create 0 demo_destroyed"
    using demo_destroyed(1) decRef_last(1) [OF demo_created(1-3)]
    by (simp add: can_create_def demo_destroyed_def doReturnResource_def)
  obtain h m' where c: "create 0 (Inr 9) demo_destroyed = (Inr (h, 9), m')"
    using create_new_handle [OF can, of 9] by blast
  have "\<not> live (res demo_destroyed (doGetResourceFromHandle 4097))"
    "generation (res demo_destroyed (doGetResourceFromHandle 4097)) = gen_of 4097"
    using demo_destroyed by simp_all
  from stale_handle_detected [OF demo_destroyed(1,2) this calls_create [OF calls_nil can c]] c
  show ?thesis by (auto split: if_splits)
qed

section \<open>Size policies and failures\<close>



text \<open>
  Fixing the size. \<open>setFixedSize\<close> is refused while handles are in use and changes
  nothing then; otherwise (for a positive size and the allocator's promise about the pool) it
  leaves a well-formed manager that has exactly \<open>n\<close> free resources, whatever it had before, and
  will not grow.
\<close>

theorem setFixedSize_policy:
  assumes "manager_inv m"
  shows "(0 < usedCount m \<longrightarrow>
        setFixedSize leak base n m = (Inl (Throw NVCV_ERROR_INVALID_OPERATION), m))
    \<and> (usedCount m = 0 \<and> 0 < n \<and> n < 2 ^ 31 \<and> pool_ok (rsize m) (base, nat n) \<longrightarrow>
        (\<exists>m'. setFixedSize leak base n m = (Inr (), m') \<and> manager_inv m' \<and> hasFixedSize m'
          \<and> int (length (freeResources m')) = n \<and> resourceStack m' = [(base, nat n)]))"
proof (intro conjI impI)
  assume n: "usedCount m = 0 \<and> 0 < n \<and> n < 2 ^ 31 \<and> pool_ok (rsize m) (base, nat n)"
  let ?m = "m\<lparr>freeResources := [], resourceStack := [], hasFixedSize := True\<rparr>"
  have "manager_inv ?m" using assms n by (simp add: manager_inv_def addrs_def)
  moreover have "fresh_pool ?m base (nat n)"
    using n by (simp add: fresh_pool_def addrs_def del: pool_ok.simps)
  ultimately have "manager_inv (allocate base (nat n) ?m)" by (rule inv_allocate)
  moreover have "setFixedSize leak base n m = (Inr (), allocate base (nat n) ?m)"
    using n manager_invD(7) [OF assms]
    by (simp add: setFixedSize_def clear_manager_def with_result_def doAllocate_def to_size_t_def)
  ultimately show "\<exists>m'. setFixedSize leak base n m = (Inr (), m') \<and> manager_inv m' \<and> hasFixedSize m'
          \<and> int (length (freeResources m')) = n \<and> resourceStack m' = [(base, nat n)]"
    using n by (simp add: allocate_def Let_def)
qed (simp add: setFixedSize_def)

theorem setFixedSize_policy_witness:
  "\<exists>m'. setFixedSize None 8192 3 demo_manager = (Inr (), m') \<and> manager_inv m' \<and> hasFixedSize m'
     \<and> length (freeResources m') = 3"
proof -
  have "manager_inv demo_manager" using demo_can_create by (simp add: can_create_def)
  from setFixedSize_policy [OF this, of None 8192 3] show ?thesis
    by (auto simp: demo_manager_eq)
qed

text \<open>
  \<open>totalCapacity\<close> is never updated. It is 0 in every well-formed manager, so
  \<open>setDynamicSize(n)\<close> allocates another \<open>n\<close> resources even when the manager already has more
  than that, and an exhausted manager always grows by 1024 and not by its capacity.
\<close>

theorem totalCapacity_never_updated:
  assumes "manager_inv m"
  shows "(0 < n \<and> n < 2 ^ 31 \<longrightarrow>
       setDynamicSize base n m = (Inr (), allocate base (nat n) (m\<lparr>hasFixedSize := False\<rparr>))
       \<and> length (addrs (snd (setDynamicSize base n m))) = length (addrs m) + nat n
       \<and> totalCapacity (snd (setDynamicSize base n m)) = 0)
    \<and> (\<not> hasFixedSize m \<and> freeResources m = [] \<longrightarrow> doGrow base m = Inr (allocate base 1024 m))"
proof (intro conjI impI)
  assume n: "0 < n \<and> n < 2 ^ 31"
  have z: "totalCapacity m = 0" by (rule manager_invD(7) [OF assms])
  show e: "setDynamicSize base n m = (Inr (), allocate base (nat n) (m\<lparr>hasFixedSize := False\<rparr>))"
    using n z by (simp add: setDynamicSize_def with_result_def doAllocate_def to_size_t_def)
  show "length (addrs (snd (setDynamicSize base n m))) = length (addrs m) + nat n"
    by (simp add: e allocate_def addrs_def Let_def)
  show "totalCapacity (snd (setDynamicSize base n m)) = 0"
    using z by (simp add: e allocate_def Let_def)
next
  assume "\<not> hasFixedSize m \<and> freeResources m = []"
  then show "doGrow base m = Inr (allocate base 1024 m)"
    using manager_invD(7) [OF assms] by (simp add: doGrow_def doAllocate_def kMinHandles_def to_size_t_def)
qed

theorem totalCapacity_never_updated_witness:
  "length (addrs (snd (setDynamicSize 8192 1 demo_manager))) = 3"
proof -
  have "manager_inv demo_manager" using demo_can_create by (simp add: can_create_def)
  note t = totalCapacity_never_updated [OF this, of 1 8192, THEN conjunct1, THEN mp,
      THEN conjunct2, THEN conjunct1]
  have "length (addrs demo_manager) = 2" by (simp add: demo_manager_eq addrs_def)
  with t show ?thesis by simp
qed

text \<open>
  Validation does not check that an address is the start of a resource. For every
  well-formed manager with resources of more than 16 bytes, the aligned address 16 bytes into its
  last pool is not a resource, yet a handle made of it is accepted whenever the bytes there read
  as a live resource of the same generation.
\<close>

theorem interior_handle_accepted:
  assumes "manager_inv m" "resourceStack m = (b, n) # ps" "16 < rsize m" "b + 16 \<notin> set (addrs m)"
    and "live r"
  defines "m' \<equiv> set_res (b + 16) r m"
  shows "manager_inv m' \<and> \<not> proper m' ((b + 16) OR ucast (generation r))
    \<and> validate m' ((b + 16) OR ucast (generation r)) = m_ptrObj r"
proof -
  have ok: "pool_ok (rsize m) (b, n)"
    using manager_invD(1) [OF assms(1), of "(b, n)"] assms(2) by (simp del: pool_ok.simps)
  have sz: "16 < n * rsize m" using ok assms(3) by (cases n) auto
  have u: "uint (b + 16) = uint b + 16" using uint_pool_addr [OF ok, of 16] sz by simp
  have e: "uint (b + word_of_nat (n * rsize m)) = uint b + int (n * rsize m)"
    by (rule uint_pool_addr [OF ok]) simp
  have al: "aligned16 (b + 16)" using ok by (simp add: aligned16_uint u)
  have nz: "b + 16 \<noteq> 0"
  proof
    assume "b + 16 = 0"
    with u uint_ge_0 [of b] show False by simp
  qed
  let ?h = "(b + 16) OR ucast (generation r)"
  have h0: "?h \<noteq> 0" using handle_resource [OF al, of "generation r"] nz by auto
  have g: "doGetResourceFromHandle ?h = b + 16"
    using h0 handle_resource [OF al, of "generation r"]
    by (simp only: doGetResourceFromHandle_def if_True not_False_eq_True)
  have man: "isManagedResource m' (b + 16)"
    using sz u e by (simp add: isManagedResource_def m'_def assms(2) word_le_def word_less_def
        del: of_nat_mult)
  have "getValidResource m' ?h = Some (b + 16)"
    using h0 man nz assms(5) gen_of_handle [OF al, of "generation r"]
    by (simp add: getValidResource_def g generation_gen_of m'_def)
  moreover have "manager_inv m'"
    using assms(1,4) unfolding manager_inv_def m'_def by (auto simp del: resource_ok.simps)
  ultimately show ?thesis using assms(4) g by (simp add: proper_def validate_def m'_def)
qed

theorem interior_handle_accepted_witness:
  "\<exists>m :: nat manager. manager_inv m \<and> \<not> proper m 4112 \<and> validate m 4112 = Some 5"
proof -
  have "manager_inv demo_manager" using demo_can_create by (simp add: can_create_def)
  from interior_handle_accepted [OF this, of 4096 2 "[]" "\<lparr>generation = 0, m_ptrObj = Some 5, m_refCount = 1\<rparr>"]
  show ?thesis
    by (auto simp: demo_manager_eq addrs_def pool_nodes_def upt_two live_def)
qed

end
