(* ===== verification/Core_Object.thy ===== *)
theory Core_Object
  imports Handle_Manager
begin

text \<open>
  Core objects: version numbers (\<open>src/nvcv/util/Version.hpp\<close>), the conversion of handles to
  objects (\<open>ICoreObject.hpp\<close>) and the owning pointer \<open>SharedCoreObj\<close> (\<open>SharedCoreObj.hpp\<close>),
  both under \<open>src/nvcv/src/priv\<close>.
\<close>

section \<open>Versions\<close>

datatype Version = Version (m_code: int)

definition make_version :: "int \<Rightarrow> int \<Rightarrow> int \<Rightarrow> int \<Rightarrow> Version option" where
  "make_version maj mnr pat twk =
     (if maj < 0 \<or> mnr < 0 \<or> mnr > 99 \<or> pat < 0 \<or> pat > 99 \<or> twk < 0 \<or> twk > 99 then None
      else Some (Version (maj * 1000000 + mnr * 10000 + pat * 100 + twk)))"

definition major :: "Version \<Rightarrow> int" where
  "major v = m_code v div 1000000"

definition minor :: "Version \<Rightarrow> int" where
  "minor v = (m_code v mod 1000000) div 10000"

definition patch :: "Version \<Rightarrow> int" where
  "patch v = (m_code v mod 10000) div 100"

definition tweak :: "Version \<Rightarrow> int" where
  "tweak v = m_code v mod 100"

definition Version_less :: "Version \<Rightarrow> Version \<Rightarrow> bool" where
  "Version_less v w \<longleftrightarrow> m_code v < m_code w"

definition Version_less_eq :: "Version \<Rightarrow> Version \<Rightarrow> bool" where
  "Version_less_eq v w \<longleftrightarrow> m_code v \<le> m_code w"

text \<open>The comparison operators of the class are the order of the type.\<close>

instantiation Version :: linorder
begin

definition less_eq_Version :: "Version \<Rightarrow> Version \<Rightarrow> bool" where
  "less_eq_Version = Version_less_eq"

definition less_Version :: "Version \<Rightarrow> Version \<Rightarrow> bool" where
  "less_Version = Version_less"

instance
  by standard (auto simp: less_eq_Version_def less_Version_def Version_less_eq_def Version_less_def intro: Version.expand)

end

lemma version_fields:
  assumes "make_version a b c d = Some v"
  shows "major v = a" "minor v = b" "patch v = c" "tweak v = d"
proof -
  have v: "m_code v = a * 1000000 + b * 10000 + c * 100 + d" and
    r: "0 \<le> b" "b \<le> 99" "0 \<le> c" "c \<le> 99" "0 \<le> d" "d \<le> 99"
    using assms by (auto simp: make_version_def split: if_splits)
  have m: "m_code v mod 1000000 = b * 10000 + (c * 100 + d)"
    "m_code v mod 10000 = c * 100 + d"
    using v r by (intro int_mod_pos_eq [where q = a] int_mod_pos_eq [where q = "a * 100 + b"]; simp)+
  show "major v = a" unfolding major_def
    by (rule int_div_pos_eq [where r = "b * 10000 + c * 100 + d"]) (use v r in simp_all)
  show "minor v = b" unfolding minor_def m
    by (rule int_div_pos_eq [where r = "c * 100 + d"]) (use r in simp_all)
  show "patch v = c" unfolding patch_def m
    by (rule int_div_pos_eq [where r = d]) (use r in simp_all)
  show "tweak v = d" unfolding tweak_def
    by (rule int_mod_pos_eq [where q = "a * 10000 + b * 100 + c"]) (use v r in simp_all)
qed

lemma lex_step:
  assumes "0 \<le> r" "r < k" "0 \<le> r'" "r' < (k :: int)"
  shows "a * k + r < a' * k + r' \<longleftrightarrow> a < a' \<or> a = a' \<and> r < r'"
proof (cases a a' rule: linorder_cases)
  case less
  then have "(a + 1) * k \<le> a' * k" using assms by (intro mult_right_mono) auto
  with less assms show ?thesis by (simp add: algebra_simps)
next
  case greater
  then have "(a' + 1) * k \<le> a * k" using assms by (intro mult_right_mono) auto
  with greater assms show ?thesis by (simp add: algebra_simps)
qed simp

text \<open>
  Version codes are faithful. The four parts come back from the code, distinct
  versions have distinct codes, and comparing codes compares the parts from major to tweak.
\<close>

theorem version_code_faithful:
  assumes "make_version a b c d = Some v" "make_version a' b' c' d' = Some w"
  shows "(major v, minor v, patch v, tweak v) = (a, b, c, d)
    \<and> (v = w \<longleftrightarrow> (a, b, c, d) = (a', b', c', d'))
    \<and> (v < w \<longleftrightarrow> a < a' \<or> a = a' \<and> (b < b' \<or> b = b' \<and> (c < c' \<or> c = c' \<and> d < d')))"
proof -
  have c: "m_code v = a * 1000000 + (b * 10000 + (c * 100 + d))"
      "m_code w = a' * 1000000 + (b' * 10000 + (c' * 100 + d'))" and
    r: "0 \<le> b" "b \<le> 99" "0 \<le> c" "c \<le> 99" "0 \<le> d" "d \<le> 99"
      "0 \<le> b'" "b' \<le> 99" "0 \<le> c'" "c' \<le> 99" "0 \<le> d'" "d' \<le> 99"
    using assms by (auto simp: make_version_def split: if_splits)
  have l: "m_code v < m_code w \<longleftrightarrow>
      a < a' \<or> a = a' \<and> b * 10000 + (c * 100 + d) < b' * 10000 + (c' * 100 + d')"
    "b * 10000 + (c * 100 + d) < b' * 10000 + (c' * 100 + d')
      \<longleftrightarrow> b < b' \<or> b = b' \<and> c * 100 + d < c' * 100 + d'"
    "c * 100 + d < c' * 100 + d' \<longleftrightarrow> c < c' \<or> c = c' \<and> d < d'"
    unfolding c by (rule lex_step; use r in linarith)+
  have "v < w \<longleftrightarrow> a < a' \<or> a = a' \<and> (b < b' \<or> b = b' \<and> (c < c' \<or> c = c' \<and> d < d'))"
    unfolding less_Version_def Version_less_def l ..
  moreover have "v = w \<longleftrightarrow> (a, b, c, d) = (a', b', c', d')"
  proof
    assume "v = w"
    then show "(a, b, c, d) = (a', b', c', d')"
      using version_fields [OF assms(1)] version_fields [OF assms(2)] by simp
  next
    assume "(a, b, c, d) = (a', b', c', d')"
    then show "v = w" using assms by (simp only: prod.inject option.inject)
  qed
  ultimately show ?thesis using version_fields [OF assms(1)] by simp
qed

theorem version_code_faithful_witness:
  "(Version 140000 < Version 1000000) = (0 < (1 :: int) \<or> False)"
proof -
  have "make_version 0 14 0 0 = Some (Version 140000)" "make_version 1 0 0 0 = Some (Version 1000000)"
    by (simp_all add: make_version_def)
  from version_code_faithful [OF this] show ?thesis by simp
qed

section \<open>From handles to objects\<close>

text \<open>
  \<open>version\<close> reads the virtual \<open>version()\<close> of an object; \<open>current\<close> is \<open>CURRENT_VERSION\<close>, which
  the build generates.
\<close>

definition ToCoreObjectPtr ::
    "('a \<Rightarrow> Version) \<Rightarrow> Version \<Rightarrow> 'a manager \<Rightarrow> handle \<Rightarrow> 'a option result" where
  "ToCoreObjectPtr version current mgr h =
     (case validate mgr h of
        Some core \<Rightarrow>
          if major (version core) = major current then Inr (Some core)
          else Inl (Throw NVCV_ERROR_NOT_COMPATIBLE)
      | None \<Rightarrow> Inr None)"

definition ToStaticRef :: "('a \<Rightarrow> Version) \<Rightarrow> Version \<Rightarrow> 'a manager \<Rightarrow> handle \<Rightarrow> 'a result" where
  "ToStaticRef version current mgr h =
     bind_result (ToCoreObjectPtr version current mgr h)
       (\<lambda>child. case child of None \<Rightarrow> Inl (Throw NVCV_ERROR_INVALID_ARGUMENT) | Some x \<Rightarrow> Inr x)"

text \<open>\<open>cast\<close> is the \<open>dynamic_cast\<close> to the requested class.\<close>

definition ToDynamicRef ::
    "('a \<Rightarrow> Version) \<Rightarrow> Version \<Rightarrow> ('a \<Rightarrow> 'b option) \<Rightarrow> 'a manager \<Rightarrow> handle \<Rightarrow> 'b result" where
  "ToDynamicRef version current cast mgr h =
     bind_result (ToCoreObjectPtr version current mgr h)
       (\<lambda>p. case Option.bind p cast of
          Some child \<Rightarrow> Inr child | None \<Rightarrow> Inl (Throw NVCV_ERROR_NOT_COMPATIBLE))"

section \<open>Shared pointers\<close>

text \<open>
  The shared pointers alive, each with the handle of its object (0 is a null pointer), beside
  the manager of the objects.
\<close>

record 'a shared_env =
  ptrs :: "handle list"
  mgr :: "'a manager"

definition shared_reset :: "nat \<Rightarrow> handle \<Rightarrow> 'a shared_env \<Rightarrow> int result \<times> 'a shared_env" where
  "shared_reset i h e =
     (if ptrs e ! i \<noteq> 0 then
        (case decRef (ptrs e ! i) (mgr e) of
           (Inl x, m) \<Rightarrow> (Inl x, e\<lparr>mgr := m\<rparr>)
         | (Inr n, m) \<Rightarrow> (Inr n, e\<lparr>ptrs := (ptrs e)[i := h], mgr := m\<rparr>))
      else (Inr 0, e\<lparr>ptrs := (ptrs e)[i := h]\<rparr>))"

definition shared_assign :: "nat \<Rightarrow> nat \<Rightarrow> 'a shared_env \<Rightarrow> int result \<times> 'a shared_env" where
  "shared_assign i j e =
     (let h = ptrs e ! j in
      if h \<noteq> 0 then
        (case incRef h (mgr e) of
           (Inl x, m) \<Rightarrow> (Inl x, e\<lparr>mgr := m\<rparr>)
         | (Inr _, m) \<Rightarrow> shared_reset i h (e\<lparr>mgr := m\<rparr>))
      else shared_reset i h e)"

definition shared_copy :: "nat \<Rightarrow> 'a shared_env \<Rightarrow> int result \<times> 'a shared_env" where
  "shared_copy j e = shared_assign (length (ptrs e)) j (e\<lparr>ptrs := ptrs e @ [0]\<rparr>)"

definition shared_release :: "nat \<Rightarrow> 'a shared_env \<Rightarrow> handle \<times> 'a shared_env" where
  "shared_release i e = (ptrs e ! i, e\<lparr>ptrs := (ptrs e)[i := 0]\<rparr>)"

definition shared_move_assign :: "nat \<Rightarrow> nat \<Rightarrow> 'a shared_env \<Rightarrow> int result \<times> 'a shared_env" where
  "shared_move_assign i j e = (let (h, e') = shared_release j e in shared_reset i h e')"

definition shared_destroy :: "nat \<Rightarrow> 'a shared_env \<Rightarrow> int result \<times> 'a shared_env" where
  "shared_destroy i e = shared_reset i 0 e"

definition shared_from_handle :: "handle \<Rightarrow> bool \<Rightarrow> 'a shared_env \<Rightarrow> int result \<times> 'a shared_env" where
  "shared_from_handle h incref e =
     (if h \<noteq> 0 then
        (if incref then
           (case incRef h (mgr e) of
              (Inl x, m) \<Rightarrow> (Inl x, e\<lparr>mgr := m\<rparr>)
            | (Inr n, m) \<Rightarrow> (Inr n, e\<lparr>ptrs := ptrs e @ [h], mgr := m\<rparr>))
         else (Inr 0, e\<lparr>ptrs := ptrs e @ [h]\<rparr>))
      else (Inr 0, e\<lparr>ptrs := ptrs e @ [0]\<rparr>))"

text \<open>
  Every reference is accounted for: the count of a valid handle is the number of shared pointers
  to it plus the references \<open>ext\<close> held elsewhere. No shared pointer dangles.
\<close>

definition shared_inv :: "(handle \<Rightarrow> nat) \<Rightarrow> 'a shared_env \<Rightarrow> bool" where
  "shared_inv ext e \<longleftrightarrow> manager_inv (mgr e)
     \<and> (\<forall>h\<in>set (ptrs e). h \<noteq> 0 \<longrightarrow> valid_handle (mgr e) h)
     \<and> (\<forall>h. valid_handle (mgr e) h \<longrightarrow>
           count_of (mgr e) h = int (ext h) + int (count_list (ptrs e) h))"

lemma count_list_update:
  "i < length xs \<Longrightarrow> int (count_list (xs[i := x]) h)
     = int (count_list xs h) - (if xs ! i = h then 1 else 0) + (if x = h then 1 else 0)"
proof (induction xs arbitrary: i)
  case (Cons y ys)
  show ?case
  proof (cases i)
    case (Suc k)
    with Cons.prems Cons.IH [of k] show ?thesis
      by (cases "ys ! k = h"; cases "x = h"; cases "y = h"; simp)
  qed simp
qed simp

lemma count_list_nth_pos: "i < length xs \<Longrightarrow> 1 \<le> count_list xs (xs ! i)"
  using count_list_0_iff [of xs "xs ! i"] by (cases "count_list xs (xs ! i)") auto

lemma valid_nonzero: "valid_handle m h \<Longrightarrow> h \<noteq> 0"
  by (auto simp: valid_handle_def getValidResource_def)

text \<open>Resetting a pointer to a handle whose reference has been taken already.\<close>

lemma reset_ok:
  assumes I: "manager_inv (mgr e)" and i: "i < length (ptrs e)"
    and v: "\<forall>h\<in>set (ptrs e). h \<noteq> 0 \<longrightarrow> valid_handle (mgr e) h"
    and new: "new \<noteq> 0 \<Longrightarrow> valid_handle (mgr e) new"
    and c: "\<And>h. valid_handle (mgr e) h \<Longrightarrow> count_of (mgr e) h
        = int (ext h) + int (count_list (ptrs e) h) + (if h = new then 1 else 0)"
  shows "\<exists>n. fst (shared_reset i new e) = Inr n \<and> shared_inv ext (snd (shared_reset i new e))"
proof (cases "ptrs e ! i = 0")
  case True
  have "valid_handle (mgr e) h \<Longrightarrow> count_of (mgr e) h
      = int (ext h) + int (count_list ((ptrs e)[i := new]) h)" for h
    using c [of h] True valid_nonzero [of "mgr e" h] by (simp add: count_list_update [OF i])
  moreover have "\<forall>h\<in>set ((ptrs e)[i := new]). h \<noteq> 0 \<longrightarrow> valid_handle (mgr e) h"
    using v new set_update_subset_insert by fastforce
  ultimately show ?thesis using I True by (simp add: shared_reset_def shared_inv_def)
next
  case False
  let ?old = "ptrs e ! i"
  define m where "m = snd (decRef ?old (mgr e))"
  have vo: "valid_handle (mgr e) ?old" using v False i by simp
  have pos: "1 \<le> count_of (mgr e) ?old" by (rule handles.count_pos [OF I vo])
  have D: "\<exists>n. fst (decRef ?old (mgr e)) = Inr n" "manager_inv m"
    "valid_handle m h \<longleftrightarrow> valid_handle (mgr e) h \<and> \<not> (h = ?old \<and> count_of (mgr e) ?old = 1)"
    "valid_handle m h \<Longrightarrow> count_of m h = count_of (mgr e) h - (if h = ?old then 1 else 0)" for h
    using handles.dec_shared [OF I vo, of h] handles.dec_last [OF I vo, of h] pos
    unfolding m_def by (cases "count_of (mgr e) ?old = 1"; auto)+
  obtain n where d: "decRef ?old (mgr e) = (Inr n, m)" using D(1) by (metis prod.collapse m_def)
  have cnt: "valid_handle m h \<Longrightarrow> count_of m h
      = int (ext h) + int (count_list ((ptrs e)[i := new]) h)" for h
    using D(3,4) [of h] c [of h] by (auto simp: count_list_update [OF i])
  have "valid_handle m h" if "h \<in> set ((ptrs e)[i := new])" "h \<noteq> 0" for h
  proof -
    have vh: "valid_handle (mgr e) h"
      using that v new set_update_subset_insert [of "ptrs e" i new] by auto
    moreover have "count_of (mgr e) ?old \<noteq> 1" if h: "h = ?old"
    proof -
      have "1 \<le> count_list ((ptrs e)[i := new]) ?old"
        using \<open>h \<in> set _\<close> h count_list_0_iff [of "(ptrs e)[i := new]" ?old]
        by (cases "count_list ((ptrs e)[i := new]) ?old") auto
      then show ?thesis using c [OF vo] count_list_update [OF i, of new ?old] 
        by (auto split: if_splits)
    qed
    ultimately show ?thesis using D(3) by blast
  qed
  then show ?thesis using D(2) d cnt False by (simp add: shared_reset_def shared_inv_def)
qed
datatype shared_op =
    SCopy nat
  | SAssign nat nat
  | SMove nat nat
  | SDestroy nat
  | SFromHandle handle

fun run_shared :: "shared_op \<Rightarrow> 'a shared_env \<Rightarrow> int result \<times> 'a shared_env" where
  "run_shared (SCopy j) e = shared_copy j e"
| "run_shared (SAssign i j) e = shared_assign i j e"
| "run_shared (SMove i j) e = shared_move_assign i j e"
| "run_shared (SDestroy i) e = shared_destroy i e"
| "run_shared (SFromHandle h) e = shared_from_handle h True e"

fun op_ok :: "'a shared_env \<Rightarrow> shared_op \<Rightarrow> bool" where
  "op_ok e (SCopy j) \<longleftrightarrow> j < length (ptrs e)"
| "op_ok e (SAssign i j) \<longleftrightarrow> i < length (ptrs e) \<and> j < length (ptrs e)"
| "op_ok e (SMove i j) \<longleftrightarrow> i < length (ptrs e) \<and> j < length (ptrs e)"
| "op_ok e (SDestroy i) \<longleftrightarrow> i < length (ptrs e)"
| "op_ok e (SFromHandle h) \<longleftrightarrow> h = 0 \<or> valid_handle (mgr e) h"

fun ptrs_after :: "shared_op \<Rightarrow> handle list \<Rightarrow> handle list" where
  "ptrs_after (SCopy j) vs = vs @ [vs ! j]"
| "ptrs_after (SAssign i j) vs = vs[i := vs ! j]"
| "ptrs_after (SMove i j) vs = vs[j := 0, i := vs ! j]"
| "ptrs_after (SDestroy i) vs = vs[i := 0]"
| "ptrs_after (SFromHandle h) vs = vs @ [h]"

lemma reset_ptrs:
  "fst (shared_reset i h e) = Inr n \<Longrightarrow> ptrs (snd (shared_reset i h e)) = (ptrs e)[i := h]"
  by (auto simp: shared_reset_def split: prod.splits sum.splits if_splits)

lemma assign_ok:
  assumes I: "shared_inv ext e" and ij: "i < length (ptrs e)" "j < length (ptrs e)"
    and sat: "\<And>h. valid_handle (mgr e) h \<Longrightarrow> count_of (mgr e) h + 1 < 2 ^ 31"
  shows "\<exists>n. fst (shared_assign i j e) = Inr n \<and> shared_inv ext (snd (shared_assign i j e))
    \<and> ptrs (snd (shared_assign i j e)) = (ptrs e)[i := ptrs e ! j]"
proof (cases "ptrs e ! j = 0")
  case True
  have "\<And>h. valid_handle (mgr e) h \<Longrightarrow> count_of (mgr e) h
        = int (ext h) + int (count_list (ptrs e) h) + (if h = 0 then 1 else 0)"
    using I valid_nonzero by (auto simp: shared_inv_def)
  from reset_ok [OF _ ij(1) _ _ this] I reset_ptrs [of i 0 e]
  show ?thesis by (auto simp: shared_assign_def True shared_inv_def)
next
  case False
  let ?h = "ptrs e ! j"
  have v: "valid_handle (mgr e) ?h" and m: "manager_inv (mgr e)"
    using I False ij(2) by (auto simp: shared_inv_def)
  note d = handles.inc_ok [OF m v sat [OF v]]
  obtain n m' where e: "incRef ?h (mgr e) = (Inr n, m')"
    using d [of ?h] by (cases "incRef ?h (mgr e)") auto
  let ?e = "e\<lparr>mgr := m'\<rparr>"
  have r: "\<exists>n. fst (shared_reset i ?h ?e) = Inr n \<and> shared_inv ext (snd (shared_reset i ?h ?e))"
    by (rule reset_ok) (use d e I ij v in \<open>auto simp: shared_inv_def\<close>)
  moreover have "shared_assign i j e = shared_reset i ?h ?e"
    using False e by (simp add: shared_assign_def Let_def)
  ultimately show ?thesis using reset_ptrs [of i ?h ?e] by auto
qed

lemma shared_inv_append_null: "shared_inv ext e \<Longrightarrow> shared_inv ext (e\<lparr>ptrs := ptrs e @ [0]\<rparr>)"
  using valid_nonzero by (fastforce simp: shared_inv_def)

lemma move_ok:
  assumes I: "shared_inv ext e" and ij: "i < length (ptrs e)" "j < length (ptrs e)"
  shows "\<exists>n. fst (shared_move_assign i j e) = Inr n \<and> shared_inv ext (snd (shared_move_assign i j e))
    \<and> ptrs (snd (shared_move_assign i j e)) = (ptrs e)[j := 0, i := ptrs e ! j]"
proof -
  let ?h = "ptrs e ! j" let ?e = "e\<lparr>ptrs := (ptrs e)[j := 0]\<rparr>"
  have r: "\<exists>n. fst (shared_reset i ?h ?e) = Inr n \<and> shared_inv ext (snd (shared_reset i ?h ?e))"
  proof (rule reset_ok)
    show "\<forall>h\<in>set (ptrs ?e). h \<noteq> 0 \<longrightarrow> valid_handle (mgr ?e) h"
      using I set_update_subset_insert [of "ptrs e" j 0] by (auto simp: shared_inv_def)
    show "count_of (mgr ?e) h
        = int (ext h) + int (count_list (ptrs ?e) h) + (if h = ?h then 1 else 0)"
      if "valid_handle (mgr ?e) h" for h
      using I that valid_nonzero [OF that] by (auto simp: shared_inv_def count_list_update [OF ij(2)])
  qed (use I ij in \<open>auto simp: shared_inv_def\<close>)
  then show ?thesis
    using reset_ptrs [of i ?h ?e] by (auto simp: shared_move_assign_def shared_release_def)
qed

lemma from_handle_ok:
  assumes I: "shared_inv ext e" and h: "h = 0 \<or> valid_handle (mgr e) h"
    and sat: "\<And>h. valid_handle (mgr e) h \<Longrightarrow> count_of (mgr e) h + 1 < 2 ^ 31"
  shows "\<exists>n. fst (shared_from_handle h True e) = Inr n
    \<and> shared_inv ext (snd (shared_from_handle h True e))
    \<and> ptrs (snd (shared_from_handle h True e)) = ptrs e @ [h]"
proof (cases "h = 0")
  case True
  then show ?thesis using shared_inv_append_null [OF I] by (simp add: shared_from_handle_def)
next
  case False
  with h have v: "valid_handle (mgr e) h" by simp
  have m: "manager_inv (mgr e)" using I by (simp add: shared_inv_def)
  note d = handles.inc_ok [OF m v sat [OF v]]
  obtain n m' where e: "incRef h (mgr e) = (Inr n, m')"
    using d [of h] by (cases "incRef h (mgr e)") auto
  have "shared_inv ext (e\<lparr>ptrs := ptrs e @ [h], mgr := m'\<rparr>)"
    using d e I v by (auto simp: shared_inv_def)
  then show ?thesis using False e by (simp add: shared_from_handle_def)
qed

text \<open>
  Property C3: shared pointers own what they point to. Copying, assigning (also to itself),
  moving (also onto itself), destroying and making shared pointers from handles succeed, change
  the pointers as written, and keep the accounting: the count of every object is the number of
  its shared pointers plus the references held elsewhere, so no pointer dangles, and an object
  nobody else references is destroyed with its last pointer.
\<close>

theorem shared_pointers_sound:
  assumes I: "shared_inv ext e" and ok: "op_ok e op"
    and sat: "\<forall>h. valid_handle (mgr e) h \<longrightarrow> count_of (mgr e) h + 1 < 2 ^ 31"
  shows "\<exists>n e'. run_shared op e = (Inr n, e') \<and> shared_inv ext e'
    \<and> ptrs e' = ptrs_after op (ptrs e)
    \<and> (\<forall>h. valid_handle (mgr e') h \<longrightarrow> 0 < ext h + count_list (ptrs e') h)"
proof -
  have "\<exists>n. fst (run_shared op e) = Inr n \<and> shared_inv ext (snd (run_shared op e))
    \<and> ptrs (snd (run_shared op e)) = ptrs_after op (ptrs e)"
  proof (cases op)
    case (SCopy j)
    let ?e = "e\<lparr>ptrs := ptrs e @ [0]\<rparr>"
    have "\<exists>n. fst (shared_assign (length (ptrs e)) j ?e) = Inr n
        \<and> shared_inv ext (snd (shared_assign (length (ptrs e)) j ?e))
        \<and> ptrs (snd (shared_assign (length (ptrs e)) j ?e)) = (ptrs ?e)[length (ptrs e) := ptrs ?e ! j]"
      using sat ok SCopy by (intro assign_ok shared_inv_append_null [OF I]) auto
    with ok SCopy show ?thesis by (simp add: shared_copy_def nth_append)
  next
    case (SAssign i j)
    with assign_ok [OF I, of i j] ok sat show ?thesis by simp
  next
    case (SMove i j)
    with move_ok [OF I, of i j] ok show ?thesis by simp
  next
    case (SDestroy i)
    have "\<exists>n. fst (shared_reset i 0 e) = Inr n \<and> shared_inv ext (snd (shared_reset i 0 e))"
      by (rule reset_ok) (use I ok SDestroy valid_nonzero in \<open>auto simp: shared_inv_def\<close>)
    with SDestroy reset_ptrs [of i 0 e] show ?thesis by (auto simp: shared_destroy_def)
  next
    case (SFromHandle h)
    with from_handle_ok [OF I, of h] ok sat show ?thesis by simp
  qed
  then obtain n e' where r: "run_shared op e = (Inr n, e')" "shared_inv ext e'"
      "ptrs e' = ptrs_after op (ptrs e)"
    by (metis prod.collapse)
  have "0 < ext h + count_list (ptrs e') h" if "valid_handle (mgr e') h" for h
    using r(2) that handles.count_pos [of "mgr e'" h] by (force simp: shared_inv_def)
  with r show ?thesis by blast
qed

lemma demo_only_handle: "valid_handle (demo_with x) h \<longleftrightarrow> h = 4097"
proof
  assume v: "valid_handle (demo_with x) h"
  have "live (res (demo_with x) (doGetResourceFromHandle h))"
    using v by (simp add: valid_handle_iff [OF demo_with(1)])
  then have "doGetResourceFromHandle h = 4096"
    by (auto simp: demo_create live_def fresh_resource_def split: if_splits)
  then show "h = 4097"
    using valid_same [OF demo_with(1) v demo_with(2)] demo_destroyed(3) by simp
qed (simp add: demo_with)

theorem shared_pointers_sound_witness:
  "\<exists>n e'. run_shared (SAssign 0 0) \<lparr>ptrs = [4097], mgr = demo_created\<rparr> = (Inr n, e')
     \<and> ptrs e' = [4097] \<and> valid_handle (mgr e') 4097"
proof -
  let ?e = "\<lparr>ptrs = [4097], mgr = demo_created\<rparr>"
  have "shared_inv (\<lambda>_. 0) ?e" using demo_created by (simp add: shared_inv_def demo_only_handle)
  moreover have "\<forall>h. valid_handle (mgr ?e) h \<longrightarrow> count_of (mgr ?e) h + 1 < 2 ^ 31"
    using demo_created(3) by (simp add: demo_only_handle)
  ultimately obtain n e' where "run_shared (SAssign 0 0) ?e = (Inr n, e')" "shared_inv (\<lambda>_. 0) e'"
      "ptrs e' = [4097]"
    using shared_pointers_sound [of "\<lambda>_. 0" ?e "SAssign 0 0"] by auto
  then show ?thesis by (auto simp: shared_inv_def)
qed



end
