(* ===== verification/Bitfield.thy ===== *)
theory Bitfield
  imports Nvcv_Prelude
begin

text \<open>
  Bit fields of 64-bit words (\<open>src/nvcv/src/priv/Bitfield.hpp\<close>) and the macros of
  \<open>include/nvcv/detail/FormatUtils.h\<close> that pack image formats and colour specifications. A code
  of a C enumeration is the 64-bit word it is converted to (so an enumerator \<open>-1\<close> is \<open>-1\<close>).

  A field that is read by \<open>ExtractBitfield\<close> and replaced under its mask is a lens; the lens laws
  are a locale, and each field of the later theories interprets it.
\<close>

type_synonym u64 = "64 word"

definition SetBitfield :: "u64 \<Rightarrow> nat \<Rightarrow> nat \<Rightarrow> u64" where
  "SetBitfield v off len = push_bit off (v AND (push_bit len 1 - 1))"

definition MaskBitfield :: "nat \<Rightarrow> nat \<Rightarrow> u64" where
  "MaskBitfield off len = SetBitfield (- 1) off len"

definition ExtractBitfield :: "u64 \<Rightarrow> nat \<Rightarrow> nat \<Rightarrow> u64" where
  "ExtractBitfield v off len = drop_bit off v AND (push_bit len 1 - 1)"

text \<open>Replacing a field: \<open>(w & ~MaskBitfield(off, len)) | SetBitfield(v, off, len)\<close>.\<close>

definition put_field :: "nat \<Rightarrow> nat \<Rightarrow> u64 \<Rightarrow> u64 \<Rightarrow> u64" where
  "put_field off len v w = (w AND NOT (MaskBitfield off len)) OR SetBitfield v off len"

section \<open>Bits of fields\<close>

lemma field_mask: "push_bit len 1 - 1 = (mask len :: u64)"
  by (simp add: mask_eq_exp_minus_1 push_bit_eq_mult)

lemma bit_u64: "bit (w :: u64) n \<Longrightarrow> n < 64"
  using bit_imp_le_length [of w n] by simp

lemma bit_SetBitfield [bit_facts]:
  "bit (SetBitfield v off len) n \<longleftrightarrow> n < 64 \<and> off \<le> n \<and> n < off + len \<and> bit v (n - off)"
  unfolding SetBitfield_def field_mask bit_push_bit_iff bit_and_iff bit_mask_iff possible_bit_def
  by (auto dest: bit_u64)

lemma bit_ExtractBitfield [bit_facts]:
  "bit (ExtractBitfield v off len) n \<longleftrightarrow> n < len \<and> bit v (off + n)"
  unfolding ExtractBitfield_def field_mask bit_drop_bit_eq bit_and_iff bit_mask_iff o_def
  by (auto dest: bit_u64)

lemma bit_MaskBitfield [bit_facts]:
  "bit (MaskBitfield off len) n \<longleftrightarrow> n < 64 \<and> off \<le> n \<and> n < off + len"
  unfolding MaskBitfield_def bit_SetBitfield by auto

lemma bit_put_field [bit_facts]:
  "bit (put_field off len v w) n \<longleftrightarrow>
     n < 64 \<and> (if off \<le> n \<and> n < off + len then bit v (n - off) else bit w n)"
  unfolding put_field_def bit_or_iff bit_and_iff bit_not_iff bit_MaskBitfield bit_SetBitfield
  using bit_u64 [of w n] by auto

lemma u64_eqI: "(\<And>n. n < 64 \<Longrightarrow> bit a n \<longleftrightarrow> bit b n) \<Longrightarrow> a = (b :: u64)"
  by (rule bit_eqI) simp

lemma Extract_put: "off + len \<le> 64 \<Longrightarrow> ExtractBitfield (put_field off len v w) off len = take_bit len v"
  by (rule u64_eqI) (auto simp: bit_facts bit_take_bit_iff)

lemma put_Extract: "put_field off len (ExtractBitfield w off len) w = w"
  by (rule u64_eqI) (auto simp: bit_facts)

lemma put_put: "put_field off len v (put_field off len u w) = put_field off len v w"
  by (rule u64_eqI) (auto simp: bit_facts)

lemma put_take: "put_field off len (take_bit len v) w = put_field off len v w"
  by (rule u64_eqI) (auto simp: bit_facts bit_take_bit_iff)

lemma Extract_put_other:
  "off' + len' \<le> off \<or> off + len \<le> off' \<Longrightarrow>
   ExtractBitfield (put_field off len v w) off' len' = ExtractBitfield w off' len'"
  by (rule u64_eqI) (auto simp: bit_facts dest: bit_u64)

lemma put_commute:
  "off' + len' \<le> off \<or> off + len \<le> off' \<Longrightarrow>
   put_field off len v (put_field off' len' u w) = put_field off' len' u (put_field off len v w)"
  by (rule u64_eqI) (auto simp: bit_facts)

lemma Extract_Set: "off + len \<le> 64 \<Longrightarrow> ExtractBitfield (SetBitfield v off len) off len = take_bit len v"
  by (rule u64_eqI) (auto simp: bit_facts bit_take_bit_iff)

lemma Extract_OR: "ExtractBitfield (a OR b) off len = ExtractBitfield a off len OR ExtractBitfield b off len"
  by (rule u64_eqI) (auto simp: bit_facts bit_or_iff)

lemma Extract_Set_other:
  "off' + len' \<le> off \<or> off + len \<le> off' \<Longrightarrow> ExtractBitfield (SetBitfield v off len) off' len' = 0"
  by (rule u64_eqI) (auto simp: bit_facts)

lemma take_bit_Set: "off + len \<le> k \<Longrightarrow> take_bit k (SetBitfield v off len) = SetBitfield v off len"
  by (rule u64_eqI) (auto simp: bit_facts bit_take_bit_iff)

section \<open>Fields as lenses\<close>

text \<open>\<open>width\<close> is the number of bits of the value that the field keeps.\<close>

locale field =
  fixes get :: "u64 \<Rightarrow> u64"
    and put :: "u64 \<Rightarrow> u64 \<Rightarrow> u64"
    and width :: nat
  assumes get_put: "get (put v w) = take_bit width v"
    and put_get: "put (get w) w = w"
    and put_put: "put v (put u w) = put v w"
    and put_take: "put (take_bit width v) w = put v w"
begin

lemma put_same: "get w = take_bit width v \<Longrightarrow> put v w = w"
  by (metis put_get put_take)

lemma put_inject: "put v w = put u w \<longleftrightarrow> take_bit width v = take_bit width u"
  by (metis get_put put_take)

lemma get_put_fits: "take_bit width v = v \<Longrightarrow> get (put v w) = v"
  by (simp add: get_put)

lemma width_get: "take_bit width (get w) = get w"
  by (metis get_put put_get)

end

lemma field_at: "off + len \<le> 64 \<Longrightarrow> field (\<lambda>w. ExtractBitfield w off len) (put_field off len) len"
  by unfold_locales (simp_all add: Extract_put put_Extract put_put put_take)

section \<open>Encoding macros\<close>

definition ENCODE_BPP :: "int \<Rightarrow> int" where
  "ENCODE_BPP bpp =
     (if bpp \<le> 8 then 0
      else if bpp \<le> 32 then bpp div 8 - 1
      else if bpp \<le> 64 then bpp div 16 + 1
      else if bpp \<le> 128 then bpp div 32 + 3
      else bpp div 64 + 5)"

definition BPP_NCH :: "int \<Rightarrow> int \<Rightarrow> u64" where
  "BPP_NCH bpp chcount =
     SetBitfield (word_of_int (ENCODE_BPP bpp)) 6 4 OR SetBitfield (word_of_int (chcount - 1)) 4 2
     OR SetBitfield (if bpp \<le> 2 then word_of_int bpp else if bpp = 4 then 3 else if bpp = 8 then 4 else 0) 0 4"

definition MAKE_SWIZZLE :: "u64 \<Rightarrow> u64 \<Rightarrow> u64 \<Rightarrow> u64 \<Rightarrow> u64" where
  "MAKE_SWIZZLE x y z w =
     SetBitfield x 0 3 OR SetBitfield y 3 3 OR SetBitfield z 6 3 OR SetBitfield w 9 3"

definition ADJUST_BPP_ENCODING :: "u64 \<Rightarrow> u64 \<Rightarrow> nat \<Rightarrow> u64" where
  "ADJUST_BPP_ENCODING pack bpp packlen = (if packlen = 0 \<and> bpp = 0 \<and> pack = 4 then - 1 else bpp)"

definition ENCODE_PACKING :: "u64 \<Rightarrow> nat \<Rightarrow> nat \<Rightarrow> nat \<Rightarrow> u64" where
  "ENCODE_PACKING p chlen packlen bpplen =
     SetBitfield (ADJUST_BPP_ENCODING (ExtractBitfield p 0 4) (ExtractBitfield p 6 4) packlen)
       (packlen + chlen) bpplen
     OR SetBitfield (ExtractBitfield p 4 2) packlen chlen
     OR SetBitfield (ExtractBitfield p 0 4) 0 packlen"

definition EXTRACT_PACKING_CHANNELS :: "u64 \<Rightarrow> u64" where
  "EXTRACT_PACKING_CHANNELS p = ExtractBitfield p 4 2 + 1"

definition MAKE_COLOR_SPEC :: "u64 \<Rightarrow> u64 \<Rightarrow> u64 \<Rightarrow> u64 \<Rightarrow> u64 \<Rightarrow> u64 \<Rightarrow> u64" where
  "MAKE_COLOR_SPEC cspace encoding xferfunc rng lochoriz locvert =
     SetBitfield cspace 0 3 OR SetBitfield xferfunc 3 4 OR SetBitfield encoding 7 3
     OR SetBitfield lochoriz 10 2 OR SetBitfield locvert 12 2 OR SetBitfield rng 14 1"

lemma bit_ENCODE_PACKING [bit_facts]:
  "bit (ENCODE_PACKING p chlen packlen bpplen) n \<longleftrightarrow>
     n < 64 \<and> (if n < packlen then n < 4 \<and> bit p n
       else if n < packlen + chlen then n - packlen < 2 \<and> bit p (4 + (n - packlen))
       else n < packlen + chlen + bpplen \<and>
         bit (ADJUST_BPP_ENCODING (ExtractBitfield p 0 4) (ExtractBitfield p 6 4) packlen)
           (n - (packlen + chlen)))"
  unfolding ENCODE_PACKING_def bit_or_iff bit_SetBitfield bit_ExtractBitfield by auto

end
