(* ===== verification/Color_Spec.thy ===== *)
theory Color_Spec
  imports Bitfield
begin

text \<open>
  Colour specifications (\<open>src/nvcv/src/priv/ColorSpec.cpp\<close> and the enumerations of
  \<open>include/nvcv/ColorSpec.h\<close>): a 15-bit word with six fields, their getters and setters, and the
  chroma subsampling schemes.
\<close>

section \<open>Enumerations\<close>

abbreviation (input) "NVCV_COLOR_MODEL_UNDEFINED \<equiv> (0 :: u64)"
abbreviation (input) "NVCV_COLOR_MODEL_YCbCr \<equiv> (1 :: u64)"
abbreviation (input) "NVCV_COLOR_MODEL_RGB \<equiv> (2 :: u64)"
abbreviation (input) "NVCV_COLOR_MODEL_RAW \<equiv> (9 :: u64)"
abbreviation (input) "NVCV_COLOR_MODEL_XYZ \<equiv> (10 :: u64)"
abbreviation (input) "NVCV_COLOR_MODEL_HSV \<equiv> (11 :: u64)"
abbreviation (input) "NVCV_COLOR_MODEL_CMYK \<equiv> (12 :: u64)"
abbreviation (input) "NVCV_COLOR_MODEL_YCCK \<equiv> (13 :: u64)"

abbreviation (input) "NVCV_COLOR_SPACE_BT709 \<equiv> (1 :: u64)"
abbreviation (input) "NVCV_YCbCr_ENC_UNDEFINED \<equiv> (0 :: u64)"
abbreviation (input) "NVCV_COLOR_XFER_LINEAR \<equiv> (0 :: u64)"
abbreviation (input) "NVCV_COLOR_XFER_sRGB \<equiv> (1 :: u64)"
abbreviation (input) "NVCV_COLOR_RANGE_FULL \<equiv> (0 :: u64)"
abbreviation (input) "NVCV_CHROMA_LOC_BOTH \<equiv> (0 :: u64)"

abbreviation (input) "NVCV_CSS_NONE \<equiv> (0 :: u64)"
abbreviation (input) "NVCV_CSS_444 \<equiv> (0 :: u64)"
abbreviation (input) "NVCV_CSS_422 \<equiv> (1 :: u64)"
abbreviation (input) "NVCV_CSS_422R \<equiv> (2 :: u64)"
abbreviation (input) "NVCV_CSS_411 \<equiv> (3 :: u64)"
abbreviation (input) "NVCV_CSS_411R \<equiv> (4 :: u64)"
abbreviation (input) "NVCV_CSS_420 \<equiv> (5 :: u64)"
abbreviation (input) "NVCV_CSS_410 \<equiv> (6 :: u64)"
abbreviation (input) "NVCV_CSS_410R \<equiv> (7 :: u64)"

definition NVCV_COLOR_SPEC_UNDEFINED :: u64 where
  "NVCV_COLOR_SPEC_UNDEFINED = MAKE_COLOR_SPEC NVCV_COLOR_SPACE_BT709 NVCV_YCbCr_ENC_UNDEFINED
     NVCV_COLOR_XFER_LINEAR NVCV_COLOR_RANGE_FULL NVCV_CHROMA_LOC_BOTH NVCV_CHROMA_LOC_BOTH"

section \<open>Fields\<close>

record ChromaLoc =
  horiz :: u64
  vert :: u64

definition ColorSpec :: "u64 \<Rightarrow> u64 \<Rightarrow> u64 \<Rightarrow> u64 \<Rightarrow> ChromaLoc \<Rightarrow> u64" where
  "ColorSpec cspace encoding xferfunc rng loc =
     MAKE_COLOR_SPEC cspace encoding xferfunc rng (horiz loc) (vert loc)"

definition colorSpace :: "u64 \<Rightarrow> u64" where
  "colorSpace s = ExtractBitfield s 0 3"

definition set_colorSpace :: "u64 \<Rightarrow> u64 \<Rightarrow> u64" where
  "set_colorSpace v s = (s AND NOT (MaskBitfield 0 3)) OR SetBitfield v 0 3"

definition YCbCrEncoding :: "u64 \<Rightarrow> u64" where
  "YCbCrEncoding s = ExtractBitfield s 7 3"

definition set_YCbCrEncoding :: "u64 \<Rightarrow> u64 \<Rightarrow> u64" where
  "set_YCbCrEncoding v s = (s AND NOT (MaskBitfield 7 3)) OR SetBitfield v 7 3"

definition xferFunc :: "u64 \<Rightarrow> u64" where
  "xferFunc s = ExtractBitfield s 3 4"

definition set_xferFunc :: "u64 \<Rightarrow> u64 \<Rightarrow> u64" where
  "set_xferFunc v s = (s AND NOT (MaskBitfield 3 4)) OR SetBitfield v 3 4"

definition colorRange :: "u64 \<Rightarrow> u64" where
  "colorRange s = ExtractBitfield s 14 1"

definition set_colorRange :: "u64 \<Rightarrow> u64 \<Rightarrow> u64" where
  "set_colorRange v s = (s AND NOT (MaskBitfield 14 1)) OR SetBitfield v 14 1"

definition chromaLoc :: "u64 \<Rightarrow> ChromaLoc" where
  "chromaLoc s = \<lparr>horiz = ExtractBitfield s 10 2, vert = ExtractBitfield s 12 2\<rparr>"

definition set_chromaLoc :: "ChromaLoc \<Rightarrow> u64 \<Rightarrow> u64" where
  "set_chromaLoc loc s =
     ((s AND NOT (MaskBitfield 10 4)) OR SetBitfield (horiz loc) 10 2) OR SetBitfield (vert loc) 12 2"

lemmas colorspec_getters = colorSpace_def YCbCrEncoding_def xferFunc_def colorRange_def chromaLoc_def

lemma set_chromaLoc_put:
  "set_chromaLoc loc s = put_field 12 2 (vert loc) (put_field 10 2 (horiz loc) s)"
  by (rule u64_eqI)
    (auto simp: set_chromaLoc_def bit_facts bit_or_iff bit_and_iff bit_not_iff possible_bit_def)

lemmas colorspec_setters =
  set_colorSpace_def [folded put_field_def] set_YCbCrEncoding_def [folded put_field_def]
  set_xferFunc_def [folded put_field_def] set_colorRange_def [folded put_field_def]
  set_chromaLoc_put

interpretation cspace: field colorSpace set_colorSpace 3
  using field_at [of 0 3] unfolding colorspec_getters colorspec_setters field_def by simp

interpretation cenc: field YCbCrEncoding set_YCbCrEncoding 3
  using field_at [of 7 3] unfolding colorspec_getters colorspec_setters field_def by simp

interpretation cxfer: field xferFunc set_xferFunc 4
  using field_at [of 3 4] unfolding colorspec_getters colorspec_setters field_def by simp

interpretation crange: field colorRange set_colorRange 1
  using field_at [of 14 1] unfolding colorspec_getters colorspec_setters field_def by simp

text \<open>
  Building a colour specification. Every getter returns the component it was built
  from, cut to the width of its field: 3 bits for colour space and encoding, 4 for the transfer
  function, 2 for each chroma location, 1 for the range; the word has no bit above the 15th.
\<close>

theorem ColorSpec_components:
  "colorSpace (ColorSpec a b c d l) = take_bit 3 a \<and> YCbCrEncoding (ColorSpec a b c d l) = take_bit 3 b
   \<and> xferFunc (ColorSpec a b c d l) = take_bit 4 c \<and> colorRange (ColorSpec a b c d l) = take_bit 1 d
   \<and> chromaLoc (ColorSpec a b c d l) = \<lparr>horiz = take_bit 2 (horiz l), vert = take_bit 2 (vert l)\<rparr>
   \<and> take_bit 15 (ColorSpec a b c d l) = ColorSpec a b c d l"
proof -
  have "take_bit 15 (ColorSpec a b c d l) = ColorSpec a b c d l"
    by (simp add: ColorSpec_def MAKE_COLOR_SPEC_def take_bit_Set take_bit_or)
  then show ?thesis
    by (simp add: colorspec_getters ColorSpec_def MAKE_COLOR_SPEC_def Extract_OR Extract_Set
        Extract_Set_other)
qed

text \<open>
  The setters of a colour specification replace their own component and no other,
  and setting a component to its current value changes nothing.
\<close>

theorem ColorSpec_setters:
  "colorSpace (set_colorSpace v s) = take_bit 3 v \<and> YCbCrEncoding (set_YCbCrEncoding v s) = take_bit 3 v
   \<and> xferFunc (set_xferFunc v s) = take_bit 4 v \<and> colorRange (set_colorRange v s) = take_bit 1 v
   \<and> chromaLoc (set_chromaLoc l s) = \<lparr>horiz = take_bit 2 (horiz l), vert = take_bit 2 (vert l)\<rparr>
   \<and> (\<forall>g \<in> {YCbCrEncoding, xferFunc, colorRange}. g (set_colorSpace v s) = g s)
   \<and> (\<forall>g \<in> {colorSpace, xferFunc, colorRange}. g (set_YCbCrEncoding v s) = g s)
   \<and> (\<forall>g \<in> {colorSpace, YCbCrEncoding, colorRange}. g (set_xferFunc v s) = g s)
   \<and> (\<forall>g \<in> {colorSpace, YCbCrEncoding, xferFunc}. g (set_colorRange v s) = g s)
   \<and> (\<forall>g \<in> {colorSpace, YCbCrEncoding, xferFunc, colorRange}. g (set_chromaLoc l s) = g s)
   \<and> (\<forall>f \<in> {set_colorSpace v, set_YCbCrEncoding v, set_xferFunc v, set_colorRange v}.
        chromaLoc (f s) = chromaLoc s)
   \<and> set_colorSpace (colorSpace s) s = s \<and> set_YCbCrEncoding (YCbCrEncoding s) s = s
   \<and> set_xferFunc (xferFunc s) s = s \<and> set_colorRange (colorRange s) s = s"
  using cspace.get_put cspace.put_get cenc.get_put cenc.put_get cxfer.get_put cxfer.put_get
    crange.get_put crange.put_get
  by (simp add: colorspec_setters colorspec_getters Extract_put_other Extract_put)

theorem ColorSpec_setters_witness:
  "colorRange (set_xferFunc 5 NVCV_COLOR_SPEC_UNDEFINED) = colorRange NVCV_COLOR_SPEC_UNDEFINED"
  using ColorSpec_setters [of 5 NVCV_COLOR_SPEC_UNDEFINED] by blast

section \<open>Chroma subsampling\<close>

definition MakeNVCVChromaSubsampling :: "int \<Rightarrow> int \<Rightarrow> u64 result" where
  "MakeNVCVChromaSubsampling samplesHoriz samplesVert =
     (if samplesHoriz = 4 \<and> samplesVert = 4 then Inr NVCV_CSS_444
      else if samplesHoriz = 4 \<and> samplesVert = 2 then Inr NVCV_CSS_422R
      else if samplesHoriz = 4 \<and> samplesVert = 1 then Inr NVCV_CSS_411R
      else if samplesHoriz = 2 \<and> samplesVert = 4 then Inr NVCV_CSS_422
      else if samplesHoriz = 2 \<and> samplesVert = 2 then Inr NVCV_CSS_420
      else if samplesHoriz = 2 \<and> samplesVert = 1 then Inr NVCV_CSS_410R
      else if samplesHoriz = 1 \<and> samplesVert = 1 then Inr NVCV_CSS_444
      else if samplesHoriz = 1 \<and> samplesVert = 2 then Inr NVCV_CSS_410
      else if samplesHoriz = 1 \<and> samplesVert = 4 then Inr NVCV_CSS_411
      else Inl (Throw NVCV_ERROR_INVALID_ARGUMENT))"

definition GetChromaSamples :: "u64 \<Rightarrow> (int \<times> int) result" where
  "GetChromaSamples css =
     (if css = NVCV_CSS_444 then Inr (4, 4)
      else if css = NVCV_CSS_422R then Inr (4, 2)
      else if css = NVCV_CSS_411R then Inr (4, 1)
      else if css = NVCV_CSS_410R then Inr (2, 1)
      else if css = NVCV_CSS_422 then Inr (2, 4)
      else if css = NVCV_CSS_420 then Inr (2, 2)
      else if css = NVCV_CSS_411 then Inr (1, 4)
      else if css = NVCV_CSS_410 then Inr (1, 2)
      else Inl (Throw NVCV_ERROR_INVALID_ARGUMENT))"

definition NeedsColorspec :: "u64 \<Rightarrow> bool result" where
  "NeedsColorspec cmodel =
     (if cmodel = NVCV_COLOR_MODEL_YCbCr \<or> cmodel = NVCV_COLOR_MODEL_RGB then Inr True
      else if cmodel \<in> set [NVCV_COLOR_MODEL_UNDEFINED, NVCV_COLOR_MODEL_RAW, NVCV_COLOR_MODEL_XYZ,
          NVCV_COLOR_MODEL_HSV, NVCV_COLOR_MODEL_CMYK, NVCV_COLOR_MODEL_YCCK] then Inr False
      else Inl (Throw NVCV_ERROR_INVALID_ARGUMENT))"

text \<open>The samples per four pixels that a scheme keeps, as a function of a valid code.\<close>

lemma GetChromaSamples_bounds:
  "GetChromaSamples css = Inr (h, v) \<Longrightarrow> h \<in> {1, 2, 4} \<and> v \<in> {1, 2, 4}"
  by (auto simp: GetChromaSamples_def split: if_splits)

text \<open>
  Subsampling schemes and sample counts. Each of the eight schemes has sample
  counts from which the same scheme is made again; conversely the counts of a made scheme are
  the given ones, except that one by one samples make the scheme 4:4:4; all other counts, and
  all other codes, are rejected.
\<close>

theorem chroma_subsampling_roundtrip:
  "(\<forall>css hv. GetChromaSamples css = Inr hv \<longrightarrow> MakeNVCVChromaSubsampling (fst hv) (snd hv) = Inr css)
   \<and> (\<forall>h v css. MakeNVCVChromaSubsampling h v = Inr css \<longrightarrow>
        GetChromaSamples css = Inr (if (h, v) = (1, 1) then (4, 4) else (h, v)))
   \<and> (\<forall>h v. MakeNVCVChromaSubsampling h v = Inl (Throw NVCV_ERROR_INVALID_ARGUMENT)
        \<longleftrightarrow> \<not> (h \<in> {1, 2, 4} \<and> v \<in> {1, 2, 4}))
   \<and> (\<forall>css. GetChromaSamples css = Inl (Throw NVCV_ERROR_INVALID_ARGUMENT) \<longleftrightarrow> 7 < css)"
proof (intro conjI allI impI)
  fix css :: u64
  show "GetChromaSamples css = Inl (Throw NVCV_ERROR_INVALID_ARGUMENT) \<longleftrightarrow> 7 < css"
  proof
    assume "7 < css"
    then show "GetChromaSamples css = Inl (Throw NVCV_ERROR_INVALID_ARGUMENT)"
      by (auto simp: GetChromaSamples_def)
  next
    assume e: "GetChromaSamples css = Inl (Throw NVCV_ERROR_INVALID_ARGUMENT)"
    show "7 < css"
    proof (rule ccontr)
      assume "\<not> 7 < css"
      then have "unat css \<le> 7" by (simp add: word_less_nat_alt)
      then have "unat css \<in> {0, 1, 2, 3, 4, 5, 6, 7}" by auto
      then have "css \<in> {0, 1, 2, 3, 4, 5, 6, 7}"
        by (auto simp: unat_eq_0 dest!: arg_cong [where f = "word_of_nat :: nat \<Rightarrow> u64"])
      with e show False by (auto simp: GetChromaSamples_def)
    qed
  qed
next
  fix css hv
  assume "GetChromaSamples css = Inr hv"
  then show "MakeNVCVChromaSubsampling (fst hv) (snd hv) = Inr css"
    unfolding GetChromaSamples_def
    by (cases hv) (simp split: if_split_asm; simp add: MakeNVCVChromaSubsampling_def)
next
  fix h v css
  assume "MakeNVCVChromaSubsampling h v = Inr css"
  then show "GetChromaSamples css = Inr (if (h, v) = (1, 1) then (4, 4) else (h, v))"
    unfolding MakeNVCVChromaSubsampling_def
    by (simp split: if_split_asm; simp add: GetChromaSamples_def)
next
  fix h v
  show "MakeNVCVChromaSubsampling h v = Inl (Throw NVCV_ERROR_INVALID_ARGUMENT)
      \<longleftrightarrow> \<not> (h \<in> {1, 2, 4} \<and> v \<in> {1, 2, 4})"
    by (auto simp: MakeNVCVChromaSubsampling_def)
qed

theorem chroma_subsampling_roundtrip_witness:
  "MakeNVCVChromaSubsampling 2 2 = Inr NVCV_CSS_420 \<and> GetChromaSamples NVCV_CSS_420 = Inr (2, 2)"
proof -
  have "GetChromaSamples NVCV_CSS_420 = Inr (2, 2)" by (simp add: GetChromaSamples_def)
  with chroma_subsampling_roundtrip [THEN conjunct1, rule_format, of NVCV_CSS_420 "(2, 2)"]
  show ?thesis by simp
qed

end
