(* ===== verification/Int_Math.thy ===== *)
theory Int_Math
  imports Nvcv_Prelude
begin

text \<open>
  The integer helpers of \<open>src/nvcv/util/Math.hpp\<close>. The C++ functions are templates over an
  integral type; here a value is the mathematical integer the variable holds, and the width of
  the type is an argument where the code depends on it (\<open>sizeof(T) * 8\<close>). Shifts of
  non-negative values and the bit operations then agree with the machine's. The lemmas relate
  each bit trick to the division it replaces.
\<close>

section \<open>The functions\<close>

definition RoundUp :: "int \<Rightarrow> int \<Rightarrow> int" where
  "RoundUp value multiple = (value + multiple - 1) div multiple * multiple"

definition IsPowerOfTwo :: "int \<Rightarrow> bool" where
  "IsPowerOfTwo value \<longleftrightarrow> value AND (value - 1) = 0"

text \<open>The unrolled loop \<open>for (i = 1; i < sizeof(T) * 8; i <<= 1) x = x | (x >> i)\<close>.\<close>

function smear_right :: "nat \<Rightarrow> nat \<Rightarrow> int \<Rightarrow> int" where
  "smear_right w i x =
     (if 0 < i \<and> i < w then smear_right w (2 * i) (x OR drop_bit i x) else x)"
  by pat_completeness auto
termination
  by (relation "measure (\<lambda>(w, i, x). w - i)") auto

declare smear_right.simps [simp del]

definition RoundUpNextPowerOfTwo :: "nat \<Rightarrow> int \<Rightarrow> int" where
  "RoundUpNextPowerOfTwo w x = smear_right w 1 (x - 1) + 1"

definition DivUp :: "int \<Rightarrow> int \<Rightarrow> int" where
  "DivUp num den = (num + (den - 1)) div den"

definition RoundUpPowerOfTwo :: "int \<Rightarrow> int \<Rightarrow> int" where
  "RoundUpPowerOfTwo value multiple = (value + (multiple - 1)) AND - multiple"

text \<open>\<open>__builtin_clz\<close> on a \<open>w\<close>-bit value: the zero bits above the highest one.\<close>

definition builtin_clz :: "nat \<Rightarrow> int \<Rightarrow> nat" where
  "builtin_clz w x = length (takeWhile (\<lambda>i. \<not> bit x i) (rev [0..<w]))"

definition ILog2 :: "nat \<Rightarrow> int \<Rightarrow> nat" where
  "ILog2 w value = w - builtin_clz w value - 1"

definition DivUpPowerOfTwo :: "nat \<Rightarrow> int \<Rightarrow> int \<Rightarrow> int" where
  "DivUpPowerOfTwo w num den =
     drop_bit (ILog2 w den) num + (if num AND (den - 1) \<noteq> 0 then 1 else 0)"

section \<open>The highest bit\<close>

lemma takeWhile_rev_upt:
  assumes "k < w" and "P k" and "\<And>j. k < j \<Longrightarrow> j < w \<Longrightarrow> \<not> P j"
  shows "length (takeWhile (\<lambda>i. \<not> P i) (rev [0..<w])) = w - k - 1"
  using assms
proof (induction w)
  case 0
  then show ?case by simp
next
  case (Suc w)
  show ?case
  proof (cases "k = w")
    case True
    with Suc.prems show ?thesis by simp
  next
    case False
    with Suc.prems have "length (takeWhile (\<lambda>i. \<not> P i) (rev [0..<w])) = w - k - 1"
      by (intro Suc.IH) auto
    with False Suc.prems show ?thesis by auto
  qed
qed

lemma bit_high:
  assumes "2 ^ k \<le> x" and "(x::int) < 2 ^ Suc k"
  shows "bit x k" and "k < j \<Longrightarrow> \<not> bit x j"
proof -
  have "x div 2 ^ k = 1"
    using assms by (intro int_div_pos_eq [where r = "x - 2 ^ k"]) auto
  then show "bit x k"
    by (simp add: bit_iff_odd)
  show "\<not> bit x j" if "k < j"
  proof -
    have "x < 2 ^ j"
      using assms(2) that by (meson Suc_leI less_le_trans one_le_numeral power_increasing)
    moreover have "0 \<le> x"
      using assms(1) by (meson order_trans zero_le_numeral zero_le_power)
    ultimately show ?thesis
      by (simp add: bit_iff_odd)
  qed
qed

lemma ILog2_eq:
  assumes "2 ^ k \<le> x" and "x < 2 ^ Suc k" and "k < w"
  shows "ILog2 w x = k"
  using takeWhile_rev_upt [of k w "bit x"] bit_high [OF assms(1,2)] assms(3)
  by (simp add: ILog2_def builtin_clz_def)

lemma power_bracket:
  assumes "0 < (x::int)"
  obtains k where "2 ^ k \<le> x" and "x < 2 ^ Suc k"
proof -
  have "1 \<le> nat x"
    using assms by simp
  then obtain k where "2 ^ k \<le> nat x \<and> nat x < 2 ^ (k + 1)"
    using ex_power_ivl1 [of 2 "nat x"] by auto
  then have "2 ^ k \<le> x" and "x < 2 ^ Suc k"
    using assms by (simp_all add: nat_le_iff le_nat_iff nat_less_iff power_Suc)
  then show ?thesis by (rule that)
qed

lemma ILog2_exp [simp]: "k < w \<Longrightarrow> ILog2 w (2 ^ k) = k"
  by (rule ILog2_eq) simp_all

lemma ILog2_bounds:
  assumes "0 < x" and "x < 2 ^ w"
  shows "2 ^ ILog2 w x \<le> x \<and> x < 2 ^ Suc (ILog2 w x)"
proof -
  obtain k where k: "2 ^ k \<le> x" "x < 2 ^ Suc k"
    using assms(1) by (rule power_bracket)
  have "(2::int) ^ k < 2 ^ w"
    using k(1) assms(2) by linarith
  then have "k < w"
    by simp
  with k show ?thesis
    by (simp add: ILog2_eq)
qed

section \<open>Powers of two\<close>

lemma IsPowerOfTwo_exp [simp]: "IsPowerOfTwo (2 ^ k)"
  by (simp add: IsPowerOfTwo_def mask_AND_int)

lemma IsPowerOfTwo_zero: "IsPowerOfTwo 0"
  by (simp add: IsPowerOfTwo_def)

lemma IsPowerOfTwo_posD:
  assumes "IsPowerOfTwo x" and "0 < x"
  obtains k where "x = 2 ^ k"
proof -
  obtain k where k: "2 ^ k \<le> x" "x < 2 ^ Suc k"
    using assms(2) by (rule power_bracket)
  have "x = 2 ^ k"
  proof (rule ccontr)
    assume "x \<noteq> 2 ^ k"
    with k have "bit (x - 1) k"
      by (intro bit_high(1)) auto
    moreover have "bit x k"
      using k by (rule bit_high(1))
    ultimately have "bit (x AND (x - 1)) k"
      by (simp add: bit_and_iff)
    with assms(1) show False
      by (simp add: IsPowerOfTwo_def)
  qed
  then show ?thesis by (rule that)
qed

lemma RoundUpPowerOfTwo_exp: "RoundUpPowerOfTwo v (2 ^ k) = RoundUp v (2 ^ k)"
  by (simp add: RoundUpPowerOfTwo_def RoundUp_def AND_minus_exp_int algebra_simps
      minus_mod_eq_div_mult [symmetric])

lemma RoundUp_ge: "0 < m \<Longrightarrow> v \<le> RoundUp v m"
  using pos_mod_bound [of m "v + m - 1"] minus_mod_eq_div_mult [of "v + m - 1" m]
  unfolding RoundUp_def by linarith

lemma RoundUp_less: "0 < m \<Longrightarrow> RoundUp v m < v + m"
  using pos_mod_sign [of m "v + m - 1"] minus_mod_eq_div_mult [of "v + m - 1" m]
  unfolding RoundUp_def by linarith

lemma RoundUp_dvd [simp]: "m dvd RoundUp v m"
  by (simp add: RoundUp_def)

lemma RoundUp_fixed:
  assumes "0 < m"
  shows "RoundUp v m = v \<longleftrightarrow> m dvd v"
proof
  assume "RoundUp v m = v"
  then show "m dvd v" using RoundUp_dvd [of m v] by simp
next
  assume "m dvd v"
  then have "m dvd RoundUp v m - v" by simp
  moreover have "0 \<le> RoundUp v m - v" and "RoundUp v m - v < m"
    using RoundUp_ge [OF assms, of v] RoundUp_less [OF assms, of v] by auto
  ultimately show "RoundUp v m = v"
    using zdvd_not_zless [of "RoundUp v m - v" m] by linarith
qed

lemma DivUpPowerOfTwo_exp:
  assumes "k < w"
  shows "DivUpPowerOfTwo w v (2 ^ k) = DivUp v (2 ^ k)"
proof -
  have "(v + (2 ^ k - 1)) div 2 ^ k = v div 2 ^ k + (if v mod 2 ^ k = 0 then 0 else 1)"
  proof -
    have "(v + (2 ^ k - 1)) div 2 ^ k
        = (v div 2 ^ k * 2 ^ k + (v mod 2 ^ k + (2 ^ k - 1))) div 2 ^ k"
      by (simp add: algebra_simps)
    also have "\<dots> = v div 2 ^ k + (v mod 2 ^ k + (2 ^ k - 1)) div 2 ^ k"
      by (subst div_mult_self3) simp_all
    also have "(v mod 2 ^ k + (2 ^ k - 1)) div 2 ^ k = (if v mod 2 ^ k = 0 then 0 else 1)"
    proof (cases "v mod 2 ^ k = 0")
      case False
      moreover have "0 \<le> v mod 2 ^ k" and "v mod 2 ^ k < 2 ^ k" by simp_all
      ultimately have "0 < v mod 2 ^ k" and "v mod 2 ^ k - 1 < 2 ^ k" by linarith+
      then have "(v mod 2 ^ k + (2 ^ k - 1)) div 2 ^ k = 1"
        by (intro int_div_pos_eq [where r = "v mod 2 ^ k - 1"]) auto
      with False show ?thesis by simp
    qed simp
    finally show ?thesis .
  qed
  with assms show ?thesis
    by (simp add: DivUpPowerOfTwo_def DivUp_def drop_bit_eq_div mask_AND_int)
qed

lemma DivUp_bounds:
  assumes "0 < d"
  shows "v \<le> DivUp v d * d" and "DivUp v d * d < v + d"
  using RoundUp_ge [OF assms, of v] RoundUp_less [OF assms, of v]
  by (simp_all add: RoundUp_def DivUp_def algebra_simps)

lemma DivUp_nonneg: "0 < d \<Longrightarrow> 0 \<le> v \<Longrightarrow> 0 \<le> DivUp v d"
  by (simp add: DivUp_def pos_imp_zdiv_nonneg_iff)

section \<open>Rounding up to the next power of two\<close>

text \<open>
  After the pass with shift \<open>i\<close> a bit of the result is set when one of the \<open>2 * i\<close> bits of the
  argument from that position up is set. The pass doubles the reach, so at the end every bit
  below the highest one is set.
\<close>

definition reaches :: "nat \<Rightarrow> int \<Rightarrow> int \<Rightarrow> bool" where
  "reaches i x y \<longleftrightarrow> (\<forall>n. bit y n \<longleftrightarrow> (\<exists>k<i. bit x (n + k)))"

lemma reaches_step:
  assumes "reaches i x y"
  shows "reaches (2 * i) x (y OR drop_bit i y)"
  unfolding reaches_def
proof (intro allI)
  fix n
  have "bit (y OR drop_bit i y) n \<longleftrightarrow> (\<exists>k<i. bit x (n + k)) \<or> (\<exists>k<i. bit x (n + (i + k)))"
    using assms by (simp add: reaches_def bit_simps algebra_simps)
  also have "\<dots> \<longleftrightarrow> (\<exists>k<2 * i. bit x (n + k))"
  proof
    assume "\<exists>k<2 * i. bit x (n + k)"
    then obtain k where k: "k < 2 * i" "bit x (n + k)" by blast
    then show "(\<exists>k<i. bit x (n + k)) \<or> (\<exists>k<i. bit x (n + (i + k)))"
      by (cases "k < i") (auto intro: exI [of _ "k - i"])
  next
    assume "(\<exists>k<i. bit x (n + k)) \<or> (\<exists>k<i. bit x (n + (i + k)))"
    then show "\<exists>k<2 * i. bit x (n + k)"
    proof
      assume "\<exists>k<i. bit x (n + k)"
      then show ?thesis by (metis less_le_trans mult_2 le_add1)
    next
      assume "\<exists>k<i. bit x (n + (i + k))"
      then obtain k where "k < i" and "bit x (n + (i + k))" by blast
      then show ?thesis by (intro exI [of _ "i + k"]) simp
    qed
  qed
  finally show "bit (y OR drop_bit i y) n \<longleftrightarrow> (\<exists>k<2 * i. bit x (n + k))" .
qed

lemma smear_right_reaches:
  "0 < i \<Longrightarrow> reaches i x y \<Longrightarrow> \<exists>j\<ge>w. reaches j x (smear_right w i y)"
proof (induction w i y rule: smear_right.induct)
  case (1 w i y)
  show ?case
  proof (cases "i < w")
    case True
    with "1.prems" "1.IH" show ?thesis
      by (simp add: smear_right.simps [of w i y] reaches_step)
  next
    case False
    with "1.prems" show ?thesis
      by (intro exI [of _ i]) (simp add: smear_right.simps [of w i y])
  qed
qed

lemma smear_right_eq_mask:
  assumes "2 ^ h \<le> x" and "x < 2 ^ Suc h" and "h < w"
  shows "smear_right w 1 x = 2 ^ Suc h - 1"
proof -
  have "reaches 1 x x" by (simp add: reaches_def)
  then obtain j where j: "w \<le> j" "reaches j x (smear_right w 1 x)"
    using smear_right_reaches [of 1 x x w] by auto
  have "smear_right w 1 x = mask (Suc h)"
  proof (rule bit_eqI)
    fix n
    have "(\<exists>k<j. bit x (n + k)) \<longleftrightarrow> n < Suc h"
    proof
      assume "\<exists>k<j. bit x (n + k)"
      then show "n < Suc h"
        using bit_high(2) [OF assms(1,2)] by (metis le_add1 less_Suc_eq_le linorder_not_less order_trans)
    next
      assume "n < Suc h"
      then have "n + (h - n) = h" and "h - n < j" using assms(3) j(1) by auto
      then show "\<exists>k<j. bit x (n + k)"
        using bit_high(1) [OF assms(1,2)] by (metis)
    qed
    with j(2) show "bit (smear_right w 1 x) n = bit (mask (Suc h) :: int) n"
      by (simp add: reaches_def bit_mask_iff)
  qed
  then show ?thesis by (simp add: mask_eq_exp_minus_1)
qed

lemma smear_right_zero: "smear_right w i 0 = 0"
proof (induction w i "0::int" rule: smear_right.induct)
  case (1 w i)
  then show ?case by (auto simp: smear_right.simps [of w i 0])
qed

lemma RoundUpNextPowerOfTwo_eq:
  assumes "2 ^ h < x" and "x \<le> 2 ^ Suc h" and "h < w"
  shows "RoundUpNextPowerOfTwo w x = 2 ^ Suc h"
  using smear_right_eq_mask [of h "x - 1" w] assms by (simp add: RoundUpNextPowerOfTwo_def)

lemma RoundUpNextPowerOfTwo_one [simp]: "RoundUpNextPowerOfTwo w 1 = 1"
  by (simp add: RoundUpNextPowerOfTwo_def smear_right_zero)

lemma RoundUpNextPowerOfTwo_exp [simp]:
  "k \<le> w \<Longrightarrow> RoundUpNextPowerOfTwo w (2 ^ k) = 2 ^ k"
proof (cases k)
  case (Suc h)
  assume "k \<le> w"
  with Suc show ?thesis
    using RoundUpNextPowerOfTwo_eq [of h "2 ^ k" w] by simp
qed simp

section \<open>Properties\<close>

text \<open>
  The bit tricks compute what their names say. For an alignment that is a power of
  two below the width of the type, \<open>RoundUpPowerOfTwo\<close> is \<open>RoundUp\<close>, \<open>DivUpPowerOfTwo\<close> is
  \<open>DivUp\<close>, and the rounded value is the least multiple of the alignment that is not smaller than
  the argument.
\<close>

theorem power_of_two_rounding_correct:
  assumes "k < w"
  shows "RoundUpPowerOfTwo v (2 ^ k) = RoundUp v (2 ^ k)
    \<and> DivUpPowerOfTwo w v (2 ^ k) = DivUp v (2 ^ k)
    \<and> 2 ^ k dvd RoundUpPowerOfTwo v (2 ^ k)
    \<and> v \<le> RoundUpPowerOfTwo v (2 ^ k)
    \<and> (\<forall>m. 2 ^ k dvd m \<and> v \<le> m \<longrightarrow> RoundUpPowerOfTwo v (2 ^ k) \<le> m)"
proof -
  have "RoundUp v (2 ^ k) \<le> m" if "2 ^ k dvd m" and "v \<le> m" for m
  proof (rule ccontr)
    assume "\<not> RoundUp v (2 ^ k) \<le> m"
    then have "0 < RoundUp v (2 ^ k) - m" by simp
    moreover have "2 ^ k dvd RoundUp v (2 ^ k) - m"
      using that(1) by simp
    ultimately have "2 ^ k \<le> RoundUp v (2 ^ k) - m"
      by (rule zdvd_imp_le [rotated])
    then show False
      using RoundUp_less [of "2 ^ k" v] that(2) by simp
  qed
  then show ?thesis
    using assms by (simp add: RoundUpPowerOfTwo_exp DivUpPowerOfTwo_exp RoundUp_ge)
qed

theorem power_of_two_rounding_correct_witness:
  "RoundUpPowerOfTwo 100 (2 ^ 5) = RoundUp 100 (2 ^ 5) \<and> DivUpPowerOfTwo 64 100 (2 ^ 5) = 4"
  using power_of_two_rounding_correct [of 5 64 100] by (simp add: DivUp_def)

lemma RoundUpNextPowerOfTwo_spec:
  assumes "0 < x" and "x \<le> 2 ^ w"
  shows "\<exists>k. RoundUpNextPowerOfTwo w x = 2 ^ k \<and> x \<le> 2 ^ k \<and> (\<forall>j. x \<le> 2 ^ j \<longrightarrow> k \<le> j)"
proof (cases "x = 1")
  case True
  then show ?thesis by (intro exI [of _ 0]) simp
next
  case False
  with assms(1) obtain h where h: "2 ^ h \<le> x - 1" "x - 1 < 2 ^ Suc h"
    using power_bracket [of "x - 1"] by auto
  have "(2::int) ^ h < 2 ^ w"
    using h(1) assms(2) by linarith
  then have "RoundUpNextPowerOfTwo w x = 2 ^ Suc h"
    using h by (intro RoundUpNextPowerOfTwo_eq) simp_all
  moreover have "Suc h \<le> j" if "x \<le> 2 ^ j" for j
  proof -
    have "(2::int) ^ h < 2 ^ j" using h(1) that by linarith
    then show ?thesis by simp
  qed
  ultimately show ?thesis
    using h(2) by (intro exI [of _ "Suc h"]) auto
qed

text \<open>
  \<open>RoundUpNextPowerOfTwo\<close> on a \<open>w\<close>-bit type returns the least power of two that is
  not below a positive argument, for every argument up to \<open>2 ^ w\<close>.
\<close>

theorem RoundUpNextPowerOfTwo_least:
  assumes "0 < x" and "x \<le> 2 ^ w"
  shows "\<exists>k. RoundUpNextPowerOfTwo w x = 2 ^ k \<and> x \<le> 2 ^ k \<and> (\<forall>j. x \<le> 2 ^ j \<longrightarrow> k \<le> j)"
  using assms by (rule RoundUpNextPowerOfTwo_spec)

theorem RoundUpNextPowerOfTwo_least_witness:
  "RoundUpNextPowerOfTwo 32 24 = 32
   \<and> (\<exists>k. RoundUpNextPowerOfTwo 32 24 = 2 ^ k \<and> 24 \<le> (2::int) ^ k \<and> (\<forall>j. (24::int) \<le> 2 ^ j \<longrightarrow> k \<le> j))"
  using RoundUpNextPowerOfTwo_least [of 24 32] by (simp add: RoundUpNextPowerOfTwo_eq [of 4])

end
