(* ===== verification/Packing_Tables.thy ===== *)
theory Packing_Tables
  imports Bitfield Int_Math
begin

text \<open>
  The tables of \<open>src/nvcv/src/priv/DataLayout.cpp\<close>: the packings with their parameters and
  names, and the channels of the swizzles. Codes of packings are those of
  \<open>include/nvcv/DataLayout.h\<close>, checked against the encoding macro; channels and swizzles are
  numbered as their enumerators.
\<close>

section \<open>Channels and swizzles\<close>

abbreviation (input) "NVCV_CHANNEL_0 \<equiv> (0 :: nat)"
abbreviation (input) "NVCV_CHANNEL_X \<equiv> (1 :: nat)"
abbreviation (input) "NVCV_CHANNEL_Y \<equiv> (2 :: nat)"
abbreviation (input) "NVCV_CHANNEL_Z \<equiv> (3 :: nat)"
abbreviation (input) "NVCV_CHANNEL_W \<equiv> (4 :: nat)"
abbreviation (input) "NVCV_CHANNEL_1 \<equiv> (5 :: nat)"

abbreviation (input) "NVCV_SWIZZLE_0000 \<equiv> (0 :: nat)"
abbreviation (input) "NVCV_SWIZZLE_X000 \<equiv> (1 :: nat)"
abbreviation (input) "NVCV_SWIZZLE_XY00 \<equiv> (2 :: nat)"
abbreviation (input) "NVCV_SWIZZLE_XYZ0 \<equiv> (3 :: nat)"
abbreviation (input) "NVCV_SWIZZLE_XYZW \<equiv> (4 :: nat)"
abbreviation (input) "NVCV_SWIZZLE_1000 \<equiv> (5 :: nat)"
abbreviation (input) "NVCV_SWIZZLE_0001 \<equiv> (6 :: nat)"
abbreviation (input) "NVCV_SWIZZLE_ZYXW \<equiv> (7 :: nat)"
abbreviation (input) "NVCV_SWIZZLE_WXYZ \<equiv> (8 :: nat)"
abbreviation (input) "NVCV_SWIZZLE_WZYX \<equiv> (9 :: nat)"
abbreviation (input) "NVCV_SWIZZLE_YZWX \<equiv> (10 :: nat)"
abbreviation (input) "NVCV_SWIZZLE_XYZ1 \<equiv> (11 :: nat)"
abbreviation (input) "NVCV_SWIZZLE_YZW1 \<equiv> (12 :: nat)"
abbreviation (input) "NVCV_SWIZZLE_XXX1 \<equiv> (13 :: nat)"
abbreviation (input) "NVCV_SWIZZLE_XZY1 \<equiv> (14 :: nat)"
abbreviation (input) "NVCV_SWIZZLE_ZYX1 \<equiv> (15 :: nat)"
abbreviation (input) "NVCV_SWIZZLE_ZYX0 \<equiv> (16 :: nat)"
abbreviation (input) "NVCV_SWIZZLE_WZY1 \<equiv> (17 :: nat)"
abbreviation (input) "NVCV_SWIZZLE_0X00 \<equiv> (18 :: nat)"
abbreviation (input) "NVCV_SWIZZLE_00X0 \<equiv> (19 :: nat)"
abbreviation (input) "NVCV_SWIZZLE_000X \<equiv> (20 :: nat)"
abbreviation (input) "NVCV_SWIZZLE_Y000 \<equiv> (21 :: nat)"
abbreviation (input) "NVCV_SWIZZLE_0Y00 \<equiv> (22 :: nat)"
abbreviation (input) "NVCV_SWIZZLE_00Y0 \<equiv> (23 :: nat)"
abbreviation (input) "NVCV_SWIZZLE_000Y \<equiv> (24 :: nat)"
abbreviation (input) "NVCV_SWIZZLE_0XY0 \<equiv> (25 :: nat)"
abbreviation (input) "NVCV_SWIZZLE_XXXY \<equiv> (26 :: nat)"
abbreviation (input) "NVCV_SWIZZLE_YYYX \<equiv> (27 :: nat)"
abbreviation (input) "NVCV_SWIZZLE_0YX0 \<equiv> (28 :: nat)"
abbreviation (input) "NVCV_SWIZZLE_X00Y \<equiv> (29 :: nat)"
abbreviation (input) "NVCV_SWIZZLE_Y00X \<equiv> (30 :: nat)"
abbreviation (input) "NVCV_SWIZZLE_X001 \<equiv> (31 :: nat)"
abbreviation (input) "NVCV_SWIZZLE_XY01 \<equiv> (32 :: nat)"
abbreviation (input) "NVCV_SWIZZLE_0XZ0 \<equiv> (33 :: nat)"
abbreviation (input) "NVCV_SWIZZLE_0ZX0 \<equiv> (34 :: nat)"
abbreviation (input) "NVCV_SWIZZLE_XZY0 \<equiv> (35 :: nat)"
abbreviation (input) "NVCV_SWIZZLE_YZX1 \<equiv> (36 :: nat)"
abbreviation (input) "NVCV_SWIZZLE_ZYW1 \<equiv> (37 :: nat)"
abbreviation (input) "NVCV_SWIZZLE_0YX1 \<equiv> (38 :: nat)"
abbreviation (input) "NVCV_SWIZZLE_XYXZ \<equiv> (39 :: nat)"
abbreviation (input) "NVCV_SWIZZLE_YXZX \<equiv> (40 :: nat)"
abbreviation (input) "NVCV_SWIZZLE_XZ00 \<equiv> (41 :: nat)"
abbreviation (input) "NVCV_SWIZZLE_WYXZ \<equiv> (42 :: nat)"
abbreviation (input) "NVCV_SWIZZLE_YX00 \<equiv> (43 :: nat)"
abbreviation (input) "NVCV_SWIZZLE_YX01 \<equiv> (44 :: nat)"
abbreviation (input) "NVCV_SWIZZLE_00YX \<equiv> (45 :: nat)"
abbreviation (input) "NVCV_SWIZZLE_00XY \<equiv> (46 :: nat)"
abbreviation (input) "NVCV_SWIZZLE_0XY1 \<equiv> (47 :: nat)"
abbreviation (input) "NVCV_SWIZZLE_0X01 \<equiv> (48 :: nat)"
abbreviation (input) "NVCV_SWIZZLE_YZXW \<equiv> (49 :: nat)"
abbreviation (input) "NVCV_SWIZZLE_YW00 \<equiv> (50 :: nat)"
abbreviation (input) "NVCV_SWIZZLE_XYW0 \<equiv> (51 :: nat)"
abbreviation (input) "NVCV_SWIZZLE_YZW0 \<equiv> (52 :: nat)"
abbreviation (input) "NVCV_SWIZZLE_YZ00 \<equiv> (53 :: nat)"
abbreviation (input) "NVCV_SWIZZLE_00X1 \<equiv> (54 :: nat)"
abbreviation (input) "NVCV_SWIZZLE_0ZXY \<equiv> (55 :: nat)"
abbreviation (input) "NVCV_SWIZZLE_UNSUPPORTED \<equiv> (63 :: nat)"

definition swizzle_rows :: "nat list list" where
  "swizzle_rows = [[0,0,0,0], [1,0,0,0], [1,2,0,0], [1,2,3,0], [1,2,3,4], [5,0,0,0], [0,0,0,5], [3,2,1,4],
     [4,1,2,3], [4,3,2,1], [2,3,4,1], [1,2,3,5], [2,3,4,5], [1,1,1,5], [1,3,2,5], [3,2,1,5],
     [3,2,1,0], [4,3,2,5], [0,1,0,0], [0,0,1,0], [0,0,0,1], [2,0,0,0], [0,2,0,0], [0,0,2,0],
     [0,0,0,2], [0,1,2,0], [1,1,1,2], [2,2,2,1], [0,2,1,0], [1,0,0,2], [2,0,0,1], [1,0,0,5],
     [1,2,0,5], [0,1,3,0], [0,3,1,0], [1,3,2,0], [2,3,1,5], [3,2,4,5], [0,2,1,5], [1,2,1,3],
     [2,1,3,1], [1,3,0,0], [4,2,1,3], [2,1,0,0], [2,1,0,5], [0,0,2,1], [0,0,1,2], [0,1,2,5],
     [0,1,0,5], [2,3,1,4], [2,4,0,0], [1,2,4,0], [2,3,4,0], [2,3,0,0], [0,0,1,5], [0,3,1,2]]"

abbreviation (input) "NVCV_MAX_SWIZZLE_COUNT \<equiv> (57 :: nat)"

text \<open>The array has one entry more than it has initializers; it is zero.\<close>

definition swizzleBitsArray :: "u64 list" where
  "swizzleBitsArray =
     map (\<lambda>r. MAKE_SWIZZLE (word_of_nat (r ! 0)) (word_of_nat (r ! 1)) (word_of_nat (r ! 2))
       (word_of_nat (r ! 3))) swizzle_rows @ [0]"

section \<open>Packings\<close>

abbreviation (input) "NVCV_PACKING_0 \<equiv> (0 :: u64)"
abbreviation (input) "NVCV_PACKING_X1 \<equiv> (1 :: u64)"
abbreviation (input) "NVCV_PACKING_X2 \<equiv> (2 :: u64)"
abbreviation (input) "NVCV_PACKING_X4 \<equiv> (3 :: u64)"
abbreviation (input) "NVCV_PACKING_X8 \<equiv> (4 :: u64)"
abbreviation (input) "NVCV_PACKING_b4X4 \<equiv> (5 :: u64)"
abbreviation (input) "NVCV_PACKING_X4b4 \<equiv> (6 :: u64)"
abbreviation (input) "NVCV_PACKING_X4Y4 \<equiv> (20 :: u64)"
abbreviation (input) "NVCV_PACKING_X3Y3Z2 \<equiv> (36 :: u64)"
abbreviation (input) "NVCV_PACKING_X16 \<equiv> (64 :: u64)"
abbreviation (input) "NVCV_PACKING_b6X10 \<equiv> (65 :: u64)"
abbreviation (input) "NVCV_PACKING_X10b6 \<equiv> (66 :: u64)"
abbreviation (input) "NVCV_PACKING_b4X12 \<equiv> (67 :: u64)"
abbreviation (input) "NVCV_PACKING_X12b4 \<equiv> (68 :: u64)"
abbreviation (input) "NVCV_PACKING_b2X14 \<equiv> (69 :: u64)"
abbreviation (input) "NVCV_PACKING_X14b2 \<equiv> (70 :: u64)"
abbreviation (input) "NVCV_PACKING_X8_Y8 \<equiv> (80 :: u64)"
abbreviation (input) "NVCV_PACKING_X5Y5Z6 \<equiv> (96 :: u64)"
abbreviation (input) "NVCV_PACKING_X5Y6Z5 \<equiv> (97 :: u64)"
abbreviation (input) "NVCV_PACKING_X6Y5Z5 \<equiv> (98 :: u64)"
abbreviation (input) "NVCV_PACKING_b4X4Y4Z4 \<equiv> (99 :: u64)"
abbreviation (input) "NVCV_PACKING_b1X5Y5Z5 \<equiv> (100 :: u64)"
abbreviation (input) "NVCV_PACKING_X5Y5b1Z5 \<equiv> (101 :: u64)"
abbreviation (input) "NVCV_PACKING_X1Y5Z5W5 \<equiv> (112 :: u64)"
abbreviation (input) "NVCV_PACKING_X4Y4Z4W4 \<equiv> (113 :: u64)"
abbreviation (input) "NVCV_PACKING_X5Y1Z5W5 \<equiv> (114 :: u64)"
abbreviation (input) "NVCV_PACKING_X5Y5Z1W5 \<equiv> (115 :: u64)"
abbreviation (input) "NVCV_PACKING_X5Y5Z5W1 \<equiv> (116 :: u64)"
abbreviation (input) "NVCV_PACKING_X8_Y8__X8_Z8 \<equiv> (117 :: u64)"
abbreviation (input) "NVCV_PACKING_Y8_X8__Z8_X8 \<equiv> (118 :: u64)"
abbreviation (input) "NVCV_PACKING_X24 \<equiv> (128 :: u64)"
abbreviation (input) "NVCV_PACKING_X8_Y8_Z8 \<equiv> (160 :: u64)"
abbreviation (input) "NVCV_PACKING_X32 \<equiv> (192 :: u64)"
abbreviation (input) "NVCV_PACKING_b12X20 \<equiv> (193 :: u64)"
abbreviation (input) "NVCV_PACKING_X20b12 \<equiv> (194 :: u64)"
abbreviation (input) "NVCV_PACKING_X24b8 \<equiv> (195 :: u64)"
abbreviation (input) "NVCV_PACKING_b8X24 \<equiv> (196 :: u64)"
abbreviation (input) "NVCV_PACKING_X16_Y16 \<equiv> (208 :: u64)"
abbreviation (input) "NVCV_PACKING_X10b6_Y10b6 \<equiv> (209 :: u64)"
abbreviation (input) "NVCV_PACKING_X12b4_Y12b4 \<equiv> (210 :: u64)"
abbreviation (input) "NVCV_PACKING_X10Y11Z11 \<equiv> (224 :: u64)"
abbreviation (input) "NVCV_PACKING_X11Y11Z10 \<equiv> (225 :: u64)"
abbreviation (input) "NVCV_PACKING_b2X10Y10Z10 \<equiv> (226 :: u64)"
abbreviation (input) "NVCV_PACKING_X10Y10Z10b2 \<equiv> (227 :: u64)"
abbreviation (input) "NVCV_PACKING_X8_Y8_Z8_W8 \<equiv> (240 :: u64)"
abbreviation (input) "NVCV_PACKING_X2Y10Z10W10 \<equiv> (241 :: u64)"
abbreviation (input) "NVCV_PACKING_X10Y10Z10W2 \<equiv> (242 :: u64)"
abbreviation (input) "NVCV_PACKING_X48 \<equiv> (256 :: u64)"
abbreviation (input) "NVCV_PACKING_X16_Y16_Z16 \<equiv> (288 :: u64)"
abbreviation (input) "NVCV_PACKING_X64 \<equiv> (320 :: u64)"
abbreviation (input) "NVCV_PACKING_X32_Y32 \<equiv> (336 :: u64)"
abbreviation (input) "NVCV_PACKING_X32_Y24b8 \<equiv> (337 :: u64)"
abbreviation (input) "NVCV_PACKING_X16_Y16_Z16_W16 \<equiv> (368 :: u64)"
abbreviation (input) "NVCV_PACKING_X96 \<equiv> (384 :: u64)"
abbreviation (input) "NVCV_PACKING_X32_Y32_Z32 \<equiv> (416 :: u64)"
abbreviation (input) "NVCV_PACKING_X128 \<equiv> (448 :: u64)"
abbreviation (input) "NVCV_PACKING_X64_Y64 \<equiv> (464 :: u64)"
abbreviation (input) "NVCV_PACKING_X32_Y32_Z32_W32 \<equiv> (496 :: u64)"
abbreviation (input) "NVCV_PACKING_X192 \<equiv> (512 :: u64)"
abbreviation (input) "NVCV_PACKING_X64_Y64_Z64 \<equiv> (544 :: u64)"
abbreviation (input) "NVCV_PACKING_X256 \<equiv> (576 :: u64)"
abbreviation (input) "NVCV_PACKING_X128_Y128 \<equiv> (592 :: u64)"
abbreviation (input) "NVCV_PACKING_X64_Y64_Z64_W64 \<equiv> (624 :: u64)"

lemma packing_enumerators:
  "[NVCV_PACKING_X1, NVCV_PACKING_X2, NVCV_PACKING_X4, NVCV_PACKING_X8, NVCV_PACKING_b4X4,
     NVCV_PACKING_X4b4, NVCV_PACKING_X4Y4, NVCV_PACKING_X3Y3Z2, NVCV_PACKING_X16,
     NVCV_PACKING_b6X10, NVCV_PACKING_X10b6, NVCV_PACKING_b4X12, NVCV_PACKING_X12b4,
     NVCV_PACKING_b2X14, NVCV_PACKING_X14b2, NVCV_PACKING_X8_Y8, NVCV_PACKING_X5Y5Z6,
     NVCV_PACKING_X5Y6Z5, NVCV_PACKING_X6Y5Z5, NVCV_PACKING_b4X4Y4Z4, NVCV_PACKING_b1X5Y5Z5,
     NVCV_PACKING_X5Y5b1Z5, NVCV_PACKING_X1Y5Z5W5, NVCV_PACKING_X4Y4Z4W4, NVCV_PACKING_X5Y1Z5W5,
     NVCV_PACKING_X5Y5Z1W5, NVCV_PACKING_X5Y5Z5W1, NVCV_PACKING_X8_Y8__X8_Z8,
     NVCV_PACKING_Y8_X8__Z8_X8, NVCV_PACKING_X24, NVCV_PACKING_X8_Y8_Z8, NVCV_PACKING_X32,
     NVCV_PACKING_b12X20, NVCV_PACKING_X20b12, NVCV_PACKING_X24b8, NVCV_PACKING_b8X24,
     NVCV_PACKING_X16_Y16, NVCV_PACKING_X10b6_Y10b6, NVCV_PACKING_X12b4_Y12b4,
     NVCV_PACKING_X10Y11Z11, NVCV_PACKING_X11Y11Z10, NVCV_PACKING_b2X10Y10Z10,
     NVCV_PACKING_X10Y10Z10b2, NVCV_PACKING_X8_Y8_Z8_W8, NVCV_PACKING_X2Y10Z10W10,
     NVCV_PACKING_X10Y10Z10W2, NVCV_PACKING_X48, NVCV_PACKING_X16_Y16_Z16, NVCV_PACKING_X64,
     NVCV_PACKING_X32_Y32, NVCV_PACKING_X32_Y24b8, NVCV_PACKING_X16_Y16_Z16_W16,
     NVCV_PACKING_X96, NVCV_PACKING_X32_Y32_Z32, NVCV_PACKING_X128, NVCV_PACKING_X64_Y64,
     NVCV_PACKING_X32_Y32_Z32_W32, NVCV_PACKING_X192, NVCV_PACKING_X64_Y64_Z64,
     NVCV_PACKING_X256, NVCV_PACKING_X128_Y128, NVCV_PACKING_X64_Y64_Z64_W64]
   = [BPP_NCH 1 1, BPP_NCH 2 1, BPP_NCH 4 1, BPP_NCH 8 1, BPP_NCH 8 1 + 1, BPP_NCH 8 1 + 2,
     BPP_NCH 8 2, BPP_NCH 8 3, BPP_NCH 16 1, BPP_NCH 16 1 + 1, BPP_NCH 16 1 + 2, BPP_NCH 16 1 +
     3, BPP_NCH 16 1 + 4, BPP_NCH 16 1 + 5, BPP_NCH 16 1 + 6, BPP_NCH 16 2, BPP_NCH 16 3, BPP_NCH
     16 3 + 1, BPP_NCH 16 3 + 2, BPP_NCH 16 3 + 3, BPP_NCH 16 3 + 4, BPP_NCH 16 3 + 5, BPP_NCH 16
     4, BPP_NCH 16 4 + 1, BPP_NCH 16 4 + 2, BPP_NCH 16 4 + 3, BPP_NCH 16 4 + 4, BPP_NCH 16 4 + 5,
     BPP_NCH 16 4 + 6, BPP_NCH 24 1, BPP_NCH 24 3, BPP_NCH 32 1, BPP_NCH 32 1 + 1, BPP_NCH 32 1 +
     2, BPP_NCH 32 1 + 3, BPP_NCH 32 1 + 4, BPP_NCH 32 2, BPP_NCH 32 2 + 1, BPP_NCH 32 2 + 2,
     BPP_NCH 32 3, BPP_NCH 32 3 + 1, BPP_NCH 32 3 + 2, BPP_NCH 32 3 + 3, BPP_NCH 32 4, BPP_NCH 32
     4 + 1, BPP_NCH 32 4 + 2, BPP_NCH 48 1, BPP_NCH 48 3, BPP_NCH 64 1, BPP_NCH 64 2, BPP_NCH 64
     2 + 1, BPP_NCH 64 4, BPP_NCH 96 1, BPP_NCH 96 3, BPP_NCH 128 1, BPP_NCH 128 2, BPP_NCH 128
     4, BPP_NCH 192 1, BPP_NCH 192 3, BPP_NCH 256 1, BPP_NCH 256 2, BPP_NCH 256 4]"
  by (simp add: BPP_NCH_def ENCODE_BPP_def SetBitfield_def)

datatype NVCVByteOrder = NVCV_ORDER_LSB | NVCV_ORDER_MSB

record NVCVPackingParams =
  byteOrder :: NVCVByteOrder
  alignment :: int
  swizzle :: nat
  bits :: "int list"

record packing_data =
  packing :: u64
  name :: string
  params :: NVCVPackingParams

definition packing_entry ::
    "u64 \<Rightarrow> string \<Rightarrow> NVCVByteOrder \<Rightarrow> int \<Rightarrow> nat \<Rightarrow> int list \<Rightarrow> packing_data" where
  "packing_entry p nm ord al sw bs = \<lparr>packing = p, name = nm,
     params = \<lparr>byteOrder = ord, alignment = al, swizzle = sw, bits = bs\<rparr>\<rparr>"

abbreviation np2 :: "int \<Rightarrow> int" where
  "np2 \<equiv> RoundUpNextPowerOfTwo 32"

definition DEF_PACK1 :: "u64 \<Rightarrow> string \<Rightarrow> int \<Rightarrow> packing_data" where
  "DEF_PACK1 p nm x = packing_entry p nm NVCV_ORDER_LSB (np2 (x div 8)) NVCV_SWIZZLE_0000 [x, 0, 0, 0]"

definition DEF_PACK2 :: "u64 \<Rightarrow> string \<Rightarrow> int \<Rightarrow> int \<Rightarrow> packing_data" where
  "DEF_PACK2 p nm x y =
     packing_entry p nm NVCV_ORDER_LSB (np2 ((x + y) div 8)) NVCV_SWIZZLE_0000 [x, y, 0, 0]"

definition DEF_PACK3 :: "u64 \<Rightarrow> string \<Rightarrow> int \<Rightarrow> int \<Rightarrow> int \<Rightarrow> packing_data" where
  "DEF_PACK3 p nm x y z =
     packing_entry p nm NVCV_ORDER_LSB (np2 ((x + y + z) div 8)) NVCV_SWIZZLE_0000 [x, y, z, 0]"

definition DEF_PACK4 :: "u64 \<Rightarrow> string \<Rightarrow> int \<Rightarrow> int \<Rightarrow> int \<Rightarrow> int \<Rightarrow> packing_data" where
  "DEF_PACK4 p nm x y z w =
     packing_entry p nm NVCV_ORDER_LSB (np2 ((x + y + z + w) div 8)) NVCV_SWIZZLE_0000 [x, y, z, w]"

definition DEF_FIX_PACK2 :: "u64 \<Rightarrow> string \<Rightarrow> int \<Rightarrow> int \<Rightarrow> packing_data" where
  "DEF_FIX_PACK2 p nm x y = packing_entry p nm NVCV_ORDER_MSB
     (np2 (if x = y then x div 8 else (x + y) div 8)) NVCV_SWIZZLE_0000 [x, y, 0, 0]"

definition DEF_FIX_PACK3 :: "u64 \<Rightarrow> string \<Rightarrow> int \<Rightarrow> int \<Rightarrow> int \<Rightarrow> packing_data" where
  "DEF_FIX_PACK3 p nm x y z = packing_entry p nm NVCV_ORDER_MSB
     (np2 (if x = y \<and> y = z then x div 8 else (x + y + z) div 8)) NVCV_SWIZZLE_0000 [x, y, z, 0]"

definition DEF_FIX_PACK4 :: "u64 \<Rightarrow> string \<Rightarrow> int \<Rightarrow> int \<Rightarrow> int \<Rightarrow> int \<Rightarrow> packing_data" where
  "DEF_FIX_PACK4 p nm x y z w = packing_entry p nm NVCV_ORDER_MSB
     (np2 (if x = y \<and> y = z \<and> z = w then x div 8 else (x + y + z + w) div 8))
     NVCV_SWIZZLE_0000 [x, y, z, w]"

definition DEF_MSB_PACK1 :: "u64 \<Rightarrow> string \<Rightarrow> int \<Rightarrow> int \<Rightarrow> packing_data" where
  "DEF_MSB_PACK1 p nm x bx =
     packing_entry p nm NVCV_ORDER_MSB (np2 ((x + bx) div 8)) NVCV_SWIZZLE_X000 [x, bx, 0, 0]"

definition DEF_LSB_PACK1 :: "u64 \<Rightarrow> string \<Rightarrow> int \<Rightarrow> int \<Rightarrow> packing_data" where
  "DEF_LSB_PACK1 p nm bx x =
     packing_entry p nm NVCV_ORDER_LSB (np2 ((x + bx) div 8)) NVCV_SWIZZLE_Y000 [bx, x, 0, 0]"

definition DEF_FIX_MSB_PACK2 :: "u64 \<Rightarrow> string \<Rightarrow> int \<Rightarrow> int \<Rightarrow> int \<Rightarrow> int \<Rightarrow> packing_data" where
  "DEF_FIX_MSB_PACK2 p nm x bx y by' = packing_entry p nm NVCV_ORDER_MSB
     (np2 (if x + bx = y + by' then (x + bx) div 8 else (x + bx + y + by') div 8))
     NVCV_SWIZZLE_XZ00 [x, bx, y, by']"

definition DEF_LSB_PACK3 :: "u64 \<Rightarrow> string \<Rightarrow> int \<Rightarrow> int \<Rightarrow> int \<Rightarrow> int \<Rightarrow> packing_data" where
  "DEF_LSB_PACK3 p nm bx x y z =
     packing_entry p nm NVCV_ORDER_LSB (np2 ((bx + x + y + z) div 8)) NVCV_SWIZZLE_YZW0 [bx, x, y, z]"

definition DEF_MSB_PACK3 :: "u64 \<Rightarrow> string \<Rightarrow> int \<Rightarrow> int \<Rightarrow> int \<Rightarrow> int \<Rightarrow> packing_data" where
  "DEF_MSB_PACK3 p nm x y z bz =
     packing_entry p nm NVCV_ORDER_MSB (np2 ((x + y + z + bz) div 8)) NVCV_SWIZZLE_XYZ0 [x, y, z, bz]"

definition DEF_LSB_PACK4 :: "u64 \<Rightarrow> string \<Rightarrow> int \<Rightarrow> int \<Rightarrow> int \<Rightarrow> int \<Rightarrow> packing_data" where
  "DEF_LSB_PACK4 p nm x y z w =
     packing_entry p nm NVCV_ORDER_LSB (np2 ((x + y + z + w) div 8)) NVCV_SWIZZLE_0000 [x, y, z, w]"

lemmas DEF_defs = DEF_PACK1_def DEF_PACK2_def DEF_PACK3_def DEF_PACK4_def DEF_FIX_PACK2_def
  DEF_FIX_PACK3_def DEF_FIX_PACK4_def DEF_MSB_PACK1_def DEF_LSB_PACK1_def DEF_FIX_MSB_PACK2_def
  DEF_LSB_PACK3_def DEF_MSB_PACK3_def DEF_LSB_PACK4_def

definition g_packingToData :: "packing_data list" where
  "g_packingToData = [
    DEF_PACK1 NVCV_PACKING_X1 ''NVCV_PACKING_X1'' 1,
    DEF_PACK1 NVCV_PACKING_X2 ''NVCV_PACKING_X2'' 2,
    DEF_PACK1 NVCV_PACKING_X4 ''NVCV_PACKING_X4'' 4,
    DEF_PACK1 NVCV_PACKING_X8 ''NVCV_PACKING_X8'' 8,
    DEF_LSB_PACK1 NVCV_PACKING_b4X4 ''NVCV_PACKING_b4X4'' 4 4,
    DEF_MSB_PACK1 NVCV_PACKING_X4b4 ''NVCV_PACKING_X4b4'' 4 4,
    DEF_PACK2 NVCV_PACKING_X4Y4 ''NVCV_PACKING_X4Y4'' 4 4,
    DEF_PACK3 NVCV_PACKING_X3Y3Z2 ''NVCV_PACKING_X3Y3Z2'' 3 3 2,
    DEF_PACK1 NVCV_PACKING_X16 ''NVCV_PACKING_X16'' 16,
    DEF_FIX_PACK2 NVCV_PACKING_X8_Y8 ''NVCV_PACKING_X8_Y8'' 8 8,
    DEF_LSB_PACK1 NVCV_PACKING_b6X10 ''NVCV_PACKING_b6X10'' 6 10,
    DEF_MSB_PACK1 NVCV_PACKING_X10b6 ''NVCV_PACKING_X10b6'' 10 6,
    DEF_LSB_PACK1 NVCV_PACKING_b2X14 ''NVCV_PACKING_b2X14'' 2 14,
    DEF_MSB_PACK1 NVCV_PACKING_X14b2 ''NVCV_PACKING_X14b2'' 14 2,
    DEF_MSB_PACK1 NVCV_PACKING_X12b4 ''NVCV_PACKING_X12b4'' 12 4,
    DEF_LSB_PACK1 NVCV_PACKING_b4X12 ''NVCV_PACKING_b4X12'' 4 12,
    DEF_PACK3 NVCV_PACKING_X5Y5Z6 ''NVCV_PACKING_X5Y5Z6'' 5 5 6,
    DEF_PACK3 NVCV_PACKING_X5Y6Z5 ''NVCV_PACKING_X5Y6Z5'' 5 6 5,
    DEF_PACK3 NVCV_PACKING_X6Y5Z5 ''NVCV_PACKING_X6Y5Z5'' 6 5 5,
    DEF_LSB_PACK3 NVCV_PACKING_b4X4Y4Z4 ''NVCV_PACKING_b4X4Y4Z4'' 4 4 4 4,
    DEF_LSB_PACK4 NVCV_PACKING_X4Y4Z4W4 ''NVCV_PACKING_X4Y4Z4W4'' 4 4 4 4,
    DEF_LSB_PACK3 NVCV_PACKING_b1X5Y5Z5 ''NVCV_PACKING_b1X5Y5Z5'' 1 5 5 5,
    DEF_PACK4 NVCV_PACKING_X1Y5Z5W5 ''NVCV_PACKING_X1Y5Z5W5'' 1 5 5 5,
    DEF_PACK4 NVCV_PACKING_X5Y1Z5W5 ''NVCV_PACKING_X5Y1Z5W5'' 5 1 5 5,
    DEF_PACK4 NVCV_PACKING_X5Y5Z1W5 ''NVCV_PACKING_X5Y5Z1W5'' 5 5 1 5,
    DEF_PACK4 NVCV_PACKING_X5Y5Z5W1 ''NVCV_PACKING_X5Y5Z5W1'' 5 5 5 1,
    DEF_PACK1 NVCV_PACKING_X24 ''NVCV_PACKING_X24'' 24,
    DEF_FIX_PACK3 NVCV_PACKING_X8_Y8_Z8 ''NVCV_PACKING_X8_Y8_Z8'' 8 8 8,
    DEF_PACK1 NVCV_PACKING_X32 ''NVCV_PACKING_X32'' 32,
    DEF_FIX_PACK2 NVCV_PACKING_X16_Y16 ''NVCV_PACKING_X16_Y16'' 16 16,
    DEF_MSB_PACK1 NVCV_PACKING_X20b12 ''NVCV_PACKING_X20b12'' 20 12,
    DEF_LSB_PACK1 NVCV_PACKING_b12X20 ''NVCV_PACKING_b12X20'' 12 20,
    DEF_MSB_PACK1 NVCV_PACKING_X24b8 ''NVCV_PACKING_X24b8'' 24 8,
    DEF_LSB_PACK1 NVCV_PACKING_b8X24 ''NVCV_PACKING_b8X24'' 8 24,
    DEF_PACK3 NVCV_PACKING_X10Y11Z11 ''NVCV_PACKING_X10Y11Z11'' 10 11 11,
    DEF_PACK3 NVCV_PACKING_X11Y11Z10 ''NVCV_PACKING_X11Y11Z10'' 11 11 10,
    DEF_PACK4 NVCV_PACKING_X2Y10Z10W10 ''NVCV_PACKING_X2Y10Z10W10'' 2 10 10 10,
    DEF_FIX_PACK4 NVCV_PACKING_X8_Y8_Z8_W8 ''NVCV_PACKING_X8_Y8_Z8_W8'' 8 8 8 8,
    DEF_FIX_MSB_PACK2 NVCV_PACKING_X10b6_Y10b6 ''NVCV_PACKING_X10b6_Y10b6'' 10 6 10 6,
    DEF_PACK4 NVCV_PACKING_X10Y10Z10W2 ''NVCV_PACKING_X10Y10Z10W2'' 10 10 10 2,
    DEF_FIX_MSB_PACK2 NVCV_PACKING_X12b4_Y12b4 ''NVCV_PACKING_X12b4_Y12b4'' 12 4 12 4,
    DEF_LSB_PACK3 NVCV_PACKING_b2X10Y10Z10 ''NVCV_PACKING_b2X10Y10Z10'' 2 10 10 10,
    DEF_MSB_PACK3 NVCV_PACKING_X10Y10Z10b2 ''NVCV_PACKING_bbxX10Y10Z10'' 10 10 10 2,
    DEF_PACK1 NVCV_PACKING_X48 ''NVCV_PACKING_X48'' 48,
    DEF_FIX_PACK3 NVCV_PACKING_X16_Y16_Z16 ''NVCV_PACKING_X16_Y16_Z16'' 16 16 16,
    DEF_PACK1 NVCV_PACKING_X64 ''NVCV_PACKING_X64'' 64,
    DEF_FIX_PACK2 NVCV_PACKING_X32_Y32 ''NVCV_PACKING_X32_Y32'' 32 32,
    DEF_FIX_PACK4 NVCV_PACKING_X16_Y16_Z16_W16 ''NVCV_PACKING_X16_Y16_Z16_W16'' 16 16 16 16,
    DEF_PACK1 NVCV_PACKING_X96 ''NVCV_PACKING_X96'' 96,
    DEF_FIX_PACK3 NVCV_PACKING_X32_Y32_Z32 ''NVCV_PACKING_X32_Y32_Z32'' 32 32 32,
    DEF_PACK1 NVCV_PACKING_X128 ''NVCV_PACKING_X128'' 128,
    DEF_FIX_PACK2 NVCV_PACKING_X64_Y64 ''NVCV_PACKING_X64_Y64'' 64 64,
    DEF_FIX_PACK4 NVCV_PACKING_X32_Y32_Z32_W32 ''NVCV_PACKING_X32_Y32_Z32_W32'' 32 32 32 32,
    DEF_PACK1 NVCV_PACKING_X192 ''NVCV_PACKING_X192'' 192,
    DEF_FIX_PACK3 NVCV_PACKING_X64_Y64_Z64 ''NVCV_PACKING_X64_Y64_Z64'' 64 64 64,
    DEF_PACK1 NVCV_PACKING_X256 ''NVCV_PACKING_X256'' 256,
    DEF_FIX_PACK2 NVCV_PACKING_X128_Y128 ''NVCV_PACKING_X128_Y128'' 128 128,
    DEF_FIX_PACK4 NVCV_PACKING_X64_Y64_Z64_W64 ''NVCV_PACKING_X64_Y64_Z64_W64'' 64 64 64 64,
    packing_entry NVCV_PACKING_0 ''NVCV_PACKING_0'' NVCV_ORDER_LSB 0 NVCV_SWIZZLE_0000 [0, 0, 0, 0],
    packing_entry NVCV_PACKING_X8_Y8__X8_Z8 ''NVCV_PACKING_X8_Y8__X8_Z8'' NVCV_ORDER_MSB 1 NVCV_SWIZZLE_XYXZ [8, 8, 8, 8],
    packing_entry NVCV_PACKING_Y8_X8__Z8_X8 ''NVCV_PACKING_Y8_X8__Z8_X8'' NVCV_ORDER_MSB 1 NVCV_SWIZZLE_YXZX [8, 8, 8, 8],
    packing_entry NVCV_PACKING_X5Y5b1Z5 ''NVCV_PACKING_X5Y5b1Z5'' NVCV_ORDER_LSB 2 NVCV_SWIZZLE_XYW0 [5, 5, 1, 5],
    packing_entry NVCV_PACKING_X32_Y24b8 ''NVCV_PACKING_X32_Y24b8'' NVCV_ORDER_MSB 4 NVCV_SWIZZLE_XY00 [32, 24, 8, 0]]"

lemma packing_table_eval: "g_packingToData = [
    packing_entry 1 ''NVCV_PACKING_X1'' NVCV_ORDER_LSB 0 0 [1, 0, 0, 0],
    packing_entry 2 ''NVCV_PACKING_X2'' NVCV_ORDER_LSB 0 0 [2, 0, 0, 0],
    packing_entry 3 ''NVCV_PACKING_X4'' NVCV_ORDER_LSB 0 0 [4, 0, 0, 0],
    packing_entry 4 ''NVCV_PACKING_X8'' NVCV_ORDER_LSB 1 0 [8, 0, 0, 0],
    packing_entry 5 ''NVCV_PACKING_b4X4'' NVCV_ORDER_LSB 1 21 [4, 4, 0, 0],
    packing_entry 6 ''NVCV_PACKING_X4b4'' NVCV_ORDER_MSB 1 1 [4, 4, 0, 0],
    packing_entry 20 ''NVCV_PACKING_X4Y4'' NVCV_ORDER_LSB 1 0 [4, 4, 0, 0],
    packing_entry 36 ''NVCV_PACKING_X3Y3Z2'' NVCV_ORDER_LSB 1 0 [3, 3, 2, 0],
    packing_entry 64 ''NVCV_PACKING_X16'' NVCV_ORDER_LSB 2 0 [16, 0, 0, 0],
    packing_entry 80 ''NVCV_PACKING_X8_Y8'' NVCV_ORDER_MSB 1 0 [8, 8, 0, 0],
    packing_entry 65 ''NVCV_PACKING_b6X10'' NVCV_ORDER_LSB 2 21 [6, 10, 0, 0],
    packing_entry 66 ''NVCV_PACKING_X10b6'' NVCV_ORDER_MSB 2 1 [10, 6, 0, 0],
    packing_entry 69 ''NVCV_PACKING_b2X14'' NVCV_ORDER_LSB 2 21 [2, 14, 0, 0],
    packing_entry 70 ''NVCV_PACKING_X14b2'' NVCV_ORDER_MSB 2 1 [14, 2, 0, 0],
    packing_entry 68 ''NVCV_PACKING_X12b4'' NVCV_ORDER_MSB 2 1 [12, 4, 0, 0],
    packing_entry 67 ''NVCV_PACKING_b4X12'' NVCV_ORDER_LSB 2 21 [4, 12, 0, 0],
    packing_entry 96 ''NVCV_PACKING_X5Y5Z6'' NVCV_ORDER_LSB 2 0 [5, 5, 6, 0],
    packing_entry 97 ''NVCV_PACKING_X5Y6Z5'' NVCV_ORDER_LSB 2 0 [5, 6, 5, 0],
    packing_entry 98 ''NVCV_PACKING_X6Y5Z5'' NVCV_ORDER_LSB 2 0 [6, 5, 5, 0],
    packing_entry 99 ''NVCV_PACKING_b4X4Y4Z4'' NVCV_ORDER_LSB 2 52 [4, 4, 4, 4],
    packing_entry 113 ''NVCV_PACKING_X4Y4Z4W4'' NVCV_ORDER_LSB 2 0 [4, 4, 4, 4],
    packing_entry 100 ''NVCV_PACKING_b1X5Y5Z5'' NVCV_ORDER_LSB 2 52 [1, 5, 5, 5],
    packing_entry 112 ''NVCV_PACKING_X1Y5Z5W5'' NVCV_ORDER_LSB 2 0 [1, 5, 5, 5],
    packing_entry 114 ''NVCV_PACKING_X5Y1Z5W5'' NVCV_ORDER_LSB 2 0 [5, 1, 5, 5],
    packing_entry 115 ''NVCV_PACKING_X5Y5Z1W5'' NVCV_ORDER_LSB 2 0 [5, 5, 1, 5],
    packing_entry 116 ''NVCV_PACKING_X5Y5Z5W1'' NVCV_ORDER_LSB 2 0 [5, 5, 5, 1],
    packing_entry 128 ''NVCV_PACKING_X24'' NVCV_ORDER_LSB 4 0 [24, 0, 0, 0],
    packing_entry 160 ''NVCV_PACKING_X8_Y8_Z8'' NVCV_ORDER_MSB 1 0 [8, 8, 8, 0],
    packing_entry 192 ''NVCV_PACKING_X32'' NVCV_ORDER_LSB 4 0 [32, 0, 0, 0],
    packing_entry 208 ''NVCV_PACKING_X16_Y16'' NVCV_ORDER_MSB 2 0 [16, 16, 0, 0],
    packing_entry 194 ''NVCV_PACKING_X20b12'' NVCV_ORDER_MSB 4 1 [20, 12, 0, 0],
    packing_entry 193 ''NVCV_PACKING_b12X20'' NVCV_ORDER_LSB 4 21 [12, 20, 0, 0],
    packing_entry 195 ''NVCV_PACKING_X24b8'' NVCV_ORDER_MSB 4 1 [24, 8, 0, 0],
    packing_entry 196 ''NVCV_PACKING_b8X24'' NVCV_ORDER_LSB 4 21 [8, 24, 0, 0],
    packing_entry 224 ''NVCV_PACKING_X10Y11Z11'' NVCV_ORDER_LSB 4 0 [10, 11, 11, 0],
    packing_entry 225 ''NVCV_PACKING_X11Y11Z10'' NVCV_ORDER_LSB 4 0 [11, 11, 10, 0],
    packing_entry 241 ''NVCV_PACKING_X2Y10Z10W10'' NVCV_ORDER_LSB 4 0 [2, 10, 10, 10],
    packing_entry 240 ''NVCV_PACKING_X8_Y8_Z8_W8'' NVCV_ORDER_MSB 1 0 [8, 8, 8, 8],
    packing_entry 209 ''NVCV_PACKING_X10b6_Y10b6'' NVCV_ORDER_MSB 2 41 [10, 6, 10, 6],
    packing_entry 242 ''NVCV_PACKING_X10Y10Z10W2'' NVCV_ORDER_LSB 4 0 [10, 10, 10, 2],
    packing_entry 210 ''NVCV_PACKING_X12b4_Y12b4'' NVCV_ORDER_MSB 2 41 [12, 4, 12, 4],
    packing_entry 226 ''NVCV_PACKING_b2X10Y10Z10'' NVCV_ORDER_LSB 4 52 [2, 10, 10, 10],
    packing_entry 227 ''NVCV_PACKING_bbxX10Y10Z10'' NVCV_ORDER_MSB 4 3 [10, 10, 10, 2],
    packing_entry 256 ''NVCV_PACKING_X48'' NVCV_ORDER_LSB 8 0 [48, 0, 0, 0],
    packing_entry 288 ''NVCV_PACKING_X16_Y16_Z16'' NVCV_ORDER_MSB 2 0 [16, 16, 16, 0],
    packing_entry 320 ''NVCV_PACKING_X64'' NVCV_ORDER_LSB 8 0 [64, 0, 0, 0],
    packing_entry 336 ''NVCV_PACKING_X32_Y32'' NVCV_ORDER_MSB 4 0 [32, 32, 0, 0],
    packing_entry 368 ''NVCV_PACKING_X16_Y16_Z16_W16'' NVCV_ORDER_MSB 2 0 [16, 16, 16, 16],
    packing_entry 384 ''NVCV_PACKING_X96'' NVCV_ORDER_LSB 16 0 [96, 0, 0, 0],
    packing_entry 416 ''NVCV_PACKING_X32_Y32_Z32'' NVCV_ORDER_MSB 4 0 [32, 32, 32, 0],
    packing_entry 448 ''NVCV_PACKING_X128'' NVCV_ORDER_LSB 16 0 [128, 0, 0, 0],
    packing_entry 464 ''NVCV_PACKING_X64_Y64'' NVCV_ORDER_MSB 8 0 [64, 64, 0, 0],
    packing_entry 496 ''NVCV_PACKING_X32_Y32_Z32_W32'' NVCV_ORDER_MSB 4 0 [32, 32, 32, 32],
    packing_entry 512 ''NVCV_PACKING_X192'' NVCV_ORDER_LSB 32 0 [192, 0, 0, 0],
    packing_entry 544 ''NVCV_PACKING_X64_Y64_Z64'' NVCV_ORDER_MSB 8 0 [64, 64, 64, 0],
    packing_entry 576 ''NVCV_PACKING_X256'' NVCV_ORDER_LSB 32 0 [256, 0, 0, 0],
    packing_entry 592 ''NVCV_PACKING_X128_Y128'' NVCV_ORDER_MSB 16 0 [128, 128, 0, 0],
    packing_entry 624 ''NVCV_PACKING_X64_Y64_Z64_W64'' NVCV_ORDER_MSB 8 0 [64, 64, 64, 64],
    packing_entry 0 ''NVCV_PACKING_0'' NVCV_ORDER_LSB 0 0 [0, 0, 0, 0],
    packing_entry 117 ''NVCV_PACKING_X8_Y8__X8_Z8'' NVCV_ORDER_MSB 1 39 [8, 8, 8, 8],
    packing_entry 118 ''NVCV_PACKING_Y8_X8__Z8_X8'' NVCV_ORDER_MSB 1 40 [8, 8, 8, 8],
    packing_entry 101 ''NVCV_PACKING_X5Y5b1Z5'' NVCV_ORDER_LSB 2 51 [5, 5, 1, 5],
    packing_entry 337 ''NVCV_PACKING_X32_Y24b8'' NVCV_ORDER_MSB 4 2 [32, 24, 8, 0]]"
  unfolding g_packingToData_def DEF_defs
  by (simp add: RoundUpNextPowerOfTwo_def smear_right.simps)
end
