(* ===== verification/Data_Layout.thy ===== *)
theory Data_Layout
  imports Packing_Tables
begin

text \<open>
  The operations of \<open>src/nvcv/src/priv/DataLayout.cpp\<close>: swizzles as lists of channels, packings
  from and to their parameters, bits per pixel and component, the merging of plane swizzles and
  the reversal of byte order. A swizzle is the number of its enumerator, a packing its 64-bit code.
\<close>

section \<open>Swizzles\<close>

definition MakeNVCVSwizzle :: "nat \<Rightarrow> nat \<Rightarrow> nat \<Rightarrow> nat \<Rightarrow> nat" where
  "MakeNVCVSwizzle x y z w =
     (let swizzleBits = MAKE_SWIZZLE (word_of_nat x) (word_of_nat y) (word_of_nat z) (word_of_nat w)
      in case List.find (\<lambda>i. swizzleBitsArray ! i = swizzleBits) [0..<NVCV_MAX_SWIZZLE_COUNT] of
           Some i \<Rightarrow> i | None \<Rightarrow> NVCV_SWIZZLE_UNSUPPORTED)"

definition GetSwizzleChannel :: "nat \<Rightarrow> nat \<Rightarrow> nat" where
  "GetSwizzleChannel swz idx =
     (let swizzleBits = (if swz < NVCV_MAX_SWIZZLE_COUNT then swizzleBitsArray ! swz else - 1)
      in unat (ExtractBitfield swizzleBits (idx * 3) 3))"

definition GetChannels :: "nat \<Rightarrow> nat list" where
  "GetChannels swz = map (GetSwizzleChannel swz) [0..<4]"

definition is_component :: "nat \<Rightarrow> bool" where
  "is_component ch \<longleftrightarrow> NVCV_CHANNEL_X \<le> ch \<and> ch \<le> NVCV_CHANNEL_W"

text \<open>The histogram counts each of the four channels once.\<close>

definition GetNumChannels_swizzle :: "nat \<Rightarrow> nat" where
  "GetNumChannels_swizzle swz =
     fst (fold (\<lambda>ch (count, hist). if is_component ch
         then (if hist ! (ch - NVCV_CHANNEL_X) = 0 then count + 1 else count,
               hist[ch - NVCV_CHANNEL_X := hist ! (ch - NVCV_CHANNEL_X) + 1])
         else (count, hist)) (GetChannels swz) (0, [0, 0, 0, 0 :: nat]))"

section \<open>Packings from and to parameters\<close>

definition MakeNVCVSwizzleFromBits :: "int list \<Rightarrow> nat" where
  "MakeNVCVSwizzleFromBits bs =
     (let swc = map (\<lambda>i. if bs ! i \<noteq> 0 then i + NVCV_CHANNEL_X else NVCV_CHANNEL_0) [0..<4]
      in MakeNVCVSwizzle (swc ! 0) (swc ! 1) (swc ! 2) (swc ! 3))"

definition IsSubWord :: "NVCVPackingParams \<Rightarrow> bool" where
  "IsSubWord p =
     (if swizzle p \<in> {NVCV_SWIZZLE_0000, NVCV_SWIZZLE_XYXZ, NVCV_SWIZZLE_YXZX} then False
      else GetNumChannels_swizzle (swizzle p) \<noteq> length (filter (\<lambda>b. b \<noteq> 0) (take 4 (bits p))))"

text \<open>
  Entries are compared by swizzle and then bits; the alignment is left out on purpose. The
  multimap keeps equivalent entries in the order of insertion, which is that of their codes.
\<close>

definition same_key :: "NVCVPackingParams \<Rightarrow> packing_data \<Rightarrow> bool" where
  "same_key p d \<longleftrightarrow> swizzle (params d) = swizzle p \<and> take 4 (bits (params d)) = take 4 (bits p)"

definition g_dataToPacking :: "packing_data list" where
  "g_dataToPacking = sort_key packing g_packingToData"

definition smallest_alignment :: "packing_data list \<Rightarrow> packing_data" where
  "smallest_alignment ds = fold (\<lambda>d it. if alignment (params d) < alignment (params it) then d else it)
     ds (hd ds)"

fun pick_aligned :: "packing_data \<Rightarrow> packing_data list \<Rightarrow> packing_data option" where
  "pick_aligned it [] = None"
| "pick_aligned it (d # ds) =
     (if alignment (params it) \<ge> alignment (params d) then Some d else pick_aligned it ds)"

definition MakeNVCVPacking :: "NVCVPackingParams \<Rightarrow> u64 option" where
  "MakeNVCVPacking p =
     (let key = (if swizzle p \<noteq> NVCV_SWIZZLE_XYXZ \<and> swizzle p \<noteq> NVCV_SWIZZLE_YXZX \<and> \<not> IsSubWord p
                 then p\<lparr>swizzle := NVCV_SWIZZLE_0000\<rparr> else p);
          range = filter (same_key key) g_dataToPacking
      in if range = [] then None
         else case (if alignment p = 0 then Some (smallest_alignment range)
                    else pick_aligned (hd range) range) of
           None \<Rightarrow> None
         | Some it \<Rightarrow>
             if GetNumChannels_swizzle (swizzle p) \<ge> 2 \<and> byteOrder (params it) \<noteq> byteOrder p then None
             else if swizzle p \<noteq> NVCV_SWIZZLE_0000
               \<and> (if swizzle (params it) = NVCV_SWIZZLE_0000 then MakeNVCVSwizzleFromBits (bits p)
                  else swizzle (params it)) \<noteq> swizzle p then None
             else Some (packing it))"

definition sub_byte_split :: "int \<Rightarrow> int option" where
  "sub_byte_split b = (if b \<in> {10, 12, 14} then Some (16 - b) else if b = 20 then Some (32 - b) else None)"

definition MakeNVCVPacking_bits :: "int \<Rightarrow> int \<Rightarrow> int \<Rightarrow> int \<Rightarrow> u64 option" where
  "MakeNVCVPacking_bits bitsX bitsY bitsZ bitsW =
     (let (y, z, sw) =
        (if bitsY = 0 \<or> bitsZ = 0 then
           (let (y1, sw1) = (case sub_byte_split bitsX of
                  Some r \<Rightarrow> (r, NVCV_SWIZZLE_X000) | None \<Rightarrow> (bitsY, NVCV_SWIZZLE_0000))
            in case sub_byte_split bitsY of
                 Some r \<Rightarrow> (y1, r, NVCV_SWIZZLE_XZ00) | None \<Rightarrow> (y1, bitsZ, sw1))
         else (bitsY, bitsZ, NVCV_SWIZZLE_0000))
      in MakeNVCVPacking \<lparr>byteOrder = NVCV_ORDER_LSB, alignment = 0, swizzle = sw,
           bits = [bitsX, y, z, bitsW]\<rparr>)"

definition GetPackingParams :: "u64 \<Rightarrow> NVCVPackingParams result" where
  "GetPackingParams p =
     (case List.find (\<lambda>d. packing d = p) g_packingToData of
        None \<Rightarrow> Inl AssertFailed
      | Some d \<Rightarrow> Inr (if swizzle (params d) = NVCV_SWIZZLE_0000
          then (params d)\<lparr>swizzle := MakeNVCVSwizzleFromBits (bits (params d))\<rparr> else params d))"

definition GetName_packing :: "u64 \<Rightarrow> string option" where
  "GetName_packing p = map_option name (List.find (\<lambda>d. packing d = p) g_packingToData)"

section \<open>Sizes\<close>

definition GetBitsPerPixel :: "u64 \<Rightarrow> int result" where
  "GetBitsPerPixel p =
     (let bpp = uint (drop_bit 6 p) in
      if bpp = 0 then
        (let code = uint (p AND 15) in
         if code = 0 then nvcv_assert (p = NVCV_PACKING_0) (Inr 0)
         else if code \<le> 2 then Inr code
         else if code = 3 then Inr 4
         else if code \<le> 7 then Inr 8
         else Inr 0)
      else if bpp \<le> 3 then Inr ((bpp + 1) * 8)
      else if bpp \<le> 5 then Inr ((bpp - 1) * 16)
      else if bpp \<le> 7 then Inr ((bpp - 3) * 32)
      else if bpp \<le> 9 then Inr ((bpp - 5) * 64)
      else Inr 0)"

definition GetNumComponents :: "u64 \<Rightarrow> nat" where
  "GetNumComponents p = (if p = NVCV_PACKING_0 then 0 else unat (ExtractBitfield p 4 2) + 1)"

definition GetNumChannels :: "u64 \<Rightarrow> nat result" where
  "GetNumChannels p =
     (let cnt = GetNumComponents p in
      if p = NVCV_PACKING_X8_Y8__X8_Z8 \<or> p = NVCV_PACKING_Y8_X8__Z8_X8
      then nvcv_assert (cnt = 4) (Inr 3) else Inr cnt)"

definition GetBitsPerComponent :: "u64 \<Rightarrow> int list result" where
  "GetBitsPerComponent p =
     bind_result (GetPackingParams p) (\<lambda>pp.
       let channels = GetChannels (swizzle pp) in
       Inr (map (\<lambda>i. if i < GetNumComponents p \<and> is_component (channels ! i)
         then bits pp ! (channels ! i - NVCV_CHANNEL_X) else 0) [0..<4]))"

definition GetAlignment :: "u64 \<Rightarrow> int result" where
  "GetAlignment p = bind_result (GetPackingParams p) (\<lambda>pp. Inr (alignment pp))"

definition GetBlockHeightLog2 :: "nat \<Rightarrow> nat result" where
  "GetBlockHeightLog2 memLayout = nvcv_assert (1 \<le> memLayout \<and> memLayout \<le> 6) (Inr (memLayout - 1))"

section \<open>Merging and flipping\<close>

definition merge_rev :: "nat list \<Rightarrow> nat \<Rightarrow> nat list result" where
  "merge_rev chans maxSw =
     fold (\<lambda>j acc. bind_result acc (\<lambda>rev.
       let ch = chans ! j in
       if ch = NVCV_CHANNEL_1 then
         throw_if (maxSw + 1 \<ge> NVCV_CHANNEL_1) NVCV_ERROR_INVALID_ARGUMENT
           (Inr (rev[maxSw + 1 := NVCV_CHANNEL_1]))
       else Inr (rev[ch := NVCV_CHANNEL_X + j]))) [0..<4] (Inr (replicate 6 NVCV_CHANNEL_0))"

definition merge_plane :: "nat \<Rightarrow> nat \<times> nat list \<Rightarrow> (nat \<times> nat list) result" where
  "merge_plane sw st =
     (let (curch, swResult) = st;
          nchannels = GetNumChannels_swizzle sw;
          chans = GetChannels sw;
          maxSw = fold max (filter is_component chans) NVCV_CHANNEL_0
      in bind_result (merge_rev chans maxSw) (\<lambda>rev.
         bind_result
           (fold (\<lambda>j acc. bind_result acc (\<lambda>res.
              nvcv_assert (curch + j < 4)
                (let ch = rev ! (j + NVCV_CHANNEL_X) in
                 if ch = NVCV_CHANNEL_1 \<and> j = nchannels - 1 then Inr (res[3 := ch])
                 else Inr (res[curch + j := ch]))))
            [0..<nchannels] (Inr swResult))
           (\<lambda>res. Inr (curch + nchannels, res))))"

definition MergePlaneSwizzles :: "nat \<Rightarrow> nat \<Rightarrow> nat \<Rightarrow> nat \<Rightarrow> nat result" where
  "MergePlaneSwizzles sw0 sw1 sw2 sw3 =
     (if sw1 = NVCV_SWIZZLE_0000 then
        (if sw2 = NVCV_SWIZZLE_0000 \<and> sw3 = NVCV_SWIZZLE_0000 then Inr sw0
         else Inl (Throw NVCV_ERROR_INVALID_ARGUMENT))
      else
        bind_result
          (fold (\<lambda>sw acc. bind_result acc (merge_plane sw))
             (takeWhile (\<lambda>sw. sw \<noteq> NVCV_SWIZZLE_0000) [sw0, sw1, sw2, sw3])
             (Inr (0, replicate 4 NVCV_CHANNEL_0)))
          (\<lambda>(_, res).
             bind_result
               (if list_ex (\<lambda>sw. GetSwizzleChannel sw 3 = NVCV_CHANNEL_1) [sw0, sw1, sw2, sw3]
                then nvcv_assert (res ! 3 = NVCV_CHANNEL_0) (Inr (res[3 := NVCV_CHANNEL_1]))
                else Inr res)
               (\<lambda>res. Inr (MakeNVCVSwizzle (res ! 0) (res ! 1) (res ! 2) (res ! 3)))))"

text \<open>
  \<open>FlipByteOrder\<close>: the components with index in \<open>[off, off + len)\<close> are sorted by memory position,
  the order is reversed between the lowest and highest position used, and mapped back.
\<close>

definition FlipByteOrder :: "nat \<Rightarrow> int \<Rightarrow> int \<Rightarrow> nat result" where
  "FlipByteOrder swz off len =
     (if len \<le> 1 then Inr swz
      else nvcv_assert (off \<ge> 0) (nvcv_assert (off + len \<le> 4)
        (let comp = GetChannels swz;
             sel = filter (\<lambda>i. off \<le> int i \<and> int i < off + len \<and> is_component (comp ! i)) [0..<4];
             mem = fold (\<lambda>i m. m[comp ! i - NVCV_CHANNEL_X := i + NVCV_CHANNEL_X]) sel
                     (replicate 4 NVCV_CHANNEL_0);
             pos = map (\<lambda>i. comp ! i - NVCV_CHANNEL_X) sel
         in bind_result
              (if pos = [] then Inr (replicate 4 NVCV_CHANNEL_0)
               else let m = Min (set pos); M = Max (set pos) in
                 fold (\<lambda>i acc. bind_result acc (\<lambda>fl.
                    let ch = mem ! (m + ((M - m) - (i - m))) in
                    nvcv_assert (is_component ch) (Inr (fl[i := ch]))))
                   [m..<M + 1] (Inr (replicate 4 NVCV_CHANNEL_0)))
              (\<lambda>flipped.
                let comp' = fold (\<lambda>i c. if is_component (flipped ! i)
                      then c[flipped ! i - NVCV_CHANNEL_X := i + NVCV_CHANNEL_X] else c) [0..<4] comp
                in Inr (MakeNVCVSwizzle (comp' ! 0) (comp' ! 1) (comp' ! 2) (comp' ! 3))))))"

section \<open>Swizzle tables\<close>

lemma upt_four: "[0..<4] = [0, 1, 2, 3]"
  by (simp add: upt_rec)

lemma channel_row: "c < 8 \<Longrightarrow> take_bit 3 (word_of_nat c :: u64) = word_of_nat c"
  by (simp add: take_bit_of_nat take_bit_nat_eq_self)

lemma Extract_MAKE_SWIZZLE:
  "ExtractBitfield (MAKE_SWIZZLE x y z w) 0 3 = take_bit 3 x"
  "ExtractBitfield (MAKE_SWIZZLE x y z w) 3 3 = take_bit 3 y"
  "ExtractBitfield (MAKE_SWIZZLE x y z w) 6 3 = take_bit 3 z"
  "ExtractBitfield (MAKE_SWIZZLE x y z w) 9 3 = take_bit 3 w"
  by (simp_all add: MAKE_SWIZZLE_def Extract_OR Extract_Set Extract_Set_other)

lemma rows_ok: "length swizzle_rows = 56 \<and> list_all (\<lambda>r. length r = 4 \<and> list_all (\<lambda>c. c < 8) r) swizzle_rows
    \<and> distinct swizzle_rows"
  by (simp add: swizzle_rows_def)

lemma row_ok: "s < 56 \<Longrightarrow> i < 4 \<Longrightarrow> length (swizzle_rows ! s) = 4 \<and> swizzle_rows ! s ! i < 8"
  using rows_ok by (auto simp: list_all_length)

lemma bits_row: "s < 56 \<Longrightarrow> swizzleBitsArray ! s =
    MAKE_SWIZZLE (word_of_nat (swizzle_rows ! s ! 0)) (word_of_nat (swizzle_rows ! s ! 1))
      (word_of_nat (swizzle_rows ! s ! 2)) (word_of_nat (swizzle_rows ! s ! 3))"
  using rows_ok by (simp add: swizzleBitsArray_def nth_append)

lemma unat_small: "c < 8 \<Longrightarrow> unat (word_of_nat c :: u64) = c"
  by (simp add: unsigned_of_nat take_bit_nat_eq_self)

lemma list4: "length r = 4 \<Longrightarrow> r = [r ! 0, r ! 1, r ! 2, r ! 3]"
  by (rule nth_equalityI) (auto simp: less_Suc_eq numeral_eq_Suc)

lemma GetChannels_row: "s < 56 \<Longrightarrow> GetChannels s = swizzle_rows ! s"
proof -
  assume s: "s < 56"
  note r = row_ok [OF s]
  have "GetChannels s = [swizzle_rows ! s ! 0, swizzle_rows ! s ! 1, swizzle_rows ! s ! 2,
      swizzle_rows ! s ! 3]"
    using s r [of 0] r [of 1] r [of 2] r [of 3]
    by (simp add: GetChannels_def GetSwizzleChannel_def upt_four bits_row Extract_MAKE_SWIZZLE
        channel_row unat_small)
  also have "\<dots> = swizzle_rows ! s" using list4 [of "swizzle_rows ! s"] r [of 0] by simp
  finally show ?thesis .
qed

lemma MAKE_SWIZZLE_inject:
  assumes "x < 8" "y < 8" "z < 8" "w < 8" "x' < 8" "y' < 8" "z' < 8" "w' < 8"
  shows "MAKE_SWIZZLE (word_of_nat x) (word_of_nat y) (word_of_nat z) (word_of_nat w)
     = MAKE_SWIZZLE (word_of_nat x') (word_of_nat y') (word_of_nat z') (word_of_nat w')
     \<longleftrightarrow> x = x' \<and> y = y' \<and> z = z' \<and> w = w'" (is "?l = ?r \<longleftrightarrow> _")
proof
  assume e: "?l = ?r"
  have "unat (ExtractBitfield ?l i 3) = unat (ExtractBitfield ?r i 3)" for i by (simp only: e)
  from this [of 0] this [of 3] this [of 6] this [of 9]
  show "x = x' \<and> y = y' \<and> z = z' \<and> w = w'"
    using assms by (simp only: Extract_MAKE_SWIZZLE channel_row unat_small)
qed simp

lemma find_append: "List.find P (xs @ ys) =
    (case List.find P xs of None \<Rightarrow> List.find P ys | Some x \<Rightarrow> Some x)"
  by (induction xs) auto

lemma find_cong_upt: "(\<And>i. i < n \<Longrightarrow> P i = Q i) \<Longrightarrow> List.find P [0..<n] = List.find Q [0..<n]"
  by (induction n) (auto simp: find_append split: option.split)

lemma list4_iff: "length r = 4 \<Longrightarrow> r = [x, y, z, w] \<longleftrightarrow> r ! 0 = x \<and> r ! 1 = y \<and> r ! 2 = z \<and> r ! 3 = w"
  by (subst list4) auto

lemma MakeNVCVSwizzle_row:
  assumes c: "x < 8" "y < 8" "z < 8" "w < 8"
  shows "MakeNVCVSwizzle x y z w =
    (case List.find (\<lambda>i. swizzle_rows ! i = [x, y, z, w]) [0..<56] of Some i \<Rightarrow> i | None \<Rightarrow> 63)"
proof -
  let ?b = "MAKE_SWIZZLE (word_of_nat x) (word_of_nat y) (word_of_nat z) (word_of_nat w)"
  have row: "(swizzleBitsArray ! i = ?b) = (swizzle_rows ! i = [x, y, z, w])" if i: "i < 56" for i
  proof -
    note r = row_ok [OF i]
    have "(swizzleBitsArray ! i = ?b) \<longleftrightarrow> swizzle_rows ! i ! 0 = x \<and> swizzle_rows ! i ! 1 = y
        \<and> swizzle_rows ! i ! 2 = z \<and> swizzle_rows ! i ! 3 = w"
      unfolding bits_row [OF i]
      by (rule MAKE_SWIZZLE_inject) (use r [of 0] r [of 1] r [of 2] r [of 3] c in simp_all)
    also have "\<dots> \<longleftrightarrow> swizzle_rows ! i = [x, y, z, w]"
      using list4_iff [of "swizzle_rows ! i" x y z w] r [of 0] by simp
    finally show ?thesis .
  qed
  have last: "swizzleBitsArray ! 56 = MAKE_SWIZZLE (word_of_nat 0) (word_of_nat 0) (word_of_nat 0) (word_of_nat 0)"
    using rows_ok by (simp add: swizzleBitsArray_def nth_append MAKE_SWIZZLE_def SetBitfield_def)
  have zero: "List.find (\<lambda>i. swizzle_rows ! i = [0, 0, 0, 0]) [0..<56] = Some 0"
    by (simp add: upt_conv_Cons swizzle_rows_def)
  have "[0..<NVCV_MAX_SWIZZLE_COUNT] = [0..<56] @ [56]" using upt_Suc_append [of 0 56] by simp
  moreover have "swizzleBitsArray ! 56 = ?b \<longleftrightarrow> x = 0 \<and> y = 0 \<and> z = 0 \<and> w = 0"
    unfolding last by (subst MAKE_SWIZZLE_inject) (use c in auto)
  ultimately show ?thesis
    using find_cong_upt [of 56 "\<lambda>i. swizzleBitsArray ! i = ?b", OF row] zero
    by (auto simp: MakeNVCVSwizzle_def Let_def find_append split: option.splits)
qed

lemma GetChannels_code [code]: "GetChannels s =
    (if s < 56 then swizzle_rows ! s else map (GetSwizzleChannel s) [0..<4])"
  by (simp add: GetChannels_row) (simp add: GetChannels_def)

lemma MakeNVCVSwizzle_code [code]: "MakeNVCVSwizzle x y z w =
   (if x < 8 \<and> y < 8 \<and> z < 8 \<and> w < 8 then
      (case List.find (\<lambda>i. swizzle_rows ! i = [x, y, z, w]) [0..<56] of
         Some i \<Rightarrow> i | None \<Rightarrow> NVCV_SWIZZLE_UNSUPPORTED)
    else
      (let swizzleBits = MAKE_SWIZZLE (word_of_nat x) (word_of_nat y) (word_of_nat z) (word_of_nat w)
       in case List.find (\<lambda>i. swizzleBitsArray ! i = swizzleBits) [0..<NVCV_MAX_SWIZZLE_COUNT] of
            Some i \<Rightarrow> i | None \<Rightarrow> NVCV_SWIZZLE_UNSUPPORTED))"
  using MakeNVCVSwizzle_row by (simp add: MakeNVCVSwizzle_def)

lemma find_SomeD: "List.find P xs = Some x \<Longrightarrow> x \<in> set xs \<and> P x"
  by (induction xs) (auto split: if_splits)

lemma find_unique:
  "x \<in> set xs \<Longrightarrow> P x \<Longrightarrow> (\<And>y. y \<in> set xs \<Longrightarrow> P y \<Longrightarrow> y = x) \<Longrightarrow> List.find P xs = Some x"
proof (induction xs)
  case (Cons a xs)
  show ?case
  proof (cases "P a")
    case True
    with Cons.prems(3) [of a] show ?thesis by simp
  next
    case False
    with Cons.prems(1,2) have "x \<in> set xs" by auto
    from Cons.IH [OF this Cons.prems(2)] Cons.prems(3) False show ?thesis by simp
  qed
qed simp

text \<open>
  Swizzles and channel lists. Each of the 56 swizzles is made again from its four
  channels; channels that make a supported swizzle are the channels of that swizzle, so two
  different lists never make the same one; other lists are reported as unsupported.
\<close>

theorem swizzle_roundtrip:
  "(\<forall>s<56. case GetChannels s of [x, y, z, w] \<Rightarrow> MakeNVCVSwizzle x y z w = s | _ \<Rightarrow> False)
   \<and> (\<forall>x<8. \<forall>y<8. \<forall>z<8. \<forall>w<8. if [x, y, z, w] \<in> set swizzle_rows
        then MakeNVCVSwizzle x y z w < 56 \<and> GetChannels (MakeNVCVSwizzle x y z w) = [x, y, z, w]
        else MakeNVCVSwizzle x y z w = NVCV_SWIZZLE_UNSUPPORTED)"
proof (intro conjI allI impI)
  fix s :: nat
  assume s: "s < 56"
  let ?r = "swizzle_rows ! s"
  have r: "?r = [?r ! 0, ?r ! 1, ?r ! 2, ?r ! 3]"
    by (rule list4) (use row_ok [OF s, of 0] in simp)
  have "List.find (\<lambda>i. swizzle_rows ! i = ?r) [0..<56] = Some s"
    using s rows_ok by (intro find_unique) (auto simp: nth_eq_iff_index_eq)
  then have "MakeNVCVSwizzle (?r ! 0) (?r ! 1) (?r ! 2) (?r ! 3) = s"
    using row_ok [OF s, of 0] row_ok [OF s, of 1] row_ok [OF s, of 2] row_ok [OF s, of 3] r
    by (simp add: MakeNVCVSwizzle_row)
  then show "case GetChannels s of [x, y, z, w] \<Rightarrow> MakeNVCVSwizzle x y z w = s | _ \<Rightarrow> False"
    unfolding GetChannels_row [OF s] by (subst r) simp
next
  fix x y z w :: nat
  assume c: "x < 8" "y < 8" "z < 8" "w < 8"
  show "if [x, y, z, w] \<in> set swizzle_rows
        then MakeNVCVSwizzle x y z w < 56 \<and> GetChannels (MakeNVCVSwizzle x y z w) = [x, y, z, w]
        else MakeNVCVSwizzle x y z w = NVCV_SWIZZLE_UNSUPPORTED"
  proof (cases "List.find (\<lambda>i. swizzle_rows ! i = [x, y, z, w]) [0..<56]")
    case None
    then have "[x, y, z, w] \<notin> set swizzle_rows"
      using rows_ok by (auto simp: find_None_iff in_set_conv_nth)
    with None show ?thesis by (simp add: MakeNVCVSwizzle_row [OF c])
  next
    case (Some i)
    from find_SomeD [OF this] have i: "i < 56" "swizzle_rows ! i = [x, y, z, w]" by auto
    then have "[x, y, z, w] \<in> set swizzle_rows" using rows_ok by (metis nth_mem)
    with Some i show ?thesis by (simp add: MakeNVCVSwizzle_row [OF c] GetChannels_row)
  qed
qed

theorem swizzle_roundtrip_witness:
  "GetChannels 10 = [2, 3, 4, 1] \<and> MakeNVCVSwizzle 2 3 4 1 = 10"
  using swizzle_roundtrip [THEN conjunct1, rule_format, of 10]
  by (simp add: GetChannels_row swizzle_rows_def)

section \<open>Packings and their parameters\<close>

definition full_swizzle :: "NVCVPackingParams \<Rightarrow> NVCVPackingParams" where
  "full_swizzle p = (if swizzle p = NVCV_SWIZZLE_0000
     then p\<lparr>swizzle := MakeNVCVSwizzleFromBits (bits p)\<rparr> else p)"

definition lookup_key :: "NVCVPackingParams \<Rightarrow> NVCVPackingParams" where
  "lookup_key p = (if swizzle p \<noteq> NVCV_SWIZZLE_XYXZ \<and> swizzle p \<noteq> NVCV_SWIZZLE_YXZX \<and> \<not> IsSubWord p
     then p\<lparr>swizzle := NVCV_SWIZZLE_0000\<rparr> else p)"

definition entry_ok :: "packing_data \<Rightarrow> bool" where
  "entry_ok d \<longleftrightarrow> swizzle (lookup_key (full_swizzle (params d))) = swizzle (params d)
     \<and> length (bits (params d)) = 4"

lemma entries_ok: "list_all entry_ok g_packingToData"
  unfolding packing_table_eval by code_simp

lemma codes_distinct: "distinct (map packing g_packingToData)"
  unfolding packing_table_eval by (simp add: packing_entry_def)

lemma keys_distinct: "distinct (map (\<lambda>d. (swizzle (params d), bits (params d))) g_packingToData)"
  unfolding packing_table_eval by (simp add: packing_entry_def)

lemma filter_unique:
  "distinct (map f xs) \<Longrightarrow> x \<in> set xs \<Longrightarrow> (\<And>y. y \<in> set xs \<Longrightarrow> P y \<longleftrightarrow> f y = f x) \<Longrightarrow> filter P xs = [x]"
proof (induction xs)
  case (Cons a xs)
  show ?case
  proof (cases "a = x")
    case True
    with Cons.prems have "\<forall>y\<in>set xs. \<not> P y" by (auto simp: image_iff)
    moreover have "P x" using Cons.prems(3) [of x] Cons.prems(2) by simp
    ultimately show ?thesis using True by (simp add: filter_False)
  next
    case False
    then have x: "x \<in> set xs" using Cons.prems(2) by simp
    then have "\<not> P a" using Cons.prems(1) Cons.prems(3) [of a] by (auto simp: image_iff)
    with Cons.IH x Cons.prems(1,3) show ?thesis by simp
  qed
qed simp

lemma key_range:
  assumes d: "d \<in> set g_packingToData"
    and k: "swizzle key = swizzle (params d)" "bits key = bits (params d)"
  shows "filter (same_key key) g_dataToPacking = [d]"
proof -
  have len: "length (bits (params y)) = 4" if "y \<in> set g_packingToData" for y
    using entries_ok that by (auto simp: list_all_iff entry_ok_def)
  have "filter (same_key key) g_packingToData = [d]"
    by (rule filter_unique [OF keys_distinct d]) (use k len d in \<open>auto simp: same_key_def\<close>)
  then show ?thesis unfolding g_dataToPacking_def filter_sort by simp
qed

lemma GetPackingParams_entry:
  assumes "d \<in> set g_packingToData"
  shows "GetPackingParams (packing d) = Inr (full_swizzle (params d))"
proof -
  have "List.find (\<lambda>d'. packing d' = packing d) g_packingToData = Some d"
    using codes_distinct assms by (intro find_unique) (auto simp: distinct_map dest: inj_onD)
  then show ?thesis by (simp add: GetPackingParams_def full_swizzle_def)
qed

lemma MakeNVCVPacking_lookup:
  assumes d: "d \<in> set g_packingToData"
    and p: "swizzle (lookup_key p) = swizzle (params d)" "bits p = bits (params d)"
    and ord: "byteOrder p = byteOrder (params d)"
    and sw: "swizzle p = NVCV_SWIZZLE_0000
      \<or> swizzle p = swizzle (full_swizzle (params d))"
  shows "MakeNVCVPacking p = Some (packing d)"
proof -
  have "bits (lookup_key p) = bits (params d)" using p by (simp add: lookup_key_def)
  note r = key_range [OF d p(1) this]
  have r2: "filter (same_key (if swizzle p \<noteq> NVCV_SWIZZLE_XYXZ \<and> swizzle p \<noteq> NVCV_SWIZZLE_YXZX
      \<and> \<not> IsSubWord p then p\<lparr>swizzle := NVCV_SWIZZLE_0000\<rparr> else p)) g_dataToPacking = [d]"
    using r by (simp add: lookup_key_def)
  show ?thesis
    unfolding MakeNVCVPacking_def Let_def r2
    using ord sw p(2) by (auto simp: smallest_alignment_def full_swizzle_def split: if_splits)
qed

text \<open>
  Packings and their parameters. Each of the 63 packings is found again from the
  parameters it reports, whatever alignment is asked for, and no two packings report the same
  bits and swizzle.
\<close>

theorem packing_roundtrip:
  assumes "d \<in> set g_packingToData"
  shows "\<exists>p. GetPackingParams (packing d) = Inr p \<and> MakeNVCVPacking (p\<lparr>alignment := a\<rparr>) = Some (packing d)"
proof -
  let ?p = "full_swizzle (params d)"
  have "entry_ok d" using entries_ok assms by (simp add: list_all_iff)
  then have "swizzle (lookup_key (?p\<lparr>alignment := a\<rparr>)) = swizzle (params d)"
    by (auto simp: entry_ok_def lookup_key_def IsSubWord_def split: if_splits)
  then have "MakeNVCVPacking (?p\<lparr>alignment := a\<rparr>) = Some (packing d)"
    by (intro MakeNVCVPacking_lookup [OF assms]) (auto simp: full_swizzle_def)
  with GetPackingParams_entry [OF assms] show ?thesis by blast
qed

theorem packing_roundtrip_witness:
  "\<exists>p. GetPackingParams NVCV_PACKING_X8_Y8 = Inr p
     \<and> MakeNVCVPacking (p\<lparr>alignment := 4\<rparr>) = Some NVCV_PACKING_X8_Y8"
proof -
  have "DEF_FIX_PACK2 NVCV_PACKING_X8_Y8 ''NVCV_PACKING_X8_Y8'' 8 8 \<in> set g_packingToData"
    by (simp add: g_packingToData_def)
  from packing_roundtrip [OF this, of 4] show ?thesis by (simp add: DEF_defs packing_entry_def)
qed

text \<open>
  The requested alignment is not used. The parameters of a packing are documented to
  accept packings whose alignment is not larger than the requested one, but the lookup compares
  the candidates with each other: any two alignments other than 0 give the same answer, and a
  request for byte alignment finds the packing that is aligned to 32 bytes.
\<close>

theorem MakeNVCVPacking_ignores_alignment:
  shows "(a \<noteq> 0 \<and> b \<noteq> 0 \<longrightarrow> MakeNVCVPacking (p\<lparr>alignment := a\<rparr>) = MakeNVCVPacking (p\<lparr>alignment := b\<rparr>))
   \<and> MakeNVCVPacking \<lparr>byteOrder = NVCV_ORDER_LSB, alignment = 1, swizzle = NVCV_SWIZZLE_X000,
        bits = [256, 0, 0, 0]\<rparr> = Some NVCV_PACKING_X256
   \<and> GetAlignment NVCV_PACKING_X256 = Inr 32"
proof (intro conjI impI)
  let ?d = "DEF_PACK1 NVCV_PACKING_X256 ''NVCV_PACKING_X256'' 256"
  have d: "?d \<in> set g_packingToData" by (simp add: g_packingToData_def)
  have pd: "params ?d = \<lparr>byteOrder = NVCV_ORDER_LSB, alignment = 32, swizzle = 0, bits = [256, 0, 0, 0]\<rparr>"
    "packing ?d = NVCV_PACKING_X256"
    by (simp_all add: DEF_defs packing_entry_def RoundUpNextPowerOfTwo_def smear_right.simps)
  have sw: "swizzle (full_swizzle (params ?d)) = NVCV_SWIZZLE_X000" unfolding pd by code_simp
  show "MakeNVCVPacking \<lparr>byteOrder = NVCV_ORDER_LSB, alignment = 1, swizzle = NVCV_SWIZZLE_X000,
      bits = [256, 0, 0, 0]\<rparr> = Some NVCV_PACKING_X256"
  proof -
    have "swizzle (lookup_key \<lparr>byteOrder = NVCV_ORDER_LSB, alignment = 1, swizzle = NVCV_SWIZZLE_X000,
      bits = [256, 0, 0, 0]\<rparr>) = 0" by code_simp
    from MakeNVCVPacking_lookup [OF d _ _ _ disjI2 [OF sw [symmetric, THEN trans [rotated]]]] this
    show ?thesis using MakeNVCVPacking_lookup [OF d] sw by (simp add: pd)
  qed
  show "GetAlignment NVCV_PACKING_X256 = Inr 32"
    using GetPackingParams_entry [OF d] unfolding pd
    by (simp add: GetAlignment_def full_swizzle_def)
next
  assume ab: "a \<noteq> 0 \<and> b \<noteq> 0"
  have k: "same_key (p\<lparr>alignment := x\<rparr>) = same_key p"
    "same_key (p\<lparr>alignment := x, swizzle := s\<rparr>) = same_key (p\<lparr>swizzle := s\<rparr>)"
    "IsSubWord (p\<lparr>alignment := x\<rparr>) = IsSubWord p" for x s
    by (simp_all add: same_key_def fun_eq_iff IsSubWord_def)
  show "MakeNVCVPacking (p\<lparr>alignment := a\<rparr>) = MakeNVCVPacking (p\<lparr>alignment := b\<rparr>)"
    using ab by (simp add: MakeNVCVPacking_def Let_def k cong: option.case_cong if_cong)
qed

theorem MakeNVCVPacking_ignores_alignment_witness:
  "MakeNVCVPacking \<lparr>byteOrder = NVCV_ORDER_LSB, alignment = 8, swizzle = NVCV_SWIZZLE_X000,
     bits = [256, 0, 0, 0]\<rparr> = Some NVCV_PACKING_X256"
  using MakeNVCVPacking_ignores_alignment [of 8 1 "\<lparr>byteOrder = NVCV_ORDER_LSB, alignment = 1,
      swizzle = NVCV_SWIZZLE_X000, bits = [256, 0, 0, 0]\<rparr>"] by simp

definition size_data_ok :: "packing_data \<Rightarrow> bool" where
  "size_data_ok d \<longleftrightarrow>
     (case GetBitsPerPixel (packing d) of
        Inl _ \<Rightarrow> False
      | Inr bpp \<Rightarrow> sum_list (bits (params d)) =
          (if packing d \<in> {NVCV_PACKING_X8_Y8__X8_Z8, NVCV_PACKING_Y8_X8__Z8_X8} then 2 * bpp else bpp))
     \<and> GetNumChannels (packing d) = Inr (GetNumChannels_swizzle (swizzle (full_swizzle (params d))))
     \<and> list_all (\<lambda>i. is_component (GetChannels (swizzle (full_swizzle (params d))) ! i)
          \<longrightarrow> i < GetNumComponents (packing d)) [0..<4]"

lemma sizes_table: "list_all size_data_ok g_packingToData"
  unfolding packing_table_eval by code_simp

text \<open>
  The sizes of a packing agree. The bits per pixel decoded from the code are the sum
  of the bits of its components (of two pixels for the two 4:2:2 packings), the channel count in
  the code is that of the swizzle, and component \<open>i\<close> is reported with the bits of the channel
  that the swizzle selects, zero for constants.
\<close>

theorem packing_sizes:
  assumes d: "d \<in> set g_packingToData"
  shows "(\<exists>bpp. GetBitsPerPixel (packing d) = Inr bpp \<and> sum_list (bits (params d)) =
        (if packing d \<in> {NVCV_PACKING_X8_Y8__X8_Z8, NVCV_PACKING_Y8_X8__Z8_X8} then 2 * bpp else bpp))
    \<and> GetNumChannels (packing d) = Inr (GetNumChannels_swizzle (swizzle (full_swizzle (params d))))
    \<and> GetBitsPerComponent (packing d) = Inr (map (\<lambda>i.
         let ch = GetChannels (swizzle (full_swizzle (params d))) ! i
         in if is_component ch then bits (params d) ! (ch - NVCV_CHANNEL_X) else 0) [0..<4])"
proof -
  have ok: "size_data_ok d" using sizes_table d by (simp add: list_all_iff)
  have "GetBitsPerComponent (packing d) = Inr (map (\<lambda>i.
         let ch = GetChannels (swizzle (full_swizzle (params d))) ! i
         in if is_component ch then bits (params d) ! (ch - NVCV_CHANNEL_X) else 0) [0..<4])"
    using ok by (simp add: GetBitsPerComponent_def GetPackingParams_entry [OF d] size_data_ok_def
        list_all_iff Let_def full_swizzle_def)
  with ok show ?thesis by (auto simp: size_data_ok_def split: sum.splits)
qed

theorem packing_sizes_witness:
  "GetBitsPerComponent NVCV_PACKING_b4X12 = Inr [12, 0, 0, 0]"
proof -
  let ?d = "DEF_LSB_PACK1 NVCV_PACKING_b4X12 ''NVCV_PACKING_b4X12'' 4 12"
  have d: "?d \<in> set g_packingToData" by (simp add: g_packingToData_def)
  have "GetChannels 21 = [2, 0, 0, 0]" by (simp add: GetChannels_row swizzle_rows_def)
  with packing_sizes [OF d, THEN conjunct2, THEN conjunct2] show ?thesis
    by (simp add: DEF_defs packing_entry_def full_swizzle_def upt_four is_component_def)
qed

text \<open>Reversing the byte order twice, on the table of swizzles.\<close>

lemma flip_table: "list_all (\<lambda>s. case FlipByteOrder s 0 4 of
    Inr t \<Rightarrow> t = NVCV_SWIZZLE_UNSUPPORTED
      \<or> FlipByteOrder t 0 4 = Inr s \<and> GetNumChannels_swizzle t = GetNumChannels_swizzle s
  | Inl _ \<Rightarrow> True) [0..<56]"
  by code_simp

text \<open>
  Reversing the byte order of a swizzle twice gives the swizzle back, whenever the
  reversed swizzle is one of the supported ones; the number of channels is kept.
\<close>

theorem FlipByteOrder_involution:
  assumes "s < 56" "FlipByteOrder s 0 4 = Inr t" "t \<noteq> NVCV_SWIZZLE_UNSUPPORTED"
  shows "FlipByteOrder t 0 4 = Inr s \<and> GetNumChannels_swizzle t = GetNumChannels_swizzle s"
  using flip_table assms by (auto simp: list_all_iff dest!: bspec [where x = s])

theorem FlipByteOrder_involution_witness:
  "FlipByteOrder NVCV_SWIZZLE_WZY1 0 4 = Inr NVCV_SWIZZLE_YZW1"
proof -
  have "FlipByteOrder NVCV_SWIZZLE_YZW1 0 4 = Inr NVCV_SWIZZLE_WZY1" by code_simp
  from FlipByteOrder_involution [OF _ this] show ?thesis by simp
qed

text \<open>
  A packing of two 10-bit channels in 16-bit words exists, but is not found by its bits: the bits
  of the second channel are overwritten with the padding of the first.
\<close>

lemma two_channel_bits_lost:
  "MakeNVCVPacking_bits 10 10 0 0 = None \<and> GetBitsPerComponent NVCV_PACKING_X10b6_Y10b6 = Inr [10, 10, 0, 0]"
proof -
  have "g_dataToPacking = sort_key packing g_packingToData" by (simp add: g_dataToPacking_def)
  have none: "list_all (\<lambda>d. \<not> same_key \<lparr>byteOrder = NVCV_ORDER_LSB, alignment = 0,
      swizzle = 41, bits = [10, 6, 6, 0]\<rparr> d \<and> \<not> same_key \<lparr>byteOrder = NVCV_ORDER_LSB, alignment = 0,
      swizzle = 0, bits = [10, 6, 6, 0]\<rparr> d) g_packingToData"
    unfolding packing_table_eval by (simp add: same_key_def packing_entry_def)
  have "filter (same_key \<lparr>byteOrder = NVCV_ORDER_LSB, alignment = 0, swizzle = s,
      bits = [10, 6, 6, 0]\<rparr>) g_dataToPacking = []" if "s = 41 \<or> s = 0" for s
    using none that unfolding g_dataToPacking_def filter_sort by (auto simp: list_all_iff filter_empty_conv)
  then have "MakeNVCVPacking_bits 10 10 0 0 = None"
    by (simp add: MakeNVCVPacking_bits_def sub_byte_split_def MakeNVCVPacking_def)
  moreover have "GetBitsPerComponent NVCV_PACKING_X10b6_Y10b6 = Inr [10, 10, 0, 0]"
    by code_simp
  ultimately show ?thesis ..
qed

lemma zero_alignment: "GetAlignment NVCV_PACKING_X1 = Inr 0"
  by code_simp

end
