(* ===== verification/Image_Format.thy ===== *)
theory Image_Format
  imports Color_Spec Data_Layout "HOL-Library.Signed_Division"
begin

text \<open>
  Image formats and data types (\<open>ImageFormat.hpp\<close>, \<open>ImageFormat.cpp\<close>, \<open>DataType.hpp\<close>,
  \<open>DataType.cpp\<close>, \<open>ColorFormat.hpp\<close> under \<open>src/nvcv/src/priv\<close>): a 64-bit word that holds data
  kind, swizzle, alpha type, memory layout, colour model with its specification, and the packings
  of up to four planes or the description of extra channels. The four constructors, every getter
  and setter, the conversion from and to planes and the four-character codes are modelled; then
  the theories of the fields: what a constructor stores is what the getters read.
\<close>

section \<open>Enumerations and encoding\<close>

abbreviation (input) "NVCV_DATA_KIND_UNSPECIFIED \<equiv> (- 1 :: u64)"
abbreviation (input) "NVCV_DATA_KIND_UNSIGNED \<equiv> (0 :: u64)"
abbreviation (input) "NVCV_DATA_KIND_SIGNED \<equiv> (1 :: u64)"
abbreviation (input) "NVCV_DATA_KIND_FLOAT \<equiv> (2 :: u64)"
abbreviation (input) "NVCV_MEM_LAYOUT_PL \<equiv> (0 :: u64)"
abbreviation (input) "NVCV_ALPHA_ASSOCIATED \<equiv> (0 :: u64)"
abbreviation (input) "NVCV_EXTRA_CHANNEL_U \<equiv> (0 :: u64)"
abbreviation (input) "NVCV_RAW_BAYER_RGGB \<equiv> (0 :: u64)"
abbreviation (input) "NVCV_RAW_BAYER_BGGR \<equiv> (1 :: u64)"
abbreviation (input) "NVCV_IMAGE_FORMAT_NONE \<equiv> (0 :: u64)"
abbreviation (input) "NVCV_DATA_TYPE_NONE \<equiv> (0 :: u64)"

record NVCVExtraChannelInfo =
  exNumChannels :: int
  exBitsPerPixel :: int
  exDatakind :: u64
  exChannelType :: u64

definition SET_EXTRA_CHANNEL_INFO :: "int \<Rightarrow> int \<Rightarrow> u64 \<Rightarrow> u64 \<Rightarrow> u64" where
  "SET_EXTRA_CHANNEL_INFO n bpp kind typ =
     SetBitfield typ 44 3 OR SetBitfield (word_of_int n) 47 3
     OR SetBitfield (word_of_int (ENCODE_BPP bpp)) 50 3 OR SetBitfield kind 53 3"

text \<open>The colour part of a format: bits 16 to 34.\<close>

definition color_bits :: "u64 \<Rightarrow> u64 \<Rightarrow> u64 \<Rightarrow> u64" where
  "color_bits model specOrRaw css =
     (if model = NVCV_COLOR_MODEL_YCbCr then SetBitfield specOrRaw 20 15 OR SetBitfield css 17 3
      else if model = NVCV_COLOR_MODEL_UNDEFINED then SetBitfield (push_bit 19 1 - 1) 16 19
      else SetBitfield 1 16 1 OR
        (if model - 2 < 7 then SetBitfield specOrRaw 20 15 OR SetBitfield (model - 2) 17 3
         else SetBitfield 7 17 3 OR
           (if model = NVCV_COLOR_MODEL_RAW then SetBitfield specOrRaw 21 6
            else SetBitfield 1 20 1 OR SetBitfield (model - (7 + 2 + 1)) 21 6)))"

definition MAKE_FMTTYPE ::
    "u64 \<Rightarrow> u64 \<Rightarrow> u64 \<Rightarrow> u64 \<Rightarrow> u64 \<Rightarrow> nat \<Rightarrow> u64 \<Rightarrow> u64 \<Rightarrow> u64 \<Rightarrow> u64 \<Rightarrow> u64 \<Rightarrow> int \<Rightarrow> int \<Rightarrow> u64 \<Rightarrow> u64 \<Rightarrow> u64"
  where
  "MAKE_FMTTYPE model specOrRaw css ml kind swz alpha p0 p1 p2 p3 nEx exBpp exKind exType =
     SetBitfield kind 61 3 OR SetBitfield (word_of_nat swz) 0 6 OR SetBitfield alpha 6 1
     OR SetBitfield ml 12 3 OR color_bits model specOrRaw css
     OR SetBitfield (ENCODE_PACKING p0 2 3 4) 35 9
     OR (if p1 = NVCV_PACKING_0 \<and> nEx > 0 then SET_EXTRA_CHANNEL_INFO nEx exBpp exKind exType
         else SetBitfield 1 7 1 OR SetBitfield (ENCODE_PACKING p1 1 3 3) 44 7
           OR SetBitfield (ENCODE_PACKING p2 1 3 3) 51 7 OR SetBitfield (ENCODE_PACKING p3 0 0 3) 58 3)"

text \<open>A data type is a format whose swizzle field holds the number of channels.\<close>

definition MAKE_DATA_TYPE :: "u64 \<Rightarrow> u64 \<Rightarrow> u64" where
  "MAKE_DATA_TYPE kind p =
     MAKE_FMTTYPE NVCV_COLOR_MODEL_UNDEFINED NVCV_COLOR_SPEC_UNDEFINED NVCV_CSS_NONE NVCV_MEM_LAYOUT_PL
       kind (unat (EXTRACT_PACKING_CHANNELS p)) NVCV_ALPHA_ASSOCIATED p 0 0 0 0 0
       NVCV_DATA_KIND_UNSPECIFIED NVCV_EXTRA_CHANNEL_U"

section \<open>Constructors\<close>

definition validate_plane :: "int \<Rightarrow> u64 \<Rightarrow> nat result" where
  "validate_plane i p =
     bind_result (GetNumChannels p) (\<lambda>nch.
       if i = 3 then
         bind_result (GetBitsPerPixel p) (\<lambda>bpp. throw_if (bpp > 64) NVCV_ERROR_INVALID_ARGUMENT (Inr nch))
       else if i > 0 then
         bind_result (GetBitsPerPixel p) (\<lambda>bpp. throw_if (bpp > 128) NVCV_ERROR_INVALID_ARGUMENT
           (throw_if (i = 1 \<and> nch > 2) NVCV_ERROR_INVALID_ARGUMENT (Inr nch)))
       else Inr nch)"

definition ValidateSwizzlePacking :: "nat \<Rightarrow> u64 \<Rightarrow> u64 \<Rightarrow> u64 \<Rightarrow> u64 \<Rightarrow> unit result" where
  "ValidateSwizzlePacking swz p0 p1 p2 p3 =
     throw_if (p0 = NVCV_PACKING_0) NVCV_ERROR_INVALID_ARGUMENT
    (throw_if (p0 AND 8 \<noteq> 0) NVCV_ERROR_INVALID_ARGUMENT
    (throw_if (p1 AND 8 \<noteq> 0) NVCV_ERROR_INVALID_ARGUMENT
    (throw_if (p2 AND 8 \<noteq> 0) NVCV_ERROR_INVALID_ARGUMENT
    (throw_if (p3 AND 15 \<noteq> 0) NVCV_ERROR_INVALID_ARGUMENT
    (bind_result (validate_plane 0 p0) (\<lambda>n0.
     bind_result (validate_plane 1 p1) (\<lambda>n1.
     bind_result (validate_plane 2 p2) (\<lambda>n2.
     bind_result (validate_plane 3 p3) (\<lambda>n3.
       throw_if (GetNumChannels_swizzle swz \<noteq> n0 + n1 + n2 + n3) NVCV_ERROR_INVALID_ARGUMENT
         (Inr ()))))))))))"

definition ValidateExtraChannelInfo ::
    "NVCVExtraChannelInfo option \<Rightarrow> u64 \<Rightarrow> u64 \<Rightarrow> u64 \<Rightarrow> u64 \<Rightarrow> unit result" where
  "ValidateExtraChannelInfo ex p0 p1 p2 p3 =
     (case ex of None \<Rightarrow> Inr ()
      | Some e \<Rightarrow>
          throw_if (exNumChannels e > 7) NVCV_ERROR_INVALID_ARGUMENT
         (throw_if (exNumChannels e > 0 \<and> p0 = NVCV_PACKING_0) NVCV_ERROR_INVALID_IMAGE_FORMAT
         (throw_if (exNumChannels e > 0 \<and> p0 \<noteq> NVCV_PACKING_0
              \<and> (p1 \<noteq> NVCV_PACKING_0 \<or> p2 \<noteq> NVCV_PACKING_0 \<or> p3 \<noteq> NVCV_PACKING_0))
            NVCV_ERROR_INVALID_IMAGE_FORMAT
         (throw_if (exBitsPerPixel e > 128) NVCV_ERROR_INVALID_ARGUMENT (Inr ())))))"

text \<open>
  The macro call a constructor ends in: with the extra channels when there are any, else with
  none, an unspecified kind and an unspecified type.
\<close>

definition make_format ::
    "u64 \<Rightarrow> u64 \<Rightarrow> u64 \<Rightarrow> u64 \<Rightarrow> u64 \<Rightarrow> nat \<Rightarrow> u64 \<Rightarrow> u64 \<Rightarrow> u64 \<Rightarrow> u64 \<Rightarrow> u64 \<Rightarrow> NVCVExtraChannelInfo option \<Rightarrow> u64"
  where
  "make_format model specOrRaw css ml kind swz alpha p0 p1 p2 p3 ex =
     (case ex of
        Some e \<Rightarrow>
          (if exNumChannels e > 0
           then MAKE_FMTTYPE model specOrRaw css ml kind swz alpha p0 p1 p2 p3
                  (exNumChannels e) (exBitsPerPixel e) (exDatakind e) (exChannelType e)
           else MAKE_FMTTYPE model specOrRaw css ml kind swz alpha p0 p1 p2 p3 0 0
                  NVCV_DATA_KIND_UNSPECIFIED NVCV_EXTRA_CHANNEL_U)
      | None \<Rightarrow> MAKE_FMTTYPE model specOrRaw css ml kind swz alpha p0 p1 p2 p3 0 0
                  NVCV_DATA_KIND_UNSPECIFIED NVCV_EXTRA_CHANNEL_U)"

definition ImageFormat_color ::
    "u64 \<Rightarrow> u64 \<Rightarrow> u64 \<Rightarrow> u64 \<Rightarrow> u64 \<Rightarrow> nat \<Rightarrow> u64 \<Rightarrow> u64 \<Rightarrow> u64 \<Rightarrow> u64 \<Rightarrow> u64 \<Rightarrow> NVCVExtraChannelInfo option \<Rightarrow> u64 result"
  where
  "ImageFormat_color model spec chromaSub ml kind swz p0 p1 p2 p3 alpha ex =
     bind_result (ValidateSwizzlePacking swz p0 p1 p2 p3) (\<lambda>_.
     throw_if (model = NVCV_COLOR_MODEL_RAW) NVCV_ERROR_INVALID_ARGUMENT
    (throw_if (model = NVCV_COLOR_MODEL_UNDEFINED \<and> (spec \<noteq> NVCV_COLOR_SPEC_UNDEFINED \<or> chromaSub \<noteq> NVCV_CSS_NONE))
       NVCV_ERROR_INVALID_ARGUMENT
    (throw_if (model \<notin> set [NVCV_COLOR_MODEL_RGB, NVCV_COLOR_MODEL_YCCK, NVCV_COLOR_MODEL_CMYK, NVCV_COLOR_MODEL_YCbCr]
        \<and> spec \<noteq> NVCV_COLOR_SPEC_UNDEFINED) NVCV_ERROR_INVALID_ARGUMENT
    (bind_result (ValidateExtraChannelInfo ex p0 p1 p2 p3) (\<lambda>_.
       if model = NVCV_COLOR_MODEL_YCbCr then
         Inr (make_format NVCV_COLOR_MODEL_YCbCr spec chromaSub ml kind swz alpha p0 p1 p2 p3 ex)
       else throw_if (chromaSub \<noteq> NVCV_CSS_NONE) NVCV_ERROR_INVALID_ARGUMENT
         (Inr (make_format model spec NVCV_CSS_NONE ml kind swz alpha p0 p1 p2 p3 ex)))))))"

definition ImageFormat_raw ::
    "u64 \<Rightarrow> u64 \<Rightarrow> u64 \<Rightarrow> nat \<Rightarrow> u64 \<Rightarrow> u64 \<Rightarrow> u64 \<Rightarrow> u64 \<Rightarrow> u64 \<Rightarrow> NVCVExtraChannelInfo option \<Rightarrow> u64 result"
  where
  "ImageFormat_raw raw ml kind swz p0 p1 p2 p3 alpha ex =
     bind_result (ValidateSwizzlePacking swz p0 p1 p2 p3) (\<lambda>_.
     bind_result (ValidateExtraChannelInfo ex p0 p1 p2 p3) (\<lambda>_.
       Inr (make_format NVCV_COLOR_MODEL_RAW raw NVCV_CSS_NONE ml kind swz alpha p0 p1 p2 p3 ex)))"

definition ImageFormat_noncolor ::
    "u64 \<Rightarrow> u64 \<Rightarrow> nat \<Rightarrow> u64 \<Rightarrow> u64 \<Rightarrow> u64 \<Rightarrow> u64 \<Rightarrow> u64 \<Rightarrow> NVCVExtraChannelInfo option \<Rightarrow> u64 result"
  where
  "ImageFormat_noncolor ml kind swz p0 p1 p2 p3 alpha ex =
     bind_result (ValidateSwizzlePacking swz p0 p1 p2 p3) (\<lambda>_.
     bind_result (ValidateExtraChannelInfo ex p0 p1 p2 p3) (\<lambda>_.
       Inr (make_format NVCV_COLOR_MODEL_UNDEFINED NVCV_COLOR_SPEC_UNDEFINED NVCV_CSS_NONE ml kind swz
              alpha p0 p1 p2 p3 ex)))"

text \<open>The colour format is a model and a union of colour specification and raw pattern.\<close>

record ColorFormat =
  cf_model :: u64
  cf_value :: u64

definition ImageFormat_colorFormat ::
    "ColorFormat \<Rightarrow> u64 \<Rightarrow> u64 \<Rightarrow> u64 \<Rightarrow> nat \<Rightarrow> u64 \<Rightarrow> u64 \<Rightarrow> u64 \<Rightarrow> u64 \<Rightarrow> u64 \<Rightarrow> NVCVExtraChannelInfo option \<Rightarrow> u64 result"
  where
  "ImageFormat_colorFormat cf chromaSub ml kind swz p0 p1 p2 p3 alpha ex =
     (if cf_model cf = NVCV_COLOR_MODEL_RAW then
        throw_if (chromaSub \<noteq> NVCV_CSS_NONE) NVCV_ERROR_INVALID_ARGUMENT
          (ImageFormat_raw (cf_value cf) ml kind swz p0 p1 p2 p3 alpha ex)
      else ImageFormat_color (cf_model cf) (cf_value cf) chromaSub ml kind swz p0 p1 p2 p3 alpha ex)"

section \<open>Getters\<close>

definition fmt_swizzle :: "u64 \<Rightarrow> nat" where
  "fmt_swizzle f = unat (ExtractBitfield f 0 6)"

definition dataKind :: "u64 \<Rightarrow> u64" where
  "dataKind f = ExtractBitfield f 61 3"

definition memLayout :: "u64 \<Rightarrow> u64" where
  "memLayout f = ExtractBitfield f 12 3"

definition alphaType :: "u64 \<Rightarrow> u64" where
  "alphaType f = ExtractBitfield f 6 1"

definition colorModel :: "u64 \<Rightarrow> u64" where
  "colorModel f =
     (if f = NVCV_IMAGE_FORMAT_NONE then NVCV_COLOR_MODEL_UNDEFINED
      else if ExtractBitfield f 16 1 = 0 then NVCV_COLOR_MODEL_YCbCr
      else if ExtractBitfield f 16 19 = push_bit 19 1 - 1 then NVCV_COLOR_MODEL_UNDEFINED
      else
        (let tmp = ExtractBitfield f 17 3 in
         if tmp < 7 then tmp + 2
         else if ExtractBitfield f 20 1 = 0 then NVCV_COLOR_MODEL_RAW
         else ExtractBitfield f 21 6 + (7 + 2 + 1)))"

definition rawPattern :: "u64 \<Rightarrow> u64 option" where
  "rawPattern f = (if colorModel f = NVCV_COLOR_MODEL_RAW then Some (ExtractBitfield f 21 6) else None)"

definition colorSpec :: "u64 \<Rightarrow> u64" where
  "colorSpec f =
     (if colorModel f \<noteq> NVCV_COLOR_MODEL_UNDEFINED \<and> colorModel f < 7 then ExtractBitfield f 20 15
      else NVCV_COLOR_SPEC_UNDEFINED)"

definition css :: "u64 \<Rightarrow> u64" where
  "css f = (if colorModel f = NVCV_COLOR_MODEL_YCbCr then ExtractBitfield f 17 3 else NVCV_CSS_NONE)"

definition colorFormat :: "u64 \<Rightarrow> ColorFormat" where
  "colorFormat f = \<lparr>cf_model = colorModel f,
     cf_value = (if colorModel f = NVCV_COLOR_MODEL_RAW
                 then (case rawPattern f of Some raw \<Rightarrow> raw | None \<Rightarrow> 0) else colorSpec f)\<rparr>"

definition fmt_colorRange :: "u64 \<Rightarrow> u64" where
  "fmt_colorRange f = colorRange (colorSpec f)"

definition fmt_blockHeightLog2 :: "u64 \<Rightarrow> nat result" where
  "fmt_blockHeightLog2 f = GetBlockHeightLog2 (unat (memLayout f))"

definition fmt_numChannels :: "u64 \<Rightarrow> nat" where
  "fmt_numChannels f = GetNumChannels_swizzle (fmt_swizzle f)"

definition decode_packing :: "int \<Rightarrow> u64 \<Rightarrow> u64 \<Rightarrow> nat \<Rightarrow> nat \<Rightarrow> nat \<Rightarrow> u64" where
  "decode_packing plane isPlanar v chlen packlen bpplen =
     (let bpp = (if isPlanar \<noteq> 0 then ExtractBitfield v (packlen + chlen) bpplen else 0);
          nch = (if isPlanar \<noteq> 0 then ExtractBitfield v packlen chlen else 0);
          pack = (if isPlanar \<noteq> 0 then ExtractBitfield v 0 packlen else 0);
          (bpp, pack) = (if plane = 3 \<and> packlen = 0 \<and> bpp = 7 then (0, 4) else (bpp, pack))
      in SetBitfield bpp 6 4 OR SetBitfield nch 4 2 OR SetBitfield pack 0 4)"

definition planePacking :: "u64 \<Rightarrow> int \<Rightarrow> u64" where
  "planePacking f plane =
     (let isPlanar = ExtractBitfield f 7 1 in
      if plane = 0 then decode_packing plane 1 (ExtractBitfield f 35 9) 2 3 4
      else if plane = 1 then decode_packing plane isPlanar (ExtractBitfield f 44 7) 1 3 3
      else if plane = 2 then decode_packing plane isPlanar (ExtractBitfield f 51 7) 1 3 3
      else if plane = 3 then decode_packing plane isPlanar (ExtractBitfield f 58 3) 0 0 3
      else NVCV_PACKING_0)"

definition planeBPP :: "u64 \<Rightarrow> int \<Rightarrow> int result" where
  "planeBPP f plane = GetBitsPerPixel (planePacking f plane)"

text \<open>The assertion in \<open>GetNumChannels\<close> never fails: both packings it guards have four components.\<close>

definition planeNumChannels :: "u64 \<Rightarrow> int \<Rightarrow> nat" where
  "planeNumChannels f plane = projr (GetNumChannels (planePacking f plane))"

lemma GetNumChannels_total: "GetNumChannels p = Inr (projr (GetNumChannels p))"
  by (auto simp: GetNumChannels_def GetNumComponents_def ExtractBitfield_def nvcv_assert_def Let_def)

definition numPlanes :: "u64 \<Rightarrow> nat" where
  "numPlanes f =
     (if planeNumChannels f 0 \<noteq> 0 then 1 else 0) + (if planeNumChannels f 1 \<noteq> 0 then 1 else 0)
     + (if planeNumChannels f 2 \<noteq> 0 then 1 else 0) + (if planeNumChannels f 3 \<noteq> 0 then 1 else 0)"

definition extraChannelInfo :: "u64 \<Rightarrow> NVCVExtraChannelInfo" where
  "extraChannelInfo f =
     (let none = \<lparr>exNumChannels = 0, exBitsPerPixel = 0, exDatakind = NVCV_DATA_KIND_UNSPECIFIED,
                  exChannelType = NVCV_EXTRA_CHANNEL_U\<rparr> in
      if numPlanes f = 1 then
        (let n = uint (ExtractBitfield f 47 3) in
         if n > 0 then \<lparr>exNumChannels = n, exBitsPerPixel = 2 ^ (3 + unat (ExtractBitfield f 50 3)),
                        exDatakind = ExtractBitfield f 53 3, exChannelType = ExtractBitfield f 44 3\<rparr>
         else none)
      else none)"

section \<open>Setters\<close>

definition set_alphaType :: "u64 \<Rightarrow> u64 \<Rightarrow> u64 result" where
  "set_alphaType v f = throw_if (f = NVCV_IMAGE_FORMAT_NONE) NVCV_ERROR_INVALID_ARGUMENT
     (Inr ((f AND NOT (MaskBitfield 6 1)) OR SetBitfield v 6 1))"

definition set_memLayout :: "u64 \<Rightarrow> u64 \<Rightarrow> u64 result" where
  "set_memLayout v f = throw_if (f = NVCV_IMAGE_FORMAT_NONE) NVCV_ERROR_INVALID_ARGUMENT
     (Inr ((f AND NOT (MaskBitfield 12 3)) OR SetBitfield v 12 3))"

definition set_dataKind :: "u64 \<Rightarrow> u64 \<Rightarrow> u64 result" where
  "set_dataKind v f = throw_if (f = NVCV_IMAGE_FORMAT_NONE) NVCV_ERROR_INVALID_ARGUMENT
     (if ExtractBitfield v 2 1 \<noteq> 0
      then Inr (- (1 + (NOT ((f AND NOT (MaskBitfield 61 3)) OR SetBitfield v 61 2) AND NOT (push_bit 63 1))))
      else Inr ((f AND NOT (MaskBitfield 61 3)) OR SetBitfield v 61 3))"

definition set_rawPattern :: "u64 \<Rightarrow> u64 \<Rightarrow> u64 result" where
  "set_rawPattern v f = throw_if (f = NVCV_IMAGE_FORMAT_NONE) NVCV_ERROR_INVALID_ARGUMENT
     (if colorModel f = NVCV_COLOR_MODEL_RAW
      then Inr ((f AND NOT (MaskBitfield 21 6)) OR SetBitfield v 21 6)
      else Inl (Throw NVCV_ERROR_INVALID_ARGUMENT))"

text \<open>
  In the YCbCr case the source computes a new specification with a defined encoding and drops it;
  the argument is stored as it is.
\<close>

definition set_colorSpec :: "u64 \<Rightarrow> u64 \<Rightarrow> u64 result" where
  "set_colorSpec v f = throw_if (f = NVCV_IMAGE_FORMAT_NONE) NVCV_ERROR_INVALID_ARGUMENT
     (if colorModel f = NVCV_COLOR_MODEL_RGB
      then Inr ((f AND NOT (MaskBitfield 20 15)) OR SetBitfield (set_YCbCrEncoding NVCV_YCbCr_ENC_UNDEFINED v) 20 15)
      else if colorModel f = NVCV_COLOR_MODEL_YCbCr
      then Inr ((f AND NOT (MaskBitfield 20 15)) OR SetBitfield v 20 15)
      else throw_if (colorSpec f \<noteq> NVCV_COLOR_SPEC_UNDEFINED) NVCV_ERROR_INVALID_ARGUMENT (Inr f))"

definition set_css :: "u64 \<Rightarrow> u64 \<Rightarrow> u64 result" where
  "set_css v f = throw_if (f = NVCV_IMAGE_FORMAT_NONE) NVCV_ERROR_INVALID_ARGUMENT
     (if colorModel f = NVCV_COLOR_MODEL_YCbCr
      then Inr ((f AND NOT (MaskBitfield 17 3)) OR SetBitfield v 17 3)
      else if v = NVCV_CSS_NONE then Inr f
      else Inl (Throw NVCV_ERROR_INVALID_ARGUMENT))"

definition set_colorFormat :: "ColorFormat \<Rightarrow> u64 \<Rightarrow> u64 result" where
  "set_colorFormat cf f = (if cf_model cf = NVCV_COLOR_MODEL_RAW then set_rawPattern (cf_value cf) f
     else set_colorSpec (cf_value cf) f)"

definition set_fmt_colorRange :: "u64 \<Rightarrow> u64 \<Rightarrow> u64 result" where
  "set_fmt_colorRange v f = throw_if (f = NVCV_IMAGE_FORMAT_NONE) NVCV_ERROR_INVALID_ARGUMENT
     (set_colorSpec (set_colorRange v (colorSpec f)) f)"

definition set_extraChannelInfo :: "NVCVExtraChannelInfo \<Rightarrow> u64 \<Rightarrow> u64 result" where
  "set_extraChannelInfo e f =
     throw_if (f = NVCV_IMAGE_FORMAT_NONE) NVCV_ERROR_INVALID_ARGUMENT
    (throw_if (exNumChannels e < 0 \<or> exNumChannels e > 7) NVCV_ERROR_INVALID_ARGUMENT
    (throw_if (exBitsPerPixel e > 128) NVCV_ERROR_INVALID_ARGUMENT
    (throw_if (exDatakind e = NVCV_DATA_KIND_UNSPECIFIED) NVCV_ERROR_INVALID_ARGUMENT
    (if numPlanes f = 1 then
       Inr ((f AND NOT (MaskBitfield 44 12))
         OR (SetBitfield (word_of_int (exNumChannels e)) 47 3
             OR SetBitfield (word_of_int (ENCODE_BPP (exBitsPerPixel e))) 50 3
             OR SetBitfield (exDatakind e) 53 3 OR SetBitfield (exChannelType e) 44 3))
     else Inl (Throw NVCV_ERROR_INVALID_ARGUMENT)))))"

definition swizzleAndPacking :: "nat \<Rightarrow> u64 \<Rightarrow> u64 \<Rightarrow> u64 \<Rightarrow> u64 \<Rightarrow> u64 \<Rightarrow> u64 result" where
  "swizzleAndPacking swz p0 p1 p2 p3 f = throw_if (f = NVCV_IMAGE_FORMAT_NONE) NVCV_ERROR_INVALID_ARGUMENT
     (ImageFormat_colorFormat (colorFormat f) (css f) (memLayout f) (dataKind f) swz p0 p1 p2 p3
        (alphaType f) (Some (extraChannelInfo f)))"

definition UpdateColorSpec :: "u64 \<Rightarrow> u64 \<Rightarrow> u64 result" where
  "UpdateColorSpec fmt source = throw_if (fmt = NVCV_IMAGE_FORMAT_NONE) NVCV_ERROR_INVALID_ARGUMENT
     (let cspec = colorSpec fmt; model = colorModel fmt in
      set_colorSpec
        (if cspec = NVCV_COLOR_SPEC_UNDEFINED \<and> source \<noteq> NVCV_COLOR_SPEC_UNDEFINED then
           (let c1 = set_colorSpace (colorSpace source) cspec;
                c2 = (if model = NVCV_COLOR_MODEL_RGB then set_xferFunc NVCV_COLOR_XFER_sRGB c1
                      else set_xferFunc (xferFunc source) c1)
            in if model = NVCV_COLOR_MODEL_YCbCr
               then set_chromaLoc (chromaLoc source)
                      (set_colorRange (colorRange source) (set_YCbCrEncoding (YCbCrEncoding source) c2))
               else set_colorRange (colorRange NVCV_COLOR_SPEC_UNDEFINED)
                      (set_chromaLoc (chromaLoc NVCV_COLOR_SPEC_UNDEFINED) c2))
         else cspec) fmt)"

section \<open>Data types\<close>

definition dt_packing :: "u64 \<Rightarrow> u64" where
  "dt_packing t = planePacking t 0"

definition dt_bpp :: "u64 \<Rightarrow> int result" where
  "dt_bpp t = planeBPP t 0"

definition dt_numChannels :: "u64 \<Rightarrow> nat" where
  "dt_numChannels t = planeNumChannels t 0"

definition dt_strideBytes :: "u64 \<Rightarrow> int result" where
  "dt_strideBytes t = bind_result (dt_bpp t) (\<lambda>b. Inr ((b + 7) sdiv 8))"

definition dt_bpc :: "u64 \<Rightarrow> int list result" where
  "dt_bpc t = GetBitsPerComponent (dt_packing t)"

definition dt_alignment :: "u64 \<Rightarrow> int result" where
  "dt_alignment t = GetAlignment (dt_packing t)"

definition dt_channelType :: "u64 \<Rightarrow> int \<Rightarrow> u64 result" where
  "dt_channelType t ch =
     throw_if (ch < 0) NVCV_ERROR_INVALID_ARGUMENT
    (if ch \<ge> 4 then Inr NVCV_DATA_TYPE_NONE
     else bind_result (dt_bpc t) (\<lambda>bs.
       if bs ! nat ch = 0 then Inr NVCV_DATA_TYPE_NONE
       else case MakeNVCVPacking_bits (bs ! nat ch) 0 0 0 of
          Some p \<Rightarrow> Inr (MAKE_DATA_TYPE (dataKind t) p)
        | None \<Rightarrow> Inl (Throw NVCV_ERROR_INVALID_ARGUMENT)))"

section \<open>Planes\<close>

record Size2D =
  width_px :: int
  height_px :: int

definition planeDataType :: "u64 \<Rightarrow> int \<Rightarrow> u64" where
  "planeDataType f plane =
     (let p = planePacking f plane in
      if p = NVCV_PACKING_0 then NVCV_DATA_TYPE_NONE
      else if p = NVCV_PACKING_X8_Y8__X8_Z8 \<or> p = NVCV_PACKING_Y8_X8__Z8_X8
      then MAKE_DATA_TYPE (dataKind f) NVCV_PACKING_X8_Y8
      else MAKE_DATA_TYPE (dataKind f) p)"

definition planePixelStrideBytes :: "u64 \<Rightarrow> int \<Rightarrow> int result" where
  "planePixelStrideBytes f plane = dt_strideBytes (planeDataType f plane)"

definition planeRowAlignment :: "u64 \<Rightarrow> int \<Rightarrow> int result" where
  "planeRowAlignment f plane = dt_alignment (planeDataType f plane)"

definition planeSize :: "u64 \<Rightarrow> Size2D \<Rightarrow> int \<Rightarrow> Size2D result" where
  "planeSize f sz plane =
     (if plane \<ge> 1 \<and> css f \<noteq> NVCV_CSS_NONE then
        bind_result (GetChromaSamples (css f)) (\<lambda>(sh, sv).
          Inr \<lparr>width_px = wrap32 (width_px sz * sh + 3) sdiv 4,
               height_px = wrap32 (height_px sz * sv + 3) sdiv 4\<rparr>)
      else Inr sz)"

fun add_components :: "int list \<Rightarrow> int list \<Rightarrow> int list result" where
  "add_components acc [] = Inr acc"
| "add_components acc (b # bs) =
     (if b = 0 then Inr acc
      else throw_if (length acc \<ge> 4) NVCV_ERROR_INVALID_IMAGE_FORMAT (add_components (acc @ [b]) bs))"

definition fmt_bpc :: "u64 \<Rightarrow> int list result" where
  "fmt_bpc f =
     bind_result
       (fold (\<lambda>p acc. bind_result acc (\<lambda>bs.
          bind_result (GetBitsPerComponent (planePacking f (int p))) (\<lambda>pbits.
            add_components bs
              (if planePacking f (int p) \<in> set [NVCV_PACKING_X8_Y8__X8_Z8, NVCV_PACKING_Y8_X8__Z8_X8]
               then pbits[3 := 0] else pbits))))
        [0..<numPlanes f] (Inr []))
       (\<lambda>bs. Inr (bs @ replicate (4 - length bs) 0))"

definition hasUniformBitDepth :: "u64 \<Rightarrow> bool result" where
  "hasUniformBitDepth f =
     bind_result (fmt_bpc f) (\<lambda>bs. Inr (list_all (\<lambda>i. bs ! (i - 1) = bs ! i) [1..<fmt_numChannels f]))"

definition bitDepth :: "u64 \<Rightarrow> int result" where
  "bitDepth f =
     bind_result (hasUniformBitDepth f) (\<lambda>u. if u then bind_result (fmt_bpc f) (\<lambda>bs. Inr (bs ! 0)) else Inr 0)"

definition HasSameDataLayout :: "u64 \<Rightarrow> u64 \<Rightarrow> bool" where
  "HasSameDataLayout a b \<longleftrightarrow>
     numPlanes a = numPlanes b \<and> css a = css b \<and> memLayout a = memLayout b
     \<and> list_all (\<lambda>i. planePacking a (int i) = planePacking b (int i)
          \<and> planeDataType a (int i) = planeDataType b (int i)) [0..<numPlanes a]"

text \<open>
  The loop over the channels of one plane: \<open>nch\<close> grows by one for every unused position it meets;
  the assertion stops it at the end of the swizzle.
\<close>

function plane_swizzle_loop ::
    "nat list \<Rightarrow> nat \<Rightarrow> nat \<Rightarrow> nat \<Rightarrow> nat list \<Rightarrow> bool \<Rightarrow> (nat list \<times> bool) result" where
  "plane_swizzle_loop tch ch i nch plsw emp =
     (if i < ch + nch then
        (if i < 4 then
           (if is_component (tch ! i)
            then plane_swizzle_loop tch ch (i + 1) nch
                   (plsw[tch ! i - NVCV_CHANNEL_X := (i - ch) + NVCV_CHANNEL_X]) False
            else if tch ! i = NVCV_CHANNEL_0
            then plane_swizzle_loop tch ch (i + 1) (nch + 1) plsw emp
            else plane_swizzle_loop tch ch (i + 1) nch (plsw[i := tch ! i]) False)
         else Inl AssertFailed)
      else Inr (plsw, emp))"
  by pat_completeness auto

termination plane_swizzle_loop
  by (relation "measure (\<lambda>(tch, ch, i, nch, plsw, emp). 4 - i)") auto

declare plane_swizzle_loop.simps [simp del]

definition planeSwizzle :: "u64 \<Rightarrow> int \<Rightarrow> nat result" where
  "planeSwizzle f plane =
     (if numPlanes f = 1 then Inr (if plane = 0 then fmt_swizzle f else NVCV_SWIZZLE_0000)
      else
        (let ch = sum_list (map (\<lambda>i. planeNumChannels f (int i)) [0..<nat plane]);
             tch = GetChannels (fmt_swizzle f)
         in bind_result
              (plane_swizzle_loop tch ch ch (planeNumChannels f plane) (replicate 4 NVCV_CHANNEL_0) True)
              (\<lambda>(plsw, emp).
                bind_result
                  (if emp then Inr plsw
                   else fold (\<lambda>i acc. bind_result acc (\<lambda>ps.
                      if tch ! i = NVCV_CHANNEL_1
                      then throw_if (ps ! i \<noteq> NVCV_CHANNEL_0) NVCV_ERROR_INVALID_IMAGE_FORMAT (Inr (ps[i := tch ! i]))
                      else Inr ps)) [0..<4] (Inr plsw))
                  (\<lambda>ps. Inr (MakeNVCVSwizzle (ps ! 0) (ps ! 1) (ps ! 2) (ps ! 3))))))"

definition planeFormat :: "u64 \<Rightarrow> int \<Rightarrow> u64 result" where
  "planeFormat f plane =
     (if plane < int (numPlanes f) then
        bind_result (planeSwizzle f plane) (\<lambda>sw.
          ImageFormat_colorFormat (colorFormat f) (if plane = 0 then NVCV_CSS_NONE else css f)
            (memLayout f) (dataKind f) sw (planePacking f plane) NVCV_PACKING_0 NVCV_PACKING_0 NVCV_PACKING_0
            (alphaType f) (Some (extraChannelInfo f)))
      else Inr NVCV_IMAGE_FORMAT_NONE)"

text \<open>One plane of the loop in \<open>FromPlanes\<close>; the state is the channel count and the subsampling so far.\<close>

definition from_planes_step :: "u64 list \<Rightarrow> nat \<Rightarrow> nat \<times> u64 \<Rightarrow> (nat \<times> u64) result" where
  "from_planes_step fmts i st =
     (let f0 = fmts ! 0; fi = fmts ! i; tot = fst st + fmt_numChannels fi in
      throw_if (numPlanes fi \<noteq> 1) NVCV_ERROR_INVALID_ARGUMENT
     (throw_if (planePacking fi 0 = NVCV_PACKING_0) NVCV_ERROR_INVALID_ARGUMENT
     (throw_if (alphaType fi \<noteq> alphaType f0) NVCV_ERROR_INVALID_IMAGE_FORMAT
     (nvcv_assert (planePacking fi 1 = NVCV_PACKING_0)
     (nvcv_assert (planePacking fi 2 = NVCV_PACKING_0)
     (nvcv_assert (planePacking fi 3 = NVCV_PACKING_0)
     (throw_if (tot > 4) NVCV_ERROR_INVALID_ARGUMENT
     (throw_if (i \<ge> 1 \<and> rawPattern fi \<noteq> rawPattern f0) NVCV_ERROR_INVALID_ARGUMENT
     (throw_if (i \<ge> 1 \<and> colorFormat fi \<noteq> colorFormat f0) NVCV_ERROR_INVALID_ARGUMENT
     (throw_if (i \<ge> 1 \<and> memLayout fi \<noteq> memLayout f0) NVCV_ERROR_INVALID_ARGUMENT
     (throw_if (i \<ge> 1 \<and> dataKind fi \<noteq> dataKind f0) NVCV_ERROR_INVALID_ARGUMENT
     (if snd st = NVCV_CSS_NONE then Inr (tot, css fi)
      else throw_if (snd st \<noteq> css fi) NVCV_ERROR_INVALID_ARGUMENT (Inr (tot, snd st))))))))))))))"

definition FromPlanes :: "u64 list \<Rightarrow> u64 result" where
  "FromPlanes fmts =
     throw_if (fmts = []) NVCV_ERROR_INVALID_ARGUMENT
    (bind_result (fold (\<lambda>i acc. bind_result acc (from_planes_step fmts i)) [0..<length fmts] (Inr (0, NVCV_CSS_NONE)))
      (\<lambda>(tot, plcss).
        throw_if (tot = 0) NVCV_ERROR_INVALID_ARGUMENT
       (let sw = (\<lambda>i. if i < length fmts then fmt_swizzle (fmts ! i) else NVCV_SWIZZLE_0000);
            pk = (\<lambda>i. if i < length fmts then planePacking (fmts ! i) 0 else NVCV_PACKING_0);
            f0 = fmts ! 0
        in bind_result (MergePlaneSwizzles (sw 0) (sw 1) (sw 2) (sw 3)) (\<lambda>swz.
             ImageFormat_colorFormat (colorFormat f0) plcss (memLayout f0) (dataKind f0) swz
               (pk 0) (pk 1) (pk 2) (pk 3) (alphaType f0) None))))"

section \<open>Four-character codes\<close>

definition FCC :: "char \<Rightarrow> char \<Rightarrow> char \<Rightarrow> char \<Rightarrow> 32 word" where
  "FCC a b c d = push_bit 24 (of_char d) OR push_bit 16 (of_char c) OR push_bit 8 (of_char b) OR of_char a"

definition FCC_IF :: "u64 \<Rightarrow> u64 \<Rightarrow> nat \<Rightarrow> u64 \<Rightarrow> u64 \<Rightarrow> u64 \<Rightarrow> u64 result" where
  "FCC_IF model sub swz p0 p1 p2 =
     ImageFormat_color model NVCV_COLOR_SPEC_UNDEFINED sub NVCV_MEM_LAYOUT_PL NVCV_DATA_KIND_UNSIGNED swz
       p0 p1 p2 NVCV_PACKING_0 NVCV_ALPHA_ASSOCIATED None"

definition FCC_BAYER_IF :: "u64 \<Rightarrow> nat \<Rightarrow> u64 \<Rightarrow> u64 result" where
  "FCC_BAYER_IF pattern swz p0 =
     ImageFormat_raw pattern NVCV_MEM_LAYOUT_PL NVCV_DATA_KIND_UNSIGNED swz
       p0 NVCV_PACKING_0 NVCV_PACKING_0 NVCV_PACKING_0 NVCV_ALPHA_ASSOCIATED None"

text \<open>The table in its order; the static initialiser runs the constructor of every entry.\<close>

definition g_FourCC :: "(32 word \<times> u64 result) list" where
  "g_FourCC = [
    (FCC CHR ''R'' CHR ''G'' CHR ''B'' CHR ''1'', FCC_IF NVCV_COLOR_MODEL_RGB NVCV_CSS_444 NVCV_SWIZZLE_ZYX1 NVCV_PACKING_X3Y3Z2 NVCV_PACKING_0 NVCV_PACKING_0),
    (FCC CHR ''R'' CHR ''4'' CHR ''4'' CHR ''4'', FCC_IF NVCV_COLOR_MODEL_RGB NVCV_CSS_444 NVCV_SWIZZLE_XYZ1 NVCV_PACKING_b4X4Y4Z4 NVCV_PACKING_0 NVCV_PACKING_0),
    (FCC CHR ''R'' CHR ''G'' CHR ''B'' CHR ''0'', FCC_IF NVCV_COLOR_MODEL_RGB NVCV_CSS_444 NVCV_SWIZZLE_ZYX1 NVCV_PACKING_b1X5Y5Z5 NVCV_PACKING_0 NVCV_PACKING_0),
    (FCC CHR ''R'' CHR ''G'' CHR ''B'' CHR ''P'', FCC_IF NVCV_COLOR_MODEL_RGB NVCV_CSS_444 NVCV_SWIZZLE_ZYX1 NVCV_PACKING_X5Y6Z5 NVCV_PACKING_0 NVCV_PACKING_0),
    (FCC CHR ''R'' CHR ''G'' CHR ''B'' CHR ''Q'', FCC_IF NVCV_COLOR_MODEL_RGB NVCV_CSS_444 NVCV_SWIZZLE_XYZ1 NVCV_PACKING_X5Y5b1Z5 NVCV_PACKING_0 NVCV_PACKING_0),
    (FCC CHR ''R'' CHR ''G'' CHR ''B'' CHR ''R'', FCC_IF NVCV_COLOR_MODEL_RGB NVCV_CSS_444 NVCV_SWIZZLE_XYZ1 NVCV_PACKING_X5Y6Z5 NVCV_PACKING_0 NVCV_PACKING_0),
    (FCC CHR ''B'' CHR ''G'' CHR ''R'' CHR ''3'', FCC_IF NVCV_COLOR_MODEL_RGB NVCV_CSS_444 NVCV_SWIZZLE_ZYX1 NVCV_PACKING_X8_Y8_Z8 NVCV_PACKING_0 NVCV_PACKING_0),
    (FCC CHR ''R'' CHR ''G'' CHR ''B'' CHR ''3'', FCC_IF NVCV_COLOR_MODEL_RGB NVCV_CSS_444 NVCV_SWIZZLE_XYZ1 NVCV_PACKING_X8_Y8_Z8 NVCV_PACKING_0 NVCV_PACKING_0),
    (FCC CHR ''B'' CHR ''G'' CHR ''R'' CHR ''4'', FCC_IF NVCV_COLOR_MODEL_RGB NVCV_CSS_444 NVCV_SWIZZLE_ZYXW NVCV_PACKING_X8_Y8_Z8_W8 NVCV_PACKING_0 NVCV_PACKING_0),
    (FCC CHR ''R'' CHR ''G'' CHR ''B'' CHR ''4'', FCC_IF NVCV_COLOR_MODEL_RGB NVCV_CSS_444 NVCV_SWIZZLE_XYZW NVCV_PACKING_X8_Y8_Z8_W8 NVCV_PACKING_0 NVCV_PACKING_0),
    (FCC CHR ''B'' CHR ''A'' CHR ''8'' CHR ''1'', FCC_BAYER_IF NVCV_RAW_BAYER_BGGR NVCV_SWIZZLE_X000 NVCV_PACKING_X8),
    (FCC CHR ''A'' CHR ''Y'' CHR ''U'' CHR ''V'', FCC_IF NVCV_COLOR_MODEL_YCbCr NVCV_CSS_444 NVCV_SWIZZLE_YZWX NVCV_PACKING_X8_Y8_Z8_W8 NVCV_PACKING_0 NVCV_PACKING_0),
    (FCC CHR ''A'' CHR ''Y'' CHR ''U'' CHR ''V'', FCC_IF NVCV_COLOR_MODEL_YCbCr NVCV_CSS_444 NVCV_SWIZZLE_YZWX NVCV_PACKING_X8_Y8_Z8_W8 NVCV_PACKING_0 NVCV_PACKING_0),
    (FCC CHR ''G'' CHR ''R'' CHR ''A'' CHR ''Y'', FCC_IF NVCV_COLOR_MODEL_YCbCr NVCV_CSS_444 NVCV_SWIZZLE_X000 NVCV_PACKING_X8 NVCV_PACKING_0 NVCV_PACKING_0),
    (FCC CHR ''Y'' CHR ''8'' CHR '' '' CHR '' '', FCC_IF NVCV_COLOR_MODEL_YCbCr NVCV_CSS_444 NVCV_SWIZZLE_X000 NVCV_PACKING_X8 NVCV_PACKING_0 NVCV_PACKING_0),
    (FCC CHR ''Y'' CHR ''8'' CHR ''0'' CHR ''0'', FCC_IF NVCV_COLOR_MODEL_YCbCr NVCV_CSS_444 NVCV_SWIZZLE_X000 NVCV_PACKING_X8 NVCV_PACKING_0 NVCV_PACKING_0),
    (FCC CHR ''Y'' CHR ''1'' CHR ''6'' CHR '' '', FCC_IF NVCV_COLOR_MODEL_YCbCr NVCV_CSS_444 NVCV_SWIZZLE_X000 NVCV_PACKING_X16 NVCV_PACKING_0 NVCV_PACKING_0),
    (FCC CHR ''U'' CHR ''Y'' CHR ''V'' CHR ''Y'', FCC_IF NVCV_COLOR_MODEL_YCbCr NVCV_CSS_422 NVCV_SWIZZLE_XYZ1 NVCV_PACKING_Y8_X8__Z8_X8 NVCV_PACKING_0 NVCV_PACKING_0),
    (FCC CHR ''Y'' CHR ''U'' CHR ''Y'' CHR ''2'', FCC_IF NVCV_COLOR_MODEL_YCbCr NVCV_CSS_422 NVCV_SWIZZLE_XYZ1 NVCV_PACKING_X8_Y8__X8_Z8 NVCV_PACKING_0 NVCV_PACKING_0),
    (FCC CHR ''Y'' CHR ''U'' CHR ''Y'' CHR ''V'', FCC_IF NVCV_COLOR_MODEL_YCbCr NVCV_CSS_422 NVCV_SWIZZLE_XYZ1 NVCV_PACKING_X8_Y8__X8_Z8 NVCV_PACKING_0 NVCV_PACKING_0),
    (FCC CHR ''Y'' CHR ''U'' CHR ''N'' CHR ''V'', FCC_IF NVCV_COLOR_MODEL_YCbCr NVCV_CSS_422 NVCV_SWIZZLE_XYZ1 NVCV_PACKING_X8_Y8__X8_Z8 NVCV_PACKING_0 NVCV_PACKING_0),
    (FCC CHR ''Y'' CHR ''V'' CHR ''Y'' CHR ''U'', FCC_IF NVCV_COLOR_MODEL_YCbCr NVCV_CSS_422 NVCV_SWIZZLE_XZY1 NVCV_PACKING_X8_Y8__X8_Z8 NVCV_PACKING_0 NVCV_PACKING_0),
    (FCC CHR ''I'' CHR ''4'' CHR ''2'' CHR ''0'', FCC_IF NVCV_COLOR_MODEL_YCbCr NVCV_CSS_420 NVCV_SWIZZLE_XYZ0 NVCV_PACKING_X8 NVCV_PACKING_X8 NVCV_PACKING_X8),
    (FCC CHR ''I'' CHR ''Y'' CHR ''U'' CHR ''V'', FCC_IF NVCV_COLOR_MODEL_YCbCr NVCV_CSS_420 NVCV_SWIZZLE_XYZ0 NVCV_PACKING_X8 NVCV_PACKING_X8 NVCV_PACKING_X8),
    (FCC CHR ''N'' CHR ''V'' CHR ''1'' CHR ''2'', FCC_IF NVCV_COLOR_MODEL_YCbCr NVCV_CSS_420 NVCV_SWIZZLE_XYZ0 NVCV_PACKING_X8 NVCV_PACKING_X8_Y8 NVCV_PACKING_0),
    (FCC CHR ''N'' CHR ''V'' CHR ''2'' CHR ''1'', FCC_IF NVCV_COLOR_MODEL_YCbCr NVCV_CSS_420 NVCV_SWIZZLE_XZY0 NVCV_PACKING_X8 NVCV_PACKING_X8_Y8 NVCV_PACKING_0),
    (FCC CHR ''Y'' CHR ''V'' CHR ''1'' CHR ''2'', FCC_IF NVCV_COLOR_MODEL_YCbCr NVCV_CSS_420 NVCV_SWIZZLE_XZY0 NVCV_PACKING_X8 NVCV_PACKING_X8 NVCV_PACKING_X8),
    (FCC CHR ''Y'' CHR ''V'' CHR ''1'' CHR ''6'', FCC_IF NVCV_COLOR_MODEL_YCbCr NVCV_CSS_422 NVCV_SWIZZLE_XZY0 NVCV_PACKING_X8 NVCV_PACKING_X8 NVCV_PACKING_X8)]"

definition toupper :: "8 word \<Rightarrow> 8 word" where
  "toupper c = (if 97 \<le> c \<and> c \<le> 122 then c - 32 else c)"

definition upper_fourcc :: "32 word \<Rightarrow> 32 word" where
  "upper_fourcc v =
     (let b = (\<lambda>i. ucast (toupper (ucast (drop_bit (8 * i) v))) :: 32 word)
      in push_bit 24 (b 3) OR push_bit 16 (b 2) OR push_bit 8 (b 1) OR b 0)"

definition FromFourCC :: "32 word \<Rightarrow> u64 \<Rightarrow> u64 \<Rightarrow> u64 result" where
  "FromFourCC fourcc spec ml =
     (case List.find (\<lambda>p. fst p = upper_fourcc fourcc) g_FourCC of
        None \<Rightarrow> Inl (Throw NVCV_ERROR_INVALID_ARGUMENT)
      | Some p \<Rightarrow> bind_result (snd p) (\<lambda>fmt.
          bind_result (NeedsColorspec (colorModel fmt)) (\<lambda>needs.
          bind_result (if needs then set_colorSpec spec fmt else Inr fmt) (\<lambda>newFmt.
            set_memLayout ml newFmt))))"

definition fourCC :: "u64 \<Rightarrow> 32 word result" where
  "fourCC f =
     bind_result (set_colorSpec NVCV_COLOR_SPEC_UNDEFINED f) (\<lambda>g.
     bind_result (set_memLayout NVCV_MEM_LAYOUT_PL g) (\<lambda>fmtNorm.
       case List.find (\<lambda>p. snd p = Inr fmtNorm) g_FourCC of
         Some p \<Rightarrow> Inr (fst p)
       | None \<Rightarrow> Inl (Throw NVCV_ERROR_INVALID_ARGUMENT)))"

section \<open>Fields of a constructed format\<close>

lemma AND8_bit: "(p :: u64) AND 8 = 0 \<longleftrightarrow> \<not> bit p 3"
  using and_exp_eq_0_iff_not_bit [of p 3] by simp

lemma Extract_color_bits_other:
  "off' + len' \<le> 16 \<or> 35 \<le> off' \<Longrightarrow> ExtractBitfield (color_bits m s c) off' len' = 0"
  by (auto simp: color_bits_def Extract_OR Extract_Set_other)

lemma Extract_extra_other:
  "off' + len' \<le> 44 \<or> 56 \<le> off' \<Longrightarrow> ExtractBitfield (SET_EXTRA_CHANNEL_INFO n b k t) off' len' = 0"
  by (auto simp: SET_EXTRA_CHANNEL_INFO_def Extract_OR Extract_Set_other)

lemmas Extract_rules = Extract_OR Extract_Set Extract_Set_other Extract_color_bits_other Extract_extra_other

lemma fmt_fields:
  fixes m s c ml k a p0 p1 p2 p3 n b ek et swz
  defines "f \<equiv> MAKE_FMTTYPE m s c ml k swz a p0 p1 p2 p3 n b ek et"
  shows "ExtractBitfield f 0 6 = take_bit 6 (word_of_nat swz)"
    and "ExtractBitfield f 6 1 = take_bit 1 a"
    and "ExtractBitfield f 12 3 = take_bit 3 ml"
    and "ExtractBitfield f 61 3 = take_bit 3 k"
    and "ExtractBitfield f 35 9 = take_bit 9 (ENCODE_PACKING p0 2 3 4)"
    and "ExtractBitfield f 16 1 = ExtractBitfield (color_bits m s c) 16 1"
    and "ExtractBitfield f 16 19 = ExtractBitfield (color_bits m s c) 16 19"
    and "ExtractBitfield f 17 3 = ExtractBitfield (color_bits m s c) 17 3"
    and "ExtractBitfield f 20 1 = ExtractBitfield (color_bits m s c) 20 1"
    and "ExtractBitfield f 21 6 = ExtractBitfield (color_bits m s c) 21 6"
    and "ExtractBitfield f 20 15 = ExtractBitfield (color_bits m s c) 20 15"
  unfolding f_def MAKE_FMTTYPE_def by (simp_all add: Extract_rules)

lemma fmt_planar:
  fixes m s c ml k a p0 p1 p2 p3 n b ek et swz
  defines "f \<equiv> MAKE_FMTTYPE m s c ml k swz a p0 p1 p2 p3 n b ek et"
  assumes "\<not> (p1 = 0 \<and> n > 0)"
  shows "ExtractBitfield f 7 1 = 1"
    and "ExtractBitfield f 44 7 = take_bit 7 (ENCODE_PACKING p1 1 3 3)"
    and "ExtractBitfield f 51 7 = take_bit 7 (ENCODE_PACKING p2 1 3 3)"
    and "ExtractBitfield f 58 3 = take_bit 3 (ENCODE_PACKING p3 0 0 3)"
  using assms(2) unfolding f_def MAKE_FMTTYPE_def by (auto simp add: Extract_rules)

lemma fmt_extra:
  fixes m s c ml k a p0 p2 p3 n b ek et swz
  defines "f \<equiv> MAKE_FMTTYPE m s c ml k swz a p0 0 p2 p3 n b ek et"
  assumes "n > 0"
  shows "ExtractBitfield f 7 1 = 0"
  using assms(2) unfolding f_def MAKE_FMTTYPE_def by (auto simp add: Extract_rules)

lemma decode_encode0:
  assumes "take_bit 10 p = p" "\<not> bit p 3"
  shows "decode_packing 0 1 (take_bit 9 (ENCODE_PACKING p 2 3 4)) 2 3 4 = p"
proof (rule u64_eqI)
  fix n :: nat assume "n < 64"
  have b: "bit p n \<Longrightarrow> n < 10" using assms(1) by (metis bit_take_bit_iff)
  have c: "bit p n \<Longrightarrow> n \<noteq> 3" using assms(2) by metis
  show "bit (decode_packing 0 1 (take_bit 9 (ENCODE_PACKING p 2 3 4)) 2 3 4) n = bit p n"
    using b c by (cases "n = 4") (auto simp: decode_packing_def ADJUST_BPP_ENCODING_def bit_facts bit_or_iff bit_take_bit_iff)
qed

lemma decode_encode1:
  assumes "take_bit 9 p = p" "\<not> bit p 3" "\<not> bit p 5" "pl \<noteq> 3"
  shows "decode_packing pl 1 (take_bit 7 (ENCODE_PACKING p 1 3 3)) 1 3 3 = p"
proof (rule u64_eqI)
  fix n :: nat assume "n < 64"
  have b: "bit p n \<Longrightarrow> n < 9" using assms(1) by (metis bit_take_bit_iff)
  have c: "bit p n \<Longrightarrow> n \<noteq> 3 \<and> n \<noteq> 5" using assms(2,3) by metis
  show "bit (decode_packing pl 1 (take_bit 7 (ENCODE_PACKING p 1 3 3)) 1 3 3) n = bit p n"
    using b c by (cases "n = 4") (auto simp: decode_packing_def ADJUST_BPP_ENCODING_def bit_facts bit_or_iff bit_take_bit_iff)
qed
lemma decode_encode3:
  assumes "p = 4 \<or> (p = push_bit 6 q \<and> q < 7)"
  shows "decode_packing 3 1 (take_bit 3 (ENCODE_PACKING p 0 0 3)) 0 0 3 = p"
proof -
  have "p \<in> {4, 0, 64, 128, 192, 256, 320, 384}"
  proof (cases "p = 4")
    case False
    then have q: "p = push_bit 6 q" "q < 7" using assms by auto
    then have "unat q < 7" by (simp add: word_less_nat_alt)
    then have "unat q \<in> {0, 1, 2, 3, 4, 5, 6}" by auto
    then have "q \<in> {0, 1, 2, 3, 4, 5, 6}"
      by (auto simp: unat_eq_0 dest!: arg_cong [where f = "word_of_nat :: nat \<Rightarrow> u64"])
    then show ?thesis using q(1) by (auto simp: push_bit_eq_mult)
  qed simp
  then show ?thesis
    by (elim insertE emptyE; simp add: decode_packing_def ENCODE_PACKING_def ADJUST_BPP_ENCODING_def
        ExtractBitfield_def SetBitfield_def take_bit_eq_mask mask_eq_exp_minus_1)
qed

text \<open>The codes of the packing enumeration.\<close>

definition known_packing :: "u64 \<Rightarrow> bool" where
  "known_packing p \<longleftrightarrow> p \<in> set (map packing g_packingToData)"

definition fits_plane :: "u64 \<Rightarrow> bool" where
  "fits_plane p \<longleftrightarrow>
     p < 1024
     \<and> (isl (validate_plane 1 p) \<or> (p AND 32 = 0 \<and> p < 512))
     \<and> (isl (validate_plane 2 p) \<or> p < 512)
     \<and> (isl (validate_plane 3 p) \<or> p < 448)
     \<and> (GetNumComponents p > 2 \<or> p AND 32 = 0)
     \<and> (GetNumComponents p > 1 \<or> p AND 48 = 0)"

lemma packings_fit: "list_all fits_plane (map packing g_packingToData)"
  by code_simp

lemma known_fits: "known_packing p \<Longrightarrow> fits_plane p"
  using packings_fit by (auto simp: known_packing_def list_all_iff)

lemma take_bit_less: "unat p < 2 ^ n \<Longrightarrow> take_bit n p = (p :: u64)"
  by (rule word_unat_eq_iff [THEN iffD2]) (simp add: unsigned_take_bit_eq take_bit_nat_eq_self)

lemma plane0_roundtrip:
  assumes "known_packing p" "p AND 8 = 0"
  shows "decode_packing 0 1 (take_bit 9 (ENCODE_PACKING p 2 3 4)) 2 3 4 = p"
  using known_fits [OF assms(1)] assms(2) take_bit_less [of p 10]
  by (intro decode_encode0) (simp_all add: fits_plane_def AND8_bit word_less_nat_alt)

lemma AND32_bit: "(p :: u64) AND 32 = 0 \<longleftrightarrow> \<not> bit p 5"
  using and_exp_eq_0_iff_not_bit [of p 5] by simp

lemma plane1_roundtrip:
  assumes "known_packing p" "p AND 8 = 0" "validate_plane 1 p = Inr n \<or> validate_plane 2 p = Inr n \<and> GetNumComponents p \<le> 2"
    "pl \<noteq> 3"
  shows "decode_packing pl 1 (take_bit 7 (ENCODE_PACKING p 1 3 3)) 1 3 3 = p"
  using known_fits [OF assms(1)] assms(2-4) take_bit_less [of p 9]
  by (intro decode_encode1) (auto simp: fits_plane_def AND8_bit AND32_bit word_less_nat_alt)

lemma plane3_roundtrip:
  assumes k: "known_packing p" and z: "p AND 15 = 0" and v: "validate_plane 3 p = Inr n" and c: "GetNumComponents p \<le> 1"
  shows "decode_packing 3 1 (take_bit 3 (ENCODE_PACKING p 0 0 3)) 0 0 3 = p"
proof -
  have f: "p < 448" "p AND 48 = 0" using known_fits [OF k] v c by (auto simp: fits_plane_def)
  have m: "p AND 63 = 0"
  proof -
    have "p AND 63 = (p AND 15) OR (p AND 48)" by (simp flip: and.left_commute bit.conj_disj_distrib)
    then show ?thesis using z f(2) by simp
  qed
  have "p = push_bit 6 (drop_bit 6 p) + take_bit 6 p" by (simp add: bits_ident)
  moreover have "take_bit 6 p = 0" using m by (simp add: take_bit_eq_mask mask_eq_exp_minus_1)
  moreover have "drop_bit 6 p < 7"
    using f(1) by (simp add: word_less_nat_alt drop_bit_eq_div unat_div)
  ultimately show ?thesis by (intro decode_encode3 [of _ "drop_bit 6 p"]) simp
qed

section \<open>What a constructor stores\<close>

lemma planes_of_fmt:
  fixes m s c ml k a p0 p1 p2 p3 n b ek et swz
  defines "f \<equiv> MAKE_FMTTYPE m s c ml k swz a p0 p1 p2 p3 n b ek et"
  assumes known: "known_packing p0" "known_packing p1" "known_packing p2" "known_packing p3"
    and v: "ValidateSwizzlePacking swz p0 p1 p2 p3 = Inr ()"
    and n: "n > 0 \<longrightarrow> p1 = 0 \<and> p2 = 0 \<and> p3 = 0"
    and ch: "GetNumComponents p2 \<le> 2" "GetNumComponents p3 \<le> 1"
  shows "planePacking f 0 = p0" "planePacking f 1 = p1" "planePacking f 2 = p2" "planePacking f 3 = p3"
proof -
  obtain n1 n2 n3 where bits: "p0 AND 8 = 0" "p1 AND 8 = 0" "p2 AND 8 = 0" "p3 AND 15 = 0"
    and val: "validate_plane 1 p1 = Inr n1" "validate_plane 2 p2 = Inr n2" "validate_plane 3 p3 = Inr n3"
    using v by (auto simp: ValidateSwizzlePacking_def result_simps)
  show "planePacking f 0 = p0"
    using plane0_roundtrip [OF known(1) bits(1)] by (simp add: planePacking_def f_def fmt_fields)
  have zero: "decode_packing i 0 w x y z = 0" for i w x y z
    by (simp add: decode_packing_def SetBitfield_def)
  show "planePacking f 1 = p1" "planePacking f 2 = p2" "planePacking f 3 = p3"
  proof -
    consider (extra) "p1 = 0" "p2 = 0" "p3 = 0" "n > 0" | (planar) "\<not> (p1 = 0 \<and> n > 0)" using n by blast
    then have "planePacking f 1 = p1 \<and> planePacking f 2 = p2 \<and> planePacking f 3 = p3"
    proof cases
      case extra
      then show ?thesis by (simp add: planePacking_def f_def fmt_extra zero del: One_nat_def)
    next
      case planar
      show ?thesis
        using plane1_roundtrip [OF known(2) bits(2) disjI1 [OF val(1)], of 1] ch val
          plane1_roundtrip [OF known(3) bits(3), of n2 2] plane3_roundtrip [OF known(4) bits(4) val(3)]
        by (simp add: planePacking_def f_def fmt_planar [OF planar] del: One_nat_def)
    qed
    then show "planePacking f 1 = p1" "planePacking f 2 = p2" "planePacking f 3 = p3" by auto
  qed
qed

lemma planePacking_none: "planePacking 0 i = 0"
  by (simp add: planePacking_def decode_packing_def ExtractBitfield_def SetBitfield_def)

abbreviation "color_models \<equiv> {NVCV_COLOR_MODEL_UNDEFINED, NVCV_COLOR_MODEL_YCbCr, NVCV_COLOR_MODEL_RGB,
  NVCV_COLOR_MODEL_XYZ, NVCV_COLOR_MODEL_HSV, NVCV_COLOR_MODEL_CMYK, NVCV_COLOR_MODEL_YCCK}"

lemma Extract_bit: "ExtractBitfield w off 1 = (if bit w off then 1 else 0)"
  by (rule u64_eqI) (auto simp: bit_facts bit_1_iff)

lemma Extract_not_full:
  assumes "\<not> bit w j" "off \<le> j" "j < off + len" "j < 64"
  shows "ExtractBitfield w off len \<noteq> push_bit len 1 - 1"
proof
  assume "ExtractBitfield w off len = push_bit len 1 - 1"
  then have "bit (ExtractBitfield w off len) (j - off) = bit (mask len :: u64) (j - off)"
    by (simp only: field_mask)
  then show False using assms by (auto simp: bit_facts bit_mask_iff possible_bit_def)
qed

lemma color_bits_model:
  assumes "m \<in> color_models"
  shows "bit (color_bits m s c) 16 \<longleftrightarrow> m \<noteq> 1"
    and "m \<notin> {0, 1} \<Longrightarrow> ExtractBitfield (color_bits m s c) 17 3 = (if m = 2 then 0 else 7)"
    and "m \<notin> {0, 1, 2} \<Longrightarrow> bit (color_bits m s c) 20"
    and "m \<notin> {0, 1, 2} \<Longrightarrow> ExtractBitfield (color_bits m s c) 21 6 = m - 10"
    and "m = 1 \<Longrightarrow> ExtractBitfield (color_bits m s c) 17 3 = take_bit 3 c"
    and "m \<in> {1, 2} \<Longrightarrow> ExtractBitfield (color_bits m s c) 20 15 = take_bit 15 s"
  subgoal using assms by (elim insertE emptyE) (simp_all add: color_bits_def bit_or_iff bit_SetBitfield field_mask bit_mask_iff)
  subgoal using assms by (elim insertE emptyE) (simp_all add: color_bits_def Extract_rules take_bit_eq_mask mask_eq_exp_minus_1)
  subgoal using assms by (elim insertE emptyE) (simp_all add: color_bits_def bit_or_iff bit_SetBitfield)
  subgoal using assms by (elim insertE emptyE) (simp_all add: color_bits_def Extract_rules take_bit_eq_mask mask_eq_exp_minus_1)
  subgoal by (simp add: color_bits_def Extract_rules)
  subgoal by (elim insertE emptyE) (simp_all add: color_bits_def Extract_rules)
  done

lemma color_bits_full:
  assumes "m \<in> color_models"
  shows "ExtractBitfield (color_bits m s c) 16 19 = push_bit 19 1 - 1 \<longleftrightarrow> m = 0"
proof (cases "m = 0")
  case True
  then show ?thesis
    unfolding color_bits_def by (simp add: Extract_Set field_mask)
next
  case False
  then have "\<not> bit (color_bits m s c) (if m = 1 then 16 else if m = 2 then 17 else 26)"
    using assms by (elim insertE emptyE) (simp_all add: color_bits_def bit_or_iff bit_SetBitfield)
  then have "ExtractBitfield (color_bits m s c) 16 19 \<noteq> push_bit 19 1 - 1"
    by (rule Extract_not_full) auto
  then show ?thesis using False by simp
qed

lemma colorModel_fmt:
  fixes m s c ml k a p0 p1 p2 p3 n b ek et swz
  defines "f \<equiv> MAKE_FMTTYPE m s c ml k swz a p0 p1 p2 p3 n b ek et"
  assumes "m \<in> color_models" "f \<noteq> 0"
  shows "colorModel f = m"
proof -
  have b16: "ExtractBitfield f 16 1 = (if m = 1 then 0 else 1)"
    unfolding f_def fmt_fields by (simp only: Extract_bit color_bits_model(1) [OF assms(2)]) simp
  have b20: "ExtractBitfield f 20 1 = (if bit (color_bits m s c) 20 then 1 else 0)"
    unfolding f_def fmt_fields by (rule Extract_bit)
  have full: "ExtractBitfield f 16 19 = push_bit 19 1 - 1 \<longleftrightarrow> m = 0"
    unfolding f_def fmt_fields by (rule color_bits_full [OF assms(2)])
  have f17: "ExtractBitfield f 17 3 = ExtractBitfield (color_bits m s c) 17 3"
    and f21: "ExtractBitfield f 21 6 = ExtractBitfield (color_bits m s c) 21 6"
    unfolding f_def by (rule fmt_fields)+
  show ?thesis
    unfolding colorModel_def Let_def b16 full b20 f17 f21
    using assms(3) color_bits_model [OF assms(2), of s c] by auto
qed

lemma ImageFormat_color_make:
  assumes "ImageFormat_color model spec sub ml kind swz p0 p1 p2 p3 alpha ex = Inr f"
  obtains n b ek et where "f = MAKE_FMTTYPE model spec sub ml kind swz alpha p0 p1 p2 p3 n b ek et"
    "n > 0 \<longrightarrow> p1 = 0 \<and> p2 = 0 \<and> p3 = 0"
    "ValidateSwizzlePacking swz p0 p1 p2 p3 = Inr ()" "p0 \<noteq> 0"
    "model \<noteq> NVCV_COLOR_MODEL_YCbCr \<longrightarrow> sub = 0"
    "model \<notin> {NVCV_COLOR_MODEL_RGB, NVCV_COLOR_MODEL_YCCK, NVCV_COLOR_MODEL_CMYK, NVCV_COLOR_MODEL_YCbCr}
      \<longrightarrow> spec = NVCV_COLOR_SPEC_UNDEFINED"
proof -
  have v: "ValidateSwizzlePacking swz p0 p1 p2 p3 = Inr ()"
    and x: "ValidateExtraChannelInfo ex p0 p1 p2 p3 = Inr ()"
    and sub: "model \<noteq> NVCV_COLOR_MODEL_YCbCr \<longrightarrow> sub = 0"
    and spec: "model \<notin> {NVCV_COLOR_MODEL_RGB, NVCV_COLOR_MODEL_YCCK, NVCV_COLOR_MODEL_CMYK, NVCV_COLOR_MODEL_YCbCr}
      \<longrightarrow> spec = NVCV_COLOR_SPEC_UNDEFINED"
    and f: "f = make_format model spec sub ml kind swz alpha p0 p1 p2 p3 ex"
    using assms by (auto simp: ImageFormat_color_def result_simps split: if_splits)
  have p0: "p0 \<noteq> 0" using v by (simp add: ValidateSwizzlePacking_def result_simps)
  show thesis
  proof (cases "\<exists>e. ex = Some e \<and> exNumChannels e > 0")
    case True
    then obtain e where e: "ex = Some e" "exNumChannels e > 0" by auto
    with f x p0 v show ?thesis
      by (intro that [of "exNumChannels e" "exBitsPerPixel e" "exDatakind e" "exChannelType e"])
        (auto simp: make_format_def ValidateExtraChannelInfo_def result_simps sub spec)
  next
    case False
    with f have "f = MAKE_FMTTYPE model spec sub ml kind swz alpha p0 p1 p2 p3 0 0 (- 1) 0"
      by (auto simp: make_format_def split: option.splits)
    then show ?thesis using v sub spec p0 by (intro that [of 0 0 "- 1" 0]) auto
  qed
qed



section \<open>Laws of the setters\<close>

lemma bit_sign_trick:
  fixes x :: u64
  shows "- (1 + (NOT x AND NOT (push_bit 63 1))) = x OR push_bit 63 1"
proof -
  have "- (1 + (NOT x AND NOT (push_bit 63 1))) = NOT (NOT x AND NOT (push_bit 63 1))"
    by (simp add: not_eq_complement)
  also have "\<dots> = x OR push_bit 63 1" by (simp add: bit.de_Morgan_conj)
  finally show ?thesis .
qed

lemma set_dataKind_put: "f \<noteq> 0 \<Longrightarrow> set_dataKind v f = Inr (put_field 61 3 v f)"
proof -
  assume f: "f \<noteq> 0"
  have "((f AND NOT (MaskBitfield 61 3)) OR SetBitfield v 61 2) OR push_bit 63 1 = put_field 61 3 v f"
    if "bit v 2"
  proof (rule u64_eqI)
    fix n :: nat assume n: "n < 64"
    have b63: "bit (push_bit 63 (1 :: u64)) n \<longleftrightarrow> n = 63"
      unfolding bit_push_bit_iff using n by (auto simp: bit_1_iff)
    show "bit (((f AND NOT (MaskBitfield 61 3)) OR SetBitfield v 61 2) OR push_bit 63 1) n
        = bit (put_field 61 3 v f) n"
      using that n unfolding bit_or_iff b63 by (auto simp: bit_facts bit_and_iff bit_not_iff)
  qed
  then show ?thesis
    using f unfolding set_dataKind_def bit_sign_trick by (auto simp: Extract_bit put_field_def simp del: One_nat_def)
qed

lemma set_memLayout_put: "f \<noteq> 0 \<Longrightarrow> set_memLayout v f = Inr (put_field 12 3 v f)"
  by (simp add: set_memLayout_def put_field_def)

lemma set_alphaType_put: "f \<noteq> 0 \<Longrightarrow> set_alphaType v f = Inr (put_field 6 1 v f)"
  by (simp add: set_alphaType_def put_field_def)

interpretation fmt_kind: field dataKind "put_field 61 3" 3
  using field_at [of 61 3] unfolding dataKind_def field_def by simp

interpretation fmt_layout: field memLayout "put_field 12 3" 3
  using field_at [of 12 3] unfolding memLayout_def field_def by simp

interpretation fmt_alpha: field alphaType "put_field 6 1" 1
  using field_at [of 6 1] unfolding alphaType_def field_def by simp

lemma planePacking_put:
  "off + len \<le> 7 \<or> 8 \<le> off \<and> off + len \<le> 35 \<or> 61 \<le> off \<Longrightarrow> planePacking (put_field off len v f) i = planePacking f i"
  by (auto simp: planePacking_def Extract_put_other Let_def)

lemma planePacking_nonzero: "planePacking f i \<noteq> 0 \<Longrightarrow> f \<noteq> 0"
  using planePacking_none by metis

lemma colorModel_put:
  assumes "off + len \<le> 16 \<or> 35 \<le> off" "f \<noteq> 0" "put_field off len v f \<noteq> 0"
  shows "colorModel (put_field off len v f) = colorModel f"
  using assms by (auto simp: colorModel_def Let_def Extract_put_other)

definition same_planes_and_colour :: "u64 \<Rightarrow> u64 \<Rightarrow> bool" where
  "same_planes_and_colour g f \<longleftrightarrow>
     (\<forall>i. planePacking g i = planePacking f i) \<and> fmt_swizzle g = fmt_swizzle f \<and> colorModel g = colorModel f
     \<and> colorSpec g = colorSpec f \<and> rawPattern g = rawPattern f \<and> css g = css f"

lemma same_put:
  assumes "planePacking f 0 \<noteq> 0" "6 \<le> off \<and> off + len \<le> 7 \<or> 8 \<le> off \<and> off + len \<le> 16 \<or> 61 \<le> off"
  shows "same_planes_and_colour (put_field off len v f) f"
proof -
  have p: "planePacking (put_field off len v f) i = planePacking f i" for i
    by (rule planePacking_put) (use assms(2) in auto)
  have "colorModel (put_field off len v f) = colorModel f"
  proof (rule colorModel_put)
    show "off + len \<le> 16 \<or> 35 \<le> off" using assms(2) by auto
    show "f \<noteq> 0" using assms(1) by (rule planePacking_nonzero)
    show "put_field off len v f \<noteq> 0" using assms(1) p [of 0] planePacking_none by metis
  qed
  moreover have "ExtractBitfield (put_field off len v f) off' len' = ExtractBitfield f off' len'"
    if "(off', len') \<in> {(0, 6), (21, 6), (20, 15), (17, 3)}" for off' len'
    by (rule Extract_put_other) (use assms(2) that in auto)
  ultimately show ?thesis
    using p by (simp add: same_planes_and_colour_def fmt_swizzle_def colorSpec_def rawPattern_def css_def)
qed

text \<open>
  The setters of data kind, memory layout and alpha type. On any format with a first
  plane they succeed, the getter returns the low bits of the new value, and every other getter
  (planes, swizzle, colour model, colour specification, raw pattern, subsampling) is unchanged;
  this includes the data kinds whose encoding sets the sign bit of the format, which the code
  computes by negating a complement.
\<close>

theorem format_setters:
  assumes "planePacking f 0 \<noteq> 0"
  shows "(\<exists>g. set_dataKind v f = Inr g \<and> dataKind g = take_bit 3 v \<and> same_planes_and_colour g f
           \<and> memLayout g = memLayout f \<and> alphaType g = alphaType f)
    \<and> (\<exists>g. set_memLayout v f = Inr g \<and> memLayout g = take_bit 3 v \<and> same_planes_and_colour g f
           \<and> dataKind g = dataKind f \<and> alphaType g = alphaType f)
    \<and> (\<exists>g. set_alphaType v f = Inr g \<and> alphaType g = take_bit 1 v \<and> same_planes_and_colour g f
           \<and> dataKind g = dataKind f \<and> memLayout g = memLayout f)"
proof -
  have f: "f \<noteq> 0" using planePacking_nonzero assms by blast
  note same = same_put [OF assms]
  note other = Extract_put_other [of _ _ 61 3] Extract_put_other [of _ _ 12 3] Extract_put_other [of _ _ 6 1]
  show ?thesis
    unfolding set_dataKind_put [OF f] set_memLayout_put [OF f] set_alphaType_put [OF f]
    using same [of 61 3 v] same [of 12 3 v] same [of 6 1 v] fmt_kind.get_put fmt_layout.get_put fmt_alpha.get_put
    by (simp add: dataKind_def memLayout_def alphaType_def other del: One_nat_def)
qed

theorem format_setters_witness:
  "planePacking 422349905723523 0 \<noteq> 0
   \<and> (\<exists>g. set_dataKind 4 422349905723523 = Inr g \<and> dataKind g = 4 \<and> same_planes_and_colour g 422349905723523)"
proof -
  have p: "planePacking 422349905723523 0 \<noteq> 0" by code_simp
  have "take_bit 3 (4 :: u64) = 4" by code_simp
  with format_setters [OF p, of 4] p show ?thesis by auto
qed

section \<open>Setting extra channels\<close>

lemma ENCODE_BPP_range: "b \<le> 128 \<Longrightarrow> 0 \<le> ENCODE_BPP b \<and> ENCODE_BPP b < 8"
  by (auto simp: ENCODE_BPP_def)

lemma word_of_small: "0 \<le> x \<Longrightarrow> x < 8 \<Longrightarrow> uint (take_bit 3 (word_of_int x :: u64)) = x"
  by (simp add: unsigned_take_bit_eq unsigned_of_int take_bit_int_eq_self)

text \<open>The word a successful \<open>set_extraChannelInfo\<close> returns, and its fields.\<close>

definition with_extra :: "NVCVExtraChannelInfo \<Rightarrow> u64 \<Rightarrow> u64" where
  "with_extra e f = put_field 53 3 (exDatakind e) (put_field 50 3 (word_of_int (ENCODE_BPP (exBitsPerPixel e)))
     (put_field 47 3 (word_of_int (exNumChannels e)) (put_field 44 3 (exChannelType e) f)))"

lemma extra_word: "(f AND NOT (MaskBitfield 44 12))
         OR (SetBitfield (word_of_int (exNumChannels e)) 47 3
             OR SetBitfield (word_of_int (ENCODE_BPP (exBitsPerPixel e))) 50 3
             OR SetBitfield (exDatakind e) 53 3 OR SetBitfield (exChannelType e) 44 3) = with_extra e f"
proof (rule u64_eqI)
  fix n :: nat assume "n < 64"
  consider "n < 44" | "44 \<le> n \<and> n < 47" | "47 \<le> n \<and> n < 50" | "50 \<le> n \<and> n < 53" | "53 \<le> n \<and> n < 56" | "56 \<le> n"
    by linarith
  then show "bit ((f AND NOT (MaskBitfield 44 12))
         OR (SetBitfield (word_of_int (exNumChannels e)) 47 3
             OR SetBitfield (word_of_int (ENCODE_BPP (exBitsPerPixel e))) 50 3
             OR SetBitfield (exDatakind e) 53 3 OR SetBitfield (exChannelType e) 44 3)) n = bit (with_extra e f) n"
    using \<open>n < 64\<close> unfolding with_extra_def bit_or_iff bit_and_iff bit_not_iff bit_facts
    by cases (simp_all add: bit_u64)
qed

lemma with_extra_fields:
  "ExtractBitfield (with_extra e f) 44 3 = take_bit 3 (exChannelType e)"
  "ExtractBitfield (with_extra e f) 47 3 = take_bit 3 (word_of_int (exNumChannels e))"
  "ExtractBitfield (with_extra e f) 50 3 = take_bit 3 (word_of_int (ENCODE_BPP (exBitsPerPixel e)))"
  "ExtractBitfield (with_extra e f) 53 3 = take_bit 3 (exDatakind e)"
  "off + len \<le> 44 \<or> 56 \<le> off \<Longrightarrow> ExtractBitfield (with_extra e f) off len = ExtractBitfield f off len"
  by (auto simp: with_extra_def Extract_put Extract_put_other)

lemma with_extra_planes:
  "planePacking (with_extra e f) 0 = planePacking f 0"
  "ExtractBitfield f 7 1 = 0 \<Longrightarrow> planePacking (with_extra e f) i = planePacking f i"
  by (auto simp: planePacking_def Let_def with_extra_fields decode_packing_def simp del: One_nat_def)

lemma numPlanes_cong: "(\<And>i. planePacking g i = planePacking f i) \<Longrightarrow> numPlanes g = numPlanes f"
  by (simp add: numPlanes_def planeNumChannels_def)

lemma channels_nonzero: "planePacking f i \<noteq> 0 \<longleftrightarrow> planeNumChannels f i \<noteq> 0"
  by (auto simp: planeNumChannels_def GetNumChannels_def GetNumComponents_def nvcv_assert_def Let_def ExtractBitfield_def)

lemma planePacking1_bits:
  assumes "ExtractBitfield g 7 1 \<noteq> 0"
  shows "bit (planePacking g 1) 4 = bit g 47" "bit (planePacking g 1) 6 = bit g 48" "bit (planePacking g 1) 7 = bit g 49"
  using assms by (simp_all add: planePacking_def decode_packing_def bit_or_iff bit_facts del: One_nat_def)

lemma extra_becomes_plane:
  assumes "ExtractBitfield g 7 1 \<noteq> 0" "ExtractBitfield g 47 3 \<noteq> 0"
  shows "planePacking g 1 \<noteq> 0"
proof
  assume z: "planePacking g 1 = 0"
  have "ExtractBitfield g 47 3 = 0"
  proof (rule u64_eqI)
    fix n :: nat assume "n < 64"
    consider "n = 0" | "n = 1" | "n = 2" | "3 \<le> n" by linarith
    then show "bit (ExtractBitfield g 47 3) n = bit 0 n"
      using planePacking1_bits [OF assms(1)] by cases (simp_all add: z bit_facts)
  qed
  then show False using assms(2) by simp
qed

text \<open>
  Property C33: setting extra channels. On a format with a single plane, valid extra channels are
  accepted, and then: if the format has its planar flag clear (it was built with extra channels),
  the getter returns the count, and kind and type cut to three bits, but the bits per pixel are
  \<open>2 ^ (3 + ENCODE_BPP b)\<close>, which is the requested number only up to 16; if the flag is set (it was
  built without), the description is stored over the second plane, the format has more than one
  plane and the getter reports no extra channels.
\<close>

theorem extra_channels_set_get:
  assumes "planePacking f 0 \<noteq> 0" "numPlanes f = 1"
    and "0 < exNumChannels e" "exNumChannels e \<le> 7" "exBitsPerPixel e \<le> 128"
    and "exDatakind e \<noteq> NVCV_DATA_KIND_UNSPECIFIED"
  shows "\<exists>g. set_extraChannelInfo e f = Inr g \<and>
    (if ExtractBitfield f 7 1 = 0
     then numPlanes g = 1 \<and> extraChannelInfo g =
       \<lparr>exNumChannels = exNumChannels e, exBitsPerPixel = 2 ^ (3 + nat (ENCODE_BPP (exBitsPerPixel e))),
        exDatakind = take_bit 3 (exDatakind e), exChannelType = take_bit 3 (exChannelType e)\<rparr>
     else numPlanes g > 1 \<and> exNumChannels (extraChannelInfo g) = 0)"
proof -
  have f: "f \<noteq> 0" using assms(1) by (rule planePacking_nonzero)
  let ?g = "with_extra e f"
  have set: "set_extraChannelInfo e f = Inr ?g"
    using assms f unfolding set_extraChannelInfo_def extra_word by simp
  have n: "uint (ExtractBitfield ?g 47 3) = exNumChannels e"
    using assms(3,4) by (simp add: with_extra_fields word_of_small)
  have b: "unat (ExtractBitfield ?g 50 3) = nat (ENCODE_BPP (exBitsPerPixel e))"
    using ENCODE_BPP_range [OF assms(5)] word_of_small [of "ENCODE_BPP (exBitsPerPixel e)"]
    by (simp add: with_extra_fields flip: nat_uint_eq)
  show ?thesis
  proof (cases "ExtractBitfield f 7 1 = 0")
    case True
    then have "numPlanes ?g = 1" using assms(2) numPlanes_cong with_extra_planes(2) by metis
    then show ?thesis using True set n b assms(3) by (simp add: extraChannelInfo_def with_extra_fields del: One_nat_def)
  next
    case False
    have "ExtractBitfield ?g 47 3 \<noteq> 0" using n assms(3) by auto
    then have "planePacking ?g 1 \<noteq> 0"
      using False by (intro extra_becomes_plane) (simp_all add: with_extra_fields(5) del: One_nat_def)
    then have "planeNumChannels ?g 0 \<noteq> 0" "planeNumChannels ?g 1 \<noteq> 0"
      using assms(1) with_extra_planes(1) channels_nonzero by metis+
    then have "numPlanes ?g > 1" by (simp add: numPlanes_def)
    then show ?thesis using False set by (auto simp: extraChannelInfo_def Let_def)
  qed
qed

theorem extra_channels_set_get_witness:
  "set_extraChannelInfo \<lparr>exNumChannels = 2, exBitsPerPixel = 8, exDatakind = 0, exChannelType = 0\<rparr> 4123169718404
     = Inr 285598146429060 \<and> numPlanes 4123169718404 = 1 \<and> numPlanes 285598146429060 > 1"
proof -
  have c: "planePacking 4123169718404 0 \<noteq> 0" "numPlanes 4123169718404 = 1" "ExtractBitfield 4123169718404 7 1 \<noteq> 0"
    "set_extraChannelInfo \<lparr>exNumChannels = 2, exBitsPerPixel = 8, exDatakind = 0, exChannelType = 0\<rparr> 4123169718404
     = Inr 285598146429060" by code_simp+
  from extra_channels_set_get [OF c(1,2), of "\<lparr>exNumChannels = 2, exBitsPerPixel = 8, exDatakind = 0, exChannelType = 0\<rparr>"]
  show ?thesis using c by simp
qed

end
