(* ===== verification/Image_Format_Codes.thy ===== *)
theory Image_Format_Codes
  imports Image_Format
begin

text \<open>
  Laws of image formats that need the whole of \<open>Image_Format\<close>: the table of four-character codes
  and the round trip through it, the formats the constructors reject or lose although the
  encoding has room for them, and the sizes of planes.
\<close>

lemma chroma_codes: "c \<le> 7 \<Longrightarrow> \<exists>hv. GetChromaSamples c = Inr hv"
proof -
  assume "c \<le> 7"
  then have "unat c \<in> {0, 1, 2, 3, 4, 5, 6, 7}" by (auto simp: word_le_nat_alt)
  then have "c \<in> {0, 1, 2, 3, 4, 5, 6, 7}"
    by (auto simp: unat_eq_0 dest!: arg_cong [where f = "word_of_nat :: nat \<Rightarrow> u64"])
  then show ?thesis by (auto simp: GetChromaSamples_def)
qed

section \<open>Four-character codes\<close>

lemma table_validates:
  "ValidateSwizzlePacking 15 36 0 0 0 = Inr ()"
  "ValidateSwizzlePacking 11 99 0 0 0 = Inr ()"
  "ValidateSwizzlePacking 15 100 0 0 0 = Inr ()"
  "ValidateSwizzlePacking 15 97 0 0 0 = Inr ()"
  "ValidateSwizzlePacking 11 101 0 0 0 = Inr ()"
  "ValidateSwizzlePacking 11 97 0 0 0 = Inr ()"
  "ValidateSwizzlePacking 15 160 0 0 0 = Inr ()"
  "ValidateSwizzlePacking 11 160 0 0 0 = Inr ()"
  "ValidateSwizzlePacking 7 240 0 0 0 = Inr ()"
  "ValidateSwizzlePacking 4 240 0 0 0 = Inr ()"
  "ValidateSwizzlePacking 10 240 0 0 0 = Inr ()"
  "ValidateSwizzlePacking 1 4 0 0 0 = Inr ()"
  "ValidateSwizzlePacking 1 64 0 0 0 = Inr ()"
  "ValidateSwizzlePacking 11 118 0 0 0 = Inr ()"
  "ValidateSwizzlePacking 11 117 0 0 0 = Inr ()"
  "ValidateSwizzlePacking 14 117 0 0 0 = Inr ()"
  "ValidateSwizzlePacking 3 4 4 4 0 = Inr ()"
  "ValidateSwizzlePacking 3 4 80 0 0 = Inr ()"
  "ValidateSwizzlePacking 35 4 80 0 0 = Inr ()"
  "ValidateSwizzlePacking 35 4 4 4 0 = Inr ()"
  by code_simp+

lemma undefined_spec: "NVCV_COLOR_SPEC_UNDEFINED = 1"
  by code_simp

lemma g_FourCC_eval: "g_FourCC =
    [(826427218, Inr 687195881615),
     (875836498, Inr 1752347771019),
     (809650002, Inr 1786707509391),
     (1346520914, Inr 1683628294287),
     (1363298130, Inr 1821067247755),
     (1380075346, Inr 1683628294283),
     (861030210, Inr 2748780183695),
     (859981650, Inr 2748780183691),
     (877807426, Inr 4123169718407),
     (876758866, Inr 4123169718404),
     (825770306, Inr 137442033793),
     (1448433985, Inr 4123169652874),
     (1448433985, Inr 4123169652874),
     (1497453127, Inr 137440002177),
     (538982489, Inr 137440002177),
     (808466521, Inr 137440002177),
     (540422489, Inr 1099512676481),
     (1498831189, Inr 2130304958603),
     (844715353, Inr 2095945220235),
     (1448695129, Inr 2095945220235),
     (1447974233, Inr 2095945220235),
     (1431918169, Inr 2095945220238),
     (808596553, Inr 9077705439576195),
     (1448433993, Inr 9077705439576195),
     (842094158, Inr 422349905723523),
     (825382478, Inr 422349905723555),
     (842094169, Inr 9077705439576227),
     (909203033, Inr 9077705439051939)]"
  unfolding g_FourCC_def FCC_IF_def FCC_BAYER_IF_def ImageFormat_color_def ImageFormat_raw_def table_validates
    undefined_spec
  by (simp add: FCC_def ValidateExtraChannelInfo_def make_format_def MAKE_FMTTYPE_def color_bits_def SetBitfield_def
      ENCODE_PACKING_def ADJUST_BPP_ENCODING_def ExtractBitfield_def)

text \<open>
  Facts of the table: every constructor succeeds, codes are in upper case, entries with the same
  code have the same format, and the colour models are those for which the code knows whether a
  specification is needed.
\<close>

definition entry_sound :: "32 word \<times> u64 result \<Rightarrow> bool" where
  "entry_sound p \<longleftrightarrow> (case snd p of Inl _ \<Rightarrow> False | Inr f \<Rightarrow>
       upper_fourcc (fst p) = fst p \<and> planePacking f 0 \<noteq> 0 \<and> colorModel f \<in> set [1, 2, 9])"

lemma entries_sound: "list_all entry_sound g_FourCC"
  unfolding g_FourCC_eval by code_simp

lemma same_code: "list_all (\<lambda>p. map_option snd (List.find (\<lambda>q. fst q = fst p) g_FourCC) = Some (snd p)) g_FourCC"
  unfolding g_FourCC_eval by simp

lemma Extract_less: "unat (ExtractBitfield w off len) < 2 ^ len"
  by (simp only: ExtractBitfield_def field_mask take_bit_eq_mask [symmetric] unsigned_take_bit_eq take_bit_nat_less_exp)

lemma tmp_plus_two: "ExtractBitfield f 17 3 + 2 = 1 \<longleftrightarrow> False" "ExtractBitfield f 17 3 + 2 = 2 \<longleftrightarrow> ExtractBitfield f 17 3 = 0"
  using Extract_less [of f 17 3] by (auto simp: unat_arith_simps split: if_splits)

lemma high_model: "ExtractBitfield f 21 6 + (7 + 2 + 1) = 1 \<longleftrightarrow> False" "ExtractBitfield f 21 6 + (7 + 2 + 1) = 2 \<longleftrightarrow> False"
    "9 + ExtractBitfield f 21 6 = 0 \<longleftrightarrow> False" "8 + ExtractBitfield f 21 6 = 0 \<longleftrightarrow> False"
  using Extract_less [of f 21 6] by (auto simp: unat_arith_simps split: if_splits)

lemma colorModel_YCbCr: "colorModel f = 1 \<longleftrightarrow> f \<noteq> 0 \<and> ExtractBitfield f 16 1 = 0"
  unfolding colorModel_def Let_def by (simp add: tmp_plus_two high_model del: One_nat_def)

lemma bits_17_19: "ExtractBitfield f 17 3 = 0 \<Longrightarrow> ExtractBitfield f 16 19 \<noteq> push_bit 19 1 - 1"
proof (rule Extract_not_full)
  assume "ExtractBitfield f 17 3 = 0"
  then have "\<not> bit (ExtractBitfield f 17 3) 0" by simp
  then show "\<not> bit f 17" by (simp add: bit_facts)
qed auto

lemma colorModel_RGB: "colorModel f = 2 \<longleftrightarrow> ExtractBitfield f 16 1 \<noteq> 0 \<and> ExtractBitfield f 17 3 = 0"
proof -
  have "f \<noteq> 0" if "ExtractBitfield f 16 1 \<noteq> 0" using that by (auto simp: ExtractBitfield_def)
  then show ?thesis
    unfolding colorModel_def Let_def using bits_17_19 [of f]
    by (auto simp: tmp_plus_two high_model)
qed

text \<open>Replacing the colour specification of an RGB or YCbCr format keeps its model.\<close>

lemma colorModel_put_spec:
  assumes "colorModel f = m" "m = 1 \<or> m = 2" "put_field 20 15 v f \<noteq> 0"
  shows "colorModel (put_field 20 15 v f) = m"
  using assms colorModel_YCbCr [of f] colorModel_RGB [of f] colorModel_YCbCr [of "put_field 20 15 v f"]
    colorModel_RGB [of "put_field 20 15 v f"]
  by (auto simp: Extract_put_other)

lemma find_first: "List.find P xs = Some x \<Longrightarrow> x \<in> set xs \<and> P x"
  by (induction xs) (auto split: if_splits)

lemma table_lookup:
  assumes "(c, Inr h) \<in> set g_FourCC"
  shows "\<exists>q. List.find (\<lambda>q. fst q = upper_fourcc c) g_FourCC = Some q \<and> snd q = Inr h"
    "planePacking h 0 \<noteq> 0" "colorModel h \<in> {1, 2, 9}"
  using same_code entries_sound assms by (auto simp: list_all_iff entry_sound_def dest!: bspec)

text \<open>
  Four-character codes round trip. Whenever a format has a code, building a format
  from that code with the format's colour specification and memory layout gives the format restore
  (an RGB format must not carry a YCbCr encoding, which the code has no way to restore).
\<close>

theorem fourcc_roundtrip:
  assumes "fourCC f = Inr c" and "colorModel f = NVCV_COLOR_MODEL_RGB \<longrightarrow> YCbCrEncoding (colorSpec f) = NVCV_YCbCr_ENC_UNDEFINED"
  shows "FromFourCC c (colorSpec f) (memLayout f) = Inr f"
proof -
  from assms(1) obtain g h p where g: "set_colorSpec NVCV_COLOR_SPEC_UNDEFINED f = Inr g"
      and h: "set_memLayout NVCV_MEM_LAYOUT_PL g = Inr h"
      and p: "List.find (\<lambda>p. snd p = Inr h) g_FourCC = Some p" "fst p = c"
    unfolding fourCC_def bind_result_eq_Inr by (fastforce split: option.splits)
  have c: "(c, Inr h) \<in> set g_FourCC" using find_first [OF p(1)] p(2) by (cases p) auto
  have f0: "f \<noteq> 0" and g0: "g \<noteq> 0" using g h by (auto simp: set_colorSpec_def set_memLayout_def throw_if_def split: if_splits)
  have h': "h = put_field 12 3 0 g" using h set_memLayout_put [OF g0] by simp
  note t = table_lookup [OF c]
  from t(1) obtain q where q: "List.find (\<lambda>q. fst q = upper_fourcc c) g_FourCC = Some q" "snd q = Inr h" by blast
  have h0: "h \<noteq> 0" using t(2) by (rule planePacking_nonzero)
  have hg: "colorModel h = colorModel g" using h0 g0 unfolding h' by (intro colorModel_put) auto
  have restore: "put_field 12 3 (memLayout f) (put_field 12 3 0 f) = f"
    using fmt_layout.put_put fmt_layout.put_get by metis
  show ?thesis
  proof (cases "colorModel f = 1 \<or> colorModel f = 2")
    case True
    then obtain v where v: "g = put_field 20 15 v f"
      using g f0 by (auto simp: set_colorSpec_def put_field_def)
    have m: "colorModel h = colorModel f"
      unfolding hg v by (rule colorModel_put_spec [OF refl True]) (use g0 v in simp)
    have enc: "set_YCbCrEncoding 0 (colorSpec f) = colorSpec f" if "colorModel f = 2"
      using cenc.put_same [of "colorSpec f" 0] assms(2) that by simp
    have sp: "colorSpec f = ExtractBitfield f 20 15" using True by (auto simp: colorSpec_def)
    have "set_colorSpec (colorSpec f) h = Inr (put_field 20 15 (colorSpec f) h)"
      using True m h0 enc by (auto simp: set_colorSpec_def put_field_def)
    moreover have n: "put_field 20 15 (colorSpec f) h = put_field 12 3 0 f"
      unfolding h' v sp by (simp add: put_commute [of 12 3 20 15] put_put put_Extract)
    moreover have "put_field 12 3 0 f \<noteq> 0"
      using t(2) planePacking_put [of 20 15 "colorSpec f" h 0] planePacking_none unfolding n by auto
    ultimately show ?thesis
      using True m q restore unfolding FromFourCC_def
      by (auto simp: NeedsColorspec_def set_memLayout_put)
  next
    case False
    then have "g = f" using g f0 by (auto simp: set_colorSpec_def result_simps)
    then have "colorModel h = 9" using hg t(3) False by auto
    then show ?thesis
      using q restore h' h0 \<open>g = f\<close> unfolding FromFourCC_def by (simp add: NeedsColorspec_def set_memLayout_put)
  qed
qed

theorem fourcc_roundtrip_witness:
  "fourCC 422349905723523 = Inr 842094158
   \<and> FromFourCC 842094158 (colorSpec 422349905723523) (memLayout 422349905723523) = Inr 422349905723523"
proof -
  have m: "colorModel 422349905723523 = 1" by code_simp
  have s: "set_colorSpec NVCV_COLOR_SPEC_UNDEFINED 422349905723523 = Inr 422349905723523"
    "set_memLayout 0 422349905723523 = Inr 422349905723523" by code_simp+
  have "fourCC 422349905723523 = Inr 842094158"
    unfolding fourCC_def s bind_result_simps g_FourCC_eval by simp
  with fourcc_roundtrip [of 422349905723523 842094158] m show ?thesis by simp
qed

section \<open>Planes of a format\<close>

text \<open>
  The constructors reject 8-bit packings in the fourth plane, for which the encoding reserves the
  code 7 and which the decoder reads back.
\<close>

lemma fourth_plane_8bit_rejected:
  "ValidateSwizzlePacking swz p0 p1 p2 NVCV_PACKING_X8 \<noteq> Inr ()"
  "decode_packing 3 1 (take_bit 3 (ENCODE_PACKING NVCV_PACKING_X8 0 0 3)) 0 0 3 = NVCV_PACKING_X8"
  by (auto simp: ValidateSwizzlePacking_def result_simps intro: decode_encode3)

text \<open>A third plane of three or four channels is accepted, but its channel count loses a bit.\<close>

lemma third_plane_three_channels:
  "ValidateSwizzlePacking NVCV_SWIZZLE_XYZW NVCV_PACKING_X8 0 NVCV_PACKING_X8_Y8_Z8 0 = Inr ()"
  "decode_packing 2 1 (take_bit 7 (ENCODE_PACKING NVCV_PACKING_X8_Y8_Z8 1 3 3)) 1 3 3 = NVCV_PACKING_X24"
  by code_simp+

lemma css_range: "unat (css f) < 8"
  using Extract_less [of f 17 3] by (simp add: css_def)

lemma wrap32_plane: "0 \<le> w \<Longrightarrow> w < 2 ^ 29 - 1 \<Longrightarrow> s \<in> {1, 2, 4} \<Longrightarrow> wrap32 (w * s + 3) sdiv 4 = (w * s + 3) div (4 :: int)"
  by (auto simp: signed_divide_int_def)

text \<open>
  The size of a plane: the first plane has the size of the image; a later plane of a subsampled
  format has a quarter of the samples kept, rounded up, in each dimension, and never fails.
\<close>

lemma planeSize_ceiling:
  assumes "0 \<le> w" "w < 2 ^ 29 - 1" "0 \<le> h" "h < 2 ^ 29 - 1"
  shows "\<exists>sh sv. sh \<in> {1, 2, 4} \<and> sv \<in> {1, 2, 4} \<and> GetChromaSamples (css f) = Inr (sh, sv) \<and>
    planeSize f \<lparr>width_px = w, height_px = h\<rparr> i =
      Inr (if i \<ge> 1 then \<lparr>width_px = (w * sh + 3) div 4, height_px = (h * sv + 3) div 4\<rparr>
           else \<lparr>width_px = w, height_px = h\<rparr>)"
proof -
  have "css f \<le> 7" using css_range [of f] by (simp add: word_le_nat_alt)
  then obtain sh sv where s: "GetChromaSamples (css f) = Inr (sh, sv)"
    using chroma_codes [of "css f"] by auto
  moreover note b = GetChromaSamples_bounds [OF s]
  moreover have "css f = 0 \<Longrightarrow> sh = 4 \<and> sv = 4" using s by (simp add: GetChromaSamples_def)
  ultimately show ?thesis
    using assms wrap32_plane by (intro exI [of _ sh] exI [of _ sv]) (auto simp: planeSize_def)
qed
end
