(* ===== verification/Tensor_Layout.thy ===== *)
theory Tensor_Layout
  imports Nvcv_Prelude
begin

text \<open>
  Tensor layouts and the permutation of shapes (\<open>TensorLayout.cpp\<close>, \<open>TensorShape.cpp\<close> under
  \<open>src/nvcv/src/priv\<close>): a layout is a string of at most 15 dimension labels kept in a fixed
  array of 16 characters. A layout under construction is an uninitialised object; its previous
  contents are an argument (\<open>old\<close>), so that nothing can depend on them unnoticed.
\<close>

section \<open>Layouts\<close>

abbreviation (input) "NVCV_TENSOR_MAX_RANK \<equiv> (15 :: int)"

record NVCVTensorLayout =
  tl_data :: string
  tl_rank :: int

text \<open>\<open>std::copy\<close> of \<open>src\<close> to the front of an array.\<close>

definition copy_front :: "'a list \<Rightarrow> 'a list \<Rightarrow> 'a list" where
  "copy_front src dst = src @ drop (length src) dst"

text \<open>The two-pointer constructor, with a null pointer as \<open>None\<close> and the range as an offset pair.\<close>

definition CreateLayout_range :: "string \<Rightarrow> string option \<Rightarrow> int option \<Rightarrow> NVCVTensorLayout result" where
  "CreateLayout_range old beg len =
     (case (beg, len) of
        (Some s, Some n) \<Rightarrow>
          throw_if (n < 0) NVCV_ERROR_INVALID_ARGUMENT
         (throw_if (n > NVCV_TENSOR_MAX_RANK) NVCV_ERROR_INVALID_ARGUMENT
         (Inr \<lparr>tl_data = copy_front (take (nat n) s) old, tl_rank = n\<rparr>))
      | _ \<Rightarrow> Inl (Throw NVCV_ERROR_INVALID_ARGUMENT))"

text \<open>The constructor from a C string, given by the characters before its terminator.\<close>

definition CreateLayout :: "string \<Rightarrow> string option \<Rightarrow> NVCVTensorLayout result" where
  "CreateLayout old descr =
     (case descr of
        None \<Rightarrow> Inr \<lparr>tl_data = replicate 16 (CHR 0x00), tl_rank = 0\<rparr>
      | Some s \<Rightarrow>
          (let cur = min (length s) (nat NVCV_TENSOR_MAX_RANK);
               data = copy_front (take cur s) old in
           throw_if (cur < length s) NVCV_ERROR_INVALID_ARGUMENT
          (nvcv_assert (cur < 16)
          (Inr \<lparr>tl_data = data[cur := CHR 0x00], tl_rank = int cur\<rparr>))))"

fun memchr :: "string \<Rightarrow> char \<Rightarrow> nat \<Rightarrow> nat option" where
  "memchr s c 0 = None"
| "memchr [] c (Suc n) = None"
| "memchr (x # xs) c (Suc n) = (if x = c then Some 0 else map_option Suc (memchr xs c n))"

definition FindDimIndex :: "NVCVTensorLayout \<Rightarrow> char \<Rightarrow> int" where
  "FindDimIndex l c = (case memchr (tl_data l) c (nat (tl_rank l)) of Some i \<Rightarrow> int i | None \<Rightarrow> - 1)"

definition IsChannelLast :: "NVCVTensorLayout \<Rightarrow> bool" where
  "IsChannelLast l \<longleftrightarrow> tl_rank l = 0 \<or> tl_data l ! nat (tl_rank l - 1) = CHR ''C''"

text \<open>
  \<open>CreateFirst\<close> and \<open>CreateLast\<close> call each other with the count negated, in 32 bits. \<open>first\<close> says
  which of the two is running; a call that never returns is \<open>None\<close>.
\<close>

partial_function (option) create_end ::
    "string \<Rightarrow> bool \<Rightarrow> NVCVTensorLayout \<Rightarrow> int \<Rightarrow> NVCVTensorLayout result option" where
  "create_end old first l n =
     (if n \<ge> 0 then
        (let rank = min n (tl_rank l) in
         Some (throw_if (rank > NVCV_TENSOR_MAX_RANK) NVCV_ERROR_INVALID_ARGUMENT
          (Inr \<lparr>tl_data = copy_front
                  (if first then take (nat rank) (tl_data l)
                   else take (nat rank) (drop (nat (tl_rank l - rank)) (tl_data l))) old,
                tl_rank = rank\<rparr>)))
      else create_end old (\<not> first) l (wrap32 (- n)))"

declare create_end.simps [code]

definition CreateFirst :: "string \<Rightarrow> NVCVTensorLayout \<Rightarrow> int \<Rightarrow> NVCVTensorLayout result option" where
  "CreateFirst old l n = create_end old True l n"

definition CreateLast :: "string \<Rightarrow> NVCVTensorLayout \<Rightarrow> int \<Rightarrow> NVCVTensorLayout result option" where
  "CreateLast old l n = create_end old False l n"

definition clamp_index :: "int \<Rightarrow> int \<Rightarrow> int" where
  "clamp_index rank i = (if i < 0 then max 0 (rank + i) else min i rank)"

definition CreateSubRange :: "string \<Rightarrow> NVCVTensorLayout \<Rightarrow> int \<Rightarrow> int \<Rightarrow> NVCVTensorLayout result" where
  "CreateSubRange old l b e =
     (let beg = clamp_index (tl_rank l) b; en = clamp_index (tl_rank l) e; rank = en - beg in
      if rank > 0 then
        throw_if (rank > NVCV_TENSOR_MAX_RANK) NVCV_ERROR_INVALID_ARGUMENT
          (Inr \<lparr>tl_data = copy_front (take (nat rank) (drop (nat beg) (tl_data l))) old, tl_rank = rank\<rparr>)
      else Inr \<lparr>tl_data = old, tl_rank = 0\<rparr>)"

definition layout_eq :: "NVCVTensorLayout \<Rightarrow> NVCVTensorLayout \<Rightarrow> bool" where
  "layout_eq a b \<longleftrightarrow>
     (if tl_rank a = tl_rank b then take (nat (tl_rank a)) (tl_data a) = take (nat (tl_rank a)) (tl_data b)
      else False)"

definition LAYOUT_MAKE :: "string \<Rightarrow> NVCVTensorLayout" where
  "LAYOUT_MAKE s = \<lparr>tl_data = s @ replicate (16 - length s) (CHR 0x00), tl_rank = int (length s)\<rparr>"

definition NVCV_TENSOR_NHWC :: NVCVTensorLayout where "NVCV_TENSOR_NHWC = LAYOUT_MAKE ''NHWC''"
definition NVCV_TENSOR_NCHW :: NVCVTensorLayout where "NVCV_TENSOR_NCHW = LAYOUT_MAKE ''NCHW''"
definition NVCV_TENSOR_WC :: NVCVTensorLayout where "NVCV_TENSOR_WC = LAYOUT_MAKE ''WC''"

section \<open>Permuting shapes\<close>

definition permute_step :: "NVCVTensorLayout \<Rightarrow> NVCVTensorLayout \<Rightarrow> int list \<Rightarrow> nat \<Rightarrow> int list \<Rightarrow> int list" where
  "permute_step src dst shape i out =
     (let k = FindDimIndex dst (tl_data src ! i) in if k \<ge> 0 then out[nat k := shape ! i] else out)"

definition PermuteShape ::
    "NVCVTensorLayout \<Rightarrow> int list option \<Rightarrow> NVCVTensorLayout \<Rightarrow> int list option \<Rightarrow> int list result" where
  "PermuteShape src srcShape dst dstShape =
     (case srcShape of None \<Rightarrow> Inl (Throw NVCV_ERROR_INVALID_ARGUMENT)
      | Some sh \<Rightarrow> (case dstShape of None \<Rightarrow> Inl (Throw NVCV_ERROR_INVALID_ARGUMENT)
        | Some out \<Rightarrow>
            Inr (fold (permute_step src dst sh) [0..<nat (tl_rank src)]
              (copy_front (replicate (nat (tl_rank dst)) 1) out))))"

section \<open>Layouts as lists of labels\<close>

definition layout_ok :: "NVCVTensorLayout \<Rightarrow> bool" where
  "layout_ok l \<longleftrightarrow> 0 \<le> tl_rank l \<and> tl_rank l \<le> NVCV_TENSOR_MAX_RANK \<and> length (tl_data l) = 16"

definition labels :: "NVCVTensorLayout \<Rightarrow> string" where
  "labels l = take (nat (tl_rank l)) (tl_data l)"

lemma length_labels: "layout_ok l \<Longrightarrow> length (labels l) = nat (tl_rank l)"
  by (auto simp: layout_ok_def labels_def)

lemma labels_nth: "layout_ok l \<Longrightarrow> i < nat (tl_rank l) \<Longrightarrow> tl_data l ! i = labels l ! i"
  by (simp add: labels_def)

lemma copy_front_length: "length src \<le> length dst \<Longrightarrow> length (copy_front src dst) = length dst"
  by (simp add: copy_front_def)

lemma copy_front_take: "length src = n \<Longrightarrow> take n (copy_front src dst) = src"
  by (simp add: copy_front_def)

lemma layout_eq_labels: "layout_ok a \<Longrightarrow> layout_ok b \<Longrightarrow> layout_eq a b \<longleftrightarrow> labels a = labels b"
proof -
  assume a: "layout_ok a" and b: "layout_ok b"
  have "tl_rank a = tl_rank b" if "labels a = labels b"
    using that length_labels [OF a] length_labels [OF b] a b by (auto simp: layout_ok_def)
  then show ?thesis by (auto simp: layout_eq_def labels_def)
qed


lemma create_end_simps:
  "n \<ge> 0 \<Longrightarrow> layout_ok l \<Longrightarrow> length old = 16 \<Longrightarrow>
     \<exists>r. create_end old first l n = Some (Inr r) \<and> layout_ok r \<and>
       labels r = (if first then take (nat n) (labels l) else drop (length (labels l) - nat n) (labels l))"
  "n < 0 \<Longrightarrow> create_end old first l n = create_end old (\<not> first) l (wrap32 (- n))"
proof -
  assume n: "n \<ge> 0" and l: "layout_ok l" and old: "length old = 16"
  define rank where "rank = min n (tl_rank l)"
  let ?src = "if first then take (nat rank) (tl_data l)
    else take (nat rank) (drop (nat (tl_rank l - rank)) (tl_data l))"
  let ?r = "\<lparr>tl_data = copy_front ?src old, tl_rank = rank\<rparr>"
  have rank: "0 \<le> rank" "rank \<le> 15" "nat rank \<le> nat (tl_rank l)" "length (tl_data l) = 16" "tl_rank l \<le> 15"
    using n l by (auto simp: rank_def layout_ok_def)
  have len: "length ?src = nat rank" using rank by auto
  have "layout_ok ?r"
    using rank old len copy_front_length [of ?src old] by (simp add: layout_ok_def del: if_split)
  moreover have "labels ?r = ?src" using copy_front_take [OF len] by (simp add: labels_def)
  moreover have "?src = (if first then take (nat n) (labels l) else drop (length (labels l) - nat n) (labels l))"
    using rank n l length_labels [OF l] unfolding labels_def rank_def
    by (auto simp: min_def nat_diff_distrib drop_take)
  ultimately show "\<exists>r. create_end old first l n = Some (Inr r) \<and> layout_ok r \<and>
       labels r = (if first then take (nat n) (labels l) else drop (length (labels l) - nat n) (labels l))"
    using n rank by (subst create_end.simps) (auto simp: rank_def [symmetric] Let_def)
next
  assume "n < 0" then show "create_end old first l n = create_end old (\<not> first) l (wrap32 (- n))"
    by (subst create_end.simps) simp
qed

lemma create_end_diverges: "create_end old first l (- (2 ^ 31)) = None"
proof -
  have "n \<noteq> - (2 ^ 31)" if "create_end old first l n = Some r" for old first l n r
    by (rule create_end.raw_induct [where P = "\<lambda>old first l n r. n \<noteq> - (2 ^ 31)", OF _ that])
      (fastforce simp: wrap32_def split: if_splits)
  then show ?thesis by (metis option.exhaust)
qed

text \<open>The labels between two clamped indices; an empty range when they cross.\<close>

definition label_slice :: "int \<Rightarrow> int \<Rightarrow> 'a list \<Rightarrow> 'a list" where
  "label_slice b e xs = take (nat (clamp_index (int (length xs)) e - clamp_index (int (length xs)) b))
     (drop (nat (clamp_index (int (length xs)) b)) xs)"

lemma CreateSubRange_slice:
  assumes "layout_ok l" "length old = 16"
  shows "\<exists>r. CreateSubRange old l b e = Inr r \<and> layout_ok r \<and> labels r = label_slice b e (labels l)"
proof -
  define beg where "beg = clamp_index (tl_rank l) b"
  define en where "en = clamp_index (tl_rank l) e"
  have l: "0 \<le> tl_rank l" "tl_rank l \<le> 15" "length (tl_data l) = 16" using assms(1) by (auto simp: layout_ok_def)
  have c: "0 \<le> beg" "beg \<le> tl_rank l" "0 \<le> en" "en \<le> tl_rank l"
    using l by (auto simp: beg_def en_def clamp_index_def)
  have sl: "label_slice b e (labels l) = take (nat (en - beg)) (drop (nat beg) (labels l))"
    using l length_labels [OF assms(1)] by (simp add: label_slice_def beg_def en_def)
  show ?thesis
  proof (cases "en - beg > 0")
    case True
    let ?src = "take (nat (en - beg)) (drop (nat beg) (tl_data l))"
    have len: "length ?src = nat (en - beg)" using c l by auto
    have "?src = label_slice b e (labels l)"
      using c l True unfolding sl unfolding labels_def by (auto simp: drop_take min_def nat_diff_distrib)
    then show ?thesis
      using True c l len assms(2) copy_front_length [of ?src old] copy_front_take [OF len, of old]
      by (auto simp: CreateSubRange_def beg_def [symmetric] en_def [symmetric] layout_ok_def labels_def)
  next
    case False
    then show ?thesis using assms(2) sl
      by (auto simp: CreateSubRange_def beg_def [symmetric] en_def [symmetric] layout_ok_def labels_def)
  qed
qed

text \<open>
  Property C34: parts of a layout. On a well-formed layout, and whatever the result object held
  before, \<open>CreateFirst\<close> and \<open>CreateLast\<close> return the first or last \<open>n\<close> labels, a negative count
  swapping the roles, and \<open>CreateSubRange\<close> returns the labels between its indices, counted from
  the end when negative and clamped to the layout. They return for every 32-bit count but the
  smallest, on which \<open>CreateFirst\<close> and \<open>CreateLast\<close> call each other forever.
\<close>

theorem layout_parts:
  assumes "layout_ok l" "length old = 16" "- (2 ^ 31) \<le> n" "n < 2 ^ 31"
  shows "(if n = - (2 ^ 31) then CreateFirst old l n = None \<and> CreateLast old l n = None
          else (\<exists>r. CreateFirst old l n = Some (Inr r) \<and> layout_ok r \<and> labels r =
                  (if n \<ge> 0 then take (nat n) (labels l) else drop (length (labels l) - nat (- n)) (labels l)))
             \<and> (\<exists>r. CreateLast old l n = Some (Inr r) \<and> layout_ok r \<and> labels r =
                  (if n \<ge> 0 then drop (length (labels l) - nat n) (labels l) else take (nat (- n)) (labels l))))
    \<and> (\<exists>r. CreateSubRange old l b e = Inr r \<and> layout_ok r \<and> labels r = label_slice b e (labels l))"
proof -
  have "create_end old first l n = create_end old (\<not> first) l (- n)" if "n < 0" "n \<noteq> - (2 ^ 31)" for first
    using that assms(3,4) create_end_simps(2) [of n] by simp
  then show ?thesis
    using create_end_diverges CreateSubRange_slice [OF assms(1,2)]
      create_end_simps(1) [of n l old True] create_end_simps(1) [of n l old False]
      create_end_simps(1) [of "- n" l old True] create_end_simps(1) [of "- n" l old False] assms
    unfolding CreateFirst_def CreateLast_def by (cases "n \<ge> 0") auto
qed

theorem layout_parts_witness:
  "(\<exists>r. CreateFirst (replicate 16 CHR ''x'') NVCV_TENSOR_NHWC (- 2) = Some (Inr r) \<and> labels r = ''WC'')
   \<and> (\<exists>r. CreateSubRange (replicate 16 CHR ''x'') NVCV_TENSOR_NHWC 1 (- 1) = Inr r \<and> labels r = ''HW'')"
proof -
  have ok: "layout_ok NVCV_TENSOR_NHWC" "labels NVCV_TENSOR_NHWC = ''NHWC''" "label_slice 1 (- 1) ''NHWC'' = ''HW''" by code_simp+
  from layout_parts [OF ok(1), of "replicate 16 CHR ''x''" "- 2" 1 "- 1"] show ?thesis
    by (simp add: ok(2,3)) auto
qed

text \<open>A layout made from a string has the string as its labels; longer strings are rejected.\<close>

lemma CreateLayout_labels:
  assumes "length old = 16"
  shows "if length s \<le> 15 then \<exists>l. CreateLayout old (Some s) = Inr l \<and> layout_ok l \<and> labels l = s
         else CreateLayout old (Some s) = Inl (Throw NVCV_ERROR_INVALID_ARGUMENT)"
  using assms by (auto simp: CreateLayout_def layout_ok_def labels_def copy_front_def min_def take_update_cancel
      Let_def throw_if_def nvcv_assert_def)

section \<open>Permuted shapes\<close>

lemma memchr_index: "memchr s c n = (if c \<in> set (take n s) then Some (LEAST i. i < length s \<and> s ! i = c) else None)"
proof (induction s c n rule: memchr.induct)
  case (3 x xs c n)
  have "(LEAST i. i < length (x # xs) \<and> (x # xs) ! i = c) = Suc (LEAST i. i < length xs \<and> xs ! i = c)"
    if "x \<noteq> c" "c \<in> set (take n xs)"
  proof -
    from that(2) obtain i where "i < length xs" "xs ! i = c" by (metis in_set_conv_nth in_set_takeD)
    then show ?thesis using that(1) by (subst Least_Suc [of _ "Suc i"]) auto
  qed
  with 3 show ?case by (auto intro!: Least_equality [symmetric])
qed auto

lemma FindDimIndex_nth:
  assumes "layout_ok l" "distinct (labels l)" "j < length (labels l)"
  shows "FindDimIndex l (labels l ! j) = int j"
proof -
  have n: "j < nat (tl_rank l)" "j < length (tl_data l)" "tl_data l ! j = labels l ! j"
    using assms length_labels [OF assms(1)] by (auto simp: labels_def)
  have "(LEAST i. i < length (tl_data l) \<and> tl_data l ! i = labels l ! j) = j"
  proof (rule Least_equality)
    fix i assume i: "i < length (tl_data l) \<and> tl_data l ! i = labels l ! j"
    show "j \<le> i"
    proof (rule ccontr)
      assume "\<not> j \<le> i"
      then have "i < length (labels l)" "labels l ! i = labels l ! j"
        using assms(3) i n(1) labels_nth [OF assms(1), of i] by simp_all
      then show False using nth_eq_iff_index_eq [OF assms(2), of i j] assms(3) \<open>\<not> j \<le> i\<close> by simp
    qed
  qed (use n in auto)
  moreover have "labels l ! j \<in> set (take (nat (tl_rank l)) (tl_data l))"
    using nth_mem [OF assms(3)] unfolding labels_def [symmetric] .
  ultimately show ?thesis by (simp add: FindDimIndex_def memchr_index)
qed

lemma FindDimIndex_none: "c \<notin> set (labels l) \<Longrightarrow> FindDimIndex l c = - 1"
  by (simp add: FindDimIndex_def memchr_index labels_def)

lemma permute_loop_length: "length (fold (permute_step src dst sh) is out) = length out"
  by (induction "is" arbitrary: out) (auto simp: permute_step_def Let_def)

lemma permute_step_nth:
  assumes "layout_ok src" "layout_ok dst" "distinct (labels dst)" "k < length (labels src)"
    and "j < length (labels dst)" "length (labels dst) \<le> length out"
  shows "permute_step src dst sh k out ! j = (if labels src ! k = labels dst ! j then sh ! k else out ! j)"
proof -
  have d: "tl_data src ! k = labels src ! k" using assms(1,4) length_labels labels_nth by metis
  show ?thesis
  proof (cases "labels src ! k \<in> set (labels dst)")
    case True
    then obtain i where i: "i < length (labels dst)" "labels dst ! i = labels src ! k" by (metis in_set_conv_nth)
    have "FindDimIndex dst (labels src ! k) = int i" using FindDimIndex_nth [OF assms(2,3) i(1)] i(2) by simp
    moreover have "labels src ! k = labels dst ! j \<longleftrightarrow> i = j"
      using i assms(5) nth_eq_iff_index_eq [OF assms(3) i(1) assms(5)] by auto
    ultimately show ?thesis using i(1) assms(6) by (auto simp: permute_step_def d)
  next
    case False
    then show ?thesis using FindDimIndex_none [OF False] assms(5) by (auto simp: permute_step_def d)
  qed
qed

lemma permute_loop_nth:
  assumes "layout_ok src" "layout_ok dst" "distinct (labels dst)" "distinct (labels src)"
    and "j < length (labels dst)" "length (labels dst) \<le> length out" "k \<le> length (labels src)"
  shows "fold (permute_step src dst sh) [0..<k] out ! j =
    (if labels dst ! j \<in> set (take k (labels src)) then sh ! nat (FindDimIndex src (labels dst ! j)) else out ! j)"
  using assms(7)
proof (induction k)
  case (Suc k)
  have k: "k < length (labels src)" using Suc.prems by simp
  have "fold (permute_step src dst sh) [0..<Suc k] out ! j =
      (if labels src ! k = labels dst ! j then sh ! k else fold (permute_step src dst sh) [0..<k] out ! j)"
    using permute_step_nth [OF assms(1-3) k assms(5)] permute_loop_length assms(6) by simp
  moreover have "labels src ! k = labels dst ! j \<Longrightarrow> FindDimIndex src (labels dst ! j) = int k"
    using FindDimIndex_nth [OF assms(1,4) k] by simp
  ultimately show ?case using Suc by (auto simp: take_Suc_conv_app_nth [OF k])
qed simp

lemma PermuteShape_nth:
  assumes "layout_ok src" "layout_ok dst" "distinct (labels dst)" "distinct (labels src)"
    and "length (labels dst) \<le> length out"
  shows "\<exists>r. PermuteShape src (Some sh) dst (Some out) = Inr r \<and> length r = length out \<and>
    (\<forall>j < length (labels dst). r ! j =
       (if labels dst ! j \<in> set (labels src) then sh ! nat (FindDimIndex src (labels dst ! j)) else 1))"
proof -
  let ?init = "copy_front (replicate (nat (tl_rank dst)) 1) out"
  have n: "nat (tl_rank dst) = length (labels dst)" "nat (tl_rank src) = length (labels src)"
    using length_labels assms(1,2) by auto
  have len: "length ?init = length out" using assms(5) n by (simp add: copy_front_length)
  have one: "?init ! j = 1" if "j < length (labels dst)" for j
    using that n by (simp add: copy_front_def nth_append)
  show ?thesis
    using permute_loop_nth [OF assms(1-4), of _ ?init "length (labels src)" sh] permute_loop_length len one assms(5) n
    by (auto simp: PermuteShape_def)
qed

text \<open>
  Property C35: permuting a shape follows the labels. Between layouts without repeated labels,
  \<open>PermuteShape\<close> gives each destination dimension the extent its label has in the source and 1
  where the source does not have it; between layouts with the same labels, permuting back gives
  the original shape, whatever the output arrays held.
\<close>

theorem permute_shape_by_label:
  assumes "layout_ok src" "layout_ok dst" "distinct (labels src)" "distinct (labels dst)"
    and "length sh = length (labels src)" "length (labels dst) \<le> length out" "length (labels src) \<le> length out'"
  shows "\<exists>r. PermuteShape src (Some sh) dst (Some out) = Inr r
    \<and> (\<forall>j < length (labels dst). r ! j =
         (if labels dst ! j \<in> set (labels src) then sh ! nat (FindDimIndex src (labels dst ! j)) else 1))
    \<and> (set (labels src) = set (labels dst) \<longrightarrow>
         (\<exists>r'. PermuteShape dst (Some r) src (Some out') = Inr r' \<and> take (length sh) r' = sh))"
proof -
  from PermuteShape_nth [OF assms(1,2,4,3,6)] obtain r where
    r: "PermuteShape src (Some sh) dst (Some out) = Inr r" "length r = length out"
       "\<forall>j < length (labels dst). r ! j =
         (if labels dst ! j \<in> set (labels src) then sh ! nat (FindDimIndex src (labels dst ! j)) else 1)"
    by blast
  from PermuteShape_nth [OF assms(2,1,3,4,7), of r] obtain r' where
    r': "PermuteShape dst (Some r) src (Some out') = Inr r'" "length r' = length out'"
       "\<forall>i < length (labels src). r' ! i =
         (if labels src ! i \<in> set (labels dst) then r ! nat (FindDimIndex dst (labels src ! i)) else 1)"
    by blast
  have "take (length sh) r' = sh" if "set (labels src) = set (labels dst)"
  proof (rule nth_equalityI)
    show "length (take (length sh) r') = length sh" using r'(2) assms(5,7) by simp
    fix i assume "i < length (take (length sh) r')"
    then have i: "i < length (labels src)" using assms(5) by simp
    have "labels src ! i \<in> set (labels dst)" using nth_mem [OF i] unfolding that .
    then obtain j where j: "j < length (labels dst)" "labels dst ! j = labels src ! i"
      unfolding in_set_conv_nth by blast
    have "FindDimIndex dst (labels src ! i) = int j" using FindDimIndex_nth [OF assms(2,4) j(1)] j(2) by simp
    moreover have "FindDimIndex src (labels dst ! j) = int i" using FindDimIndex_nth [OF assms(1,3) i] j(2) by simp
    ultimately have "r' ! i = r ! j" "r ! j = sh ! i"
      using r'(3) [rule_format, OF i] r(3) [rule_format, OF j(1)] nth_mem [OF i] nth_mem [OF j(1)] that by simp_all
    then show "take (length sh) r' ! i = sh ! i" using i assms(5) by simp
  qed
  with r r' show ?thesis by blast
qed

theorem permute_shape_by_label_witness:
  "\<exists>r. PermuteShape NVCV_TENSOR_NCHW (Some [2, 3, 480, 640]) NVCV_TENSOR_NHWC (Some [0, 0, 0, 0]) = Inr r
     \<and> r ! 3 = 3
     \<and> (\<exists>r'. PermuteShape NVCV_TENSOR_NHWC (Some r) NVCV_TENSOR_NCHW (Some [9, 9, 9, 9]) = Inr r'
          \<and> take (length [2, 3, 480, 640 :: int]) r' = [2, 3, 480, 640])"
proof -
  have c: "layout_ok NVCV_TENSOR_NCHW" "layout_ok NVCV_TENSOR_NHWC" "labels NVCV_TENSOR_NCHW = ''NCHW''"
    "labels NVCV_TENSOR_NHWC = ''NHWC''" "FindDimIndex NVCV_TENSOR_NCHW CHR ''C'' = 1" by code_simp+
  from permute_shape_by_label [OF c(1,2), of "[2, 3, 480, 640]" "[0, 0, 0, 0]" "[9, 9, 9, 9]"] c(3-5)
  show ?thesis by (auto dest: spec [of _ 3])
qed

end
