(* ===== verification/Tensor_Reshape.thy ===== *)
theory Tensor_Reshape
  imports Tensor_Layout
begin

text \<open>
  Reshaping strided tensors (\<open>Simplify\<close>, \<open>ReshapeSimplified\<close> and \<open>ReshapeTensorData\<close> of
  \<open>src/nvcv/src/priv/TensorData.cpp\<close>) and the validation of wrapped tensor buffers
  (\<open>TensorWrapDataStrided.cpp\<close>). All products are those of the machine: 64 bits when reshaping,
  32 bits when validating. The specification of a strided tensor is the list of its element
  offsets in row-major order.
\<close>

section \<open>Tensor data\<close>

abbreviation (input) "NVCV_TENSOR_BUFFER_NONE \<equiv> (0 :: int)"
abbreviation (input) "NVCV_TENSOR_BUFFER_STRIDED_CUDA \<equiv> (1 :: int)"

text \<open>The arrays \<open>shape\<close> and \<open>strides\<close> have 15 entries, of which the first \<open>rank\<close> are in use.\<close>

record NVCVTensorData =
  td_dtype :: "64 word"
  td_layout :: NVCVTensorLayout
  td_rank :: int
  td_shape :: "int list"
  td_bufferType :: int
  td_strides :: "int list"
  td_basePtr :: "64 word"

definition td_dims :: "NVCVTensorData \<Rightarrow> (int \<times> int) list" where
  "td_dims td = take (nat (td_rank td)) (zip (td_shape td) (td_strides td))"

section \<open>Collapsing dimensions\<close>

text \<open>The loop of \<open>Simplify\<close>; \<open>vol\<close> and \<open>s\<close> are the volume and last stride of the open group.\<close>

fun simplify_loop :: "int \<Rightarrow> int \<Rightarrow> (int \<times> int) list \<Rightarrow> (int \<times> int) list" where
  "simplify_loop vol s [] = [(vol, s)]"
| "simplify_loop vol s ((n, t) # ds) =
     (if s \<noteq> wrap64 (n * t) then (vol, s) # simplify_loop n t ds
      else simplify_loop (wrap64 (vol * n)) t ds)"

definition Simplify :: "(int \<times> int) list \<Rightarrow> (int \<times> int) list" where
  "Simplify ds = (case ds of [] \<Rightarrow> [] | (n, s) # ds' \<Rightarrow> simplify_loop n s ds')"

text \<open>The longest prefix of the target whose volume stays within the group.\<close>

fun take_group :: "int \<Rightarrow> int \<Rightarrow> int list \<Rightarrow> int \<times> int list \<times> int list" where
  "take_group e v [] = (v, [], [])"
| "take_group e v (t # ts) =
     (if wrap64 (v * t) \<le> e
      then (let (v', g, r) = take_group e (wrap64 (v * t)) ts in (v', t # g, r))
      else (v, [], t # ts))"

definition group_strides :: "int \<Rightarrow> int list \<Rightarrow> int list" where
  "group_strides s g = fst (foldr (\<lambda>t (acc, s). (s # acc, wrap64 (s * t))) g ([], s))"

text \<open>The strides assigned, or \<open>None\<close> when the reshape is not possible.\<close>

fun ReshapeSimplified :: "(int \<times> int) list \<Rightarrow> int list \<Rightarrow> int list option" where
  "ReshapeSimplified [] ts = Some []"
| "ReshapeSimplified ((e, s) # ds) [] = Some []"
| "ReshapeSimplified ((e, s) # ds) (t # ts) =
     (let (v, g, r) = take_group e 1 (t # ts) in
      if v \<noteq> e then None else map_option ((@) (group_strides s g)) (ReshapeSimplified ds r))"

definition volume :: "int list \<Rightarrow> int" where
  "volume sh = fold (\<lambda>d v. wrap64 (v * d)) sh 1"

definition ReshapeTensorData ::
    "NVCVTensorData \<Rightarrow> int \<Rightarrow> int list \<Rightarrow> NVCVTensorLayout \<Rightarrow> NVCVTensorData result" where
  "ReshapeTensorData td new_rank new_shape new_layout =
     throw_if (new_rank < 1 \<or> new_rank > NVCV_TENSOR_MAX_RANK) NVCV_ERROR_INVALID_ARGUMENT
    (let target = take (nat new_rank) new_shape in
     throw_if (volume target \<noteq> volume (take (nat (td_rank td)) (td_shape td))) NVCV_ERROR_INVALID_ARGUMENT
    (throw_if (tl_rank new_layout > 0 \<and> tl_rank new_layout \<noteq> new_rank) NVCV_ERROR_INVALID_ARGUMENT
    (nvcv_assert (td_bufferType td = NVCV_TENSOR_BUFFER_STRIDED_CUDA)
    (case ReshapeSimplified (Simplify (td_dims td)) target of
       None \<Rightarrow> Inl (Throw NVCV_ERROR_INVALID_ARGUMENT)
     | Some strides \<Rightarrow>
         Inr (td\<lparr>td_layout := new_layout, td_strides := copy_front strides (td_strides td),
                 td_rank := new_rank, td_shape := copy_front target (td_shape td)\<rparr>)))))"

section \<open>Element offsets\<close>

fun offsets :: "(int \<times> int) list \<Rightarrow> int list" where
  "offsets [] = [0]"
| "offsets ((n, s) # ds) = concat (map (\<lambda>i. map (\<lambda>off. int i * s + off) (offsets ds)) [0..<nat n])"

lemma upt_mult: "[0..<m * n] = concat (map (\<lambda>i. map (\<lambda>j. i * n + j) [0..<n]) [0..<m])"
proof (induction m)
  case (Suc m)
  have "[0..<Suc m * n] = [0..<m * n] @ [m * n..<m * n + n]" by (metis add.commute le0 mult_Suc upt_add_eq_append)
  moreover have "[m * n..<m * n + n] = map (\<lambda>j. m * n + j) [0..<n]"
    by (rule nth_equalityI) auto
  ultimately show ?case using Suc by simp
qed simp

lemma concat_map_concat: "concat (map (\<lambda>x. concat (f x)) xs) = concat (concat (map f xs))"
  by (induction xs) auto

lemma offsets_merge:
  assumes "0 \<le> a" "0 \<le> b"
  shows "offsets ((a, b * s) # (b, s) # ds) = offsets ((a * b, s) # ds)"
proof -
  have n: "nat (a * b) = nat a * nat b" using assms by (simp add: nat_mult_distrib)
  have plus: "(+) (u + v) = (\<lambda>w. u + (v + w))" for u v :: int by auto
  show ?thesis
    using assms unfolding offsets.simps n upt_mult
    by (simp add: map_concat o_def concat_map_concat distrib_right mult.assoc plus)
qed

lemma offsets_one [simp]: "offsets ((1, s) # ds) = offsets ds"
  by (simp add: map_idI)

lemma offsets_cong: "offsets ds = offsets ds' \<Longrightarrow> offsets (d # ds) = offsets (d # ds')"
  by (cases d) simp

lemma offsets_append_cong: "offsets ds = offsets ds' \<Longrightarrow> offsets (xs @ ds) = offsets (xs @ ds')"
  by (induction xs) (auto intro: offsets_cong)


section \<open>Collapsing keeps the elements\<close>

text \<open>Extents are positive and no product of an extent and its stride leaves 64 bits.\<close>

definition dim_ok :: "int \<times> int \<Rightarrow> bool" where
  "dim_ok d \<longleftrightarrow> 1 \<le> fst d \<and> \<bar>fst d * snd d\<bar> < 2 ^ 63"

lemma prod_list_pos: "list_all (\<lambda>x. 1 \<le> x) xs \<Longrightarrow> 1 \<le> (prod_list xs :: int)"
proof (induction xs)
  case (Cons a xs)
  then have "1 * 1 \<le> a * prod_list xs" by (intro mult_mono) auto
  then show ?case by simp
qed simp

lemma mult_bound: "1 \<le> (b :: int) \<Longrightarrow> 0 \<le> a \<Longrightarrow> a \<le> a * b"
  by (simp add: mult_le_cancel_left1)

lemma simplify_loop_correct:
  assumes "1 \<le> vol" "\<bar>vol * s\<bar> < 2 ^ 63" "list_all dim_ok ds" "vol * prod_list (map fst ds) < 2 ^ 63"
  shows "offsets (simplify_loop vol s ds) = offsets ((vol, s) # ds) \<and> list_all dim_ok (simplify_loop vol s ds)
    \<and> prod_list (map fst (simplify_loop vol s ds)) = vol * prod_list (map fst ds)"
  using assms
proof (induction vol s ds rule: simplify_loop.induct)
  case (1 vol s)
  then show ?case by (simp add: dim_ok_def)
next
  case (2 vol s n t ds)
  have d: "1 \<le> n" "\<bar>n * t\<bar> < 2 ^ 63" and ds: "list_all dim_ok ds"
    using 2(5) dim_ok_def [of "(n, t)"] by simp_all
  have p: "1 \<le> prod_list (map fst ds)"
    using ds by (intro prod_list_pos) (auto simp: list_all_iff dim_ok_def)
  have w: "wrap64 (n * t) = n * t" using d(2) by simp
  have bound: "vol * n * prod_list (map fst ds) < 2 ^ 63" using 2(6) by (simp add: mult.assoc)
  have v: "1 \<le> vol * n" using 2(3) d(1) mult_bound [of n vol] by linarith
  have wv: "wrap64 (vol * n) = vol * n" using v bound mult_bound [OF p, of "vol * n"] by (intro wrap64_id) linarith+
  show ?case
  proof (cases "s = n * t")
    case True
    have "\<bar>vol * n * t\<bar> < 2 ^ 63" using 2(4) True by (simp add: mult.assoc)
    then show ?thesis
      using 2(2) w wv True v ds bound 2(3) d(1) offsets_merge [of vol n t ds]
      by (simp add: mult.assoc)
  next
    case False
    have "n * prod_list (map fst ds) < 2 ^ 63"
    proof -
      have "1 * (n * prod_list (map fst ds)) \<le> vol * (n * prod_list (map fst ds))"
        using 2(3) d(1) p by (intro mult_right_mono) auto
      then show ?thesis using bound by (simp add: mult.assoc)
    qed
    then show ?thesis
      using 2(1) w False d ds 2(3,4) offsets_cong [of "simplify_loop n t ds" "(n, t) # ds" "(vol, s)"]
      by (simp add: dim_ok_def [of "(vol, s)"])
  qed
qed

lemma Simplify_correct:
  assumes "list_all dim_ok ds" "prod_list (map fst ds) < 2 ^ 63"
  shows "offsets (Simplify ds) = offsets ds" "list_all dim_ok (Simplify ds)"
    "prod_list (map fst (Simplify ds)) = prod_list (map fst ds)" "Simplify ds = [] \<longleftrightarrow> ds = []"
proof -
  have ne: "simplify_loop v s ds \<noteq> []" for v s ds
    by (induction v s ds rule: simplify_loop.induct) auto
  have "offsets (Simplify ds) = offsets ds \<and> list_all dim_ok (Simplify ds)
    \<and> prod_list (map fst (Simplify ds)) = prod_list (map fst ds) \<and> (Simplify ds = [] \<longleftrightarrow> ds = [])"
  proof (cases ds)
    case (Cons d ds')
    then show ?thesis using assms ne simplify_loop_correct [of "fst d" "snd d" ds']
      by (cases d) (auto simp: Simplify_def dim_ok_def)
  qed (simp add: Simplify_def)
  then show "offsets (Simplify ds) = offsets ds" "list_all dim_ok (Simplify ds)"
    "prod_list (map fst (Simplify ds)) = prod_list (map fst ds)" "Simplify ds = [] \<longleftrightarrow> ds = []" by auto
qed

section \<open>Splitting keeps the elements\<close>

lemma take_group_correct:
  assumes "take_group e v ts = (v', g, r)" "1 \<le> v" "list_all (\<lambda>t. 1 \<le> t) ts" "v * prod_list ts < 2 ^ 63"
  shows "ts = g @ r \<and> v' = v * prod_list g \<and> (r = [] \<or> v' * hd r > e)"
  using assms
proof (induction e v ts arbitrary: v' g r rule: take_group.induct)
  case (2 e v t ts)
  have t: "1 \<le> t" "list_all (\<lambda>t. 1 \<le> t) ts" using 2(4) by simp_all
  have p: "1 \<le> prod_list ts" using prod_list_pos [OF t(2)] .
  have b: "v * t * prod_list ts < 2 ^ 63" using 2(5) by (simp add: mult.assoc)
  have vt: "1 \<le> v * t" using 2(3) t(1) mult_bound [of t v] by linarith
  have w: "wrap64 (v * t) = v * t" using vt b mult_bound [OF p, of "v * t"] by (intro wrap64_id) linarith+
  show ?case
  proof (cases "v * t \<le> e")
    case True
    obtain v1 g1 r1 where tg: "take_group e (v * t) ts = (v1, g1, r1)" by (metis surj_pair)
    with 2(2) True w have eq: "v' = v1" "g = t # g1" "r = r1" by simp_all
    have "ts = g1 @ r1 \<and> v1 = v * t * prod_list g1 \<and> (r1 = [] \<or> v1 * hd r1 > e)"
      using 2(1) [unfolded w, OF True tg vt t(2) b] .
    then have "ts = g1 @ r1" "v' = v * t * prod_list g1" "r = [] \<or> v' * hd r > e" using eq by auto
    then show ?thesis using eq by simp
  next
    case False
    then show ?thesis using 2(2) w by (auto simp: not_le)
  qed
qed simp

lemma group_strides_foldr:
  assumes "list_all (\<lambda>t. 1 \<le> t) g" "\<bar>prod_list g * s\<bar> < 2 ^ 63"
  shows "\<exists>acc. foldr (\<lambda>t (acc, s). (s # acc, wrap64 (s * t))) g ([], s) = (acc, prod_list g * s)
    \<and> length acc = length g \<and> (\<forall>ds. offsets (zip g acc @ ds) = offsets ((prod_list g, s) # ds))"
  using assms
proof (induction g)
  case Nil
  then show ?case using offsets_one by simp
next
  case (Cons t g)
  have t: "1 \<le> t" and g: "list_all (\<lambda>t. 1 \<le> t) g" using Cons(2) by simp_all
  have p: "1 \<le> prod_list g" using prod_list_pos [OF g] .
  have bt: "\<bar>t * (prod_list g * s)\<bar> < 2 ^ 63" using Cons(3) by (simp add: mult.assoc)
  have "\<bar>prod_list g * s\<bar> \<le> \<bar>t * (prod_list g * s)\<bar>"
    using t mult_right_mono [of 1 t "\<bar>prod_list g * s\<bar>"] by (simp add: abs_mult)
  then have "\<bar>prod_list g * s\<bar> < 2 ^ 63" using bt by linarith
  from Cons(1) [OF g this] obtain acc where acc:
    "foldr (\<lambda>t (acc, s). (s # acc, wrap64 (s * t))) g ([], s) = (acc, prod_list g * s)" "length acc = length g"
    "\<forall>ds. offsets (zip g acc @ ds) = offsets ((prod_list g, s) # ds)" by blast
  have w: "wrap64 (prod_list g * s * t) = t * (prod_list g * s)"
    using bt by (subst wrap64_id) (auto simp: mult.commute abs_less_iff mult.left_commute)
  have "offsets (zip (t # g) ((prod_list g * s) # acc) @ ds) = offsets ((prod_list (t # g), s) # ds)" for ds
    using acc(3) offsets_cong [of "zip g acc @ ds" "(prod_list g, s) # ds" "(t, prod_list g * s)"]
      offsets_merge [of t "prod_list g" s ds] t p by simp
  then show ?case using acc w by (simp add: mult.assoc)
qed

lemma group_strides_correct:
  assumes "list_all (\<lambda>t. 1 \<le> t) g" "\<bar>prod_list g * s\<bar> < 2 ^ 63"
  shows "length (group_strides s g) = length g"
    "offsets (zip g (group_strides s g) @ ds) = offsets ((prod_list g, s) # ds)"
  using group_strides_foldr [OF assms] by (auto simp: group_strides_def)

lemma offsets_ones:
  "list_all dim_ok ds \<Longrightarrow> prod_list (map fst ds) = 1 \<Longrightarrow> offsets ds = [0]"
proof (induction ds)
  case (Cons d ds)
  have d: "1 \<le> fst d" using Cons(2) by (simp add: dim_ok_def)
  have p: "1 \<le> prod_list (map fst ds)"
    using Cons(2) by (intro prod_list_pos) (auto simp: list_all_iff dim_ok_def)
  have one: "fst d * prod_list (map fst ds) = 1" using Cons(3) by simp
  have "fst d \<le> 1" using mult_bound [OF p, of "fst d"] one d by linarith
  then have "fst d = 1" "prod_list (map fst ds) = 1" using d one by simp_all
  then show ?case using Cons offsets_one [of "snd d" ds] by (cases d) simp
qed simp

lemma ReshapeSimplified_correct:
  assumes "ReshapeSimplified ds ts = Some ss" "list_all dim_ok ds" "list_all (\<lambda>t. 1 \<le> t) ts"
    and "prod_list ts = prod_list (map fst ds)" "prod_list ts < 2 ^ 63" "ds \<noteq> [] \<or> ts = [] \<or> 1 < hd ts"
  shows "length ss = length ts \<and> offsets (zip ts ss) = offsets ds"
  using assms
proof (induction ds ts arbitrary: ss rule: ReshapeSimplified.induct)
  case (1 ts)
  have "ts = []"
  proof (cases ts)
    case (Cons t ts')
    then have "1 < t" "1 \<le> prod_list ts'" using 1(3,6) prod_list_pos [of ts'] by simp_all
    then have "1 < t * prod_list ts'" using mult_bound [of "prod_list ts'" t] by linarith
    then show ?thesis using 1(4) Cons by simp
  qed
  then show ?case using 1(1) by simp
next
  case (2 e s ds)
  then show ?case using offsets_ones [of "(e, s) # ds"] by simp
next
  case (3 e s ds t ts)
  obtain v g r where tg: "take_group e 1 (t # ts) = (v, g, r)" by (metis surj_pair)
  have ve: "v = e" using 3(2) tg by (auto split: if_splits)
  then obtain ss' where ss': "ReshapeSimplified ds r = Some ss'" "ss = group_strides s g @ ss'"
    using 3(2) tg by (auto split: if_splits)
  have c: "t # ts = g @ r" "e = prod_list g" "r = [] \<or> e * hd r > e"
    using take_group_correct [OF tg] 3(4,6) ve by auto
  have e: "1 \<le> e" "\<bar>e * s\<bar> < 2 ^ 63" and ds: "list_all dim_ok ds" using 3(3) dim_ok_def [of "(e, s)"] by simp_all
  have gr: "list_all (\<lambda>t. 1 \<le> t) g" "list_all (\<lambda>t. 1 \<le> t) r" using 3(4) c(1) by (metis list_all_append)+
  have "e * prod_list r = e * prod_list (map fst ds)" using 3(5) c by simp
  then have pr: "prod_list r = prod_list (map fst ds)" using e(1) by simp
  have pb: "prod_list r < 2 ^ 63"
  proof -
    have "e * prod_list r < 2 ^ 63" using 3(6) c(1,2) by simp
    then show ?thesis
      using mult_bound [OF e(1), of "prod_list r"] prod_list_pos [OF gr(2)] mult.commute [of e "prod_list r"] by linarith
  qed
  have hd: "r = [] \<or> 1 < hd r" using c(3) e(1) by (auto simp: mult_le_cancel_left1 not_le [symmetric])
  have ih: "length ss' = length r \<and> offsets (zip r ss') = offsets ds"
    using 3(1) [OF tg [symmetric] refl refl] ve ss'(1) ds gr(2) pr pb hd by blast
  note gs = group_strides_correct [OF gr(1), of s, folded c(2), OF e(2)]
  have "offsets (zip (t # ts) ss) = offsets (zip g (group_strides s g) @ zip r ss')"
    using c(1) ss'(2) gs(1) by simp
  also have "\<dots> = offsets ((e, s) # ds)" using gs(2) offsets_cong ih by metis
  finally show ?case using c(1) ss'(2) gs(1) ih by (metis length_append)
qed


section \<open>Reshaping tensor data\<close>

lemma volume_fold:
  "list_all (\<lambda>t. 1 \<le> t) sh \<Longrightarrow> 1 \<le> v \<Longrightarrow> v * prod_list sh < 2 ^ 63 \<Longrightarrow>
    fold (\<lambda>d v. wrap64 (v * d)) sh v = v * prod_list sh"
proof (induction sh arbitrary: v)
  case (Cons t sh)
  have t: "1 \<le> t" "list_all (\<lambda>t. 1 \<le> t) sh" using Cons(2) by simp_all
  have p: "1 \<le> prod_list sh" using prod_list_pos [OF t(2)] .
  have b: "v * t * prod_list sh < 2 ^ 63" using Cons(4) by (simp add: mult.assoc)
  have vt: "1 \<le> v * t" using Cons(3) t(1) mult_bound [of t v] by linarith
  have "wrap64 (v * t) = v * t" using vt b mult_bound [OF p, of "v * t"] by (intro wrap64_id) linarith+
  then show ?case using Cons(1) [OF t(2) vt b] by (simp add: mult.assoc)
qed simp

lemma volume_prod: "list_all (\<lambda>t. 1 \<le> t) sh \<Longrightarrow> prod_list sh < 2 ^ 63 \<Longrightarrow> volume sh = prod_list sh"
  using volume_fold [of sh 1] by (simp add: volume_def)

lemma td_dims_shape:
  "length (td_strides td) = length (td_shape td) \<Longrightarrow> map fst (td_dims td) = take (nat (td_rank td)) (td_shape td)"
  by (simp add: td_dims_def take_map [symmetric])

lemma Simplify_ne: "ds \<noteq> [] \<Longrightarrow> Simplify ds \<noteq> []"
proof -
  have "simplify_loop v s ds \<noteq> []" for v s ds
    by (induction v s ds rule: simplify_loop.induct) auto
  then show "ds \<noteq> [] \<Longrightarrow> Simplify ds \<noteq> []" by (auto simp: Simplify_def split: list.splits)
qed

text \<open>
  Property C6: a tensor that \<open>ReshapeTensorData\<close> accepts to reshape keeps its elements: the
  new shape with the computed strides enumerates, in row-major order, exactly the byte offsets
  the old shape and strides did; rank, layout and shape are the requested ones. The extents are
  positive and the two volumes, and each extent times its stride, fit 64 bits.
\<close>

theorem reshape_preserves_elements:
  assumes "ReshapeTensorData td new_rank new_shape new_layout = Inr td'"
    and "1 \<le> td_rank td" "td_rank td \<le> 15" "length (td_shape td) = 15" "length (td_strides td) = 15"
    and "list_all dim_ok (td_dims td)" "prod_list (map fst (td_dims td)) < 2 ^ 63"
    and "nat new_rank \<le> length new_shape" "list_all (\<lambda>t. 1 \<le> t) (take (nat new_rank) new_shape)"
    and "prod_list (take (nat new_rank) new_shape) < 2 ^ 63"
  shows "offsets (td_dims td') = offsets (td_dims td) \<and> td_rank td' = new_rank \<and> td_layout td' = new_layout
    \<and> map fst (td_dims td') = take (nat new_rank) new_shape
    \<and> td_basePtr td' = td_basePtr td \<and> td_dtype td' = td_dtype td"
proof -
  let ?t = "take (nat new_rank) new_shape" and ?ds = "td_dims td"
  from assms(1) obtain ss where nr: "1 \<le> new_rank" "new_rank \<le> 15"
    and vol: "volume ?t = volume (take (nat (td_rank td)) (td_shape td))"
    and ss: "ReshapeSimplified (Simplify ?ds) ?t = Some ss"
    and td': "td' = td\<lparr>td_layout := new_layout, td_strides := copy_front ss (td_strides td),
                 td_rank := new_rank, td_shape := copy_front ?t (td_shape td)\<rparr>"
    by (auto simp: ReshapeTensorData_def Let_def result_simps split: option.splits)
  have sh: "map fst ?ds = take (nat (td_rank td)) (td_shape td)" using assms(4,5) by (intro td_dims_shape) simp
  have "list_all (\<lambda>t. 1 \<le> t) (map fst ?ds)" using assms(6) by (auto simp: list_all_iff dim_ok_def)
  then have pr: "prod_list ?t = prod_list (map fst ?ds)"
    using vol assms(7,9,10) volume_prod [of ?t] volume_prod [of "map fst ?ds"] sh by simp
  have "?ds \<noteq> []" using assms(2,4,5) by (auto simp: td_dims_def)
  then have ne: "Simplify ?ds \<noteq> []" by (rule Simplify_ne)
  have r: "length ss = length ?t" "offsets (zip ?t ss) = offsets ?ds"
    using ReshapeSimplified_correct [OF ss] Simplify_correct [OF assms(6,7)] assms(9,10) pr ne by auto
  have len: "length ?t = nat new_rank" using assms(8) by simp
  have "td_dims td' = zip ?t ss"
    using td' r(1) len by (simp add: td_dims_def take_zip copy_front_take)
  then show ?thesis using r td' by simp
qed

text \<open>An image of 2 rows of 3 pixels of 3 channels, rows padded to 16 bytes, read as 2 rows of 9 bytes.\<close>

definition padded_image :: NVCVTensorData where
  "padded_image = \<lparr>td_dtype = 0, td_layout = LAYOUT_MAKE ''HWC'', td_rank = 3, td_shape = [2, 3, 3] @ replicate 12 0,
     td_bufferType = 1, td_strides = [16, 3, 1] @ replicate 12 0, td_basePtr = 4096\<rparr>"

lemma padded_image_reshaped:
  "ReshapeTensorData padded_image 2 [2, 9] (LAYOUT_MAKE ''HW'') =
     Inr (padded_image\<lparr>td_layout := LAYOUT_MAKE ''HW'', td_rank := 2, td_shape := [2, 9, 3] @ replicate 12 0,
            td_strides := [16, 1, 1] @ replicate 12 0\<rparr>)"
  by code_simp

theorem reshape_preserves_elements_witness:
  "\<exists>td'. ReshapeTensorData padded_image 2 [2, 9] (LAYOUT_MAKE ''HW'') = Inr td'
     \<and> offsets (td_dims td') = [0, 1, 2, 3, 4, 5, 6, 7, 8, 16, 17, 18, 19, 20, 21, 22, 23, 24]"
proof -
  have h: "1 \<le> td_rank padded_image" "td_rank padded_image \<le> 15" "length (td_shape padded_image) = 15"
    "length (td_strides padded_image) = 15" "list_all dim_ok (td_dims padded_image)"
    "prod_list (map fst (td_dims padded_image)) < 2 ^ 63"
    by code_simp+
  have "offsets (td_dims padded_image) = [0, 1, 2, 3, 4, 5, 6, 7, 8, 16, 17, 18, 19, 20, 21, 22, 23, 24]"
    by code_simp
  then show ?thesis
    using reshape_preserves_elements [OF padded_image_reshaped h] padded_image_reshaped by auto
qed

text \<open>
  A packed tensor, one that collapses to a single group, can be reshaped to every shape of the
  same volume: the converse of the previous property for the common case.
\<close>

lemma take_group_all:
  "list_all (\<lambda>t. 1 \<le> t) ts \<Longrightarrow> 1 \<le> v \<Longrightarrow> v * prod_list ts = e \<Longrightarrow> e < 2 ^ 63 \<Longrightarrow> take_group e v ts = (e, ts, [])"
proof (induction ts arbitrary: v)
  case (Cons t ts)
  have t: "1 \<le> t" "list_all (\<lambda>t. 1 \<le> t) ts" using Cons(2) by simp_all
  have p: "1 \<le> prod_list ts" using prod_list_pos [OF t(2)] .
  have e: "v * t * prod_list ts = e" using Cons(4) by (simp add: mult.assoc)
  have vt: "1 \<le> v * t" using Cons(3) t(1) mult_bound [of t v] by linarith
  have le: "v * t \<le> e" using e vt mult_bound [OF p, of "v * t"] by linarith
  have "wrap64 (v * t) = v * t" using vt le Cons(5) by (intro wrap64_id) linarith+
  then show ?case using Cons(1) [OF t(2) vt e Cons(5)] le by simp
qed simp

lemma reshape_packed_succeeds:
  assumes "Simplify (td_dims td) = [(volume ts, s)]" "volume ts = volume (take (nat (td_rank td)) (td_shape td))"
    and "td_bufferType td = 1" "1 \<le> length ts" "length ts \<le> 15" "tl_rank lay = int (length ts)"
    and "list_all (\<lambda>t. 1 \<le> t) ts" "prod_list ts < 2 ^ 63"
  shows "\<exists>td'. ReshapeTensorData td (int (length ts)) ts lay = Inr td'"
proof -
  have "take_group (volume ts) 1 ts = (volume ts, ts, [])"
    using take_group_all [of ts 1 "volume ts"] volume_prod [OF assms(7,8)] assms(7,8) by simp
  then have "ReshapeSimplified [(volume ts, s)] ts = Some (group_strides s ts)"
    using assms(4) by (cases ts) auto
  then show ?thesis using assms by (auto simp: ReshapeTensorData_def Let_def result_simps)
qed

text \<open>
  The volumes are compared modulo \<open>2\<^sup>64\<close>, and a target extent that overflows ends a group
  early: a tensor of 5 bytes reshapes to a shape of \<open>2\<^sup>64 + 5\<close> elements. A dimension of extent
  1 whose stride is not the packed one stops a collapse that would be possible.
\<close>

lemma volume_overflow_accepted:
  "volume [3, 6148914691236517207] = 5"
  "prod_list [3, 6148914691236517207 :: int] = 2 ^ 64 + 5"
  "ReshapeSimplified (Simplify [(5, 1)]) [3, 6148914691236517207] = Some [6148914691236517207, 1]"
  by code_simp+

lemma unit_dimension_blocks_reshape:
  "ReshapeSimplified (Simplify [(2, 12), (1, 7), (3, 4)]) [6] = None"
  "offsets [(2, 12), (1, 7), (3, 4)] = offsets [(6, 4)]"
  by code_simp+

text \<open>The second example of the source's comment, with the strides it gives, does not collapse to one group.\<close>

lemma comment_example: "Simplify [(480, 2560), (640, 3), (3, 1)] = [(480, 2560), (1920, 1)]"
  by code_simp
end
