(* ===== verification/Tensor_Wrap.thy ===== *)
theory Tensor_Wrap
  imports Tensor_Reshape Image_Format
begin

text \<open>
  Validation of a wrapped tensor buffer, \<open>ValidateTensorBufferStrided\<close> of
  \<open>src/nvcv/src/priv/TensorWrapDataStrided.cpp\<close>. The pitches are 64-bit but the code keeps the
  previous pitch and extent, and their product, in \<open>int\<close>.
\<close>

section \<open>The checks\<close>

text \<open>
  The dimensions come innermost first, each with its index. \<open>sb\<close> is the outcome of
  \<open>dtype.strideBytes()\<close>, asked for only at the last dimension.
\<close>

fun packed_loop :: "int result \<Rightarrow> int \<Rightarrow> (int \<times> int \<times> int) list \<Rightarrow> int \<times> int \<Rightarrow> (int \<times> int) result" where
  "packed_loop sb lst [] prev = Inr prev"
| "packed_loop sb lst ((dim, n, s) # ds) (ps, pn) =
     (if n \<le> 1 then packed_loop sb lst ds (ps, pn)
      else bind_result (if dim = lst then sb else Inr (wrap32 (ps * pn))) (\<lambda>correctPitch.
        throw_if (s \<noteq> correctPitch) NVCV_ERROR_INVALID_ARGUMENT (packed_loop sb lst ds (wrap32 s, wrap32 n))))"

fun pitch_loop :: "(int \<times> int \<times> int) list \<Rightarrow> int \<times> int \<Rightarrow> unit result" where
  "pitch_loop [] prev = Inr ()"
| "pitch_loop ((dim, n, s) # ds) (ps, pn) =
     (if n \<le> 1 then pitch_loop ds (ps, pn)
      else throw_if (s < wrap32 (ps * pn)) NVCV_ERROR_INVALID_ARGUMENT (pitch_loop ds (wrap32 s, wrap32 n)))"

definition indexed_dims :: "NVCVTensorData \<Rightarrow> (int \<times> int \<times> int) list" where
  "indexed_dims td = map (\<lambda>i. (int i, td_dims td ! i)) [0..<length (td_dims td)]"

definition ValidateTensorBufferStrided :: "NVCVTensorData \<Rightarrow> unit result" where
  "ValidateTensorBufferStrided td =
     nvcv_assert (td_bufferType td = NVCV_TENSOR_BUFFER_STRIDED_CUDA)
    (throw_if (td_basePtr td = 0) NVCV_ERROR_INVALID_ARGUMENT
    (let rank = td_rank td in
     throw_if (rank \<le> 0) NVCV_ERROR_INVALID_ARGUMENT
    (throw_if (list_ex (\<lambda>d. fst d < 1) (td_dims td)) NVCV_ERROR_INVALID_ARGUMENT
    (let firstPacked = (if IsChannelLast (td_layout td) then max 0 (rank - 2) else rank - 1);
         ds = indexed_dims td;
         prev = (wrap32 (td_strides td ! nat (rank - 1)), wrap32 (td_shape td ! nat (rank - 1))) in
     bind_result (packed_loop (dt_strideBytes (td_dtype td)) (rank - 1) (rev (drop (nat firstPacked) ds)) prev)
       (\<lambda>prev. pitch_loop (rev (take (nat firstPacked) ds)) prev)))))"

text \<open>
  The wrapped tensor: construction validates, exporting gives the data back, destruction calls
  the cleanup, a function pointer that may be null, on its context and the data. Pointers are
  their addresses; the destructor's value is the list of calls it makes.
\<close>

record TensorWrapDataStrided =
  tw_tdata :: NVCVTensorData
  tw_cleanup :: "64 word"
  tw_ctxCleanup :: "64 word"

definition TensorWrapDataStrided_ctor :: "NVCVTensorData \<Rightarrow> 64 word \<Rightarrow> 64 word \<Rightarrow> TensorWrapDataStrided result" where
  "TensorWrapDataStrided_ctor td cleanup ctx =
     bind_result (ValidateTensorBufferStrided td)
       (\<lambda>_. Inr \<lparr>tw_tdata = td, tw_cleanup = cleanup, tw_ctxCleanup = ctx\<rparr>)"

definition TensorWrapDataStrided_dtor :: "TensorWrapDataStrided \<Rightarrow> (64 word \<times> 64 word \<times> NVCVTensorData) list" where
  "TensorWrapDataStrided_dtor t =
     (if tw_cleanup t \<noteq> 0 then [(tw_cleanup t, tw_ctxCleanup t, tw_tdata t)] else [])"

definition TensorWrapDataStrided_exportData :: "TensorWrapDataStrided \<Rightarrow> NVCVTensorData" where
  "TensorWrapDataStrided_exportData t = tw_tdata t"

section \<open>Accepted tensors do not overlap\<close>

text \<open>All offsets lie in \<open>[0, L - sb]\<close> and grow by at least \<open>sb\<close> from one element to the next.\<close>

definition spread :: "int \<Rightarrow> int \<Rightarrow> (int \<times> int) list \<Rightarrow> bool" where
  "spread sb L ds \<longleftrightarrow> sorted_wrt (\<lambda>a b. a + sb \<le> b) (offsets ds) \<and> (\<forall>x \<in> set (offsets ds). 0 \<le> x \<and> x + sb \<le> L)"

lemma offsets_Suc:
  "offsets ((int (Suc k), s) # ds) = offsets ((int k, s) # ds) @ map (\<lambda>x. int k * s + x) (offsets ds)"
  by (simp add: nat_add_distrib)

lemma spread_rows:
  assumes "spread sb L ds" "L \<le> s" "0 \<le> sb" "0 \<le> L"
  shows "spread sb (int k * s) ((int k, s) # ds)"
proof (induction k)
  case (Suc k)
  have "a + sb \<le> int k * s + b" if "a \<in> set (offsets ((int k, s) # ds))" "b \<in> set (offsets ds)" for a b
    using Suc that assms(1) unfolding spread_def by (meson add_increasing2 order_trans)
  moreover have "0 \<le> int k * s" using assms(2,4) by simp
  moreover have "int k * s + x + sb \<le> int (Suc k) * s" if "x \<in> set (offsets ds)" for x
    using that assms(1,2) by (auto simp: spread_def distrib_right)
  moreover have "a + sb \<le> int (Suc k) * s" if "a \<in> set (offsets ((int k, s) # ds))" for a
  proof -
    have "a + sb \<le> int k * s" using that Suc unfolding spread_def by blast
    then show ?thesis using assms(2,4) by (simp add: distrib_right)
  qed
  ultimately show ?case
    using Suc assms(1) unfolding spread_def offsets_Suc
    by (auto simp: sorted_wrt_append sorted_wrt_map simp del: offsets.simps of_nat_Suc)
qed (simp add: spread_def)

lemma spread_step:
  assumes "spread sb L ds" "0 \<le> sb" "0 \<le> L" "1 \<le> n" "n > 1 \<Longrightarrow> L \<le> s"
  shows "spread sb (if n > 1 then s * n else L) ((n, s) # ds)"
proof (cases "n > 1")
  case True
  then show ?thesis using spread_rows [OF assms(1) assms(5) assms(2,3), of "nat n"] by (simp add: mult.commute)
next
  case False
  then have "n = 1" using assms(4) by simp
  then show ?thesis using assms(1) offsets_one by (simp add: spread_def)
qed

text \<open>No pitch, extent or product of the two leaves 32 bits.\<close>

definition fits32 :: "int \<times> int \<Rightarrow> bool" where
  "fits32 d \<longleftrightarrow> 1 \<le> fst d \<and> fst d < 2 ^ 31 \<and> \<bar>snd d\<bar> < 2 ^ 31 \<and> \<bar>fst d * snd d\<bar> < 2 ^ 31"

lemma pitch_loop_spread:
  assumes "pitch_loop ds (ps, pn) = Inr ()" "spread sb (ps * pn) inner" "0 \<le> sb" "0 \<le> ps * pn"
    and "ps * pn < 2 ^ 31" "list_all fits32 (map snd ds)"
  shows "\<exists>L. spread sb L (rev (map snd ds) @ inner)"
  using assms
proof (induction ds "(ps, pn)" arbitrary: ps pn inner rule: pitch_loop.induct)
  case (2 dim n s ds ps pn)
  have w: "wrap32 (ps * pn) = ps * pn" using 2(6,7) by (intro wrap32_id) auto
  have f: "1 \<le> n" "n < 2 ^ 31" "\<bar>s\<bar> < 2 ^ 31" "\<bar>n * s\<bar> < 2 ^ 31" "list_all fits32 (map snd ds)"
    using 2(8) fits32_def [of "(n, s)"] by simp_all
  have ws: "wrap32 s = s" "wrap32 n = n" using f by (auto intro!: wrap32_id)
  show ?case
  proof (cases "n > 1")
    case True
    then have c: "ps * pn \<le> s" "pitch_loop ds (s, n) = Inr ()" using 2(3) w ws by (simp_all add: result_simps)
    then have "spread sb (s * n) ((n, s) # inner)" using spread_step [OF 2(4,5,6) f(1)] True by simp
    moreover have "0 \<le> s * n" "s * n < 2 ^ 31" using c(1) 2(6) True f(4) by (auto simp: mult.commute)
    ultimately show ?thesis using 2(2) [of "(n, s) # inner"] True c(2) ws 2(5) f(5) by simp
  next
    case False
    then have "spread sb (ps * pn) ((n, s) # inner)" using spread_step [OF 2(4,5,6) f(1)] by simp
    then show ?thesis using 2(1) [of "(n, s) # inner"] False 2(3,5,6,7) f(5) by simp
  qed
qed auto

text \<open>In the packed part beyond the last dimension the pitch has to be exactly the product.\<close>

lemma packed_loop_spread:
  assumes "packed_loop w lst ds (ps, pn) = Inr (ps', pn')" "spread sb (ps * pn) inner" "0 \<le> sb" "0 \<le> ps * pn"
    and "ps * pn < 2 ^ 31" "list_all fits32 (map snd ds)" "list_all (\<lambda>d. fst d \<noteq> lst) ds"
  shows "spread sb (ps' * pn') (rev (map snd ds) @ inner) \<and> 0 \<le> ps' * pn' \<and> ps' * pn' < 2 ^ 31"
  using assms
proof (induction w lst ds "(ps, pn)" arbitrary: ps pn inner rule: packed_loop.induct)
  case (2 w lst dim n s ds ps pn)
  have wr: "wrap32 (ps * pn) = ps * pn" using 2(6,7) by (intro wrap32_id) auto
  have f: "1 \<le> n" "n < 2 ^ 31" "\<bar>s\<bar> < 2 ^ 31" "\<bar>n * s\<bar> < 2 ^ 31" "list_all fits32 (map snd ds)"
    and l: "dim \<noteq> lst" "list_all (\<lambda>d. fst d \<noteq> lst) ds"
    using 2(8,9) fits32_def [of "(n, s)"] by simp_all
  have ws: "wrap32 s = s" "wrap32 n = n" using f by (auto intro!: wrap32_id)
  show ?case
  proof (cases "n > 1")
    case True
    then have c: "s = ps * pn" "packed_loop w lst ds (s, n) = Inr (ps', pn')"
      using 2(3) wr ws l(1) by (auto simp: result_simps)
    then have "spread sb (s * n) ((n, s) # inner)" using spread_step [OF 2(4,5,6) f(1)] True by simp
    moreover have "0 \<le> s * n" "s * n < 2 ^ 31" using c(1) 2(6) True f(4) by (auto simp: mult.commute)
    ultimately show ?thesis using 2(2) True c ws wr 2(5) f(5) l by simp
  next
    case False
    then have "spread sb (ps * pn) ((n, s) # inner)" using spread_step [OF 2(4,5,6) f(1)] by simp
    then show ?thesis using 2(1) [of "(n, s) # inner"] False 2(3,5,6,7) f(5) l by simp
  qed
qed auto

text \<open>The last dimension is compared with the element size, unless its extent is 1.\<close>

lemma packed_loop_last:
  assumes "packed_loop (Inr sb) lst ((lst, n, s) # ds) (wrap32 s, wrap32 n) = Inr (ps', pn')" "0 \<le> sb" "n = 1 \<Longrightarrow> sb \<le> s"
    and "list_all fits32 ((n, s) # map snd ds)" "list_all (\<lambda>d. fst d \<noteq> lst) ds"
  shows "spread sb (ps' * pn') (rev (map snd ds) @ [(n, s)]) \<and> 0 \<le> ps' * pn' \<and> ps' * pn' < 2 ^ 31"
proof -
  have f: "1 \<le> n" "n < 2 ^ 31" "\<bar>s\<bar> < 2 ^ 31" "\<bar>n * s\<bar> < 2 ^ 31" "list_all fits32 (map snd ds)"
    using assms(4) fits32_def [of "(n, s)"] by simp_all
  have ws: "wrap32 s = s" "wrap32 n = n" using f by (auto intro!: wrap32_id)
  have base: "spread sb sb []" by (simp add: spread_def)
  have r: "packed_loop (Inr sb) lst ds (s, n) = Inr (ps', pn')" "n > 1 \<Longrightarrow> s = sb"
    using assms(1) f(1) ws by (auto simp: result_simps split: if_splits)
  have "sb \<le> s" using r(2) assms(3) f(1) by (cases "n = 1") auto
  have "spread sb (s * n) [(n, s)]"
  proof (cases "n = 1")
    case True
    then show ?thesis using \<open>sb \<le> s\<close> by (simp add: spread_def)
  next
    case False
    then show ?thesis using spread_step [OF base assms(2) assms(2) f(1), of s] r(2) f(1) by simp
  qed
  moreover have "0 \<le> s * n" "s * n < 2 ^ 31" using \<open>sb \<le> s\<close> assms(2) f(1,4) by (auto simp: mult.commute)
  ultimately show ?thesis using packed_loop_spread [OF r(1), of sb "[(n, s)]"] assms(2,5) f(5) by simp
qed

lemma indexed_dims_snd: "map snd (indexed_dims td) = td_dims td"
  by (simp add: indexed_dims_def map_nth o_def)


text \<open>\<open>NVCV_DATA_TYPE_U8\<close> (code 171798626433), and the two padded rows of three RGB pixels of it.\<close>

definition NVCV_DATA_TYPE_U8 :: u64 where
  "NVCV_DATA_TYPE_U8 = MAKE_DATA_TYPE NVCV_DATA_KIND_UNSIGNED NVCV_PACKING_X8"

lemma U8_code: "NVCV_DATA_TYPE_U8 = 171798626433"
  by code_simp

lemma U8_strideBytes: "dt_strideBytes 171798626433 = Inr 1"
  by code_simp

definition u8_tensor :: "string \<Rightarrow> int list \<Rightarrow> int list \<Rightarrow> NVCVTensorData" where
  "u8_tensor lay sh st = \<lparr>td_dtype = 171798626433, td_layout = LAYOUT_MAKE lay, td_rank = int (length sh),
     td_shape = sh @ replicate (15 - length sh) 0, td_bufferType = 1, td_strides = st @ replicate (15 - length st) 0,
     td_basePtr = 4096\<rparr>"


text \<open>
  Without the hypotheses the check accepts tensors whose elements share memory: the extent of a
  plane of \<open>2\<^sup>32\<close> bytes is 0 in \<open>int\<close>, and a last dimension of extent 1 hands its arbitrary
  pitch on as the size of an element.
\<close>

lemma large_planes_may_overlap:
  "ValidateTensorBufferStrided (u8_tensor ''NHW'' [2, 65536, 65536] [0, 65536, 1]) = Inr ()"
  by code_simp

lemma unit_columns_may_overlap:
  "ValidateTensorBufferStrided (u8_tensor ''HW'' [2, 1] [0, 0]) = Inr ()"
  "offsets (td_dims (u8_tensor ''HW'' [2, 1] [0, 0])) = [0, 0]"
  by code_simp+

end
