(* ===== verification/Allocators.thy ===== *)
theory Allocators
  imports Int_Math
begin

text \<open>
  The allocators of \<open>src/nvcv/src/priv\<close>: the argument checks of \<open>IAllocator.cpp\<close>, the default
  allocator (\<open>DefaultAllocator.cpp\<close>) on the C and CUDA allocation functions, which are parameters
  of the model, and the custom allocator (\<open>CustomAllocator.cpp\<close>) that merges the user's functions
  with the default ones. \<open>'s\<close> is the state of the memory those functions manage.
\<close>

section \<open>The runtime below\<close>

type_synonym ptr = "64 word"

text \<open>The CUDA error codes that \<open>TranslateError\<close> of \<open>util/CheckError.cpp\<close> distinguishes, and the rest.\<close>

datatype cudaError =
    cudaSuccess
  | cudaErrorMemoryAllocation
  | cudaErrorNotReady
  | cudaErrorInvalidValue
  | cudaErrorOther nat

definition TranslateError :: "cudaError \<Rightarrow> NVCVStatus" where
  "TranslateError err =
     (case err of
        cudaErrorMemoryAllocation \<Rightarrow> NVCV_ERROR_OUT_OF_MEMORY
      | cudaErrorNotReady \<Rightarrow> NVCV_ERROR_NOT_READY
      | cudaErrorInvalidValue \<Rightarrow> NVCV_ERROR_INVALID_ARGUMENT
      | _ \<Rightarrow> NVCV_ERROR_INTERNAL)"

definition CHECK_THROW :: "cudaError \<Rightarrow> (unit, 's) st" where
  "CHECK_THROW err = (if err = cudaSuccess then st_return () else st_fail (Throw (TranslateError err)))"

record 's runtime =
  aligned_alloc :: "int \<Rightarrow> int \<Rightarrow> 's \<Rightarrow> ptr \<times> 's"
  free_fn :: "ptr \<Rightarrow> 's \<Rightarrow> 's"
  cudaHostAlloc :: "int \<Rightarrow> 's \<Rightarrow> (cudaError \<times> ptr) \<times> 's"
  cudaFreeHost :: "ptr \<Rightarrow> 's \<Rightarrow> cudaError \<times> 's"
  cudaMalloc :: "int \<Rightarrow> 's \<Rightarrow> (cudaError \<times> ptr) \<times> 's"
  cudaFree :: "ptr \<Rightarrow> 's \<Rightarrow> cudaError \<times> 's"

text \<open>The current device and its attributes, with the value the call stores on success.\<close>

datatype cudaDeviceAttr = cudaDevAttrTexturePitchAlignment | cudaDevAttrTextureAlignment

record device =
  cudaGetDevice :: "cudaError \<times> int"
  cudaDeviceGetAttribute :: "cudaDeviceAttr \<Rightarrow> int \<Rightarrow> cudaError \<times> int"

definition check_value :: "cudaError \<times> 'a \<Rightarrow> 'a result" where
  "check_value r = (if fst r = cudaSuccess then Inr (snd r) else Inl (Throw (TranslateError (fst r))))"

section \<open>Allocator objects\<close>

type_synonym 's alloc_fn = "int \<Rightarrow> int \<Rightarrow> (ptr, 's) st"
type_synonym 's free_fn = "ptr \<Rightarrow> int \<Rightarrow> int \<Rightarrow> 's \<Rightarrow> 's"

text \<open>Resource types are a C enum, so any \<open>int\<close> can arrive.\<close>

abbreviation (input) "NVCV_RESOURCE_MEM_HOST \<equiv> (0 :: int)"
abbreviation (input) "NVCV_RESOURCE_MEM_CUDA \<equiv> (1 :: int)"
abbreviation (input) "NVCV_RESOURCE_MEM_HOST_PINNED \<equiv> (2 :: int)"
abbreviation (input) "NVCV_NUM_RESOURCE_TYPES \<equiv> (3 :: nat)"

text \<open>The functions are closed over their context pointer; a null function pointer is \<open>None\<close>.\<close>

record 's NVCVResourceAllocator =
  ra_resType :: int
  ra_fnAlloc :: "'s alloc_fn option"
  ra_fnFree :: "'s free_fn option"
  ra_cleanup :: "('s \<Rightarrow> 's) option"

definition resource_zero :: "'s NVCVResourceAllocator" where
  "resource_zero = \<lparr>ra_resType = 0, ra_fnAlloc = None, ra_fnFree = None, ra_cleanup = None\<rparr>"

text \<open>The virtual functions of \<open>IAllocator\<close>, and the checked calls in front of them.\<close>

record 's IAllocator =
  doAllocHostMem :: "'s alloc_fn"
  doFreeHostMem :: "'s free_fn"
  doAllocHostPinnedMem :: "'s alloc_fn"
  doFreeHostPinnedMem :: "'s free_fn"
  doAllocCudaMem :: "'s alloc_fn"
  doFreeCudaMem :: "'s free_fn"
  doGet :: "int \<Rightarrow> 's NVCVResourceAllocator result"

definition checked_alloc :: "'s alloc_fn \<Rightarrow> 's alloc_fn" where
  "checked_alloc do_alloc sz align =
     st_throw_if (sz < 0) (Throw NVCV_ERROR_INVALID_ARGUMENT)
    (st_throw_if (\<not> IsPowerOfTwo align) (Throw NVCV_ERROR_INVALID_ARGUMENT)
    (st_throw_if (align = 0) DivisionByZero
    (st_throw_if (RoundUp sz align \<noteq> sz) (Throw NVCV_ERROR_INVALID_ARGUMENT)
    (do_alloc sz align))))"

definition allocHostMem :: "'s IAllocator \<Rightarrow> 's alloc_fn" where
  "allocHostMem a = checked_alloc (doAllocHostMem a)"

definition allocHostPinnedMem :: "'s IAllocator \<Rightarrow> 's alloc_fn" where
  "allocHostPinnedMem a = checked_alloc (doAllocHostPinnedMem a)"

definition allocCudaMem :: "'s IAllocator \<Rightarrow> 's alloc_fn" where
  "allocCudaMem a = checked_alloc (doAllocCudaMem a)"

definition freeHostMem :: "'s IAllocator \<Rightarrow> 's free_fn" where
  "freeHostMem a = doFreeHostMem a"

definition freeHostPinnedMem :: "'s IAllocator \<Rightarrow> 's free_fn" where
  "freeHostPinnedMem a = doFreeHostPinnedMem a"

definition freeCudaMem :: "'s IAllocator \<Rightarrow> 's free_fn" where
  "freeCudaMem a = doFreeCudaMem a"

section \<open>The default allocator\<close>

text \<open>Host memory comes as it is, null on failure; the CUDA pointers are checked for alignment.\<close>

definition default_doAllocHostMem :: "'s runtime \<Rightarrow> 's alloc_fn" where
  "default_doAllocHostMem rt sz align = (\<lambda>s. let (p, s') = aligned_alloc rt align sz s in (Inr p, s'))"

definition alloc_then_check ::
    "(int \<Rightarrow> 's \<Rightarrow> (cudaError \<times> ptr) \<times> 's) \<Rightarrow> (ptr \<Rightarrow> 's \<Rightarrow> cudaError \<times> 's) \<Rightarrow> 's alloc_fn" where
  "alloc_then_check mallocf freef sz align = (\<lambda>s.
     let ((err, p), s1) = mallocf sz s in
     st_bind (CHECK_THROW err) (\<lambda>_ s2.
       if uint p mod align \<noteq> 0
       then (let (_, s3) = freef p s2 in (Inl (Throw NVCV_ERROR_INTERNAL), s3))
       else (Inr p, s2)) s1)"

definition default_doAllocHostPinnedMem :: "'s runtime \<Rightarrow> 's alloc_fn" where
  "default_doAllocHostPinnedMem rt = alloc_then_check (cudaHostAlloc rt) (cudaFreeHost rt)"

definition default_doAllocCudaMem :: "'s runtime \<Rightarrow> 's alloc_fn" where
  "default_doAllocCudaMem rt = alloc_then_check (cudaMalloc rt) (cudaFree rt)"

definition default_doFreeHostMem :: "'s runtime \<Rightarrow> 's free_fn" where
  "default_doFreeHostMem rt p sz align = free_fn rt p"

definition default_doFreeHostPinnedMem :: "'s runtime \<Rightarrow> 's free_fn" where
  "default_doFreeHostPinnedMem rt p sz align = (\<lambda>s. snd (cudaFreeHost rt p s))"

definition default_doFreeCudaMem :: "'s runtime \<Rightarrow> 's free_fn" where
  "default_doFreeCudaMem rt p sz align = (\<lambda>s. snd (cudaFree rt p s))"

text \<open>The functions handed out call the checked entry points of the allocator itself.\<close>

definition default_doGet :: "'s runtime \<Rightarrow> int \<Rightarrow> 's NVCVResourceAllocator result" where
  "default_doGet rt resType =
     (let r = resource_zero\<lparr>ra_resType := resType\<rparr> in
      if resType = NVCV_RESOURCE_MEM_HOST then
        Inr (r\<lparr>ra_fnAlloc := Some (checked_alloc (default_doAllocHostMem rt)), ra_fnFree := Some (default_doFreeHostMem rt)\<rparr>)
      else if resType = NVCV_RESOURCE_MEM_CUDA then
        Inr (r\<lparr>ra_fnAlloc := Some (checked_alloc (default_doAllocCudaMem rt)), ra_fnFree := Some (default_doFreeCudaMem rt)\<rparr>)
      else if resType = NVCV_RESOURCE_MEM_HOST_PINNED then
        Inr (r\<lparr>ra_fnAlloc := Some (checked_alloc (default_doAllocHostPinnedMem rt)),
               ra_fnFree := Some (default_doFreeHostPinnedMem rt)\<rparr>)
      else Inl (Throw NVCV_ERROR_INVALID_ARGUMENT))"

definition DefaultAllocator :: "'s runtime \<Rightarrow> 's IAllocator" where
  "DefaultAllocator rt =
     \<lparr>doAllocHostMem = default_doAllocHostMem rt, doFreeHostMem = default_doFreeHostMem rt,
      doAllocHostPinnedMem = default_doAllocHostPinnedMem rt, doFreeHostPinnedMem = default_doFreeHostPinnedMem rt,
      doAllocCudaMem = default_doAllocCudaMem rt, doFreeCudaMem = default_doFreeCudaMem rt, doGet = default_doGet rt\<rparr>"

section \<open>Custom allocators\<close>

record 's CustomAllocator =
  m_allocators :: "'s NVCVResourceAllocator list"
  m_customAllocatorMask :: int

text \<open>One turn of the first loop of the constructor, on the array and the map of filled entries.\<close>

definition fill_custom ::
    "'s NVCVResourceAllocator \<Rightarrow> 's NVCVResourceAllocator list \<times> int \<Rightarrow> ('s NVCVResourceAllocator list \<times> int) result" where
  "fill_custom c st =
     (let (allocs, filledMap) = st; rt = ra_resType c in
      if rt = NVCV_RESOURCE_MEM_HOST \<or> rt = NVCV_RESOURCE_MEM_HOST_PINNED \<or> rt = NVCV_RESOURCE_MEM_CUDA then
        throw_if (ra_fnAlloc c = None) NVCV_ERROR_INVALID_ARGUMENT
       (throw_if (ra_fnFree c = None) NVCV_ERROR_INVALID_ARGUMENT
       (throw_if (filledMap AND push_bit (nat rt) 1 \<noteq> 0) NVCV_ERROR_INVALID_ARGUMENT
       (Inr (allocs[nat rt := c], filledMap OR push_bit (nat rt) 1))))
      else Inl (Throw NVCV_ERROR_INVALID_ARGUMENT))"

fun fill_customs ::
    "'s NVCVResourceAllocator list \<Rightarrow> 's NVCVResourceAllocator list \<times> int \<Rightarrow> ('s NVCVResourceAllocator list \<times> int) result" where
  "fill_customs [] st = Inr st"
| "fill_customs (c # cs) st = bind_result (fill_custom c st) (fill_customs cs)"

text \<open>One turn of the second loop; \<open>dflt\<close> is \<open>GetDefaultAllocator().get\<close>.\<close>

fun fill_defaults ::
    "(int \<Rightarrow> 's NVCVResourceAllocator result) \<Rightarrow> nat list \<Rightarrow> 's NVCVResourceAllocator list \<times> int
     \<Rightarrow> ('s NVCVResourceAllocator list \<times> int) result" where
  "fill_defaults dflt [] st = Inr st"
| "fill_defaults dflt (i # is) (allocs, filledMap) =
     (if filledMap AND push_bit i 1 \<noteq> 0 then fill_defaults dflt is (allocs, filledMap)
      else bind_result (dflt (int i)) (\<lambda>d. fill_defaults dflt is (allocs[i := d], filledMap OR push_bit i 1)))"

definition CustomAllocator_ctor ::
    "(int \<Rightarrow> 's NVCVResourceAllocator result) \<Rightarrow> 's NVCVResourceAllocator list option \<Rightarrow> int \<Rightarrow> 's CustomAllocator result" where
  "CustomAllocator_ctor dflt customAllocators numCustomAllocators =
     throw_if (customAllocators = None \<and> numCustomAllocators \<noteq> 0) NVCV_ERROR_INVALID_ARGUMENT
    (bind_result
       (fill_customs (take (nat numCustomAllocators) (case customAllocators of None \<Rightarrow> [] | Some cs \<Rightarrow> cs))
          (replicate NVCV_NUM_RESOURCE_TYPES resource_zero, 0)) (\<lambda>(allocs, mask).
     bind_result (fill_defaults dflt [0..<NVCV_NUM_RESOURCE_TYPES] (allocs, mask)) (\<lambda>(allocs, filledMap).
       nvcv_assert (filledMap AND (push_bit NVCV_NUM_RESOURCE_TYPES 1 - 1) = push_bit NVCV_NUM_RESOURCE_TYPES 1 - 1)
         (Inr \<lparr>m_allocators = allocs, m_customAllocatorMask = mask\<rparr>))))"

definition CustomAllocator_dtor :: "'s CustomAllocator \<Rightarrow> 's \<Rightarrow> 's" where
  "CustomAllocator_dtor a =
     fold (\<lambda>r s. case ra_cleanup r of None \<Rightarrow> s | Some f \<Rightarrow> f s) (m_allocators a)"

definition custom_doGet :: "'s CustomAllocator \<Rightarrow> int \<Rightarrow> 's NVCVResourceAllocator result" where
  "custom_doGet a resType =
     nvcv_assert (0 \<le> resType \<and> resType < int NVCV_NUM_RESOURCE_TYPES) (Inr (m_allocators a ! nat resType))"

definition custom_doAlloc :: "'s CustomAllocator \<Rightarrow> int \<Rightarrow> 's alloc_fn" where
  "custom_doAlloc a resType sz align =
     (case ra_fnAlloc (m_allocators a ! nat resType) of
        None \<Rightarrow> st_fail AssertFailed
      | Some f \<Rightarrow> f sz align)"

text \<open>Freeing cannot report a failure; the entry of a constructed allocator is never null.\<close>

definition custom_doFree :: "'s CustomAllocator \<Rightarrow> int \<Rightarrow> 's free_fn" where
  "custom_doFree a resType p sz align =
     (case ra_fnFree (m_allocators a ! nat resType) of None \<Rightarrow> id | Some f \<Rightarrow> f p sz align)"

definition CustomAllocator_object :: "'s CustomAllocator \<Rightarrow> 's IAllocator" where
  "CustomAllocator_object a =
     \<lparr>doAllocHostMem = custom_doAlloc a NVCV_RESOURCE_MEM_HOST, doFreeHostMem = custom_doFree a NVCV_RESOURCE_MEM_HOST,
      doAllocHostPinnedMem = custom_doAlloc a NVCV_RESOURCE_MEM_HOST_PINNED,
      doFreeHostPinnedMem = custom_doFree a NVCV_RESOURCE_MEM_HOST_PINNED,
      doAllocCudaMem = custom_doAlloc a NVCV_RESOURCE_MEM_CUDA, doFreeCudaMem = custom_doFree a NVCV_RESOURCE_MEM_CUDA,
      doGet = custom_doGet a\<rparr>"

section \<open>Which function serves which memory\<close>

definition valid_custom :: "'s NVCVResourceAllocator \<Rightarrow> bool" where
  "valid_custom c \<longleftrightarrow> ra_resType c \<in> {0, 1, 2} \<and> ra_fnAlloc c \<noteq> None \<and> ra_fnFree c \<noteq> None"

definition entry_for :: "'s runtime \<Rightarrow> 's NVCVResourceAllocator list \<Rightarrow> int \<Rightarrow> 's NVCVResourceAllocator" where
  "entry_for rt cs i =
     (case find (\<lambda>c. ra_resType c = i) cs of
        Some c \<Rightarrow> c | None \<Rightarrow> (case default_doGet rt i of Inr d \<Rightarrow> d | Inl _ \<Rightarrow> resource_zero))"

lemma filled_bit: "(m :: int) AND push_bit i 1 \<noteq> 0 \<longleftrightarrow> bit m i" "(m :: int) AND 2 ^ i = 0 \<longleftrightarrow> \<not> bit m i"
  using bit_iff_and_push_bit_not_eq_0 [of m i] by simp_all

lemma bit_fill: "bit (m OR push_bit i 1 :: int) j \<longleftrightarrow> bit m j \<or> j = i" "bit (m OR 2 ^ i :: int) j \<longleftrightarrow> bit m j \<or> j = i"
  by (auto simp: bit_simps)

lemma fill_custom_eq:
  "fill_custom c (al, m) =
     (if valid_custom c \<and> \<not> bit m (nat (ra_resType c))
      then Inr (al[nat (ra_resType c) := c], m OR push_bit (nat (ra_resType c)) 1)
      else Inl (Throw NVCV_ERROR_INVALID_ARGUMENT))"
  using filled_bit [of m "nat (ra_resType c)"]
  by (auto simp: fill_custom_def valid_custom_def Let_def throw_if_def)

text \<open>The entries and the filled map after the first loop, or the error.\<close>

lemma fill_customs_eq:
  assumes "length al = 3"
  shows "(case fill_customs cs (al, m) of
     Inr (al', m') \<Rightarrow> list_all valid_custom cs \<and> distinct (map ra_resType cs)
       \<and> (\<forall>c \<in> set cs. \<not> bit m (nat (ra_resType c))) \<and> length al' = 3
       \<and> (\<forall>i < 3. al' ! i = (case find (\<lambda>c. ra_resType c = int i) cs of Some c \<Rightarrow> c | None \<Rightarrow> al ! i)
            \<and> (bit m' i \<longleftrightarrow> bit m i \<or> (\<exists>c \<in> set cs. ra_resType c = int i)))
   | Inl e \<Rightarrow> e = Throw NVCV_ERROR_INVALID_ARGUMENT \<and>
       \<not> (list_all valid_custom cs \<and> distinct (map ra_resType cs) \<and> (\<forall>c \<in> set cs. \<not> bit m (nat (ra_resType c)))))"
  using assms
proof (induction cs arbitrary: al m)
  case (Cons c cs)
  let ?t = "nat (ra_resType c)"
  show ?case
  proof (cases "valid_custom c \<and> \<not> bit m ?t")
    case False
    then show ?thesis by (auto simp: fill_custom_eq)
  next
    case True
    then have t: "ra_resType c = int ?t" "?t < 3" by (auto simp: valid_custom_def)
    let ?al = "al[?t := c]" and ?m = "m OR push_bit ?t 1"
    have other: "nat (ra_resType d) = ?t \<longleftrightarrow> ra_resType c = ra_resType d" if "valid_custom d" for d
    proof -
      have "0 \<le> ra_resType d" "0 \<le> ra_resType c" using that True unfolding valid_custom_def by auto
      then show ?thesis by (auto simp: eq_nat_nat_iff)
    qed
    have cond: "list_all valid_custom (c # cs) \<and> distinct (map ra_resType (c # cs))
        \<and> (\<forall>d \<in> set (c # cs). \<not> bit m (nat (ra_resType d))) \<longleftrightarrow>
      list_all valid_custom cs \<and> distinct (map ra_resType cs) \<and> (\<forall>d \<in> set cs. \<not> bit ?m (nat (ra_resType d)))"
      using True other unfolding bit_fill by (auto simp: list_all_iff image_iff)
    have step: "fill_customs (c # cs) (al, m) = fill_customs cs (?al, ?m)" using True by (simp add: fill_custom_eq)
    show ?thesis
    proof (cases "fill_customs cs (?al, ?m)")
      case (Inl e)
      then show ?thesis using Cons.IH [of ?al ?m] Cons.prems unfolding step cond by simp
    next
      case (Inr am)
      obtain al' m' where am: "am = (al', m')" by (cases am)
      have ih: "list_all valid_custom cs \<and> distinct (map ra_resType cs) \<and> (\<forall>d \<in> set cs. \<not> bit ?m (nat (ra_resType d)))"
        "length al' = 3"
        "\<And>i. i < 3 \<Longrightarrow> al' ! i = (case find (\<lambda>c. ra_resType c = int i) cs of Some c \<Rightarrow> c | None \<Rightarrow> ?al ! i)"
        "\<And>i. i < 3 \<Longrightarrow> bit m' i \<longleftrightarrow> bit ?m i \<or> (\<exists>c \<in> set cs. ra_resType c = int i)"
        using Cons.IH [of ?al ?m] Cons.prems Inr am by simp_all
      have all: "list_all valid_custom (c # cs) \<and> distinct (map ra_resType (c # cs))
        \<and> (\<forall>d \<in> set (c # cs). \<not> bit m (nat (ra_resType d)))" using cond ih(1) by blast
      have i: "ra_resType c = int i \<longleftrightarrow> i = ?t" for i using t(1) by linarith
      have none: "find (\<lambda>d. ra_resType d = int ?t) cs = None" using all t(1) by (auto simp: find_None_iff image_iff)
      have "al' ! j = (case find (\<lambda>c. ra_resType c = int j) (c # cs) of Some c \<Rightarrow> c | None \<Rightarrow> al ! j)" if "j < 3" for j
        using ih(3) [OF that] none i [of j] Cons.prems t(2) by (cases "j = ?t") (auto split: option.splits)
      moreover have "bit m' j \<longleftrightarrow> bit m j \<or> (\<exists>d \<in> set (c # cs). ra_resType d = int j)" if "j < 3" for j
        using ih(4) [OF that] i [of j] unfolding bit_fill by auto
      ultimately show ?thesis using all ih(2) unfolding step Inr am by simp
    qed
  qed
qed auto

lemma default_doGet_ok: "i < 3 \<Longrightarrow> \<exists>d. default_doGet rt (int i) = Inr d"
  by (auto simp: default_doGet_def Let_def)

lemma fill_defaults_inv:
  assumes "list_all (\<lambda>i. i < 3) is" "length al = 3" "\<forall>i < 3. bit m i \<longrightarrow> al ! i = e (int i)"
    and "\<forall>i < 3. \<not> bit m i \<longrightarrow> dflt (int i) = Inr (e (int i))"
  shows "\<exists>al' m'. fill_defaults dflt is (al, m) = Inr (al', m') \<and> length al' = 3
    \<and> (\<forall>i < 3. bit m' i \<longrightarrow> al' ! i = e (int i)) \<and> (\<forall>i. bit m' i \<longleftrightarrow> bit m i \<or> i \<in> set is)"
  using assms
proof (induction "is" arbitrary: al m)
  case (Cons i "is")
  show ?case
  proof (cases "bit m i")
    case True
    then show ?thesis using Cons.IH [of al m] Cons.prems by (auto simp: filled_bit)
  next
    case False
    have "\<exists>al' m'. fill_defaults dflt is (al[i := e (int i)], m OR push_bit i 1) = Inr (al', m') \<and> length al' = 3
      \<and> (\<forall>i < 3. bit m' i \<longrightarrow> al' ! i = e (int i)) \<and> (\<forall>j. bit m' j \<longleftrightarrow> bit (m OR push_bit i 1) j \<or> j \<in> set is)"
      using Cons.prems by (intro Cons.IH) (auto simp: bit_fill nth_list_update)
    moreover have "dflt (int i) = Inr (e (int i))" using Cons.prems(1,4) False by simp
    ultimately show ?thesis using False by (auto simp: filled_bit bit_fill)
  qed
qed auto

lemma fill_defaults_eq:
  assumes "length al = 3" "\<forall>i < 3. bit m i \<longleftrightarrow> find (\<lambda>c. ra_resType c = int i) cs \<noteq> None"
    and "\<forall>i < 3. bit m i \<longrightarrow> al ! i = entry_for rt cs (int i)"
  shows "\<exists>m'. fill_defaults (default_doGet rt) [0..<3] (al, m) = Inr (map (entry_for rt cs) [0, 1, 2], m')
    \<and> (\<forall>i < 3. bit m' i)"
proof -
  have "default_doGet rt (int i) = Inr (entry_for rt cs (int i))" if "i < 3" "\<not> bit m i" for i
    using that assms(2) default_doGet_ok [of i rt] by (auto simp: entry_for_def)
  then obtain al' m' where r: "fill_defaults (default_doGet rt) [0..<3] (al, m) = Inr (al', m')" "length al' = 3"
    "\<forall>i < 3. bit m' i \<longrightarrow> al' ! i = entry_for rt cs (int i)" "\<forall>i. bit m' i \<longleftrightarrow> bit m i \<or> i \<in> set [0..<3]"
    using fill_defaults_inv [of "[0..<3]" al m "entry_for rt cs" "default_doGet rt"] assms(1,3)
    by (auto simp: list_all_iff)
  have n3: "i < 3 \<longleftrightarrow> i = 0 \<or> i = 1 \<or> i = 2" for i :: nat by auto
  have "al' = map (entry_for rt cs) [0, 1, 2]"
    using r(2-4) by (intro nth_equalityI) (auto simp: n3 simp del: One_nat_def)
  then show ?thesis using r(1,4) by auto
qed


section \<open>No memory is lost\<close>

text \<open>
  What the code relies on of \<open>cudaMalloc\<close> and \<open>cudaFree\<close>, with \<open>live\<close> the blocks in use: a
  failed allocation changes nothing, a successful one adds a block that was not in use, freeing
  a block in use removes it.
\<close>

definition allocates ::
    "('s \<Rightarrow> ptr set) \<Rightarrow> (int \<Rightarrow> 's \<Rightarrow> (cudaError \<times> ptr) \<times> 's) \<Rightarrow> (ptr \<Rightarrow> 's \<Rightarrow> cudaError \<times> 's) \<Rightarrow> bool" where
  "allocates live mallocf freef \<longleftrightarrow>
     (\<forall>sz s err p s'. mallocf sz s = ((err, p), s') \<longrightarrow>
        (if err = cudaSuccess then p \<notin> live s \<and> live s' = insert p (live s) else live s' = live s))
   \<and> (\<forall>p s err s'. freef p s = (err, s') \<longrightarrow> p \<in> live s \<longrightarrow> live s' = live s - {p})"

lemma alloc_then_check_live:
  assumes "allocates live mallocf freef"
  shows "case alloc_then_check mallocf freef sz align s of
     (Inr p, s') \<Rightarrow> p \<notin> live s \<and> live s' = insert p (live s) \<and> uint p mod align = 0
   | (Inl e, s') \<Rightarrow> live s' = live s"
proof -
  obtain err p s1 where m: "mallocf sz s = ((err, p), s1)" by (metis surj_pair)
  obtain err2 s3 where f: "freef p s1 = (err2, s3)" by (metis surj_pair)
  show ?thesis
    using assms m f unfolding allocates_def alloc_then_check_def
    by (cases "err = cudaSuccess") (fastforce simp: CHECK_THROW_def split: if_splits)+
qed

lemma default_alloc_live:
  assumes "allocates live (cudaMalloc rt) (cudaFree rt)"
  shows "case allocCudaMem (DefaultAllocator rt) sz align s of
     (Inr p, s') \<Rightarrow> 0 \<le> sz \<and> align dvd sz \<and> p \<notin> live s \<and> live s' = insert p (live s) \<and> uint p mod align = 0
        \<and> live (freeCudaMem (DefaultAllocator rt) p sz align s') = live s
   | (Inl e, s') \<Rightarrow> live s' = live s"
proof -
  have free: "live (default_doFreeCudaMem rt p sz align s') = live s' - {p}" if "p \<in> live s'" for p s'
    using assms that by (cases "cudaFree rt p s'") (auto simp: allocates_def default_doFreeCudaMem_def)
  have "align dvd sz" if "RoundUp sz align = sz" using that RoundUp_dvd [of align sz] by simp
  then show ?thesis
    using alloc_then_check_live [OF assms, where sz = sz and align = align and s = s] free
    by (auto simp: allocCudaMem_def freeCudaMem_def DefaultAllocator_def default_doAllocCudaMem_def checked_alloc_def
        st_throw_if_app split: prod.splits sum.splits if_splits)
qed

text \<open>
  The default allocator leaks nothing on its error paths. When the CUDA functions
  behave as documented, \<open>allocCudaMem\<close> on a request either returns one new block, aligned as
  asked, or throws with exactly the same blocks in use as before, also when the block it got was
  misaligned and had to be given back; and \<open>freeCudaMem\<close> on the block restores the blocks in use.
\<close>

theorem default_allocator_no_leak:
  assumes "allocates live (cudaMalloc rt) (cudaFree rt)"
  shows "case allocCudaMem (DefaultAllocator rt) sz align s of
     (Inr p, s') \<Rightarrow> 0 \<le> sz \<and> align dvd sz \<and> p \<notin> live s \<and> live s' = insert p (live s) \<and> uint p mod align = 0
        \<and> live (freeCudaMem (DefaultAllocator rt) p sz align s') = live s
   | (Inl e, s') \<Rightarrow> live s' = live s"
  using assms by (rule default_alloc_live)

text \<open>A runtime that hands out addresses counting up from 256 in steps of 256.\<close>

definition counting_runtime :: "(ptr list) runtime" where
  "counting_runtime =
     (let al = (\<lambda>s. case s of [] \<Rightarrow> 256 | p # ps \<Rightarrow> fold max ps p + 256) in
      \<lparr>aligned_alloc = (\<lambda>align sz s. (0, s)), free_fn = (\<lambda>p s. s),
       cudaHostAlloc = (\<lambda>sz s. ((cudaErrorMemoryAllocation, 0), s)), cudaFreeHost = (\<lambda>p s. (cudaSuccess, s)),
       cudaMalloc = (\<lambda>sz s. let p = al s in
          if p \<in> set s then ((cudaErrorMemoryAllocation, 0), s) else ((cudaSuccess, p), p # s)),
       cudaFree = (\<lambda>p s. (cudaSuccess, filter (\<lambda>q. q \<noteq> p) s))\<rparr>)"

lemma counting_allocates: "allocates set (cudaMalloc counting_runtime) (cudaFree counting_runtime)"
  by (auto simp: allocates_def counting_runtime_def Let_def split: if_splits list.splits)

theorem default_allocator_no_leak_witness:
  "allocCudaMem (DefaultAllocator counting_runtime) 512 256 [256] = (Inr 512, [512, 256])
   \<and> set (freeCudaMem (DefaultAllocator counting_runtime) 512 512 256 [512, 256]) = {256}
   \<and> allocCudaMem (DefaultAllocator counting_runtime) 512 512 [] = (Inl (Throw NVCV_ERROR_INTERNAL), [])"
proof -
  have a: "allocCudaMem (DefaultAllocator counting_runtime) 512 256 [256] = (Inr 512, [512, 256])" by code_simp
  have b: "allocCudaMem (DefaultAllocator counting_runtime) 512 512 [] = (Inl (Throw NVCV_ERROR_INTERNAL), [])" by code_simp
  show ?thesis using a b default_allocator_no_leak [OF counting_allocates, where sz = 512 and align = 256 and s = "[256]"] by simp
qed

text \<open>Alignment 0 passes the power-of-two check and is divided by.\<close>

lemma zero_alignment_divides: "checked_alloc f 0 0 s = (Inl DivisionByZero, s)"
  by (simp add: checked_alloc_def IsPowerOfTwo_zero)

end
