(* ===== verification/Mem_Requirements.thy ===== *)
theory Mem_Requirements
  imports Int_Math
begin

text \<open>
  Memory requirements, \<open>src/nvcv/src/priv/Requirements.cpp\<close>: per memory kind, the number of
  blocks of each power-of-two size. \<open>AddBuffer\<close> adds the blocks of one buffer and
  \<open>CalcTotalSizeBytes\<close> turns the counts into bytes. A count is an \<open>int64_t\<close>, modelled as the
  integer it holds; the sum is computed in \<open>uint64_t\<close>, modelled as a 64-bit word because the code
  relies on its wrap-around to detect overflow.
\<close>

section \<open>State and operations\<close>

definition NVCV_MAX_MEM_REQUIREMENTS_LOG2_BLOCK_SIZE :: nat where
  "NVCV_MAX_MEM_REQUIREMENTS_LOG2_BLOCK_SIZE = 32"

definition NVCV_MAX_MEM_REQUIREMENTS_BLOCK_SIZE :: int where
  "NVCV_MAX_MEM_REQUIREMENTS_BLOCK_SIZE = 2 ^ NVCV_MAX_MEM_REQUIREMENTS_LOG2_BLOCK_SIZE"

definition INT64_MAX :: int where
  "INT64_MAX = 2 ^ 63 - 1"

record NVCVMemRequirements =
  numBlocks :: "int list"

record NVCVRequirements =
  cudaMem :: NVCVMemRequirements
  hostMem :: NVCVMemRequirements
  hostPinnedMem :: NVCVMemRequirements

definition mem_zero :: NVCVMemRequirements where
  "mem_zero = \<lparr>numBlocks = replicate NVCV_MAX_MEM_REQUIREMENTS_LOG2_BLOCK_SIZE 0\<rparr>"

definition Requirements_Init :: NVCVRequirements where
  "Requirements_Init = \<lparr>cudaMem = mem_zero, hostMem = mem_zero, hostPinnedMem = mem_zero\<rparr>"

definition mem_add :: "NVCVMemRequirements \<Rightarrow> NVCVMemRequirements \<Rightarrow> NVCVMemRequirements" where
  "mem_add a b = \<lparr>numBlocks = map2 (+) (numBlocks a) (numBlocks b)\<rparr>"

definition Requirements_Add :: "NVCVRequirements \<Rightarrow> NVCVRequirements \<Rightarrow> NVCVRequirements" where
  "Requirements_Add reqSum req =
     \<lparr>cudaMem = mem_add (cudaMem reqSum) (cudaMem req),
      hostMem = mem_add (hostMem reqSum) (hostMem req),
      hostPinnedMem = mem_add (hostPinnedMem reqSum) (hostPinnedMem req)\<rparr>"

definition AddBuffer ::
    "NVCVMemRequirements \<Rightarrow> int \<Rightarrow> int \<Rightarrow> NVCVMemRequirements result" where
  "AddBuffer memReq bufSize bufAlignment =
     throw_if (bufAlignment \<le> 0) NVCV_ERROR_INVALID_ARGUMENT
     (throw_if (\<not> IsPowerOfTwo bufAlignment) NVCV_ERROR_INVALID_ARGUMENT
     (let log2Align = ILog2 64 bufAlignment in
      throw_if (NVCV_MAX_MEM_REQUIREMENTS_LOG2_BLOCK_SIZE \<le> log2Align) NVCV_ERROR_INVALID_ARGUMENT
      (let nb = DivUpPowerOfTwo 64 \<bar>bufSize\<bar> bufAlignment;
           old = numBlocks memReq ! log2Align in
       if 0 \<le> bufSize then
         throw_if (INT64_MAX - nb < old) NVCV_ERROR_OVERFLOW
           (Inr (memReq\<lparr>numBlocks := (numBlocks memReq)[log2Align := old + nb]\<rparr>))
       else
         Inr (memReq\<lparr>numBlocks := (numBlocks memReq)[log2Align := max 0 (old - nb)]\<rparr>))))"

text \<open>The loop of \<open>CalcTotalSizeBytes\<close> from block size \<open>2 ^ i\<close> on, with the running total.\<close>

fun calc_total_loop :: "nat \<Rightarrow> int list \<Rightarrow> 64 word \<Rightarrow> 64 word result" where
  "calc_total_loop i [] tot = Inr tot"
| "calc_total_loop i (b # bs) tot =
     (let cur = word_of_int b * 2 ^ i in
      throw_if (tot + cur < tot) NVCV_ERROR_INVALID_ARGUMENT
        (calc_total_loop (Suc i) bs (tot + cur)))"

definition CalcTotalSizeBytes :: "NVCVMemRequirements \<Rightarrow> int result" where
  "CalcTotalSizeBytes memReq =
     bind_result (calc_total_loop 0 (numBlocks memReq) 0)
       (\<lambda>tot. throw_if (INT64_MAX < uint tot) NVCV_ERROR_INVALID_ARGUMENT (Inr (uint tot)))"

section \<open>Well-formed requirements and their size\<close>

text \<open>
  The size a requirement stands for is the exact sum; a well-formed requirement has one count per
  block size, each within \<open>int64_t\<close> and not negative.
\<close>

fun blocks_bytes :: "nat \<Rightarrow> int list \<Rightarrow> int" where
  "blocks_bytes i [] = 0"
| "blocks_bytes i (b # bs) = b * 2 ^ i + blocks_bytes (Suc i) bs"

definition mem_bytes :: "NVCVMemRequirements \<Rightarrow> int" where
  "mem_bytes m = blocks_bytes 0 (numBlocks m)"

definition wf_mem :: "NVCVMemRequirements \<Rightarrow> bool" where
  "wf_mem m \<longleftrightarrow> length (numBlocks m) = NVCV_MAX_MEM_REQUIREMENTS_LOG2_BLOCK_SIZE
     \<and> list_all (\<lambda>b. 0 \<le> b \<and> b \<le> INT64_MAX) (numBlocks m)"

text \<open>No single block size needs \<open>2 ^ 64\<close> bytes or more: the product in the loop is exact.\<close>

fun products_fit :: "nat \<Rightarrow> int list \<Rightarrow> bool" where
  "products_fit i [] \<longleftrightarrow> True"
| "products_fit i (b # bs) \<longleftrightarrow> 0 \<le> b \<and> b * 2 ^ i < 2 ^ 64 \<and> products_fit (Suc i) bs"

lemma wf_mem_zero [simp]: "wf_mem mem_zero"
  by (simp add: wf_mem_def mem_zero_def INT64_MAX_def list_all_iff)

lemma wf_mem_update:
  "wf_mem m \<Longrightarrow> 0 \<le> v \<Longrightarrow> v \<le> INT64_MAX \<Longrightarrow> wf_mem (m\<lparr>numBlocks := (numBlocks m)[k := v]\<rparr>)"
  by (auto simp: wf_mem_def list_all_iff dest!: set_update_subset_insert [THEN subsetD])

lemma blocks_bytes_replicate_zero: "blocks_bytes i (replicate n 0) = 0"
  by (induction n arbitrary: i) auto

lemma mem_bytes_zero [simp]: "mem_bytes mem_zero = 0"
  by (simp add: mem_bytes_def mem_zero_def blocks_bytes_replicate_zero)

lemma blocks_bytes_add:
  "length xs = length ys \<Longrightarrow> blocks_bytes i (map2 (+) xs ys) = blocks_bytes i xs + blocks_bytes i ys"
  by (induction xs ys arbitrary: i rule: list_induct2) (auto simp: algebra_simps)

lemma blocks_bytes_update:
  "k < length bs \<Longrightarrow> blocks_bytes i (bs[k := v]) = blocks_bytes i bs + (v - bs ! k) * 2 ^ (i + k)"
proof (induction bs arbitrary: i k)
  case Nil
  then show ?case by simp
next
  case (Cons b bs)
  show ?case
  proof (cases k)
    case 0
    then show ?thesis by (simp add: algebra_simps)
  next
    case (Suc n)
    with Cons.prems Cons.IH [of n "Suc i"] show ?thesis by simp
  qed
qed

lemma blocks_bytes_nonneg: "list_all (\<lambda>b. 0 \<le> b) bs \<Longrightarrow> 0 \<le> blocks_bytes i bs"
  by (induction bs arbitrary: i) auto

lemma mem_bytes_nonneg: "wf_mem m \<Longrightarrow> 0 \<le> mem_bytes m"
  unfolding mem_bytes_def wf_mem_def by (auto intro!: blocks_bytes_nonneg simp: list_all_iff)

lemma mem_bytes_add:
  "wf_mem a \<Longrightarrow> wf_mem b \<Longrightarrow> mem_bytes (mem_add a b) = mem_bytes a + mem_bytes b"
  by (simp add: mem_bytes_def mem_add_def wf_mem_def blocks_bytes_add)

lemma products_fit_bytes: "products_fit i bs \<Longrightarrow> 0 \<le> blocks_bytes i bs"
  by (induction i bs rule: products_fit.induct) auto

section \<open>Adding a buffer\<close>

text \<open>The alignments the code accepts, and what a call does for each of them.\<close>

definition valid_block :: "int \<Rightarrow> bool" where
  "valid_block a \<longleftrightarrow> (\<exists>k<NVCV_MAX_MEM_REQUIREMENTS_LOG2_BLOCK_SIZE. a = 2 ^ k)"

lemma valid_block_pos: "valid_block a \<Longrightarrow> 0 < a"
  by (auto simp: valid_block_def)

lemma AddBuffer_block:
  assumes "k < NVCV_MAX_MEM_REQUIREMENTS_LOG2_BLOCK_SIZE"
  shows "AddBuffer m sz (2 ^ k) =
    (let nb = DivUp \<bar>sz\<bar> (2 ^ k); old = numBlocks m ! k in
     if 0 \<le> sz then throw_if (INT64_MAX - nb < old) NVCV_ERROR_OVERFLOW
           (Inr (m\<lparr>numBlocks := (numBlocks m)[k := old + nb]\<rparr>))
     else Inr (m\<lparr>numBlocks := (numBlocks m)[k := max 0 (old - nb)]\<rparr>))"
proof -
  have "k < 64"
    using assms by (simp add: NVCV_MAX_MEM_REQUIREMENTS_LOG2_BLOCK_SIZE_def)
  with assms show ?thesis
    by (simp add: AddBuffer_def DivUpPowerOfTwo_exp Let_def)
qed

lemma AddBuffer_rejects:
  assumes "\<not> valid_block a" and "a < 2 ^ 63"
  shows "AddBuffer m sz a = Inl (Throw NVCV_ERROR_INVALID_ARGUMENT)"
proof (cases "0 < a \<and> IsPowerOfTwo a")
  case True
  then obtain k where k: "a = 2 ^ k"
    using IsPowerOfTwo_posD by blast
  with assms(2) have "k < 63"
    using power_less_imp_less_exp [of "2::int" k 63] by simp
  moreover have "NVCV_MAX_MEM_REQUIREMENTS_LOG2_BLOCK_SIZE \<le> k"
    using assms(1) k by (auto simp: valid_block_def not_less)
  ultimately show ?thesis
    using k by (simp add: AddBuffer_def)
next
  case False
  then show ?thesis by (auto simp: AddBuffer_def throw_if_def)
qed

lemma AddBuffer_wf:
  assumes "wf_mem m" and "AddBuffer m sz a = Inr m'" and "valid_block a"
  shows "wf_mem m'"
proof -
  obtain k where k: "k < NVCV_MAX_MEM_REQUIREMENTS_LOG2_BLOCK_SIZE" "a = 2 ^ k"
    using assms(3) by (auto simp: valid_block_def)
  have old: "0 \<le> numBlocks m ! k" "numBlocks m ! k \<le> INT64_MAX"
    using assms(1) k(1) by (auto simp: wf_mem_def list_all_iff)
  have "0 \<le> DivUp \<bar>sz\<bar> (2 ^ k)"
    by (simp add: DivUp_nonneg)
  then obtain v where "m' = m\<lparr>numBlocks := (numBlocks m)[k := v]\<rparr>" and "0 \<le> v" "v \<le> INT64_MAX"
    using assms(2) old k
    by (auto simp: AddBuffer_block Let_def result_simps split: if_splits)
  with assms(1) show ?thesis
    by (simp add: wf_mem_update)
qed

lemma AddBuffer_bytes:
  assumes "wf_mem m" and "AddBuffer m sz a = Inr m'" and "valid_block a" and "0 \<le> sz"
  shows "mem_bytes m' = mem_bytes m + DivUp sz a * a"
proof -
  obtain k where k: "k < NVCV_MAX_MEM_REQUIREMENTS_LOG2_BLOCK_SIZE" "a = 2 ^ k"
    using assms(3) by (auto simp: valid_block_def)
  with assms show ?thesis
    by (auto simp: AddBuffer_block Let_def result_simps mem_bytes_def wf_mem_def blocks_bytes_update)
qed

section \<open>The total\<close>

lemma uint_block_product:
  assumes "0 \<le> b" and "b * 2 ^ i < 2 ^ 64"
  shows "uint (word_of_int b * 2 ^ i :: 64 word) = b * 2 ^ i"
proof -
  have "word_of_int b * 2 ^ i = (word_of_int (b * 2 ^ i) :: 64 word)"
    by simp
  then have "uint (word_of_int b * 2 ^ i :: 64 word) = b * 2 ^ i mod 2 ^ 64"
    by (simp only: uint_word_of_int) simp
  then show ?thesis using assms by simp
qed

lemma word_add_less_iff:
  fixes a c :: "64 word"
  shows "a + c < a \<longleftrightarrow> 2 ^ 64 \<le> uint a + uint c"
proof -
  have "uint (a + c) = (if uint a + uint c < 2 ^ 64 then uint a + uint c
                        else uint a + uint c - 2 ^ 64)"
    by (simp add: uint_plus_if')
  then show ?thesis
    using uint_lt2p [of c] by (auto simp: word_less_def)
qed

lemma calc_total_loop_eq:
  "products_fit i bs \<Longrightarrow>
     calc_total_loop i bs t =
       (if uint t + blocks_bytes i bs < 2 ^ 64 then Inr (t + word_of_int (blocks_bytes i bs))
        else Inl (Throw NVCV_ERROR_INVALID_ARGUMENT))"
proof (induction i bs t rule: calc_total_loop.induct)
  case (1 i t)
  then show ?case using uint_lt2p [of t] by simp
next
  case (2 i b bs t)
  define c where "c = (word_of_int b * 2 ^ i :: 64 word)"
  have c: "uint c = b * 2 ^ i"
    using 2(2) by (simp add: c_def uint_block_product)
  have rest: "0 \<le> blocks_bytes (Suc i) bs"
    using 2(2) by (simp add: products_fit_bytes)
  show ?case
  proof (cases "t + c < t")
    case True
    then have "2 ^ 64 \<le> uint t + b * 2 ^ i"
      using c by (simp add: word_add_less_iff)
    with rest True show ?thesis
      by (simp add: c_def [symmetric] Let_def)
  next
    case False
    then have "uint t + b * 2 ^ i < 2 ^ 64"
      using c by (simp add: word_add_less_iff)
    then have "uint (t + c) = uint t + b * 2 ^ i"
      using c by (simp add: uint_plus_if')
    moreover have "c + word_of_int (blocks_bytes (Suc i) bs)
        = word_of_int (b * 2 ^ i + blocks_bytes (Suc i) bs)"
      by (simp add: c_def)
    ultimately show ?thesis
      using 2 False by (simp add: c_def [symmetric] Let_def add.assoc)
  qed
qed

lemma calc_total_loop_zeros: "calc_total_loop i (replicate n 0) t = Inr t"
  by (induction n arbitrary: i) (auto simp: Let_def)

lemma calc_total_loop_single:
  "k < n \<Longrightarrow> calc_total_loop i ((replicate n 0)[k := v]) t =
     (let cur = word_of_int v * 2 ^ (i + k) in
      throw_if (t + cur < t) NVCV_ERROR_INVALID_ARGUMENT (Inr (t + cur)))"
proof (induction n arbitrary: i k)
  case 0
  then show ?case by simp
next
  case (Suc n)
  then show ?case
    by (cases k) (simp_all add: calc_total_loop_zeros Let_def)
qed

lemma CalcTotalSizeBytes_eq:
  assumes "products_fit 0 (numBlocks m)"
  shows "CalcTotalSizeBytes m =
    (if mem_bytes m \<le> INT64_MAX then Inr (mem_bytes m) else Inl (Throw NVCV_ERROR_INVALID_ARGUMENT))"
proof -
  have "0 \<le> mem_bytes m"
    using assms by (simp add: mem_bytes_def products_fit_bytes)
  then show ?thesis
    using calc_total_loop_eq [OF assms, of 0]
    by (auto simp: CalcTotalSizeBytes_def INT64_MAX_def mem_bytes_def uint_word_of_int)
qed

section \<open>Properties\<close>

text \<open>
  Adding a buffer of \<open>sz\<close> bytes with an accepted alignment keeps the requirement
  well formed and grows it by at least the buffer and by less than one extra block.
\<close>

theorem AddBuffer_covers_buffer:
  assumes "wf_mem m" and "valid_block a" and "0 \<le> sz" and "AddBuffer m sz a = Inr m'"
  shows "wf_mem m' \<and> mem_bytes m + sz \<le> mem_bytes m' \<and> mem_bytes m' < mem_bytes m + sz + a"
  using AddBuffer_wf [OF assms(1,4,2)] AddBuffer_bytes [OF assms(1,4,2,3)]
    DivUp_bounds [OF valid_block_pos [OF assms(2)], of sz] by simp

theorem AddBuffer_covers_buffer_witness:
  "\<exists>m'. AddBuffer mem_zero 100 32 = Inr m' \<and> 100 \<le> mem_bytes m' \<and> mem_bytes m' < 132"
proof -
  have v: "valid_block 32"
    by (auto simp: valid_block_def NVCV_MAX_MEM_REQUIREMENTS_LOG2_BLOCK_SIZE_def intro!: exI [of _ 5])
  have "\<exists>m'. AddBuffer mem_zero 100 (2 ^ 5) = Inr m'"
    by (subst AddBuffer_block)
      (simp_all add: NVCV_MAX_MEM_REQUIREMENTS_LOG2_BLOCK_SIZE_def DivUp_def mem_zero_def
        INT64_MAX_def throw_if_def)
  then obtain m' where "AddBuffer mem_zero 100 32 = Inr m'" by auto
  with AddBuffer_covers_buffer [OF wf_mem_zero v _ this] show ?thesis by auto
qed

text \<open>
  Every branch of \<open>AddBuffer\<close> for an alignment within \<open>int64_t\<close>: an alignment that
  is not a power of two below \<open>2 ^ 32\<close> is an invalid argument; a block count that would exceed
  \<open>int64_t\<close> is an overflow, and then only; a negative size never fails and clamps the count at 0.
\<close>

theorem AddBuffer_outcomes:
  assumes "a < 2 ^ 63"
  shows "(AddBuffer m sz a = Inl (Throw NVCV_ERROR_INVALID_ARGUMENT) \<longleftrightarrow> \<not> valid_block a)
    \<and> (AddBuffer m sz a = Inl (Throw NVCV_ERROR_OVERFLOW) \<longleftrightarrow>
         valid_block a \<and> 0 \<le> sz \<and> INT64_MAX < numBlocks m ! ILog2 64 a + DivUp sz a)
    \<and> (valid_block a \<and> sz < 0 \<longrightarrow>
         AddBuffer m sz a = Inr (m\<lparr>numBlocks := (numBlocks m)[ILog2 64 a :=
            max 0 (numBlocks m ! ILog2 64 a - DivUp (- sz) a)]\<rparr>))"
proof (cases "valid_block a")
  case True
  then obtain k where k: "k < NVCV_MAX_MEM_REQUIREMENTS_LOG2_BLOCK_SIZE" "a = 2 ^ k"
    by (auto simp: valid_block_def)
  then have "k < 64" by (simp add: NVCV_MAX_MEM_REQUIREMENTS_LOG2_BLOCK_SIZE_def)
  with True k show ?thesis
    by (auto simp: AddBuffer_block Let_def throw_if_def)
next
  case False
  then show ?thesis
    using AddBuffer_rejects [OF False assms] by simp
qed

theorem AddBuffer_outcomes_witness:
  "AddBuffer mem_zero 8 3 = Inl (Throw NVCV_ERROR_INVALID_ARGUMENT)"
proof -
  have "\<not> valid_block 3"
  proof
    assume "valid_block 3"
    then obtain k where k: "(3::int) = 2 ^ k" by (auto simp: valid_block_def)
    then have "k \<noteq> 0" by (metis numeral_One numeral_eq_iff power_0 semiring_norm(86))
    then have "even (2 ^ k :: int)" by simp
    with k show False by (metis odd_numeral)
  qed
  then show ?thesis using AddBuffer_outcomes [of 3 mem_zero 8] by simp
qed

text \<open>
  Property C28: \<open>CalcTotalSizeBytes\<close> returns the exact sum when that fits \<open>int64_t\<close> and throws
  otherwise, as long as no single count times its block size reaches \<open>2 ^ 64\<close>.
\<close>

theorem CalcTotalSizeBytes_exact:
  assumes "products_fit 0 (numBlocks m)"
  shows "(CalcTotalSizeBytes m = Inr n \<longleftrightarrow> n = mem_bytes m \<and> mem_bytes m \<le> INT64_MAX)
    \<and> (CalcTotalSizeBytes m = Inl e \<longleftrightarrow>
         e = Throw NVCV_ERROR_INVALID_ARGUMENT \<and> INT64_MAX < mem_bytes m)"
  using assms by (auto simp: CalcTotalSizeBytes_eq)

theorem CalcTotalSizeBytes_exact_witness:
  "CalcTotalSizeBytes (mem_zero\<lparr>numBlocks := (numBlocks mem_zero)[5 := 4]\<rparr>) = Inr 128"
proof -
  let ?m = "mem_zero\<lparr>numBlocks := (numBlocks mem_zero)[5 := 4]\<rparr>"
  have "products_fit 0 (numBlocks ?m)" and "mem_bytes ?m = 128"
    by (simp_all add: mem_zero_def NVCV_MAX_MEM_REQUIREMENTS_LOG2_BLOCK_SIZE_def mem_bytes_def
        numeral_eq_Suc)
  then show ?thesis
    using CalcTotalSizeBytes_exact [of ?m 128] by (simp add: INT64_MAX_def)
qed

text \<open>
  The overflow check of \<open>CalcTotalSizeBytes\<close> misses a wrap inside the product. Three
  buffers of \<open>2 ^ 63 - 16\<close> bytes with alignment 16 are all accepted, need \<open>3 * 2 ^ 63 - 48\<close>
  bytes, and the reported total is \<open>2 ^ 63 - 48\<close> instead of an error.
\<close>

definition three_huge_buffers :: "NVCVMemRequirements result" where
  "three_huge_buffers =
     bind_result (AddBuffer mem_zero (2 ^ 63 - 16) 16) (\<lambda>m1.
     bind_result (AddBuffer m1 (2 ^ 63 - 16) 16) (\<lambda>m2. AddBuffer m2 (2 ^ 63 - 16) 16))"

theorem CalcTotalSizeBytes_misses_wrap:
  "bind_result three_huge_buffers CalcTotalSizeBytes = Inr (2 ^ 63 - 48)
   \<and> (\<exists>m. three_huge_buffers = Inr m \<and> wf_mem m \<and> mem_bytes m = 3 * (2 ^ 63 - 16))"
proof -
  let ?m = "\<lambda>n. mem_zero\<lparr>numBlocks := (numBlocks mem_zero)[4 := n * (2 ^ 59 - 1)]\<rparr>"
  have step: "AddBuffer (?m n) (2 ^ 63 - 16) 16 = Inr (?m (n + 1))" if "0 \<le> n" "n \<le> 2" for n :: int
    using AddBuffer_block [of 4 "?m n" "2 ^ 63 - 16"] that
    by (simp add: NVCV_MAX_MEM_REQUIREMENTS_LOG2_BLOCK_SIZE_def DivUp_def INT64_MAX_def
        mem_zero_def throw_if_def algebra_simps)
  have "?m 0 = mem_zero"
    by (simp add: mem_zero_def NVCV_MAX_MEM_REQUIREMENTS_LOG2_BLOCK_SIZE_def numeral_eq_Suc)
  then have three: "three_huge_buffers = Inr (?m 3)"
    using step [of 0] step [of 1] step [of 2] by (simp add: three_huge_buffers_def)
  have "CalcTotalSizeBytes (?m 3) = Inr (2 ^ 63 - 48)"
    by (simp add: CalcTotalSizeBytes_def mem_zero_def INT64_MAX_def
        NVCV_MAX_MEM_REQUIREMENTS_LOG2_BLOCK_SIZE_def calc_total_loop_single)
  moreover have "wf_mem (?m 3)"
    by (intro wf_mem_update) (simp_all add: INT64_MAX_def)
  moreover have "mem_bytes (?m 3) = 3 * (2 ^ 63 - 16)"
    by (simp add: mem_bytes_def mem_zero_def NVCV_MAX_MEM_REQUIREMENTS_LOG2_BLOCK_SIZE_def
        blocks_bytes_update blocks_bytes_replicate_zero)
  ultimately show ?thesis
    unfolding three by simp
qed

end
