(* ===== verification/Image_Object.thy ===== *)
theory Image_Object
  imports Allocators Mem_Requirements Image_Format
begin

text \<open>
  Image objects (\<open>src/nvcv/src/priv/Image.cpp\<close>): the memory an image needs, the allocated image,
  the export of its planes, and images that wrap the memory of the user.
\<close>

section \<open>Image data\<close>

abbreviation (input) "NVCV_MAX_PLANE_COUNT \<equiv> (6 :: nat)"
abbreviation (input) "NVCV_IMAGE_BUFFER_NONE \<equiv> (0 :: int)"
abbreviation (input) "NVCV_IMAGE_BUFFER_STRIDED_CUDA \<equiv> (1 :: int)"
abbreviation (input) "NVCV_IMAGE_BUFFER_STRIDED_HOST \<equiv> (2 :: int)"
abbreviation (input) "NVCV_IMAGE_BUFFER_CUDA_ARRAY \<equiv> (3 :: int)"

record NVCVImagePlaneStrided =
  pl_width :: int
  pl_height :: int
  pl_rowStride :: int
  pl_basePtr :: ptr

text \<open>The strided member of the buffer union; \<open>planes\<close> has 6 entries.\<close>

record NVCVImageData =
  id_format :: u64
  id_bufferType :: int
  id_numPlanes :: int
  id_planes :: "NVCVImagePlaneStrided list"

record NVCVImageRequirements =
  ir_width :: int
  ir_height :: int
  ir_format :: u64
  ir_planeRowStride :: "int list"
  ir_alignBytes :: int
  ir_mem :: NVCVRequirements

section \<open>Requirements\<close>

definition image_rowAlign :: "device \<Rightarrow> int \<Rightarrow> int \<Rightarrow> int result" where
  "image_rowAlign cuda dev userRowAlign =
     (if userRowAlign = 0 then check_value (cudaDeviceGetAttribute cuda cudaDevAttrTexturePitchAlignment dev)
      else throw_if (\<not> IsPowerOfTwo userRowAlign) NVCV_ERROR_INVALID_ARGUMENT (Inr userRowAlign))"

text \<open>
  The loop over the planes declares its own \<open>rowAlign\<close>: it computes each plane's alignment, which
  may throw, and drops it.
\<close>

fun plane_align_loop :: "u64 \<Rightarrow> int \<Rightarrow> nat list \<Rightarrow> unit result" where
  "plane_align_loop fmt userRowAlign [] = Inr ()"
| "plane_align_loop fmt userRowAlign (p # ps) =
     bind_result (if userRowAlign = 0 then planePixelStrideBytes fmt (int p) else planeRowAlignment fmt (int p))
       (\<lambda>inner_rowAlign. plane_align_loop fmt userRowAlign ps)"

definition image_baseAlign :: "device \<Rightarrow> int \<Rightarrow> int \<Rightarrow> int \<Rightarrow> int result" where
  "image_baseAlign cuda dev userBaseAlign rowAlign =
     bind_result
       (if userBaseAlign = 0 then check_value (cudaDeviceGetAttribute cuda cudaDevAttrTextureAlignment dev)
        else throw_if (\<not> IsPowerOfTwo userBaseAlign) NVCV_ERROR_INVALID_ARGUMENT (Inr userBaseAlign))
       (\<lambda>baseAlign. Inr (lcm baseAlign rowAlign))"

text \<open>The memory of each plane. The row stride is stored in 32 bits.\<close>

fun plane_mem_loop ::
    "u64 \<Rightarrow> Size2D \<Rightarrow> int \<Rightarrow> int \<Rightarrow> nat list \<Rightarrow> int list \<times> NVCVMemRequirements \<Rightarrow> (int list \<times> NVCVMemRequirements) result" where
  "plane_mem_loop fmt sz rowAlign baseAlign [] st = Inr st"
| "plane_mem_loop fmt sz rowAlign baseAlign (p # ps) (strides, mem) =
     bind_result (planeSize fmt sz (int p)) (\<lambda>planeSz.
     nvcv_assert (p < NVCV_MAX_PLANE_COUNT)
    (bind_result (planePixelStrideBytes fmt (int p)) (\<lambda>pixelStride.
     let stride = wrap32 (RoundUpPowerOfTwo (width_px planeSz * pixelStride) rowAlign) in
     bind_result (AddBuffer mem (stride * height_px planeSz) baseAlign) (\<lambda>mem.
     plane_mem_loop fmt sz rowAlign baseAlign ps (strides[p := stride], mem)))))"

text \<open>\<open>old\<close> is what the uninitialised array of row strides holds.\<close>

definition Image_CalcRequirements ::
    "device \<Rightarrow> int list \<Rightarrow> Size2D \<Rightarrow> u64 \<Rightarrow> int \<Rightarrow> int \<Rightarrow> NVCVImageRequirements result" where
  "Image_CalcRequirements cuda old sz fmt userBaseAlign userRowAlign =
     bind_result (check_value (cudaGetDevice cuda)) (\<lambda>dev.
     bind_result (image_rowAlign cuda dev userRowAlign) (\<lambda>rowAlign.
     bind_result (plane_align_loop fmt userRowAlign [0..<numPlanes fmt]) (\<lambda>_.
     let rowAlign = RoundUpNextPowerOfTwo 32 rowAlign in
     bind_result (image_baseAlign cuda dev userBaseAlign rowAlign) (\<lambda>baseAlign.
     throw_if (baseAlign > NVCV_MAX_MEM_REQUIREMENTS_BLOCK_SIZE) NVCV_ERROR_INVALID_ARGUMENT
    (bind_result (plane_mem_loop fmt sz rowAlign baseAlign [0..<numPlanes fmt] (old, mem_zero)) (\<lambda>(strides, mem).
     Inr \<lparr>ir_width = width_px sz, ir_height = height_px sz, ir_format = fmt, ir_planeRowStride = strides,
          ir_alignBytes = baseAlign, ir_mem = Requirements_Init\<lparr>cudaMem := mem\<rparr>\<rparr>))))))"

section \<open>Allocated images\<close>

record 's Image =
  im_alloc :: "'s IAllocator"
  im_reqs :: NVCVImageRequirements
  im_memBuffer :: ptr

definition Image_AllocateBuffer :: "'s IAllocator \<Rightarrow> NVCVImageRequirements \<Rightarrow> (ptr, 's) st" where
  "Image_AllocateBuffer alloc reqs =
     st_throw_if (memLayout (ir_format reqs) \<noteq> NVCV_MEM_LAYOUT_PL) (Throw NVCV_ERROR_NOT_IMPLEMENTED)
    (st_bind (st_lift (CalcTotalSizeBytes (cudaMem (ir_mem reqs)))) (\<lambda>bufSize.
     st_bind (allocCudaMem alloc bufSize (ir_alignBytes reqs)) (\<lambda>buffer.
     st_throw_if (buffer = 0) AssertFailed (st_return buffer))))"

definition Image_ctor :: "NVCVImageRequirements \<Rightarrow> 's IAllocator \<Rightarrow> ('s Image, 's) st" where
  "Image_ctor reqs alloc =
     st_bind (Image_AllocateBuffer alloc reqs) (\<lambda>buffer.
       st_return \<lparr>im_alloc = alloc, im_reqs = reqs, im_memBuffer = buffer\<rparr>)"

text \<open>An exception out of the destructor would end the process; a constructed image cannot raise it.\<close>

definition Image_dtor :: "'s Image \<Rightarrow> 's \<Rightarrow> 's result" where
  "Image_dtor im s =
     bind_result (CalcTotalSizeBytes (cudaMem (ir_mem (im_reqs im)))) (\<lambda>n.
       Inr (freeCudaMem (im_alloc im) (im_memBuffer im) n (ir_alignBytes (im_reqs im)) s))"

fun export_planes ::
    "u64 \<Rightarrow> Size2D \<Rightarrow> int list \<Rightarrow> ptr \<Rightarrow> nat list \<Rightarrow> int \<Rightarrow> (NVCVImagePlaneStrided list \<times> int) result" where
  "export_planes fmt sz strides buf [] off = Inr ([], off)"
| "export_planes fmt sz strides buf (p # ps) off =
     bind_result (planeSize fmt sz (int p)) (\<lambda>planeSz.
     let plane = \<lparr>pl_width = width_px planeSz, pl_height = height_px planeSz, pl_rowStride = strides ! p,
                  pl_basePtr = buf + word_of_int off\<rparr> in
     bind_result (export_planes fmt sz strides buf ps (off + pl_height plane * pl_rowStride plane)) (\<lambda>(planes, off).
     Inr (plane # planes, off)))"

text \<open>\<open>old\<close> is the array of planes of the output argument.\<close>

definition Image_exportData :: "NVCVImagePlaneStrided list \<Rightarrow> 's Image \<Rightarrow> NVCVImageData result" where
  "Image_exportData old im =
     (let reqs = im_reqs im; fmt = ir_format reqs in
      nvcv_assert (memLayout fmt = NVCV_MEM_LAYOUT_PL)
     (bind_result (export_planes fmt \<lparr>width_px = ir_width reqs, height_px = ir_height reqs\<rparr> (ir_planeRowStride reqs)
          (im_memBuffer im) [0..<numPlanes fmt] 0) (\<lambda>(planes, planeOffsetBytes).
      bind_result (CalcTotalSizeBytes (cudaMem (ir_mem reqs))) (\<lambda>tot.
      nvcv_assert (planeOffsetBytes \<le> tot)
     (Inr \<lparr>id_format = fmt, id_bufferType = NVCV_IMAGE_BUFFER_STRIDED_CUDA, id_numPlanes = int (numPlanes fmt),
           id_planes = planes @ drop (length planes) old\<rparr>)))))"

section \<open>Wrapped images\<close>

text \<open>Reading a plane beyond the six of the array is undefined.\<close>

fun validate_planes :: "NVCVImagePlaneStrided list \<Rightarrow> nat list \<Rightarrow> unit result" where
  "validate_planes planes [] = Inr ()"
| "validate_planes planes (p # ps) =
     in_bounds (p < length planes)
    (let plane = planes ! p in
     throw_if (pl_width plane < 1 \<or> pl_height plane < 1) NVCV_ERROR_INVALID_ARGUMENT
    (throw_if (pl_basePtr plane = 0) NVCV_ERROR_INVALID_ARGUMENT (validate_planes planes ps)))"

definition doValidateData :: "NVCVImageData \<Rightarrow> unit result" where
  "doValidateData data =
     (if id_bufferType data = NVCV_IMAGE_BUFFER_STRIDED_CUDA then
        throw_if (memLayout (id_format data) \<noteq> NVCV_MEM_LAYOUT_PL) NVCV_ERROR_INVALID_ARGUMENT
       (throw_if (id_numPlanes data < 1) NVCV_ERROR_INVALID_ARGUMENT
          (validate_planes (id_planes data) [0..<nat (id_numPlanes data)]))
      else Inl (Throw NVCV_ERROR_INVALID_ARGUMENT))"

text \<open>Function and context pointers are addresses; the destructor's value is the list of calls made.\<close>

record ImageWrapData =
  iw_data :: NVCVImageData
  iw_cleanup :: ptr
  iw_ctxCleanup :: ptr

definition ImageWrapData_ctor :: "NVCVImageData \<Rightarrow> ptr \<Rightarrow> ptr \<Rightarrow> ImageWrapData result" where
  "ImageWrapData_ctor data cleanup ctx =
     bind_result (doValidateData data) (\<lambda>_. Inr \<lparr>iw_data = data, iw_cleanup = cleanup, iw_ctxCleanup = ctx\<rparr>)"

definition ImageWrapData_dtor :: "ImageWrapData \<Rightarrow> (ptr \<times> ptr \<times> NVCVImageData) list" where
  "ImageWrapData_dtor w =
     (if iw_cleanup w \<noteq> 0 \<and> id_bufferType (iw_data w) \<noteq> NVCV_IMAGE_BUFFER_NONE
      then [(iw_cleanup w, iw_ctxCleanup w, iw_data w)] else [])"

definition ImageWrapData_size :: "ImageWrapData \<Rightarrow> Size2D result" where
  "ImageWrapData_size w =
     (if id_bufferType (iw_data w) = NVCV_IMAGE_BUFFER_STRIDED_CUDA
      then Inr \<lparr>width_px = pl_width (id_planes (iw_data w) ! 0), height_px = pl_height (id_planes (iw_data w) ! 0)\<rparr>
      else nvcv_assert (id_bufferType (iw_data w) = NVCV_IMAGE_BUFFER_NONE) (Inr \<lparr>width_px = 0, height_px = 0\<rparr>))"

definition ImageWrapData_exportData :: "ImageWrapData \<Rightarrow> NVCVImageData" where
  "ImageWrapData_exportData w = iw_data w"

section \<open>Plane sizes and strides\<close>

lemma numPlanes_le: "numPlanes fmt \<le> 4"
  by (simp add: numPlanes_def)

lemma chroma_extent:
  assumes "0 < n" "n < 2 ^ 29" "1 \<le> a" "a \<le> 4"
  shows "0 \<le> wrap32 (n * a + 3) sdiv 4" "wrap32 (n * a + 3) sdiv 4 \<le> n"
proof -
  have l: "0 \<le> n * a" "n * a \<le> n * 4" using assms by simp_all
  have w: "wrap32 (n * a + 3) = n * a + 3" using l assms(2) by (intro wrap32_id) simp_all
  show "0 \<le> wrap32 (n * a + 3) sdiv 4" "wrap32 (n * a + 3) sdiv 4 \<le> n"
    using l unfolding w signed_divide_int_def by (auto simp: sgn_if)
qed

lemma planeSize_bounds:
  assumes "planeSize fmt sz p = Inr ps" "0 < width_px sz" "width_px sz < 2 ^ 29" "0 < height_px sz" "height_px sz < 2 ^ 29"
  shows "0 \<le> width_px ps \<and> width_px ps \<le> width_px sz \<and> 0 \<le> height_px ps \<and> height_px ps \<le> height_px sz"
proof (cases "1 \<le> p \<and> css fmt \<noteq> NVCV_CSS_NONE")
  case True
  then obtain a b where g: "GetChromaSamples (css fmt) = Inr (a, b)"
    and ps: "ps = \<lparr>width_px = wrap32 (width_px sz * a + 3) sdiv 4, height_px = wrap32 (height_px sz * b + 3) sdiv 4\<rparr>"
    using assms(1) by (auto simp: planeSize_def result_simps)
  then show ?thesis
    using GetChromaSamples_bounds [OF g] chroma_extent [of "width_px sz" a] chroma_extent [of "height_px sz" b] assms(2-5)
    by auto
next
  case False
  then show ?thesis using assms by (auto simp: planeSize_def)
qed

section \<open>The memory of an image\<close>

text \<open>All planes are counted in blocks of one size, \<open>2 ^ k\<close>.\<close>

definition mem_single :: "nat \<Rightarrow> int \<Rightarrow> NVCVMemRequirements" where
  "mem_single k v = \<lparr>numBlocks = (replicate 32 0)[k := v]\<rparr>"

lemma mem_single_zero: "mem_single k 0 = mem_zero"
proof -
  have "(replicate 32 0)[k := 0 :: int] = replicate 32 0" by (cases "k < 32") (simp_all add: list_update_same_conv list_update_beyond)
  then show ?thesis by (simp add: mem_single_def mem_zero_def NVCV_MAX_MEM_REQUIREMENTS_LOG2_BLOCK_SIZE_def)
qed

lemma AddBuffer_single:
  assumes "AddBuffer (mem_single k v) n (2 ^ k) = Inr m'" "k < 32" "0 \<le> n"
  shows "m' = mem_single k (v + DivUp n (2 ^ k))"
  using assms
  by (auto simp: AddBuffer_block NVCV_MAX_MEM_REQUIREMENTS_LOG2_BLOCK_SIZE_def mem_single_def Let_def result_simps)

lemma blocks_bytes_single: "k < n \<Longrightarrow> blocks_bytes i ((replicate n 0)[k := v]) = v * 2 ^ (i + k)"
  using blocks_bytes_update [of k "replicate n 0" i v] by (simp add: blocks_bytes_replicate_zero)

lemma products_fit_single:
  "0 \<le> v \<Longrightarrow> v * 2 ^ (i + k) < 2 ^ 64 \<Longrightarrow> products_fit i ((replicate n 0)[k := v])"
proof (induction n arbitrary: i k)
  case (Suc n)
  show ?case
  proof (cases k)
    case 0
    have "products_fit j (replicate n 0)" for j by (induction n arbitrary: j) auto
    then show ?thesis using Suc.prems 0 by simp
  next
    case (Suc k')
    then show ?thesis using Suc.IH [of "Suc i" k'] Suc.prems by simp
  qed
qed simp

lemma CalcTotalSizeBytes_single:
  assumes "0 \<le> v" "v * 2 ^ k < 2 ^ 64" "k < 32" "CalcTotalSizeBytes (mem_single k v) = Inr n"
  shows "n = v * 2 ^ k"
  using CalcTotalSizeBytes_eq [of "mem_single k v"] products_fit_single [of v 0 k 32] assms blocks_bytes_single [of k 32 0 v]
  by (auto simp: mem_single_def mem_bytes_def split: if_splits)

text \<open>The bytes of a plane's rows, as the requirements and the export both count them.\<close>

definition plane_of :: "u64 \<Rightarrow> Size2D \<Rightarrow> nat \<Rightarrow> Size2D" where
  "plane_of fmt sz p = projr (planeSize fmt sz (int p))"

definition plane_bytes :: "u64 \<Rightarrow> Size2D \<Rightarrow> int list \<Rightarrow> nat \<Rightarrow> int" where
  "plane_bytes fmt sz strides p = height_px (plane_of fmt sz p) * strides ! p"

lemma export_planes_eq:
  assumes "\<And>p. p \<in> set ps \<Longrightarrow> \<exists>s. planeSize fmt sz (int p) = Inr s"
  shows "export_planes fmt sz strides buf ps off =
    Inr (map (\<lambda>i. \<lparr>pl_width = width_px (plane_of fmt sz (ps ! i)), pl_height = height_px (plane_of fmt sz (ps ! i)),
           pl_rowStride = strides ! (ps ! i),
           pl_basePtr = buf + word_of_int (off + sum_list (map (plane_bytes fmt sz strides) (take i ps)))\<rparr>) [0..<length ps],
         off + sum_list (map (plane_bytes fmt sz strides) ps))"
  using assms
proof (induction ps arbitrary: off)
  case (Cons p ps)
  obtain s where s: "planeSize fmt sz (int p) = Inr s" using Cons.prems by auto
  have u: "[0..<length (p # ps)] = 0 # map Suc [0..<length ps]" by (simp add: upt_conv_Cons map_Suc_upt del: upt_Suc)
  show ?case using Cons.IH Cons.prems s unfolding u
    by (simp add: plane_of_def plane_bytes_def Let_def add.assoc)
qed simp

text \<open>One block size, every row stride rounded up, and at least the bytes of all planes.\<close>

lemma plane_mem_loop_single:
  assumes "plane_mem_loop fmt sz ra (2 ^ k) ps (strides, mem_single k v) = Inr (strides', mem')" "k < 32" "0 \<le> v"
    and "distinct ps" "list_all (\<lambda>p. p < length strides) ps"
    and "\<forall>p \<in> set ps. \<forall>s n. planeSize fmt sz (int p) = Inr s \<longrightarrow> planePixelStrideBytes fmt (int p) = Inr n \<longrightarrow>
        0 \<le> height_px s \<and> 0 \<le> RoundUpPowerOfTwo (width_px s * n) ra \<and> RoundUpPowerOfTwo (width_px s * n) ra < 2 ^ 31"
  shows "(\<forall>p \<in> set ps. \<exists>s n. planeSize fmt sz (int p) = Inr s \<and> planePixelStrideBytes fmt (int p) = Inr n
           \<and> strides' ! p = RoundUpPowerOfTwo (width_px s * n) ra)
    \<and> length strides' = length strides \<and> (\<forall>p. p \<notin> set ps \<longrightarrow> strides' ! p = strides ! p)
    \<and> (\<exists>v'. mem' = mem_single k v' \<and> 0 \<le> v'
         \<and> v * 2 ^ k + sum_list (map (plane_bytes fmt sz strides') ps) \<le> v' * 2 ^ k
         \<and> v' * 2 ^ k \<le> v * 2 ^ k + sum_list (map (plane_bytes fmt sz strides') ps) + int (length ps) * 2 ^ k)"
  using assms
proof (induction ps arbitrary: strides v)
  case (Cons p ps)
  from Cons.prems(1) obtain s n m1 where s: "planeSize fmt sz (int p) = Inr s" and n: "planePixelStrideBytes fmt (int p) = Inr n"
    and add: "AddBuffer (mem_single k v) (wrap32 (RoundUpPowerOfTwo (width_px s * n) ra) * height_px s) (2 ^ k) = Inr m1"
    and rest: "plane_mem_loop fmt sz ra (2 ^ k) ps (strides[p := wrap32 (RoundUpPowerOfTwo (width_px s * n) ra)], m1) = Inr (strides', mem')"
    by (auto simp: result_simps Let_def)
  define st where "st = RoundUpPowerOfTwo (width_px s * n) ra"
  have po: "plane_of fmt sz p = s" using s by (simp add: plane_of_def)
  have st: "0 \<le> st" "st < 2 ^ 31" "0 \<le> height_px s"
    using Cons.prems(6) n s by (simp_all add: st_def)
  have w: "wrap32 st = st" using st by simp
  let ?d = "DivUp (st * height_px s) (2 ^ k)"
  have m1: "m1 = mem_single k (v + ?d)" "0 \<le> v + ?d"
    using AddBuffer_single [OF add Cons.prems(2)] w st Cons.prems(3) DivUp_nonneg [of "2 ^ k" "st * height_px s"]
    unfolding st_def [symmetric] by simp_all
  have ih: "(\<forall>p \<in> set ps. \<exists>s n. planeSize fmt sz (int p) = Inr s \<and> planePixelStrideBytes fmt (int p) = Inr n
           \<and> strides' ! p = RoundUpPowerOfTwo (width_px s * n) ra)
    \<and> length strides' = length (strides[p := st]) \<and> (\<forall>q. q \<notin> set ps \<longrightarrow> strides' ! q = strides[p := st] ! q)
    \<and> (\<exists>v'. mem' = mem_single k v' \<and> 0 \<le> v'
         \<and> (v + ?d) * 2 ^ k + sum_list (map (plane_bytes fmt sz strides') ps) \<le> v' * 2 ^ k
         \<and> v' * 2 ^ k \<le> (v + ?d) * 2 ^ k + sum_list (map (plane_bytes fmt sz strides') ps) + int (length ps) * 2 ^ k)"
    using rest Cons.prems w unfolding m1 st_def [symmetric]
    by (intro Cons.IH) (auto simp: m1(2))
  have sp: "strides' ! p = st" using ih Cons.prems(4,5) by simp
  have b: "plane_bytes fmt sz strides' p = st * height_px s" by (simp add: plane_bytes_def po sp mult.commute)
  have d: "st * height_px s \<le> ?d * 2 ^ k" "?d * 2 ^ k < st * height_px s + 2 ^ k"
    using DivUp_bounds [of "2 ^ k" "st * height_px s"] by simp_all
  show ?case using ih s n sp b d Cons.prems(4) unfolding st_def
    by (auto simp: distrib_right)
qed auto

text \<open>The row alignment that the requirements use is a power of two of at most \<open>2\<^sup>30\<close>.\<close>

lemma RoundUpPowerOfTwo_row:
  assumes "0 \<le> n" "n < 2 ^ 30" "j \<le> 30"
  shows "n \<le> RoundUpPowerOfTwo n (2 ^ j) \<and> RoundUpPowerOfTwo n (2 ^ j) < 2 ^ 31"
proof -
  have "(2 :: int) ^ j \<le> 2 ^ 30" using assms(3) by (rule power_increasing) simp
  then show ?thesis
    using RoundUp_ge [of "2 ^ j" n] RoundUp_less [of "2 ^ j" n] assms by (simp add: RoundUpPowerOfTwo_exp)
qed

lemma image_rowAlign_power:
  assumes "image_rowAlign cuda dev u = Inr ra" "0 \<le> u" "u \<le> 2 ^ 30"
    and "cudaDeviceGetAttribute cuda cudaDevAttrTexturePitchAlignment dev = (cudaSuccess, pa)" "0 < pa" "pa \<le> 2 ^ 30"
  obtains j where "RoundUpNextPowerOfTwo 32 ra = 2 ^ j" "j \<le> 30"
proof -
  have ra: "0 < ra" "ra \<le> 2 ^ 30" using assms by (auto simp: image_rowAlign_def check_value_def result_simps split: if_splits)
  then obtain k where k: "RoundUpNextPowerOfTwo 32 ra = 2 ^ k" "\<forall>j. ra \<le> 2 ^ j \<longrightarrow> k \<le> j"
    using RoundUpNextPowerOfTwo_spec [of ra 32] by auto
  then show ?thesis using that ra(2) by blast
qed

lemma sum_list_le: "(\<And>x. x \<in> set xs \<Longrightarrow> f x \<le> (b :: int)) \<Longrightarrow> sum_list (map f xs) \<le> int (length xs) * b"
proof (induction xs)
  case (Cons x xs)
  have "f x \<le> b" using Cons.prems by simp
  moreover have "sum_list (map f xs) \<le> int (length xs) * b" using Cons by simp
  ultimately show ?case by (simp add: distrib_right)
qed simp

lemma plane_mem_loop_block:
  assumes "plane_mem_loop fmt sz ra ba (p # ps) (strides, mem) = Inr r" "ba \<le> 2 ^ 32"
  obtains k where "ba = 2 ^ k" "k < 32"
proof -
  from assms(1) obtain n m where "AddBuffer mem n ba = Inr m" by (auto simp: result_simps Let_def)
  then have "valid_block ba" using AddBuffer_rejects [of ba mem n] assms(2) by fastforce
  then show ?thesis using that by (auto simp: valid_block_def NVCV_MAX_MEM_REQUIREMENTS_LOG2_BLOCK_SIZE_def)
qed

text \<open>Every plane has a pixel size, and a row of the full width fits \<open>2\<^sup>30\<close> bytes.\<close>

definition rows_fit :: "u64 \<Rightarrow> Size2D \<Rightarrow> bool" where
  "rows_fit fmt sz \<longleftrightarrow>
     list_all (\<lambda>p. case planePixelStrideBytes fmt (int p) of Inr n \<Rightarrow> 0 \<le> n \<and> width_px sz * n < 2 ^ 30 | Inl _ \<Rightarrow> False)
       [0..<numPlanes fmt]"

definition size_fits :: "Size2D \<Rightarrow> bool" where
  "size_fits sz \<longleftrightarrow> 0 < width_px sz \<and> width_px sz < 2 ^ 29 \<and> 0 < height_px sz \<and> height_px sz < 2 ^ 29"

lemma plane_row_bounds:
  assumes "size_fits sz" "rows_fit fmt sz" "p < numPlanes fmt" "planeSize fmt sz (int p) = Inr s"
    and "planePixelStrideBytes fmt (int p) = Inr n" "j \<le> 30"
  shows "0 \<le> height_px s" "height_px s < 2 ^ 29" "width_px s * n \<le> RoundUpPowerOfTwo (width_px s * n) (2 ^ j)"
    "0 \<le> RoundUpPowerOfTwo (width_px s * n) (2 ^ j)" "RoundUpPowerOfTwo (width_px s * n) (2 ^ j) < 2 ^ 31"
proof -
  have b: "0 \<le> width_px s" "width_px s \<le> width_px sz" "0 \<le> height_px s" "height_px s \<le> height_px sz"
    using planeSize_bounds [OF assms(4)] assms(1) by (simp_all add: size_fits_def)
  have "case planePixelStrideBytes fmt (int p) of Inr n \<Rightarrow> 0 \<le> n \<and> width_px sz * n < 2 ^ 30 | Inl _ \<Rightarrow> False"
    using assms(2,3) unfolding rows_fit_def list_all_iff by simp
  then have n: "0 \<le> n" "width_px sz * n < 2 ^ 30" unfolding assms(5) by simp_all
  have "0 \<le> width_px s * n" "width_px s * n < 2 ^ 30"
    using b n mult_right_mono [OF b(2) n(1)] by simp_all
  then show "width_px s * n \<le> RoundUpPowerOfTwo (width_px s * n) (2 ^ j)"
    "0 \<le> RoundUpPowerOfTwo (width_px s * n) (2 ^ j)" "RoundUpPowerOfTwo (width_px s * n) (2 ^ j) < 2 ^ 31"
    using RoundUpPowerOfTwo_row [of "width_px s * n" j] assms(6) by simp_all
  show "0 \<le> height_px s" "height_px s < 2 ^ 29" using b assms(1) by (simp_all add: size_fits_def)
qed

text \<open>What the requirements of an image say about its planes.\<close>

lemma Image_CalcRequirements_planes:
  assumes "Image_CalcRequirements cuda old sz fmt ub ur = Inr reqs" "length old = 6" "size_fits sz" "rows_fit fmt sz"
    and "0 \<le> ur" "ur \<le> 2 ^ 30" "\<And>dev. cudaDeviceGetAttribute cuda cudaDevAttrTexturePitchAlignment dev = (cudaSuccess, pa)"
    and "0 < pa" "pa \<le> 2 ^ 30"
    and "CalcTotalSizeBytes (cudaMem (ir_mem reqs)) = Inr tot"
  shows "ir_format reqs = fmt \<and> ir_width reqs = width_px sz \<and> ir_height reqs = height_px sz
    \<and> (\<forall>p < numPlanes fmt. \<exists>s n. planeSize fmt sz (int p) = Inr s \<and> planePixelStrideBytes fmt (int p) = Inr n
         \<and> width_px s * n \<le> ir_planeRowStride reqs ! p)
    \<and> sum_list (map (plane_bytes fmt sz (ir_planeRowStride reqs)) [0..<numPlanes fmt]) \<le> tot"
proof (cases "numPlanes fmt = 0")
  case True
  have "CalcTotalSizeBytes mem_zero = Inr 0"
    using calc_total_loop_zeros [of 0 32 0]
    by (simp add: CalcTotalSizeBytes_def mem_zero_def NVCV_MAX_MEM_REQUIREMENTS_LOG2_BLOCK_SIZE_def INT64_MAX_def)
  then show ?thesis using assms(1,10) True
    by (auto simp: Image_CalcRequirements_def Let_def result_simps Requirements_Init_def)
next
  case False
  from assms(1) obtain dev ra ba st mem where ra: "image_rowAlign cuda dev ur = Inr ra" and ba: "ba \<le> 2 ^ 32"
    and loop: "plane_mem_loop fmt sz (RoundUpNextPowerOfTwo 32 ra) ba [0..<numPlanes fmt] (old, mem_zero) = Inr (st, mem)"
    and reqs: "reqs = \<lparr>ir_width = width_px sz, ir_height = height_px sz, ir_format = fmt, ir_planeRowStride = st,
          ir_alignBytes = ba, ir_mem = Requirements_Init\<lparr>cudaMem := mem\<rparr>\<rparr>"
    by (auto simp: Image_CalcRequirements_def Let_def result_simps NVCV_MAX_MEM_REQUIREMENTS_BLOCK_SIZE_def
        NVCV_MAX_MEM_REQUIREMENTS_LOG2_BLOCK_SIZE_def)
  obtain j where j: "RoundUpNextPowerOfTwo 32 ra = 2 ^ j" "j \<le> 30"
    using image_rowAlign_power [OF ra assms(5,6) assms(7-9)] by blast
  obtain k where k: "ba = 2 ^ k" "k < 32"
    using plane_mem_loop_block loop ba False by (metis not_gr_zero upt_conv_Cons)
  let ?ps = "[0..<numPlanes fmt]"
  note row = plane_row_bounds [OF assms(3,4) _ _ _ j(2)]
  have len: "list_all (\<lambda>p. p < length old) ?ps" using numPlanes_le [of fmt] assms(2) by (auto simp: list_all_iff)
  have "\<forall>p \<in> set ?ps. \<forall>s n. planeSize fmt sz (int p) = Inr s \<longrightarrow> planePixelStrideBytes fmt (int p) = Inr n \<longrightarrow>
    0 \<le> height_px s \<and> 0 \<le> RoundUpPowerOfTwo (width_px s * n) (2 ^ j) \<and> RoundUpPowerOfTwo (width_px s * n) (2 ^ j) < 2 ^ 31"
    using row by simp
  note res = plane_mem_loop_single [OF loop [unfolded j(1) k(1), folded mem_single_zero [of k]] k(2) order.refl
      distinct_upt len this]
  then obtain v where v: "mem = mem_single k v" "0 \<le> v"
    "sum_list (map (plane_bytes fmt sz st) ?ps) \<le> v * 2 ^ k"
    "v * 2 ^ k \<le> sum_list (map (plane_bytes fmt sz st) ?ps) + int (numPlanes fmt) * 2 ^ k" by auto
  have pl: "\<exists>s n. planeSize fmt sz (int p) = Inr s \<and> planePixelStrideBytes fmt (int p) = Inr n
      \<and> st ! p = RoundUpPowerOfTwo (width_px s * n) (2 ^ j)" if "p < numPlanes fmt" for p using res that by auto
  have "plane_bytes fmt sz st p \<le> 2 ^ 29 * 2 ^ 31" if p: "p \<in> set ?ps" for p
  proof -
    obtain s n where s: "planeSize fmt sz (int p) = Inr s" "planePixelStrideBytes fmt (int p) = Inr n"
      "st ! p = RoundUpPowerOfTwo (width_px s * n) (2 ^ j)" using pl [of p] p by auto
    show ?thesis unfolding plane_bytes_def plane_of_def s(1,3) sum.sel
      using row [of p s n] s p by (intro mult_mono) auto
  qed
  from sum_list_le [of ?ps, OF this] have "sum_list (map (plane_bytes fmt sz st) ?ps) \<le> int (numPlanes fmt) * (2 ^ 29 * 2 ^ 31)"
    by simp
  moreover have "int (numPlanes fmt) * (2 ^ 29 * 2 ^ 31) \<le> 4 * (2 ^ 29 * 2 ^ 31)" using numPlanes_le [of fmt] by simp
  moreover have "int (numPlanes fmt) * 2 ^ k \<le> 4 * 2 ^ 32"
    using numPlanes_le [of fmt] k(2) by (intro mult_mono power_increasing) auto
  ultimately have "v * 2 ^ k < 2 ^ 64" using v(4) by simp
  then have "tot = v * 2 ^ k"
    using CalcTotalSizeBytes_single [OF v(2) _ k(2)] assms(10) reqs v(1) by simp
  moreover have "\<exists>s n. planeSize fmt sz (int p) = Inr s \<and> planePixelStrideBytes fmt (int p) = Inr n
      \<and> width_px s * n \<le> st ! p" if "p < numPlanes fmt" for p
    using pl [OF that] row(3) [OF that] by metis
  ultimately show ?thesis using v(3) reqs by simp
qed


text \<open>
  An NV12 image (code 422349905723523: 8-bit luma plane, interleaved chroma plane of half the
  width and height) of 6 by 4 pixels on a device with the usual texture alignments.
\<close>

definition usual_device :: device where
  "usual_device = \<lparr>cudaGetDevice = (cudaSuccess, 0),
     cudaDeviceGetAttribute = (\<lambda>attr dev. case attr of
        cudaDevAttrTexturePitchAlignment \<Rightarrow> (cudaSuccess, 32) | cudaDevAttrTextureAlignment \<Rightarrow> (cudaSuccess, 512))\<rparr>"

definition nv12 :: u64 where "nv12 = 422349905723523"

abbreviation "nv12_size \<equiv> \<lparr>width_px = 6, height_px = 4\<rparr> :: Size2D"

definition nv12_reqs :: NVCVImageRequirements where
  "nv12_reqs = \<lparr>ir_width = 6, ir_height = 4, ir_format = nv12, ir_planeRowStride = [32, 32, 0, 0, 0, 0],
     ir_alignBytes = 512, ir_mem = Requirements_Init\<lparr>cudaMem := mem_single 9 2\<rparr>\<rparr>"

lemma nv12_planes:
  "numPlanes nv12 = 2" "memLayout nv12 = 0" "planeSize nv12 nv12_size 0 = Inr nv12_size"
  "planeSize nv12 nv12_size 1 = Inr \<lparr>width_px = 3, height_px = 2\<rparr>"
  by code_simp+

lemma nv12_types:
  "planeDataType nv12 0 = 171798626433" "planeDataType nv12 1 = 1408749207682"
  "dt_strideBytes 171798626433 = Inr 1" "dt_strideBytes 1408749207682 = Inr 2"
  by code_simp+

lemma nv12_pixels: "planePixelStrideBytes nv12 0 = Inr 1" "planePixelStrideBytes nv12 1 = Inr 2"
  by (simp_all add: planePixelStrideBytes_def nv12_types)

lemma nv12_buffers:
  "AddBuffer mem_zero 128 512 = Inr (mem_single 9 1)" "AddBuffer (mem_single 9 1) 64 512 = Inr (mem_single 9 2)"
  "RoundUpNextPowerOfTwo 32 32 = 32" "lcm 512 (32 :: int) = 512" "RoundUpPowerOfTwo 6 32 = 32"
  by code_simp+

lemma two_planes: "[0..<2] = [0, 1 :: nat]"
  by (simp add: upt_rec)

lemma nv12_requirements: "Image_CalcRequirements usual_device [0, 0, 0, 0, 0, 0] nv12_size nv12 0 0 = Inr nv12_reqs"
  using nv12_buffers
  by (simp add: Image_CalcRequirements_def usual_device_def check_value_def image_rowAlign_def image_baseAlign_def
      nv12_planes nv12_pixels two_planes Let_def nv12_reqs_def NVCV_MAX_MEM_REQUIREMENTS_BLOCK_SIZE_def
      NVCV_MAX_MEM_REQUIREMENTS_LOG2_BLOCK_SIZE_def)


text \<open>
  The pixel sizes do not enter the alignment: with both alignments requested as 1 every image,
  whatever its pixels, gets a buffer without alignment. And sizes that are not positive pass.
\<close>

lemma pixel_alignment_ignored:
  assumes "Image_CalcRequirements cuda old sz fmt 1 1 = Inr reqs"
  shows "ir_alignBytes reqs = 1"
  using assms by (auto simp: Image_CalcRequirements_def image_rowAlign_def image_baseAlign_def Let_def result_simps)

lemma negative_height_accepted:
  "AddBuffer mem_zero (32 * - 4) 512 = Inr mem_zero"
  by code_simp

text \<open>More planes than the array holds pass the checks up to the read behind the array.\<close>

lemma seventh_plane_read:
  assumes "pl_width pl = 1" "pl_height pl = 1" "pl_basePtr pl = 1" "memLayout fmt = NVCV_MEM_LAYOUT_PL"
  shows "doValidateData \<lparr>id_format = fmt, id_bufferType = 1, id_numPlanes = 7, id_planes = replicate 6 pl\<rparr> = Inl OutOfBounds"
  using assms by (simp add: doValidateData_def upt_rec numeral_eq_Suc)

end
