(* ===== verification/Tensor_Data.thy ===== *)
theory Tensor_Data
  imports Tensor_Wrap Image_Object
begin

text \<open>
  Tensor objects (\<open>src/nvcv/src/priv/Tensor.cpp\<close>) and images seen as tensors
  (\<open>GetTensorLayoutFor\<close> and \<open>FillTensorData\<close> of \<open>TensorData.cpp\<close>).
\<close>

section \<open>Requirements\<close>

record NVCVTensorRequirements =
  tr_dtype :: u64
  tr_layout :: NVCVTensorLayout
  tr_rank :: int
  tr_shape :: "int list"
  tr_strides :: "int list"
  tr_alignBytes :: int
  tr_mem :: NVCVRequirements

definition GetTensorLayoutFor :: "u64 \<Rightarrow> int \<Rightarrow> NVCVTensorLayout result" where
  "GetTensorLayoutFor fmt nbatches =
     (let nplanes = numPlanes fmt in
      if nplanes = 1 then Inr NVCV_TENSOR_NHWC
      else if nplanes = fmt_numChannels fmt then Inr NVCV_TENSOR_NCHW
      else Inl (Throw NVCV_ERROR_INVALID_ARGUMENT))"

definition tensor_rowAlign :: "device \<Rightarrow> int \<Rightarrow> u64 \<Rightarrow> int \<Rightarrow> int result" where
  "tensor_rowAlign cuda dev dtype userRowAlign =
     (if userRowAlign = 0 then
        bind_result (check_value (cudaDeviceGetAttribute cuda cudaDevAttrTexturePitchAlignment dev)) (\<lambda>rowAlign.
        bind_result (dt_strideBytes dtype) (\<lambda>n. Inr (lcm rowAlign (RoundUpNextPowerOfTwo 32 n))))
      else
        throw_if (\<not> IsPowerOfTwo userRowAlign) NVCV_ERROR_INVALID_ARGUMENT
       (bind_result (dt_alignment dtype) (\<lambda>n. Inr (lcm userRowAlign n))))"

definition tensor_baseAlign :: "device \<Rightarrow> int \<Rightarrow> int \<Rightarrow> int \<Rightarrow> int result" where
  "tensor_baseAlign cuda dev userBaseAlign rowAlign =
     (if userBaseAlign = 0 then
        bind_result (check_value (cudaDeviceGetAttribute cuda cudaDevAttrTextureAlignment dev)) (\<lambda>addrAlign.
        let a = RoundUpNextPowerOfTwo 32 (lcm addrAlign rowAlign) in
        throw_if (a > NVCV_MAX_MEM_REQUIREMENTS_BLOCK_SIZE) NVCV_ERROR_INVALID_ARGUMENT (Inr a))
      else
        throw_if (\<not> IsPowerOfTwo userBaseAlign) NVCV_ERROR_INVALID_ARGUMENT (Inr (lcm rowAlign userBaseAlign)))"

text \<open>One turn of the stride loop, from the last dimension but one down to the first.\<close>

definition stride_step :: "int \<Rightarrow> int \<Rightarrow> int list \<Rightarrow> nat \<Rightarrow> int list \<Rightarrow> int list" where
  "stride_step rowAlign firstPacked shape d strides =
     strides[d := (if int d = firstPacked - 1
                   then RoundUpPowerOfTwo (wrap64 (shape ! Suc d * strides ! Suc d)) rowAlign
                   else wrap64 (strides ! Suc d * shape ! Suc d))]"

text \<open>
  \<open>shape\<close> has at least \<open>rank\<close> entries; \<open>old\<close> is the uninitialised requirements object and the
  uninitialised layout that \<open>CreateLast\<close> fills, which always returns for a count of 2. Copying
  more than 15 extents leaves the array.
\<close>

definition Tensor_CalcRequirements ::
    "device \<Rightarrow> NVCVTensorRequirements \<Rightarrow> string \<Rightarrow> int \<Rightarrow> int list \<Rightarrow> u64 \<Rightarrow> NVCVTensorLayout \<Rightarrow> int \<Rightarrow> int
     \<Rightarrow> NVCVTensorRequirements result" where
  "Tensor_CalcRequirements cuda old oldl rank shape dtype layout userBaseAlign userRowAlign =
     throw_if (tl_rank layout > 0 \<and> rank \<noteq> tl_rank layout) NVCV_ERROR_INVALID_ARGUMENT
    (throw_if (rank \<le> 0) NVCV_ERROR_INVALID_ARGUMENT
    (in_bounds (rank \<le> NVCV_TENSOR_MAX_RANK)
    (let sh = copy_front (take (nat rank) shape) (tr_shape old) in
     bind_result (check_value (cudaGetDevice cuda)) (\<lambda>dev.
     bind_result (tensor_rowAlign cuda dev dtype userRowAlign) (\<lambda>rowAlign.
     bind_result (tensor_baseAlign cuda dev userBaseAlign rowAlign) (\<lambda>alignBytes.
     bind_result (case CreateLast oldl layout 2 of Some r \<Rightarrow> r | None \<Rightarrow> Inl AssertFailed) (\<lambda>last2.
     let firstPacked = (if layout_eq last2 NVCV_TENSOR_WC then max 0 (rank - 2) else rank - 1) in
     bind_result (dt_strideBytes dtype) (\<lambda>n.
     let strides = fold (stride_step rowAlign firstPacked sh) (rev [0..<nat (rank - 1)]) ((tr_strides old)[nat (rank - 1) := n]) in
     bind_result (AddBuffer mem_zero (wrap64 (strides ! 0 * sh ! 0)) alignBytes) (\<lambda>mem.
     Inr \<lparr>tr_dtype = dtype, tr_layout = layout, tr_rank = rank, tr_shape = sh, tr_strides = strides,
          tr_alignBytes = alignBytes, tr_mem = Requirements_Init\<lparr>cudaMem := mem\<rparr>\<rparr>)))))))))"

text \<open>The requirements of a batch of images of one format.\<close>

definition Tensor_CalcRequirements_images ::
    "device \<Rightarrow> NVCVTensorRequirements \<Rightarrow> string \<Rightarrow> int list \<Rightarrow> int \<Rightarrow> Size2D \<Rightarrow> u64 \<Rightarrow> int \<Rightarrow> int \<Rightarrow> NVCVTensorRequirements result" where
  "Tensor_CalcRequirements_images cuda old oldl oldsh numImages imgSize fmt userBaseAlign userRowAlign =
     throw_if (memLayout fmt \<noteq> NVCV_MEM_LAYOUT_PL) NVCV_ERROR_NOT_IMPLEMENTED
    (throw_if (css fmt \<noteq> NVCV_CSS_444) NVCV_ERROR_NOT_IMPLEMENTED
    (throw_if (numPlanes fmt \<noteq> 1 \<and> numPlanes fmt \<noteq> fmt_numChannels fmt) NVCV_ERROR_INVALID_ARGUMENT
    (throw_if (list_ex (\<lambda>p. planePacking fmt (int p) \<noteq> planePacking fmt 0) [1..<numPlanes fmt]) NVCV_ERROR_INVALID_ARGUMENT
    (bind_result (GetTensorLayoutFor fmt numImages) (\<lambda>layout.
     bind_result (PermuteShape NVCV_TENSOR_NCHW
         (Some [numImages, int (fmt_numChannels fmt), height_px imgSize, width_px imgSize]) layout (Some oldsh)) (\<lambda>shape.
     bind_result (GetPackingParams (planePacking fmt 0)) (\<lambda>params.
     case MakeNVCVPacking (params\<lparr>swizzle := NVCV_SWIZZLE_X000, bits := take 1 (bits params) @ replicate 3 0\<rparr>) of
       None \<Rightarrow> Inl (Throw NVCV_ERROR_INVALID_ARGUMENT)
     | Some chPacking \<Rightarrow>
         Tensor_CalcRequirements cuda old oldl (tl_rank layout) shape (MAKE_DATA_TYPE (dataKind fmt) chPacking) layout
           userBaseAlign userRowAlign)))))))"

section \<open>Tensor objects\<close>

record 's Tensor =
  te_alloc :: "'s IAllocator"
  te_reqs :: NVCVTensorRequirements
  te_memBuffer :: ptr

definition Tensor_AllocateBuffer :: "'s IAllocator \<Rightarrow> NVCVTensorRequirements \<Rightarrow> (ptr, 's) st" where
  "Tensor_AllocateBuffer alloc reqs =
     st_bind (st_lift (CalcTotalSizeBytes (cudaMem (tr_mem reqs)))) (\<lambda>bufSize.
     st_bind (allocCudaMem alloc bufSize (tr_alignBytes reqs)) (\<lambda>buffer.
     st_throw_if (buffer = 0) AssertFailed (st_return buffer)))"

definition Tensor_ctor :: "NVCVTensorRequirements \<Rightarrow> 's IAllocator \<Rightarrow> ('s Tensor, 's) st" where
  "Tensor_ctor reqs alloc =
     st_bind (Tensor_AllocateBuffer alloc reqs) (\<lambda>buffer.
       st_return \<lparr>te_alloc = alloc, te_reqs = reqs, te_memBuffer = buffer\<rparr>)"

definition Tensor_dtor :: "'s Tensor \<Rightarrow> 's \<Rightarrow> 's result" where
  "Tensor_dtor t s =
     bind_result (CalcTotalSizeBytes (cudaMem (tr_mem (te_reqs t)))) (\<lambda>n.
       Inr (freeCudaMem (te_alloc t) (te_memBuffer t) n (tr_alignBytes (te_reqs t)) s))"

definition Tensor_exportData :: "'s Tensor \<Rightarrow> NVCVTensorData" where
  "Tensor_exportData t =
     (let reqs = te_reqs t in
      \<lparr>td_dtype = tr_dtype reqs, td_layout = tr_layout reqs, td_rank = tr_rank reqs, td_shape = tr_shape reqs,
       td_bufferType = NVCV_TENSOR_BUFFER_STRIDED_CUDA, td_strides = tr_strides reqs, td_basePtr = te_memBuffer t\<rparr>)"

section \<open>Images as tensors\<close>

definition plane_compatible :: "NVCVImagePlaneStrided list \<Rightarrow> nat \<Rightarrow> bool" where
  "plane_compatible planes p \<longleftrightarrow>
     pl_width (planes ! p) = pl_width (planes ! 0) \<and> pl_height (planes ! p) = pl_height (planes ! 0)
   \<and> pl_rowStride (planes ! p) = pl_rowStride (planes ! 0) \<and> pl_basePtr (planes ! 0) < pl_basePtr (planes ! p)
   \<and> (p \<ge> 2 \<longrightarrow> pl_basePtr (planes ! p) - pl_basePtr (planes ! (p - 1)) = pl_basePtr (planes ! 1) - pl_basePtr (planes ! 0))"

text \<open>The tensor after \<open>tensorData = {}\<close>.\<close>

definition tensor_data_zero :: NVCVTensorData where
  "tensor_data_zero = \<lparr>td_dtype = 0, td_layout = \<lparr>tl_data = replicate 16 (CHR 0x00), tl_rank = 0\<rparr>, td_rank = 0,
     td_shape = replicate 15 0, td_bufferType = NVCV_TENSOR_BUFFER_NONE, td_strides = replicate 15 0, td_basePtr = 0\<rparr>"

text \<open>The image is given by its format and the outcome of its \<open>exportData\<close>.\<close>

definition FillTensorData :: "u64 \<Rightarrow> NVCVImageData result \<Rightarrow> NVCVTensorData result" where
  "FillTensorData fmt export =
     throw_if (memLayout fmt \<noteq> NVCV_MEM_LAYOUT_PL) NVCV_ERROR_INVALID_ARGUMENT
    (throw_if (css fmt \<noteq> NVCV_CSS_444) NVCV_ERROR_INVALID_ARGUMENT
    (throw_if (list_ex (\<lambda>p. planeDataType fmt (int p) \<noteq> planeDataType fmt 0) [1..<numPlanes fmt]) NVCV_ERROR_INVALID_ARGUMENT
    (bind_result export (\<lambda>imgData.
     throw_if (id_bufferType imgData \<noteq> NVCV_IMAGE_BUFFER_STRIDED_CUDA) NVCV_ERROR_INVALID_ARGUMENT
    (let planes = id_planes imgData; plane = planes ! 0; nplanes = id_numPlanes imgData in
     throw_if (list_ex (\<lambda>p. \<not> plane_compatible planes p) [1..<nat nplanes]) NVCV_ERROR_INVALID_ARGUMENT
    (bind_result (fmt_bpc fmt) (\<lambda>bits.
     let sameBPC = list_all (\<lambda>i. bits ! i = bits ! 0) [1..<fmt_numChannels fmt];
         channelsLast = (nplanes = 1 \<and> fmt_numChannels fmt \<ge> 2 \<and> sameBPC);
         h = pl_height plane; w = pl_width plane; row = pl_rowStride plane; ch = int (fmt_numChannels fmt) in
     bind_result (planePixelStrideBytes fmt 0) (\<lambda>px.
     if channelsLast then
       bind_result (dt_channelType (planeDataType fmt 0) 0) (\<lambda>dtype.
       Inr (tensor_data_zero\<lparr>td_bufferType := NVCV_TENSOR_BUFFER_STRIDED_CUDA, td_layout := NVCV_TENSOR_NHWC, td_rank := 4,
              td_shape := copy_front [1, h, w, ch] (td_shape tensor_data_zero),
              td_strides := copy_front [wrap64 (row * h), row, px, px sdiv ch] (td_strides tensor_data_zero),
              td_dtype := dtype, td_basePtr := pl_basePtr plane\<rparr>))
     else
       Inr (tensor_data_zero\<lparr>td_bufferType := NVCV_TENSOR_BUFFER_STRIDED_CUDA, td_layout := NVCV_TENSOR_NCHW, td_rank := 4,
              td_shape := copy_front [1, nplanes, h, w] (td_shape tensor_data_zero),
              td_strides := copy_front [wrap64 (wrap64 (row * h) * nplanes), wrap64 (row * h), row, px] (td_strides tensor_data_zero),
              td_dtype := planeDataType fmt 0, td_basePtr := pl_basePtr plane\<rparr>)))))))))"

section \<open>The strides of a tensor\<close>

lemma stride_fold:
  assumes "st = fold (stride_step ra fp sh) (rev [0..<k]) s0" "k < length s0"
  shows "length st = length s0 \<and> (\<forall>i \<ge> k. st ! i = s0 ! i)
    \<and> (\<forall>d < k. st ! d = (if int d = fp - 1 then RoundUpPowerOfTwo (wrap64 (sh ! Suc d * st ! Suc d)) ra
                       else wrap64 (st ! Suc d * sh ! Suc d)))"
  using assms
proof (induction k arbitrary: s0)
  case (Suc k)
  let ?s1 = "stride_step ra fp sh k s0"
  have len: "length ?s1 = length s0" by (simp add: stride_step_def)
  have keep: "?s1 ! i = s0 ! i" if "i \<noteq> k" for i using that by (simp add: stride_step_def)
  have new: "?s1 ! k = (if int k = fp - 1 then RoundUpPowerOfTwo (wrap64 (sh ! Suc k * s0 ! Suc k)) ra
                        else wrap64 (s0 ! Suc k * sh ! Suc k))"
    using Suc.prems(2) by (simp add: stride_step_def)
  have "st = fold (stride_step ra fp sh) (rev [0..<k]) ?s1" using Suc.prems(1) by simp
  note ih = Suc.IH [OF this]
  show ?case using ih len keep new Suc.prems(2) by (auto simp: less_Suc_eq)
qed simp

text \<open>Each dimension is at least as far apart as everything inside it.\<close>

fun nested :: "int \<Rightarrow> (int \<times> int) list \<Rightarrow> bool" where
  "nested sb [] \<longleftrightarrow> True"
| "nested sb [(n, s)] \<longleftrightarrow> sb \<le> s"
| "nested sb ((n, s) # (m, t) # ds) \<longleftrightarrow> m * t \<le> s \<and> nested sb ((m, t) # ds)"

lemma nested_spread:
  assumes "nested sb ((n, s) # ds)" "0 \<le> sb" "list_all (\<lambda>d. 1 \<le> fst d) ((n, s) # ds)"
  shows "spread sb (n * s) ((n, s) # ds) \<and> 0 \<le> n * s"
  using assms
proof (induction ds arbitrary: n s)
  case Nil
  have "spread sb sb []" by (simp add: spread_def)
  then show ?case using spread_rows [of sb sb "[]" s "nat n"] Nil by simp
next
  case (Cons d ds)
  obtain m t where d: "d = (m, t)" by (cases d)
  have "spread sb (m * t) (d # ds) \<and> 0 \<le> m * t" using Cons d by simp
  then show ?case using spread_rows [of sb "m * t" "d # ds" s "nat n"] Cons.prems d by auto
qed

lemma nested_nonneg:
  "nested sb ds \<Longrightarrow> 0 \<le> sb \<Longrightarrow> list_all (\<lambda>d. 1 \<le> fst d) ds \<Longrightarrow> list_all (\<lambda>d. 0 \<le> snd d) ds"
proof (induction sb ds rule: nested.induct)
  case (3 sb n s m t ds)
  then have "0 \<le> m * t" "m * t \<le> s" by simp_all
  then have "0 \<le> s" by (rule order.trans)
  then show ?case using 3 by simp
qed auto

lemma nested_nth:
  "ds \<noteq> [] \<Longrightarrow> nested sb ds \<longleftrightarrow>
     sb \<le> snd (last ds) \<and> (\<forall>i. Suc i < length ds \<longrightarrow> fst (ds ! Suc i) * snd (ds ! Suc i) \<le> snd (ds ! i))"
proof (induction sb ds rule: nested.induct)
  case (3 sb n s m t ds)
  then show ?case by (auto simp: nth_Cons split: nat.splits)
qed auto

lemma lcm_two_powers: "lcm (2 ^ a) (2 ^ b :: int) = 2 ^ max a b"
proof (cases "a \<le> b")
  case True
  then have "(2 :: int) ^ a dvd 2 ^ b" by (rule le_imp_power_dvd)
  then show ?thesis using True by (simp add: lcm_proj2_if_dvd_int max_def)
next
  case False
  then have "(2 :: int) ^ b dvd 2 ^ a" by (intro le_imp_power_dvd) simp
  then show ?thesis using False by (simp add: lcm_proj1_if_dvd_int max_def)
qed

lemma tensor_rowAlign_power:
  assumes "tensor_rowAlign cuda dev dtype ur = Inr ra" "0 \<le> ur" "dt_strideBytes dtype = Inr sb" "0 < sb" "sb \<le> 2 ^ 32"
    and "dt_alignment dtype = Inr (2 ^ a)" "cudaDeviceGetAttribute cuda cudaDevAttrTexturePitchAlignment dev = (cudaSuccess, 2 ^ i)"
  obtains j where "ra = 2 ^ j"
proof (cases "ur = 0")
  case True
  obtain k where "RoundUpNextPowerOfTwo 32 sb = 2 ^ k" using RoundUpNextPowerOfTwo_spec [of sb 32] assms(4,5) by auto
  then show ?thesis using that assms(1,3,7) True by (auto simp: tensor_rowAlign_def check_value_def lcm_two_powers)
next
  case False
  then have "IsPowerOfTwo ur" "ra = lcm ur (2 ^ a)" using assms(1,6) by (auto simp: tensor_rowAlign_def result_simps)
  moreover obtain u where "ur = 2 ^ u" using IsPowerOfTwo_posD [of ur] calculation(1) assms(2) False by auto
  ultimately show ?thesis using that by (simp add: lcm_two_powers)
qed

text \<open>
  What a set of requirements says of the tensor made from it. The device's pitch alignment and
  the alignment of the data type are powers of two; the extents are positive and no product
  leaves 64 bits.
\<close>

definition calc_inputs_ok :: "device \<Rightarrow> NVCVTensorRequirements \<Rightarrow> int list \<Rightarrow> int \<Rightarrow> u64 \<Rightarrow> int \<Rightarrow> int \<Rightarrow> bool" where
  "calc_inputs_ok cuda old shape rank dtype sb ur \<longleftrightarrow>
     length (tr_shape old) = 15 \<and> length (tr_strides old) = 15 \<and> nat rank \<le> length shape
   \<and> list_all (\<lambda>n. 1 \<le> n) (take (nat rank) shape) \<and> dt_strideBytes dtype = Inr sb \<and> 0 < sb \<and> sb \<le> 2 ^ 32 \<and> 0 \<le> ur
   \<and> (\<exists>a < 32. dt_alignment dtype = Inr (2 ^ a))
   \<and> (\<exists>i < 32. cudaDeviceGetAttribute cuda cudaDevAttrTexturePitchAlignment (snd (cudaGetDevice cuda)) = (cudaSuccess, 2 ^ i))"

definition reqs_dims :: "NVCVTensorRequirements \<Rightarrow> (int \<times> int) list" where
  "reqs_dims reqs = take (nat (tr_rank reqs)) (zip (tr_shape reqs) (tr_strides reqs))"

lemma td_dims_export: "td_dims (Tensor_exportData t) = reqs_dims (te_reqs t)"
  by (simp add: td_dims_def reqs_dims_def Tensor_exportData_def Let_def)

text \<open>The facts about the strides that both properties below use.\<close>

lemma Tensor_reqs_strides:
  assumes "Tensor_CalcRequirements cuda old oldl rank shape dtype layout ub ur = Inr reqs"
    and "calc_inputs_ok cuda old shape rank dtype sb ur" "list_all dim_ok (reqs_dims reqs)"
  shows "1 \<le> rank \<and> rank \<le> 15 \<and> tr_rank reqs = rank \<and> tr_layout reqs = layout \<and> tr_dtype reqs = dtype
    \<and> length (tr_shape reqs) = 15 \<and> length (tr_strides reqs) = 15 \<and> length (reqs_dims reqs) = nat rank
    \<and> map fst (reqs_dims reqs) = take (nat rank) shape
    \<and> nested sb (reqs_dims reqs) \<and> snd (last (reqs_dims reqs)) = sb
    \<and> (\<exists>l. CreateLast oldl layout 2 = Some (Inr l) \<and> (layout_eq l NVCV_TENSOR_WC \<longrightarrow> 2 \<le> rank \<longrightarrow>
         snd (reqs_dims reqs ! (nat rank - 2)) = snd (reqs_dims reqs ! (nat rank - 1)) * fst (reqs_dims reqs ! (nat rank - 1))))
    \<and> (\<exists>mem. AddBuffer mem_zero (snd (hd (reqs_dims reqs)) * fst (hd (reqs_dims reqs))) (tr_alignBytes reqs) = Inr mem
         \<and> cudaMem (tr_mem reqs) = mem)"
proof -
  define k where "k = nat (rank - 1)"
  define sh where "sh = copy_front (take (nat rank) shape) (tr_shape old)"
  note conv = k_def [symmetric] sh_def [symmetric]
  obtain dev ra al l n mem where r: "\<not> rank \<le> 0" "rank \<le> 15" and dev: "check_value (cudaGetDevice cuda) = Inr dev"
    and ra: "tensor_rowAlign cuda dev dtype ur = Inr ra"
    and l0: "(case CreateLast oldl layout 2 of Some r \<Rightarrow> r | None \<Rightarrow> Inl AssertFailed) = Inr l"
    and n: "dt_strideBytes dtype = Inr n"
    and mem: "AddBuffer mem_zero (wrap64 (fold (stride_step ra (if layout_eq l NVCV_TENSOR_WC then max 0 (rank - 2) else rank - 1) sh)
        (rev [0..<k]) ((tr_strides old)[k := n]) ! 0 * sh ! 0)) al = Inr mem"
    and reqs: "\<lparr>tr_dtype = dtype, tr_layout = layout, tr_rank = rank, tr_shape = sh,
        tr_strides = fold (stride_step ra (if layout_eq l NVCV_TENSOR_WC then max 0 (rank - 2) else rank - 1) sh)
        (rev [0..<k]) ((tr_strides old)[k := n]),
          tr_alignBytes = al, tr_mem = Requirements_Init\<lparr>cudaMem := mem\<rparr>\<rparr> = reqs"
    using assms(1) unfolding Tensor_CalcRequirements_def Let_def result_simps conv sum.inject
    by (elim exE conjE) (rule that, assumption+)
  define fp where "fp = (if layout_eq l NVCV_TENSOR_WC then max 0 (rank - 2) else rank - 1)"
  define st where "st = fold (stride_step ra fp sh) (rev [0..<k]) ((tr_strides old)[k := n])"
  note mem = mem [folded fp_def, folded st_def] and reqs = reqs [folded fp_def, folded st_def, symmetric]
  have io: "length (tr_shape old) = 15" "length (tr_strides old) = 15" "nat rank \<le> length shape"
    "list_all (\<lambda>n. 1 \<le> n) (take (nat rank) shape)" "dt_strideBytes dtype = Inr sb" "0 < sb"
    using assms(2) by (simp_all add: calc_inputs_ok_def)
  have k: "nat rank = Suc k" "k < 15" "rank = int k + 1" using r by (auto simp: k_def)
  have l: "CreateLast oldl layout 2 = Some (Inr l)" using l0 by (auto split: option.splits)
  obtain j where j: "ra = 2 ^ j"
    using assms(2) ra dev tensor_rowAlign_power unfolding calc_inputs_ok_def check_value_def
    by (metis Inl_Inr_False sum.inject(2))
  have lens: "length sh = 15" using io k by (simp add: sh_def copy_front_def)
  note sf = stride_fold [OF st_def, simplified, OF k(2) [folded io(2)]]
  let ?ds = "reqs_dims reqs"
  have dl: "length ?ds = Suc k" using reqs sf lens k io(2) by (simp add: reqs_dims_def)
  have ds: "?ds ! i = (sh ! i, st ! i)" if "i \<le> k" for i
    using reqs sf lens k io(2) that by (simp add: reqs_dims_def)
  have ok: "\<bar>sh ! i * st ! i\<bar> < 2 ^ 63" if "i \<le> k" for i
  proof -
    have "dim_ok (?ds ! i)" using assms(3) dl that by (simp add: list_all_length)
    then show ?thesis using ds that by (simp add: dim_ok_def)
  qed
  have w: "wrap64 (sh ! i * st ! i) = sh ! i * st ! i" "wrap64 (st ! i * sh ! i) = st ! i * sh ! i" if "i \<le> k" for i
    using ok [OF that] by (auto simp: abs_less_iff mult.commute intro!: wrap64_id)
  have exact: "st ! d = st ! Suc d * sh ! Suc d" if "d < k" "int d \<noteq> fp - 1" for d
    using sf that w(2) [of "Suc d"] by simp
  have step: "sh ! Suc d * st ! Suc d \<le> st ! d" if "d < k" for d
    using sf that w(1) [of "Suc d"] exact [OF that] RoundUp_ge [of "2 ^ j" "sh ! Suc d * st ! Suc d"]
    by (cases "int d = fp - 1") (simp_all add: j RoundUpPowerOfTwo_exp mult.commute)
  have ne: "?ds \<noteq> []" using dl by auto
  have last: "snd (last ?ds) = sb" using dl ds [of k] sf io(2,5) n k(2) by (simp add: last_conv_nth [OF ne])
  have nest: "nested sb ?ds"
    unfolding nested_nth [OF ne] using last step ds dl by (auto simp: less_Suc_eq_le)
  have "map fst ?ds = take (nat rank) sh" using reqs sf io(2) lens by (simp add: reqs_dims_def take_map [symmetric])
  then have mf: "map fst ?ds = take (nat rank) shape" using io(3) by (simp add: sh_def copy_front_take)
  have wc: "snd (?ds ! (nat rank - 2)) = snd (?ds ! (nat rank - 1)) * fst (?ds ! (nat rank - 1))"
    if eq: "layout_eq l NVCV_TENSOR_WC" "2 \<le> rank"
  proof -
    obtain d where d: "k = Suc d" using eq(2) k(3) by (cases k) auto
    then show ?thesis using exact [of d] eq k(1,3) ds [of d] ds [of k] by (simp add: fp_def)
  qed
  have "hd ?ds = (sh ! 0, st ! 0)" using ds [of 0] ne by (simp add: hd_conv_nth)
  then have "AddBuffer mem_zero (snd (hd ?ds) * fst (hd ?ds)) (tr_alignBytes reqs) = Inr mem" "cudaMem (tr_mem reqs) = mem"
    using mem w(2) [of 0] reqs by (simp_all add: Requirements_Init_def)
  then show ?thesis using r l wc mf nest last dl k reqs lens sf io(2) by auto
qed

lemma tensor_dims_spread:
  assumes "Tensor_CalcRequirements cuda old oldl rank shape dtype layout ub ur = Inr reqs"
    and "calc_inputs_ok cuda old shape rank dtype sb ur" "list_all dim_ok (reqs_dims reqs)" "tr_alignBytes reqs < 2 ^ 31"
    and "CalcTotalSizeBytes (cudaMem (tr_mem reqs)) = Inr tot"
  shows "spread sb tot (reqs_dims reqs)"
proof -
  note r = Tensor_reqs_strides [OF assms(1-3)]
  have sb: "0 < sb" using assms(2) by (simp add: calc_inputs_ok_def)
  obtain d ds where ds: "reqs_dims reqs = d # ds" using r by (cases "reqs_dims reqs") auto
  obtain n s where d: "d = (n, s)" by (cases d)
  have ext: "list_all (\<lambda>d. 1 \<le> fst d) (reqs_dims reqs)" using assms(3) by (simp add: list_all_iff dim_ok_def)
  have sp: "spread sb (n * s) (reqs_dims reqs)" "0 \<le> n * s"
    using nested_spread [of sb n s ds] r sb ext unfolding ds d by auto
  have ns: "n * s < 2 ^ 63" using assms(3) dim_ok_def [of "(n, s)"] by (simp add: ds d abs_less_iff)
  have add: "AddBuffer mem_zero (n * s) (tr_alignBytes reqs) = Inr (cudaMem (tr_mem reqs))"
    using r by (simp add: ds d mult.commute)
  then have "valid_block (tr_alignBytes reqs)" using AddBuffer_rejects [of "tr_alignBytes reqs"] assms(4) by fastforce
  then obtain k where k: "tr_alignBytes reqs = 2 ^ k" "k < 32"
    by (auto simp: valid_block_def NVCV_MAX_MEM_REQUIREMENTS_LOG2_BLOCK_SIZE_def)
  let ?v = "DivUp (n * s) (2 ^ k)"
  have m: "cudaMem (tr_mem reqs) = mem_single k (0 + ?v)"
    using AddBuffer_single [of k 0] add k sp(2) by (simp add: mem_single_zero)
  have v: "n * s \<le> ?v * 2 ^ k" "?v * 2 ^ k < n * s + 2 ^ k" "0 \<le> ?v"
    using DivUp_bounds [of "2 ^ k" "n * s"] DivUp_nonneg [of "2 ^ k" "n * s"] sp(2) by simp_all
  have "(2 :: int) ^ k \<le> 2 ^ 32" using k(2) by (intro power_increasing) auto
  then have "?v * 2 ^ k < 2 ^ 64" using v(2) ns by simp
  then have "tot = ?v * 2 ^ k" using CalcTotalSizeBytes_single [OF v(3) _ k(2)] assms(5) m by simp
  then show ?thesis using sp(1) v(1) unfolding spread_def by (meson order_trans)
qed

text \<open>
  Property C7: the elements of a tensor lie inside its buffer and do not overlap. For the
  requirements that \<open>CalcRequirements\<close> computes from a shape with positive extents, consecutive
  elements in row-major order are at least one element size apart, the first is at offset 0 or
  above, and the last one ends within the size that the constructor allocates.
\<close>

theorem tensor_elements_in_buffer:
  assumes "Tensor_CalcRequirements cuda old oldl rank shape dtype layout ub ur = Inr reqs"
    and "calc_inputs_ok cuda old shape rank dtype sb ur" "list_all dim_ok (reqs_dims reqs)" "tr_alignBytes reqs < 2 ^ 31"
    and "CalcTotalSizeBytes (cudaMem (tr_mem reqs)) = Inr tot"
  shows "sorted_wrt (\<lambda>x y. x + sb \<le> y) (offsets (td_dims (Tensor_exportData \<lparr>te_alloc = a, te_reqs = reqs, te_memBuffer = buf\<rparr>)))
    \<and> (\<forall>x \<in> set (offsets (td_dims (Tensor_exportData \<lparr>te_alloc = a, te_reqs = reqs, te_memBuffer = buf\<rparr>))). 0 \<le> x \<and> x + sb \<le> tot)"
  using tensor_dims_spread [OF assms] unfolding td_dims_export spread_def by simp

section \<open>Exported tensors can be wrapped again\<close>

fun outward :: "int \<Rightarrow> (int \<times> int \<times> int) list \<Rightarrow> bool" where
  "outward L [] \<longleftrightarrow> True"
| "outward L ((i, n, s) # ds) \<longleftrightarrow> L \<le> s \<and> outward (n * s) ds"

lemma pitch_loop_accepts:
  assumes "outward L ds" "ps * pn \<le> L" "0 \<le> ps * pn" "ps * pn < 2 ^ 31" "list_all fits32 (map snd ds)"
  shows "pitch_loop ds (ps, pn) = Inr ()"
  using assms
proof (induction ds "(ps, pn)" arbitrary: L ps pn rule: pitch_loop.induct)
  case (2 i n s ds ps pn)
  have f: "1 \<le> n" "n < 2 ^ 31" "\<bar>s\<bar> < 2 ^ 31" "\<bar>n * s\<bar> < 2 ^ 31" "list_all fits32 (map snd ds)"
    using 2(7) fits32_def [of "(n, s)"] by simp_all
  have w: "wrap32 (ps * pn) = ps * pn" "wrap32 s = s" "wrap32 n = n" using 2(5,6) f by (auto intro!: wrap32_id)
  have o: "ps * pn \<le> s" "outward (n * s) ds" using 2(3,4) by simp_all
  show ?case
  proof (cases "n \<le> 1")
    case True
    then have "ps * pn \<le> n * s" using f(1) o(1) by simp
    then show ?thesis using 2(1) [of "n * s"] True o(2) 2(5,6) f(5) by simp
  next
    case False
    have "0 \<le> s * n" "s * n < 2 ^ 31" using f(1,4) o(1) 2(5) by (auto simp: mult.commute)
    then show ?thesis using 2(2) [of "n * s"] False o w f(5) by (simp add: mult.commute)
  qed
qed simp

lemma nested_outward:
  assumes "nested sb (td_dims td)" "k < length (td_dims td)"
  shows "outward (fst (td_dims td ! k) * snd (td_dims td ! k)) (rev (take k (indexed_dims td)))"
  using assms(2)
proof (induction k)
  case (Suc k)
  have ne: "td_dims td \<noteq> []" using Suc.prems by auto
  have len: "k < length (indexed_dims td)" using Suc.prems by (simp add: indexed_dims_def)
  have "indexed_dims td ! k = (int k, td_dims td ! k)" using Suc.prems by (simp add: indexed_dims_def)
  moreover have "fst (td_dims td ! Suc k) * snd (td_dims td ! Suc k) \<le> snd (td_dims td ! k)"
    using assms(1) Suc.prems unfolding nested_nth [OF ne] by blast
  ultimately show ?case using Suc len by (cases "td_dims td ! k") (simp add: take_Suc_conv_app_nth)
qed simp

text \<open>The packed part of the check: the last dimension, and the one before it in channel-last tensors.\<close>

lemma packed_last:
  assumes "fits32 (n, sb)"
  shows "packed_loop (Inr sb) lst [(lst, n, sb)] (wrap32 sb, wrap32 n) = Inr (sb, n)"
  using assms by (auto simp: fits32_def result_simps)

lemma packed_last_two:
  assumes "fits32 (n, sb)" "fits32 (m, sb * n)"
  shows "\<exists>ps pn. packed_loop (Inr sb) (i + 1) [(i + 1, n, sb), (i, m, sb * n)] (wrap32 sb, wrap32 n) = Inr (ps, pn)
    \<and> ps * pn = m * (sb * n)"
proof -
  have w: "wrap32 sb = sb" "wrap32 n = n" "wrap32 (sb * n) = sb * n" "wrap32 m = m"
    using assms by (auto simp: fits32_def mult.commute)
  show ?thesis using assms w by (cases "m \<le> 1") (auto simp: fits32_def result_simps)
qed

text \<open>The last dimensions of an exported tensor pass the test for packed dimensions.\<close>

lemma exported_packed_end:
  assumes "list_all fits32 ds" "td_dims td = ds" "length ds = Suc k" "ds ! k = (n, sb)"
    and "fp = k \<or> k = Suc fp \<and> snd (ds ! fp) = sb * n"
  shows "\<exists>ps pn. packed_loop (Inr sb) (int k) (rev (drop fp (indexed_dims td))) (wrap32 sb, wrap32 n) = Inr (ps, pn)
    \<and> ps * pn = fst (ds ! fp) * snd (ds ! fp)"
proof -
  have fn: "fits32 (n, sb)" using assms(1,3,4) by (metis lessI list_all_length)
  have il: "length (indexed_dims td) = Suc k" using assms(2,3) by (simp add: indexed_dims_def)
  have idx: "indexed_dims td ! i = (int i, ds ! i)" if "i \<le> k" for i
    using that assms(2,3) by (simp add: indexed_dims_def del: upt_Suc)
  show ?thesis using assms(5)
  proof (elim disjE conjE)
    assume fp: "fp = k"
    have "drop k (indexed_dims td) = [(int k, n, sb)]"
      using idx [of k] il assms(4) by (simp add: Cons_nth_drop_Suc [symmetric])
    then show ?thesis using packed_last [OF fn, of "int k"] fp assms(4) by (simp add: mult.commute)
  next
    assume k: "k = Suc fp" and snd: "snd (ds ! fp) = sb * n"
    obtain m where m: "ds ! fp = (m, sb * n)" using snd by (cases "ds ! fp") auto
    have fm: "fits32 (m, sb * n)" using assms(1,3) m k by (metis less_Suc_eq list_all_length)
    have "drop fp (indexed_dims td) = [(int fp, m, sb * n), (int fp + 1, n, sb)]"
      using idx [of fp] idx [of k] il assms(4) m k by (simp add: Cons_nth_drop_Suc [symmetric])
    then show ?thesis using packed_last_two [OF fn fm, of "int fp"] m k by (simp del: packed_loop.simps add: add.commute)
  qed
qed

text \<open>
  Property C26: what a tensor exports can be wrapped again. The data of an allocated tensor pass
  \<open>ValidateTensorBufferStrided\<close>, provided its pitches fit 32 bits and the two parts of the code
  agree on what a packed tensor is: a layout that ends in the channel label, or is empty, ends in
  the labels \<open>WC\<close>, or the tensor has one dimension.
\<close>

theorem exported_tensor_validates:
  assumes "Tensor_CalcRequirements cuda old oldl rank shape dtype layout ub ur = Inr reqs"
    and "calc_inputs_ok cuda old shape rank dtype sb ur" "list_all fits32 (reqs_dims reqs)" "buf \<noteq> 0"
    and "IsChannelLast layout \<Longrightarrow> rank = 1 \<or> (\<exists>l. CreateLast oldl layout 2 = Some (Inr l) \<and> layout_eq l NVCV_TENSOR_WC)"
  shows "ValidateTensorBufferStrided (Tensor_exportData \<lparr>te_alloc = a, te_reqs = reqs, te_memBuffer = buf\<rparr>) = Inr ()"
proof -
  let ?td = "Tensor_exportData \<lparr>te_alloc = a, te_reqs = reqs, te_memBuffer = buf\<rparr>" and ?ds = "reqs_dims reqs"
  have "list_all dim_ok ?ds" using assms(3) by (auto simp: list_all_iff fits32_def dim_ok_def)
  note r = Tensor_reqs_strides [OF assms(1,2) this]
  have td: "td_dims ?td = ?ds" by (simp add: td_dims_export)
  have sb: "dt_strideBytes dtype = Inr sb" "0 < sb" using assms(2) by (simp_all add: calc_inputs_ok_def)
  define k where "k = nat (rank - 1)"
  have k: "rank = int k + 1" "length ?ds = Suc k" using r by (auto simp: k_def)
  define n where "n = fst (?ds ! k)"
  have ne: "?ds \<noteq> []" using k(2) by auto
  have dk: "?ds ! k = (n, sb)" using r k(2) by (simp add: n_def last_conv_nth [OF ne] prod_eq_iff)
  have prev: "td_strides ?td ! k = sb" "td_shape ?td ! k = n"
    using dk r k by (auto simp: Tensor_exportData_def reqs_dims_def)
  define fp where "fp = nat (if IsChannelLast layout then max 0 (rank - 2) else rank - 1)"
  have fpk: "fp \<le> k" using k(1) by (auto simp: fp_def)
  have "fp = k \<or> k = Suc fp \<and> snd (?ds ! fp) = sb * n"
  proof (cases "fp = k")
    case False
    then have cl: "IsChannelLast layout" "k = Suc fp" using fpk k(1) by (auto simp: fp_def split: if_splits)
    moreover have "nat rank - 2 = fp" "nat rank - 1 = k" "2 \<le> rank" "rank \<noteq> 1" using k(1) cl(2) by auto
    ultimately show ?thesis using assms(5) r dk by auto
  qed simp
  from exported_packed_end [OF assms(3) td k(2) dk this] k(1)
  have "\<exists>ps pn. packed_loop (Inr sb) (rank - 1) (rev (drop fp (indexed_dims ?td))) (wrap32 sb, wrap32 n) = Inr (ps, pn)
    \<and> ps * pn = fst (?ds ! fp) * snd (?ds ! fp)" by (simp del: packed_loop.simps)
  then obtain ps pn where pk: "packed_loop (Inr sb) (rank - 1) (rev (drop fp (indexed_dims ?td))) (wrap32 sb, wrap32 n) = Inr (ps, pn)"
    "ps * pn = fst (?ds ! fp) * snd (?ds ! fp)" by blast
  have fk: "fp < length ?ds" using fpk k(2) by simp
  have "list_all (\<lambda>d. 0 \<le> snd d) ?ds"
    using nested_nonneg [of sb ?ds] r sb(2) assms(3) by (auto simp: list_all_iff fits32_def)
  then have "0 \<le> ps * pn" "ps * pn < 2 ^ 31"
    using assms(3) pk(2) fk by (auto simp: list_all_length fits32_def)
  then have "pitch_loop (rev (take fp (indexed_dims ?td))) (ps, pn) = Inr ()"
  proof (intro pitch_loop_accepts)
    show "outward (fst (?ds ! fp) * snd (?ds ! fp)) (rev (take fp (indexed_dims ?td)))"
      using nested_outward [of sb ?td fp] r td fk by simp
    have "set (map snd (rev (take fp (indexed_dims ?td)))) \<subseteq> set (map snd (indexed_dims ?td))"
      by (auto dest!: in_set_takeD)
    then show "list_all fits32 (map snd (rev (take fp (indexed_dims ?td))))"
      using assms(3) td unfolding indexed_dims_snd list_all_iff by auto
  qed (use pk(2) in auto)
  moreover have "\<not> list_ex (\<lambda>d. fst d < 1) ?ds" using assms(3) by (auto simp: list_all_iff list_ex_iff fits32_def)
  moreover have "td_bufferType ?td = 1" "td_basePtr ?td = buf" "td_rank ?td = rank" "td_layout ?td = layout" "td_dtype ?td = dtype"
    using r by (simp_all add: Tensor_exportData_def Let_def)
  ultimately show ?thesis
    using pk(1) r td sb(1) assms(4) prev
    by (simp add: ValidateTensorBufferStrided_def Let_def fp_def [symmetric] k_def [symmetric] del: packed_loop.simps pitch_loop.simps)
qed

text \<open>A batch of two 8-bit RGB images of 4 by 5 pixels on the usual device.\<close>

definition blank_reqs :: NVCVTensorRequirements where
  "blank_reqs = \<lparr>tr_dtype = 0, tr_layout = LAYOUT_MAKE '''', tr_rank = 0, tr_shape = replicate 15 0, tr_strides = replicate 15 0,
     tr_alignBytes = 0, tr_mem = Requirements_Init\<rparr>"

definition rgb_batch :: NVCVTensorRequirements where
  "rgb_batch = \<lparr>tr_dtype = 171798626433, tr_layout = NVCV_TENSOR_NHWC, tr_rank = 4, tr_shape = [2, 4, 5, 3] @ replicate 11 0,
     tr_strides = [128, 32, 3, 1] @ replicate 11 0, tr_alignBytes = 512, tr_mem = Requirements_Init\<lparr>cudaMem := mem_single 9 1\<rparr>\<rparr>"

lemma U8_alignment: "dt_alignment 171798626433 = Inr 1"
  by code_simp

lemma rgb_batch_requirements:
  "Tensor_CalcRequirements usual_device blank_reqs (replicate 16 (CHR 0x00)) 4 [2, 4, 5, 3] 171798626433 NVCV_TENSOR_NHWC 0 0 =
     Inr rgb_batch"
  by code_simp

lemma rgb_batch_inputs: "calc_inputs_ok usual_device blank_reqs [2, 4, 5, 3] 4 171798626433 1 0"
  unfolding calc_inputs_ok_def
  by (intro conjI exI [of _ "0 :: nat"] exI [of _ "5 :: nat"])
    (simp_all add: blank_reqs_def U8_strideBytes U8_alignment usual_device_def)

lemma rgb_batch_dims: "reqs_dims rgb_batch = [(2, 128), (4, 32), (5, 3), (3, 1)]"
  by code_simp

theorem tensor_elements_in_buffer_witness:
  "list_all (\<lambda>x. 0 \<le> x \<and> x + 1 \<le> 512) (offsets [(2, 128), (4, 32), (5, 3), (3, 1 :: int)])"
proof -
  have h: "list_all dim_ok (reqs_dims rgb_batch)" "tr_alignBytes rgb_batch < 2 ^ 31"
    by (simp_all add: rgb_batch_dims dim_ok_def) (simp add: rgb_batch_def)
  have t: "CalcTotalSizeBytes (cudaMem (tr_mem rgb_batch)) = Inr 512" by code_simp
  show ?thesis
    using tensor_elements_in_buffer [OF rgb_batch_requirements rgb_batch_inputs h t, of "DefaultAllocator counting_runtime" 4096]
    unfolding td_dims_export by (simp add: rgb_batch_dims list_all_iff del: offsets.simps)
qed

theorem exported_tensor_validates_witness:
  "ValidateTensorBufferStrided (Tensor_exportData
     \<lparr>te_alloc = DefaultAllocator counting_runtime, te_reqs = rgb_batch, te_memBuffer = 4096\<rparr>) = Inr ()"
proof -
  have f: "list_all fits32 (reqs_dims rgb_batch)" by (simp add: rgb_batch_dims fits32_def)
  have l: "\<exists>l. CreateLast (replicate 16 (CHR 0x00)) NVCV_TENSOR_NHWC 2 = Some (Inr l) \<and> layout_eq l NVCV_TENSOR_WC"
  proof -
    have "CreateLast (replicate 16 (CHR 0x00)) NVCV_TENSOR_NHWC 2 = Some (Inr NVCV_TENSOR_WC)" by code_simp
    moreover have "layout_eq NVCV_TENSOR_WC NVCV_TENSOR_WC" by code_simp
    ultimately show ?thesis by blast
  qed
  show ?thesis using exported_tensor_validates [OF rgb_batch_requirements rgb_batch_inputs f, of 4096 "DefaultAllocator counting_runtime"] l by simp
qed

text \<open>
  Without the condition on the layout the two do not agree: a tensor with no layout, or with
  layout \<open>NC\<close>, gets padded rows that the validation of wrapped tensors rejects. And a rank beyond
  15 with an empty layout is only noticed when the copy has left the array.
\<close>

lemma unlabelled_tensor_rejected:
  "ValidateTensorBufferStrided (u8_tensor '''' [2, 3] [32, 1]) = Inl (Throw NVCV_ERROR_INVALID_ARGUMENT)"
  "bind_result (Tensor_CalcRequirements usual_device blank_reqs (replicate 16 (CHR 0x00)) 2 [2, 3] 171798626433 (LAYOUT_MAKE '''') 0 0)
     (\<lambda>r. Inr (reqs_dims r)) = Inr [(2, 32), (3, 1)]"
  by code_simp+

lemma rank_beyond_array:
  "rank > 15 \<Longrightarrow> tl_rank layout = 0 \<Longrightarrow>
     Tensor_CalcRequirements cuda old oldl rank shape dtype layout ub ur = Inl OutOfBounds"
  by (simp add: Tensor_CalcRequirements_def)

section \<open>The pixels of an image seen as a tensor\<close>

definition elem_addr :: "NVCVTensorData \<Rightarrow> int list \<Rightarrow> ptr" where
  "elem_addr td idx = td_basePtr td + word_of_int (sum_list (map2 (*) idx (td_strides td)))"

lemma word_wrap64 [simp]: "(word_of_int (wrap64 n) :: 64 word) = word_of_int n"
proof -
  have "wrap64 n mod 2 ^ 64 = n mod 2 ^ 64" by (simp add: wrap64_def mod_diff_left_eq)
  then show ?thesis by (simp add: word_of_int_eq_iff take_bit_eq_mod)
qed

lemma planes_evenly_spaced:
  assumes "\<not> list_ex (\<lambda>p. \<not> plane_compatible planes p) [1..<n]" "p < n"
  shows "pl_basePtr (planes ! p) = pl_basePtr (planes ! 0) + word_of_int (int p) * (pl_basePtr (planes ! 1) - pl_basePtr (planes ! 0))"
  using assms(2)
proof (induction p)
  case (Suc p)
  show ?case
  proof (cases p)
    case 0
    then show ?thesis by simp
  next
    case (Suc q)
    have "plane_compatible planes (Suc p)" using assms(1) \<open>Suc p < n\<close> by (auto simp: list_ex_iff)
    then have "pl_basePtr (planes ! Suc p) = pl_basePtr (planes ! p) + (pl_basePtr (planes ! 1) - pl_basePtr (planes ! 0))"
      using Suc by (simp add: plane_compatible_def algebra_simps)
    then show ?thesis using Suc.IH \<open>Suc p < n\<close> by (simp add: algebra_simps)
  qed
qed simp

lemma elem_addr_four:
  assumes "td_strides td = copy_front [a, b, c, d] z"
  shows "elem_addr td [0, p, y, x] = td_basePtr td + word_of_int (p * b) + word_of_int (y * c + x * d)"
  using assms by (simp add: elem_addr_def copy_front_def)

lemma layouts_differ: "NVCV_TENSOR_NCHW \<noteq> NVCV_TENSOR_NHWC"
  by code_simp

lemma even_pitches:
  fixes a b :: "64 word"
  shows "(\<forall>p < nat n. word_of_int (int p) * a = word_of_int (int p) * b) \<longleftrightarrow> n \<le> 1 \<or> b = a"
proof (cases "n \<le> 1")
  case True
  then have "word_of_int (int p) * a = word_of_int (int p) * b" if "p < nat n" for p
    using that by (cases p) auto
  then show ?thesis using True by blast
next
  case False
  then have "1 < nat n" by linarith
  then show ?thesis using False by (force dest: spec [where x = 1])
qed


text \<open>Planar 8-bit RGB (code 9077705438986371), 5 by 4 pixels, planes \<open>d\<close> bytes apart.\<close>

definition rgb8p :: u64 where "rgb8p = 9077705438986371"

definition rgb8p_image :: "64 word \<Rightarrow> NVCVImageData" where
  "rgb8p_image d = (let pl = (\<lambda>a. \<lparr>pl_width = 5, pl_height = 4, pl_rowStride = 32, pl_basePtr = a\<rparr>) in
     \<lparr>id_format = rgb8p, id_bufferType = 1, id_numPlanes = 3,
      id_planes = [pl 4096, pl (4096 + d), pl (4096 + 2 * d), pl 0, pl 0, pl 0]\<rparr>)"

lemma rgb8p_format:
  "memLayout rgb8p = 0" "css rgb8p = 0" "numPlanes rgb8p = 3" "fmt_numChannels rgb8p = 3" "fmt_bpc rgb8p = Inr [8, 8, 8, 0]"
  by code_simp+

lemma rgb8p_types:
  "planeDataType rgb8p 0 = 171798626433" "planeDataType rgb8p 1 = 171798626433" "planeDataType rgb8p 2 = 171798626433"
  by code_simp+

lemma rgb8p_pixels: "planePixelStrideBytes rgb8p 0 = Inr 1"
  by (simp add: planePixelStrideBytes_def rgb8p_types U8_strideBytes)

lemma three_planes: "[Suc 0..<3] = [1, 2]"
  by (simp add: upt_rec)

lemma rgb8p_filled:
  assumes "d \<in> {128, 256}"
  shows "FillTensorData rgb8p (Inr (rgb8p_image d)) =
    Inr (tensor_data_zero\<lparr>td_bufferType := 1, td_layout := NVCV_TENSOR_NCHW, td_rank := 4,
           td_shape := copy_front [1, 3, 4, 5] (replicate 15 0), td_strides := copy_front [384, 128, 32, 1] (replicate 15 0),
           td_dtype := 171798626433, td_basePtr := 4096\<rparr>)"
  using assms
  by (auto simp: FillTensorData_def rgb8p_image_def rgb8p_format rgb8p_types rgb8p_pixels three_planes plane_compatible_def
      Let_def tensor_data_zero_def wrap64_def)


text \<open>With planes 256 bytes apart the tensor is made all the same, and reads its second plane at the wrong place.\<close>

lemma spaced_planes_misread:
  "\<exists>td. FillTensorData rgb8p (Inr (rgb8p_image 256)) = Inr td
     \<and> elem_addr td [0, 1, 0, 0] = 4096 + 128 \<and> pl_basePtr (id_planes (rgb8p_image 256) ! 1) = 4096 + 256"
  using rgb8p_filled [of 256]
  by (simp add: elem_addr_def copy_front_def rgb8p_image_def)

end
