(* ===== verification/Device_Access.thy ===== *)
theory Device_Access
  imports Tensor_Data
begin

text \<open>
  How kernels address tensors (\<open>src/cvcuda/include/cvcuda/cuda_tools/TensorWrap.hpp\<close> and
  \<open>BorderWrap.hpp\<close>): a tensor wrap computes the address of a coordinate from strides, some of them
  compile-time constants; a border wrap first brings each coordinate back into the tensor.
  Template parameters are arguments here. The copies under \<open>cuda_tools_musa\<close> and
  \<open>include_musa\<close> differ in the namespace and in comments.
\<close>

section \<open>Coordinates and strides\<close>

text \<open>The signed type of coordinates and strides.\<close>

datatype StrideType = Int32 | Int64

fun to_stride :: "StrideType \<Rightarrow> int \<Rightarrow> int" where
  "to_stride Int32 n = wrap32 n"
| "to_stride Int64 n = wrap64 n"

fun stride_limit :: "StrideType \<Rightarrow> int" where
  "stride_limit Int32 = 2 ^ 31"
| "stride_limit Int64 = 2 ^ 63"

section \<open>Tensor wraps\<close>

text \<open>The template argument \<open>Strides\<close>: -1 for a stride known at run time.\<close>

record TensorWrapT =
  tw_type :: StrideType
  tw_Strides :: "int list"
  tw_data :: ptr
  tw_strides :: "int list"

definition kVariableStrides :: "int list \<Rightarrow> nat" where
  "kVariableStrides Strides = length (filter (\<lambda>s. s = -1) Strides)"

definition TensorWrapT_strides :: "StrideType \<Rightarrow> int list \<Rightarrow> ptr \<Rightarrow> int list \<Rightarrow> TensorWrapT" where
  "TensorWrapT_strides ty Strides data strides =
     \<lparr>tw_type = ty, tw_Strides = Strides, tw_data = data, tw_strides = map (to_stride ty) (take (kVariableStrides Strides) strides)\<rparr>"

fun wrap_strides :: "StrideType \<Rightarrow> int list \<Rightarrow> NVCVTensorData \<Rightarrow> nat list \<Rightarrow> int list \<Rightarrow> int list result" where
  "wrap_strides ty Strides td [] acc = Inr acc"
| "wrap_strides ty Strides td (i # is) acc =
     (if Strides ! i \<noteq> -1 then nvcv_assert (td_strides td ! i = Strides ! i) (wrap_strides ty Strides td is acc)
      else if i < kVariableStrides Strides then
        nvcv_assert (td_strides td ! i \<le> stride_limit ty - 1)
          (wrap_strides ty Strides td is (acc[i := to_stride ty (td_strides td ! i)]))
      else wrap_strides ty Strides td is acc)"

definition TensorWrapT_tensor :: "StrideType \<Rightarrow> int list \<Rightarrow> NVCVTensorData \<Rightarrow> TensorWrapT result" where
  "TensorWrapT_tensor ty Strides td =
     nvcv_assert (int (length Strides) \<le> td_rank td)
    (bind_result (wrap_strides ty Strides td [0..<length Strides] (replicate (kVariableStrides Strides) 0)) (\<lambda>strides.
     Inr \<lparr>tw_type = ty, tw_Strides = Strides, tw_data = td_basePtr td, tw_strides = strides\<rparr>))"

text \<open>The two offset loops; every sum and product is of the stride type.\<close>

definition wrap_offset :: "TensorWrapT \<Rightarrow> int list \<Rightarrow> int" where
  "wrap_offset w c =
     (let coords = map (to_stride (tw_type w)) c; nvar = kVariableStrides (tw_Strides w);
          var = min (length c) nvar; dim = min (length c) (length (tw_Strides w));
          offset = fold (\<lambda>i off. to_stride (tw_type w) (off + to_stride (tw_type w) (coords ! i * tw_strides w ! i))) [0..<var] 0
      in fold (\<lambda>i off. to_stride (tw_type w) (off + to_stride (tw_type w) (coords ! i * tw_Strides w ! i))) [nvar..<dim] offset)"

definition wrap_ptr :: "TensorWrapT \<Rightarrow> int list \<Rightarrow> ptr" where
  "wrap_ptr w c = tw_data w + word_of_int (wrap_offset w c)"

section \<open>Borders\<close>

datatype NVCVBorderType =
    NVCV_BORDER_CONSTANT
  | NVCV_BORDER_REPLICATE
  | NVCV_BORDER_REFLECT
  | NVCV_BORDER_WRAP
  | NVCV_BORDER_REFLECT101

definition IsOutside :: "bool \<Rightarrow> int \<Rightarrow> int \<Rightarrow> bool" where
  "IsOutside active c s \<longleftrightarrow> active \<and> (c < 0 \<or> c \<ge> s)"

text \<open>\<open>%\<close> truncates. A constant border does not compile; the model refuses it with an assertion.\<close>

definition border_index :: "StrideType \<Rightarrow> NVCVBorderType \<Rightarrow> int \<Rightarrow> int \<Rightarrow> int" where
  "border_index ty B c s = (let w = to_stride ty in
     case B of
       NVCV_BORDER_CONSTANT \<Rightarrow> c
     | NVCV_BORDER_REPLICATE \<Rightarrow> (if c < 0 then 0 else if c \<ge> s then w (s - 1) else c)
     | NVCV_BORDER_WRAP \<Rightarrow> (let c = c smod s in if c < 0 then w (c + s) else c)
     | NVCV_BORDER_REFLECT \<Rightarrow>
         (let s2 = w (s * 2); c = c smod s2; c = (if c < 0 then w (c + s2) else c)
          in w (w (s - 1) - drop_bit 1 (w \<bar>w (w (w (2 * c) + 1) - s2)\<bar>)))
     | NVCV_BORDER_REFLECT101 \<Rightarrow>
         (if s = 1 then 0
          else let p = w (w (2 * s) - 2); c = c smod p; c = (if c < 0 then w (c + p) else c)
               in w (w (s - 1) - w \<bar>w (w (s - 1) - c)\<bar>)))"

definition GetIndexWithBorder :: "StrideType \<Rightarrow> NVCVBorderType \<Rightarrow> bool \<Rightarrow> int \<Rightarrow> int \<Rightarrow> int result" where
  "GetIndexWithBorder ty B active c s =
     nvcv_assert (B \<noteq> NVCV_BORDER_CONSTANT)
    (if active
     then nvcv_assert (0 < s)
       (let c = border_index ty B c s in nvcv_assert (0 \<le> c \<and> c < s) (Inr c))
     else Inr c)"

section \<open>Border wraps\<close>

record BorderWrap =
  bw_tensorWrap :: TensorWrapT
  bw_borderType :: NVCVBorderType
  bw_active :: "bool list"
  bw_shape :: "int list"

text \<open>\<open>kMap\<close>: the position of each active dimension among the active ones.\<close>

definition kMap :: "bool list \<Rightarrow> nat \<Rightarrow> nat" where
  "kMap active i = (if active ! i then length (filter id (take i active)) else 0)"

fun border_shape :: "StrideType \<Rightarrow> bool list \<Rightarrow> int list \<Rightarrow> int list result" where
  "border_shape ty (act # acts) (n # ns) =
     (if act then nvcv_assert (n \<le> 2 ^ 31 - 1) (bind_result (border_shape ty acts ns) (\<lambda>sh. Inr (to_stride ty n # sh)))
      else border_shape ty acts ns)"
| "border_shape ty _ _ = Inr []"

definition BorderWrap_tensor :: "StrideType \<Rightarrow> int list \<Rightarrow> NVCVBorderType \<Rightarrow> bool list \<Rightarrow> NVCVTensorData \<Rightarrow> BorderWrap result" where
  "BorderWrap_tensor ty Strides B active td =
     bind_result (TensorWrapT_tensor ty Strides td) (\<lambda>w.
     nvcv_assert (int (length Strides) \<le> td_rank td)
    (bind_result (border_shape ty active (td_shape td)) (\<lambda>sh.
     Inr \<lparr>bw_tensorWrap = w, bw_borderType = B, bw_active = active, bw_shape = sh\<rparr>)))"

fun border_coords :: "BorderWrap \<Rightarrow> nat \<Rightarrow> int list \<Rightarrow> int list result" where
  "border_coords b i [] = Inr []"
| "border_coords b i (c # cs) =
     (let ty = tw_type (bw_tensorWrap b) in
      bind_result (GetIndexWithBorder ty (bw_borderType b) (bw_active b ! i) (to_stride ty c) (bw_shape b ! kMap (bw_active b) i)) (\<lambda>x.
      bind_result (border_coords b (Suc i) cs) (\<lambda>xs. Inr (x # xs))))"

text \<open>The pointer of a border wrap; null outside a tensor with constant border.\<close>

definition border_ptr :: "BorderWrap \<Rightarrow> int list \<Rightarrow> ptr result" where
  "border_ptr b c =
     (if bw_borderType b = NVCV_BORDER_CONSTANT
      then Inr (if list_ex (\<lambda>i. IsOutside (bw_active b ! i) (to_stride (tw_type (bw_tensorWrap b)) (c ! i)) (bw_shape b ! kMap (bw_active b) i))
                  [0..<length c]
                then 0 else wrap_ptr (bw_tensorWrap b) c)
      else bind_result (border_coords b 0 c) (\<lambda>c. Inr (wrap_ptr (bw_tensorWrap b) c)))"

section \<open>Borders by repetition\<close>

text \<open>What the border types mean: reflect at the nearer end until the index is inside.\<close>

function reflected :: "int \<Rightarrow> int \<Rightarrow> int" where
  "reflected s c = (if s \<le> 0 then c else if c < 0 then reflected s (- 1 - c) else if c \<ge> s then reflected s (2 * s - 1 - c) else c)"
  by auto
termination by (relation "measure (\<lambda>(s, c). nat (if c < 0 then - 2 * c else 2 * c + 1))") auto

function reflected101 :: "int \<Rightarrow> int \<Rightarrow> int" where
  "reflected101 s c =
     (if s \<le> 1 then 0 else if c < 0 then reflected101 s (- c) else if c \<ge> s then reflected101 s (2 * (s - 1) - c) else c)"
  by auto
termination by (relation "measure (\<lambda>(s, c). nat (if c < 0 then - 2 * c + 1 else 2 * c))") auto

function wrapped :: "int \<Rightarrow> int \<Rightarrow> int" where
  "wrapped s c = (if s \<le> 0 then c else if c < 0 then wrapped s (c + s) else if c \<ge> s then wrapped s (c - s) else c)"
  by auto
termination by (relation "measure (\<lambda>(s, c). nat (if c < 0 then - c + s else c))") auto

declare reflected.simps [simp del] reflected101.simps [simp del] wrapped.simps [simp del]

lemma smod_mod:
  assumes "0 < (m :: int)"
  shows "(if c smod m < 0 then c smod m + m else c smod m) = c mod m"
proof -
  have "c smod m = c mod m \<or> c smod m = c mod m - m"
  proof (cases "0 \<le> c")
    case True
    then show ?thesis using assms by (cases "c = 0") (simp_all add: smod_int_alt_def)
  next
    case False
    then have e: "c smod m = - ((- c) mod m)" using assms by (simp add: smod_int_alt_def)
    show ?thesis using assms zmod_zminus1_eq_if [of "- c" m] by (simp add: e split: if_splits)
  qed
  moreover have b: "0 \<le> c mod m" "c mod m < m" using assms by simp_all
  moreover have "\<not> c mod m < 0" "c mod m - m < 0" using b by linarith+
  ultimately show ?thesis by (elim disjE) (simp_all only: if_True if_False diff_add_cancel)
qed

lemma smod_bound: "0 < (m :: int) \<Longrightarrow> - m \<le> c smod m \<and> c smod m \<le> m"
proof -
  assume m: "0 < m"
  then have "0 \<le> c mod m" "c mod m < m" by simp_all
  then show ?thesis using smod_mod [OF m, of c] by (cases "c smod m < 0") (simp_all only: if_True if_False, linarith+)
qed

lemma wrapped_mod: "0 < s \<Longrightarrow> wrapped s c = c mod s"
proof (induction s c rule: wrapped.induct)
  case (1 s c)
  then show ?case by (subst wrapped.simps) (simp add: mod_pos_pos_trivial)
qed

lemma mod_mirror: "0 < (m :: int) \<Longrightarrow> (- 1 - c) mod m = m - 1 - c mod m"
proof -
  assume m: "0 < m"
  have "- 1 - c = (m - 1 - c mod m) + (- (c div m) - 1) * m" using div_mult_mod_eq [of c m] by (simp add: algebra_simps)
  then have "(- 1 - c) mod m = (m - 1 - c mod m) mod m" by (metis mod_mult_self1)
  also have "\<dots> = m - 1 - c mod m" using m pos_mod_bound [OF m, of c] pos_mod_sign [OF m, of c] by (intro mod_pos_pos_trivial) auto
  finally show ?thesis .
qed

lemma reflected_closed:
  "0 < s \<Longrightarrow> reflected s c = (let r = c mod (2 * s) in if r < s then r else 2 * s - 1 - r)"
proof (induction s c rule: reflected.induct)
  case (1 s c)
  have m: "(- 1 - c) mod (2 * s) = 2 * s - 1 - c mod (2 * s)" "(2 * s - 1 - c) mod (2 * s) = 2 * s - 1 - c mod (2 * s)"
    using mod_mirror [of "2 * s" c] mod_add_self2 [of "- 1 - c" "2 * s"] 1(3) by (simp_all add: algebra_simps)
  have b: "0 \<le> c mod (2 * s)" "c mod (2 * s) < 2 * s" using 1(3) by simp_all
  consider "c < 0" | "c \<ge> s" | "0 \<le> c" "c < s" by linarith
  then show ?case
  proof cases
    case 1
    then show ?thesis using "1.IH"(1) "1.prems" m(1) by (subst reflected.simps) (auto simp: Let_def)
  next
    case 2
    then show ?thesis using "1.IH"(2) "1.prems" m(2) by (subst reflected.simps) (auto simp: Let_def)
  next
    case 3
    then show ?thesis by (subst reflected.simps) (simp add: mod_pos_pos_trivial)
  qed
qed

lemma reflected101_closed:
  "0 < s \<Longrightarrow> reflected101 s c = (if s = 1 then 0 else let r = c mod (2 * s - 2) in if r < s then r else 2 * s - 2 - r)"
proof (induction s c rule: reflected101.induct)
  case (1 s c)
  show ?case
  proof (cases "s = 1")
    case False
    then have s: "1 < s" using "1.prems" by simp
    let ?p = "2 * s - 2"
    have p: "0 < ?p" using s by simp
    have m: "(- c) mod ?p = (if c mod ?p = 0 then 0 else ?p - c mod ?p)" "(2 * (s - 1) - c) mod ?p = (- c) mod ?p"
      using zmod_zminus1_eq_if [of c ?p] mod_add_self2 [of "- c" ?p] by (simp_all add: algebra_simps)
    have b: "0 \<le> c mod ?p" "c mod ?p < ?p" using p by simp_all
    consider "c < 0" | "c \<ge> s" | "0 \<le> c" "c < s" by linarith
    then show ?thesis
    proof cases
      case 1
      then show ?thesis using "1.IH"(1) s m b by (subst reflected101.simps) (auto simp: Let_def)
    next
      case 2
      then show ?thesis using "1.IH"(2) s m b by (subst reflected101.simps) (auto simp: Let_def)
    next
      case 3
      have "c mod ?p = (if c = ?p then 0 else c)" using 3 s by (simp add: mod_pos_pos_trivial)
      then show ?thesis using 3 s by (subst reflected101.simps) (auto simp: Let_def)
    qed
  qed (simp add: reflected101.simps)
qed


lemma to_stride_id: "- stride_limit ty \<le> n \<Longrightarrow> n < stride_limit ty \<Longrightarrow> to_stride ty n = n"
  by (cases ty) simp_all

lemma half_abs: "drop_bit 1 \<bar>n :: int\<bar> = \<bar>n\<bar> div 2"
  by (simp add: drop_bit_eq_div)

lemma reflect_index:
  assumes "0 < s" "4 * s \<le> stride_limit ty"
  shows "border_index ty NVCV_BORDER_REFLECT c s = reflected s c"
proof -
  define r where "r = c mod (2 * s)"
  have b: "0 \<le> r" "r < 2 * s" using assms(1) by (simp_all add: r_def)
  have lim: "2 ^ 31 \<le> stride_limit ty" by (cases ty) simp_all
  have m: "(if c smod (2 * s) < 0 then c smod (2 * s) + 2 * s else c smod (2 * s)) = r" using assms(1) unfolding r_def by (intro smod_mod) simp
  have sm: "\<bar>c smod (2 * s)\<bar> \<le> 2 * s" using smod_bound [of "2 * s" c] assms(1) by (simp add: abs_le_iff)
  have w: "to_stride ty n = n" if "- (4 * s) \<le> n" "n < 4 * s" for n using that assms by (intro to_stride_id) auto
  have "border_index ty NVCV_BORDER_REFLECT c s = s - 1 - \<bar>2 * r + 1 - 2 * s\<bar> div 2"
  proof -
    have c': "(if c smod (2 * s) < 0 then to_stride ty (c smod (2 * s) + 2 * s) else c smod (2 * s)) = r"
      using w [of "c smod (2 * s) + 2 * s"] sm m assms(1) by (auto split: if_splits)
    have s2: "to_stride ty (s * 2) = 2 * s" using w [of "s * 2"] assms(1) by simp
    have ws: "to_stride ty (s - 1) = s - 1" "to_stride ty (2 * r) = 2 * r"
      "to_stride ty (2 * r + 1) = 2 * r + 1" "to_stride ty (2 * r + 1 - 2 * s) = 2 * r + 1 - 2 * s"
      "to_stride ty \<bar>2 * r + 1 - 2 * s\<bar> = \<bar>2 * r + 1 - 2 * s\<bar>"
      "to_stride ty (s - 1 - \<bar>2 * r + 1 - 2 * s\<bar> div 2) = s - 1 - \<bar>2 * r + 1 - 2 * s\<bar> div 2"
      using b assms(1) by (intro w; linarith)+
    show ?thesis unfolding border_index_def Let_def NVCVBorderType.case s2 c' ws(1-4) ws(5) half_abs ws(6) ..
  qed
  also have "\<dots> = reflected s c" using b reflected_closed [OF assms(1), of c] by (auto simp: Let_def simp flip: r_def)
  finally show ?thesis .
qed

lemma reflect101_index:
  assumes "0 < s" "4 * s \<le> stride_limit ty"
  shows "border_index ty NVCV_BORDER_REFLECT101 c s = reflected101 s c"
proof (cases "s = 1")
  case False
  let ?p = "2 * s - 2"
  let ?r = "c mod ?p"
  have p: "0 < ?p" using assms(1) False by simp
  have b: "0 \<le> ?r" "?r < ?p" using p by simp_all
  have m: "(if c smod ?p < 0 then c smod ?p + ?p else c smod ?p) = ?r" by (rule smod_mod [OF p])
  have sm: "\<bar>c smod ?p\<bar> \<le> ?p" using smod_bound [OF p, of c] by (simp add: abs_le_iff)
  have w: "to_stride ty n = n" if "- (4 * s) \<le> n" "n < 4 * s" for n using that assms by (intro to_stride_id) auto
  have c': "(if c smod ?p < 0 then to_stride ty (c smod ?p + ?p) else c smod ?p) = ?r"
    using w [of "c smod ?p + ?p"] sm m assms(1) by (auto split: if_splits)
  have ws: "to_stride ty (2 * s) = 2 * s" "to_stride ty ?p = ?p" "to_stride ty (s - 1) = s - 1"
    "to_stride ty (s - 1 - ?r) = s - 1 - ?r" "to_stride ty \<bar>s - 1 - ?r\<bar> = \<bar>s - 1 - ?r\<bar>"
    "to_stride ty (s - 1 - \<bar>s - 1 - ?r\<bar>) = s - 1 - \<bar>s - 1 - ?r\<bar>"
    using b assms(1) by (intro w; simp)+
  have "border_index ty NVCV_BORDER_REFLECT101 c s = s - 1 - \<bar>s - 1 - ?r\<bar>"
    unfolding border_index_def Let_def NVCVBorderType.case ws(1-2) c' ws(3-6) using False by simp
  also have "\<dots> = reflected101 s c" using b False reflected101_closed [OF assms(1), of c] by (auto simp: Let_def)
  finally show ?thesis .
qed (simp add: border_index_def reflected101.simps)

lemma wrap_index: "0 < s \<Longrightarrow> 4 * s \<le> stride_limit ty \<Longrightarrow> border_index ty NVCV_BORDER_WRAP c s = wrapped s c"
proof -
  assume s: "0 < s" "4 * s \<le> stride_limit ty"
  have "to_stride ty (c smod s + s) = c smod s + s" if "c smod s < 0"
    using smod_mod [OF s(1), of c] that s pos_mod_sign [OF s(1), of c] pos_mod_bound [OF s(1), of c] by (intro to_stride_id) auto
  then have "border_index ty NVCV_BORDER_WRAP c s = (if c smod s < 0 then c smod s + s else c smod s)"
    by (simp add: border_index_def Let_def)
  then show ?thesis using smod_mod [OF s(1), of c] wrapped_mod [OF s(1), of c] by simp
qed

text \<open>The index that a border type means.\<close>

fun border_spec :: "NVCVBorderType \<Rightarrow> int \<Rightarrow> int \<Rightarrow> int" where
  "border_spec NVCV_BORDER_CONSTANT s c = c"
| "border_spec NVCV_BORDER_REPLICATE s c = max 0 (min (s - 1) c)"
| "border_spec NVCV_BORDER_REFLECT s c = reflected s c"
| "border_spec NVCV_BORDER_WRAP s c = wrapped s c"
| "border_spec NVCV_BORDER_REFLECT101 s c = reflected101 s c"

lemma border_spec_range: "0 < s \<Longrightarrow> B \<noteq> NVCV_BORDER_CONSTANT \<Longrightarrow> 0 \<le> border_spec B s c \<and> border_spec B s c < s"
proof (cases B)
  case NVCV_BORDER_REFLECT
  assume "0 < s"
  moreover have "0 \<le> c mod (2 * s)" "c mod (2 * s) < 2 * s" using \<open>0 < s\<close> by simp_all
  ultimately show ?thesis using NVCV_BORDER_REFLECT by (auto simp: reflected_closed Let_def)
next
  case NVCV_BORDER_REFLECT101
  assume s: "0 < s"
  define r where "r = c mod (2 * s - 2)"
  have "0 \<le> r \<and> r < 2 * s - 2" if "s \<noteq> 1" using s that by (simp add: r_def)
  then show ?thesis using s NVCV_BORDER_REFLECT101 by (auto simp: reflected101_closed Let_def simp flip: r_def)
qed (auto simp: wrapped_mod)

lemma border_index_spec:
  assumes "0 < s" "4 * s \<le> stride_limit ty" "B \<noteq> NVCV_BORDER_CONSTANT"
  shows "GetIndexWithBorder ty B True c s = Inr (border_spec B s c)"
proof -
  have "border_index ty B c s = border_spec B s c"
  proof (cases B)
    case NVCV_BORDER_REPLICATE
    have "to_stride ty (s - 1) = s - 1" using assms by (intro to_stride_id) auto
    then show ?thesis using NVCV_BORDER_REPLICATE assms(1) by (auto simp: border_index_def)
  qed (use assms reflect_index reflect101_index wrap_index in simp_all)
  then show ?thesis using assms border_spec_range [OF assms(1,3), of c] by (simp add: GetIndexWithBorder_def Let_def)
qed

text \<open>
  Property C24: border indices mean what they say. For a size of which the quadruple fits the index
  type, and any coordinate, the closed formulas of the code give the index inside [0, size) that
  one finds by clamping (replicate), by adding or subtracting the size until it is inside (wrap),
  or by mirroring at the nearer end, with the end element repeated (reflect) or not (reflect101),
  until it is inside.
\<close>

theorem border_index_correct:
  assumes "0 < s" "4 * s \<le> stride_limit ty"
  shows "GetIndexWithBorder ty NVCV_BORDER_REPLICATE True c s = Inr (max 0 (min (s - 1) c))
    \<and> GetIndexWithBorder ty NVCV_BORDER_WRAP True c s = Inr (wrapped s c)
    \<and> GetIndexWithBorder ty NVCV_BORDER_REFLECT True c s = Inr (reflected s c)
    \<and> GetIndexWithBorder ty NVCV_BORDER_REFLECT101 True c s = Inr (reflected101 s c)"
  using border_index_spec [OF assms] by simp

theorem border_index_correct_witness:
  "GetIndexWithBorder Int32 NVCV_BORDER_REFLECT True (- 2) 5 = Inr 1 \<and> GetIndexWithBorder Int32 NVCV_BORDER_REFLECT101 True (- 2) 5 = Inr 2"
proof -
  have "reflected 5 (- 2) = 1" "reflected101 5 (- 2) = 2" by (simp_all add: reflected.simps reflected101.simps)
  then show ?thesis using border_index_correct [of 5 Int32 "- 2"] by simp
qed


section \<open>Addresses\<close>

text \<open>The offset of a coordinate, without overflow.\<close>

definition at_coord :: "int list \<Rightarrow> (int \<times> int) list \<Rightarrow> int" where
  "at_coord cs ds = sum_list (map2 (\<lambda>c d. c * snd d) cs ds)"

lemma offsets_Cons_iff: "x \<in> set (offsets ((n, s) # ds)) \<longleftrightarrow> (\<exists>i<nat n. \<exists>off \<in> set (offsets ds). x = int i * s + off)"
  by auto

lemma at_coord_offsets:
  "list_all2 (\<lambda>c d. 0 \<le> c \<and> c < fst d) cs ds \<Longrightarrow> at_coord cs ds \<in> set (offsets ds)"
proof (induction rule: list_all2_induct)
  case (Cons c cs d ds)
  obtain n s where d: "d = (n, s)" by (cases d)
  have "at_coord (c # cs) (d # ds) = int (nat c) * s + at_coord cs ds" "nat c < nat n"
    using Cons(1) by (auto simp: at_coord_def d)
  then show ?case using Cons(3) unfolding d offsets_Cons_iff by blast
qed (simp add: at_coord_def)

lemma to_stride_add: "to_stride ty (to_stride ty a + b) = to_stride ty (a + b)" "to_stride ty (a + to_stride ty b) = to_stride ty (a + b)"
  by (cases ty; simp add: wrap32_def wrap64_def algebra_simps mod_simps)+

lemma fold_stride:
  "to_stride ty z = z \<Longrightarrow> fold (\<lambda>i off. to_stride ty (off + to_stride ty (f i))) is z = to_stride ty (z + sum_list (map f is))"
proof (induction "is" arbitrary: z)
  case (Cons i "is")
  have "to_stride ty (to_stride ty (z + f i)) = to_stride ty (z + f i)" using to_stride_add(1) [of ty "z + f i" 0] by simp
  then show ?case using Cons.IH [of "to_stride ty (z + f i)"] by (simp add: to_stride_add algebra_simps)
qed simp

lemma wrap_strides_ok:
  assumes "wrap_strides ty Strides td is acc = Inr r" "distinct is"
  shows "(\<forall>i \<in> set is. if Strides ! i \<noteq> -1 then td_strides td ! i = Strides ! i
       else i < kVariableStrides Strides \<longrightarrow> td_strides td ! i < stride_limit ty \<and> (i < length acc \<longrightarrow> r ! i = to_stride ty (td_strides td ! i)))
    \<and> length r = length acc \<and> (\<forall>i. i \<notin> set is \<longrightarrow> r ! i = acc ! i)"
  using assms
proof (induction "is" arbitrary: acc)
  case (Cons i "is")
  show ?case
  proof (cases "Strides ! i = -1 \<and> i < kVariableStrides Strides")
    case True
    then have "td_strides td ! i < stride_limit ty" "wrap_strides ty Strides td is (acc[i := to_stride ty (td_strides td ! i)]) = Inr r"
      using Cons.prems by (auto simp: result_simps)
    then show ?thesis using Cons.IH [of "acc[i := to_stride ty (td_strides td ! i)]"] Cons.prems(2) True by (auto simp: nth_list_update)
  next
    case False
    then show ?thesis using Cons.IH [of acc] Cons.prems by (auto simp: result_simps split: if_splits)
  qed
qed simp

text \<open>Strides of a wrap whose run-time strides come first.\<close>

definition leading_variable :: "int list \<Rightarrow> nat \<Rightarrow> bool" where
  "leading_variable Strides v \<longleftrightarrow> v \<le> length Strides \<and> (\<forall>i<length Strides. Strides ! i = -1 \<longleftrightarrow> i < v)"

lemma kVariable_leading: "leading_variable Strides v \<Longrightarrow> kVariableStrides Strides = v"
proof -
  assume l: "leading_variable Strides v"
  have "{i. i < length Strides \<and> Strides ! i = -1} = {..<v}" using l by (auto simp: leading_variable_def)
  then show ?thesis by (simp add: kVariableStrides_def length_filter_conv_card)
qed

lemma wrap_offset_at:
  assumes w: "TensorWrapT_tensor ty Strides td = Inr w" and v: "leading_variable Strides v"
    and n: "length Strides = n" "length c = n" "n \<le> length (td_strides td)" "n \<le> length (td_shape td)"
    and c: "\<forall>x \<in> set c. to_stride ty x = x" and s: "\<forall>i<n. 0 \<le> td_strides td ! i"
  shows "wrap_offset w c = to_stride ty (at_coord c (take n (zip (td_shape td) (td_strides td))))" "tw_data w = td_basePtr td"
proof -
  obtain r where r: "wrap_strides ty Strides td [0..<n] (replicate v 0) = Inr r"
    and weq: "w = \<lparr>tw_type = ty, tw_Strides = Strides, tw_data = td_basePtr td, tw_strides = r\<rparr>"
    using w n(1) kVariable_leading [OF v] by (auto simp: TensorWrapT_tensor_def result_simps)
  note ok = wrap_strides_ok [OF r] kVariable_leading [OF v]
  have vn: "v \<le> n" using v n(1) by (simp add: leading_variable_def)
  have var: "r ! i = td_strides td ! i" if "i < v" for i
  proof -
    have "td_strides td ! i < stride_limit ty \<and> r ! i = to_stride ty (td_strides td ! i)"
      using ok v that vn n(1) by (auto simp: leading_variable_def Ball_def)
    moreover have "- stride_limit ty \<le> 0" "0 \<le> td_strides td ! i" using s that vn by (cases ty; simp)+
    ultimately show ?thesis using to_stride_id [of ty "td_strides td ! i"] by linarith
  qed
  have const: "Strides ! i = td_strides td ! i" if "v \<le> i" "i < n" for i
  proof -
    have "Strides ! i \<noteq> -1" using v that n(1) by (auto simp: leading_variable_def)
    then show ?thesis using ok that by (auto simp: Ball_def)
  qed
  let ?f = "\<lambda>i. c ! i * td_strides td ! i"
  have cm: "map (to_stride ty) c = c" using c by (simp add: map_idI)
  have 0: "to_stride ty 0 = 0" by (cases ty) simp_all
  have maps: "map (\<lambda>i. c ! i * r ! i) [0..<v] = map ?f [0..<v]" "map (\<lambda>i. c ! i * Strides ! i) [v..<n] = map ?f [v..<n]"
    using var const by simp_all
  have "fold (\<lambda>i off. to_stride ty (off + to_stride ty (c ! i * r ! i))) [0..<v] 0 = to_stride ty (sum_list (map ?f [0..<v]))"
    using fold_stride [OF 0, of "\<lambda>i. c ! i * r ! i" "[0..<v]"] unfolding maps by simp
  moreover have "fold (\<lambda>i off. to_stride ty (off + to_stride ty (c ! i * Strides ! i))) [v..<n] (to_stride ty z)
      = to_stride ty (z + sum_list (map ?f [v..<n]))" for z
    using fold_stride [of ty "to_stride ty z" "\<lambda>i. c ! i * Strides ! i" "[v..<n]"] to_stride_add(1) [of ty z 0]
    unfolding maps by (simp add: to_stride_add)
  ultimately have "wrap_offset w c = to_stride ty (sum_list (map ?f [0..<v]) + sum_list (map ?f [v..<n]))"
    using vn n ok(2) by (simp add: wrap_offset_def weq cm Let_def min_def)
  also have "sum_list (map ?f [0..<v]) + sum_list (map ?f [v..<n]) = sum_list (map ?f [0..<n])"
    using upt_add_eq_append [of 0 v "n - v"] vn by simp
  also have "map ?f [0..<n] = map2 (\<lambda>c d. c * snd d) c (take n (zip (td_shape td) (td_strides td)))"
    by (rule nth_equalityI) (use n in auto)
  finally show "wrap_offset w c = to_stride ty (at_coord c (take n (zip (td_shape td) (td_strides td))))" by (simp add: at_coord_def)
  show "tw_data w = td_basePtr td" by (simp add: weq)
qed


lemma kMap_Cons: "kMap (a # as) (Suc i) = (if as ! i then (if a then 1 else 0) + kMap as i else 0)"
  by (simp add: kMap_def)

lemma border_shape_ok:
  "border_shape ty active ns = Inr sh \<Longrightarrow> length active \<le> length ns \<Longrightarrow> i < length active \<Longrightarrow> active ! i \<Longrightarrow>
     sh ! kMap active i = to_stride ty (ns ! i) \<and> ns ! i < 2 ^ 31"
proof (induction ty active ns arbitrary: sh i rule: border_shape.induct)
  case (1 ty act acts n ns)
  show ?case
  proof (cases i)
    case 0
    then show ?thesis using 1 by (auto simp: result_simps kMap_def)
  next
    case (Suc j)
    then show ?thesis using 1 by (auto simp: result_simps kMap_Cons split: if_splits)
  qed
qed auto

text \<open>The coordinate that a border wrap accesses.\<close>

definition inside_coord :: "NVCVBorderType \<Rightarrow> bool list \<Rightarrow> int list \<Rightarrow> int list \<Rightarrow> int list" where
  "inside_coord B active shape cs = map (\<lambda>i. if active ! i then border_spec B (shape ! i) (cs ! i) else cs ! i) [0..<length cs]"

lemma border_coords_ok:
  assumes "\<forall>i<length cs. to_stride (tw_type (bw_tensorWrap b)) (cs ! i) = cs ! i \<and> (bw_active b ! (k + i) \<longrightarrow> 0 < sh i
      \<and> 4 * sh i \<le> stride_limit (tw_type (bw_tensorWrap b)) \<and> bw_shape b ! kMap (bw_active b) (k + i) = sh i)"
    and "bw_borderType b \<noteq> NVCV_BORDER_CONSTANT"
  shows "border_coords b k cs = Inr (map (\<lambda>i. if bw_active b ! (k + i) then border_spec (bw_borderType b) (sh i) (cs ! i) else cs ! i)
    [0..<length cs])"
  using assms(1)
proof (induction cs arbitrary: k sh)
  case (Cons c cs)
  let ?B = "bw_borderType b" and ?act = "bw_active b"
  have ih: "border_coords b (Suc k) cs = Inr (map (\<lambda>i. if ?act ! (Suc k + i) then border_spec ?B (sh (Suc i)) (cs ! i) else cs ! i) [0..<length cs])"
    using Cons.prems by (intro Cons.IH) fastforce
  have "to_stride (tw_type (bw_tensorWrap b)) c = c" using Cons.prems by fastforce
  moreover have "GetIndexWithBorder (tw_type (bw_tensorWrap b)) ?B (?act ! k) c (bw_shape b ! kMap ?act k)
      = Inr (if ?act ! k then border_spec ?B (sh 0) c else c)"
  proof (cases "?act ! k")
    case True
    then have "0 < sh 0" "4 * sh 0 \<le> stride_limit (tw_type (bw_tensorWrap b))" "bw_shape b ! kMap ?act k = sh 0"
      using Cons.prems by fastforce+
    then show ?thesis using True border_index_spec assms(2) by simp
  qed (use assms(2) in \<open>simp add: GetIndexWithBorder_def\<close>)
  moreover have "map (\<lambda>i. if ?act ! (k + i) then border_spec ?B (sh i) ((c # cs) ! i) else (c # cs) ! i) [0..<length (c # cs)]
      = (if ?act ! k then border_spec ?B (sh 0) c else c)
        # map (\<lambda>i. if ?act ! (Suc k + i) then border_spec ?B (sh (Suc i)) (cs ! i) else cs ! i) [0..<length cs]"
    unfolding length_Cons upt_conv_Cons [OF zero_less_Suc] list.map map_Suc_upt [symmetric] map_map comp_def by simp
  ultimately show ?case using ih by (simp add: Let_def)
qed simp

text \<open>
  A border wrap of all dimensions of a tensor, and a coordinate in it: the run-time strides come
  first, the coordinate and four times each extent fit the stride type, and the coordinates of the
  dimensions without border handling are inside.
\<close>

definition border_access_ok :: "StrideType \<Rightarrow> int list \<Rightarrow> bool list \<Rightarrow> NVCVTensorData \<Rightarrow> int list \<Rightarrow> bool" where
  "border_access_ok ty Strides active td cs \<longleftrightarrow>
     leading_variable Strides (kVariableStrides Strides) \<and> length active = length Strides \<and> td_rank td = int (length Strides)
   \<and> length cs = length Strides \<and> length Strides \<le> length (td_shape td) \<and> length Strides \<le> length (td_strides td)
   \<and> (\<forall>i<length Strides. 1 \<le> td_shape td ! i \<and> 4 * td_shape td ! i \<le> stride_limit ty \<and> 0 \<le> td_strides td ! i
        \<and> to_stride ty (cs ! i) = cs ! i \<and> (active ! i \<or> 0 \<le> cs ! i \<and> cs ! i < td_shape td ! i))"

lemma border_access:
  assumes b: "BorderWrap_tensor ty Strides B active td = Inr b" and ok: "border_access_ok ty Strides active td cs"
    and B: "B \<noteq> NVCV_BORDER_CONSTANT" and lim: "\<forall>x \<in> set (offsets (td_dims td)). - stride_limit ty \<le> x \<and> x < stride_limit ty"
  defines "x \<equiv> at_coord (inside_coord B active (td_shape td) cs) (td_dims td)"
  shows "border_ptr b cs = Inr (td_basePtr td + word_of_int x) \<and> x \<in> set (offsets (td_dims td))"
proof -
  let ?n = "length Strides" and ?sh = "\<lambda>i. td_shape td ! i" and ?ic = "inside_coord B active (td_shape td) cs"
  note o = ok [unfolded border_access_ok_def]
  obtain w sh where w: "TensorWrapT_tensor ty Strides td = Inr w" and s: "border_shape ty active (td_shape td) = Inr sh"
    and beq: "b = \<lparr>bw_tensorWrap = w, bw_borderType = B, bw_active = active, bw_shape = sh\<rparr>"
    using b by (auto simp: BorderWrap_tensor_def result_simps)
  have ty: "tw_type w = ty" using w by (auto simp: TensorWrapT_tensor_def result_simps)
  have n: "length cs = ?n" "length active = ?n" using o by simp_all
  have dims: "td_dims td = take ?n (zip (td_shape td) (td_strides td))" using o by (simp add: td_dims_def)
  have st: "to_stride ty (?sh i) = ?sh i" if "i < ?n" for i
  proof -
    have "1 \<le> ?sh i" "4 * ?sh i \<le> stride_limit ty" using o that by blast+
    then show ?thesis by (intro to_stride_id) linarith+
  qed
  have coords: "border_coords b 0 cs = Inr ?ic"
  proof -
    have "\<forall>i<?n. 0 < ?sh i" using o by fastforce
    then show ?thesis
      using border_coords_ok [of cs b 0 ?sh] o st border_shape_ok [OF s] B n by (simp add: beq ty inside_coord_def)
  qed
  have inside: "list_all2 (\<lambda>c d. 0 \<le> c \<and> c < fst d) ?ic (td_dims td)"
  proof (rule list_all2_all_nthI)
    show "length ?ic = length (td_dims td)" using o by (simp add: inside_coord_def dims)
    fix i assume "i < length ?ic"
    then have i: "i < ?n" by (simp add: inside_coord_def n)
    then have "1 \<le> ?sh i" "active ! i \<or> 0 \<le> cs ! i \<and> cs ! i < ?sh i" using o by blast+
    then show "0 \<le> ?ic ! i \<and> ?ic ! i < fst (td_dims td ! i)"
      using i o border_spec_range [of "?sh i" B "cs ! i"] B by (auto simp: inside_coord_def dims)
  qed
  have x: "x \<in> set (offsets (td_dims td))" unfolding x_def by (rule at_coord_offsets [OF inside])
  have fits: "to_stride ty c = c" if cin: "c \<in> set ?ic" for c
  proof -
    obtain i where i: "i < length ?ic" "c = ?ic ! i" using cin unfolding in_set_conv_nth by blast
    have "length ?ic = ?n" by (simp add: inside_coord_def n)
    then have i: "i < ?n" "c = ?ic ! i" using i by simp_all
    then have "0 \<le> c" "c < fst (td_dims td ! i)" using list_all2_nthD [OF inside, of i] \<open>length ?ic = ?n\<close> by simp_all
    moreover have "fst (td_dims td ! i) = ?sh i" using i o by (simp add: dims)
    moreover have "1 \<le> ?sh i" "4 * ?sh i \<le> stride_limit ty" using o i by simp_all
    ultimately show ?thesis by (intro to_stride_id) linarith+
  qed
  have len: "length ?ic = ?n" by (simp add: inside_coord_def n)
  have "\<forall>x \<in> set ?ic. to_stride ty x = x" "\<forall>i<?n. 0 \<le> td_strides td ! i" using fits o by blast+
  note wo = wrap_offset_at [OF w _ refl len _ _ this]
  have "wrap_offset w ?ic = to_stride ty x" "tw_data w = td_basePtr td" unfolding x_def dims using wo o by blast+
  moreover have "to_stride ty x = x" using lim x by (intro to_stride_id) auto
  ultimately show ?thesis using coords x B by (simp add: border_ptr_def beq wrap_ptr_def)
qed


text \<open>A constant border: null outside, the element of the coordinate itself inside.\<close>

definition coord_outside :: "bool list \<Rightarrow> int list \<Rightarrow> int list \<Rightarrow> bool" where
  "coord_outside active shape cs \<longleftrightarrow> (\<exists>i<length cs. active ! i \<and> (cs ! i < 0 \<or> shape ! i \<le> cs ! i))"

lemma border_access_constant:
  assumes b: "BorderWrap_tensor ty Strides NVCV_BORDER_CONSTANT active td = Inr b" and ok: "border_access_ok ty Strides active td cs"
    and lim: "\<forall>x \<in> set (offsets (td_dims td)). - stride_limit ty \<le> x \<and> x < stride_limit ty"
  shows "if coord_outside active (td_shape td) cs then border_ptr b cs = Inr 0
    else border_ptr b cs = Inr (td_basePtr td + word_of_int (at_coord cs (td_dims td))) \<and> at_coord cs (td_dims td) \<in> set (offsets (td_dims td))"
proof -
  let ?n = "length Strides"
  note o = ok [unfolded border_access_ok_def]
  obtain w sh where w: "TensorWrapT_tensor ty Strides td = Inr w" and s: "border_shape ty active (td_shape td) = Inr sh"
    and beq: "b = \<lparr>bw_tensorWrap = w, bw_borderType = NVCV_BORDER_CONSTANT, bw_active = active, bw_shape = sh\<rparr>"
    using b by (auto simp: BorderWrap_tensor_def result_simps)
  have ty: "tw_type w = ty" using w by (auto simp: TensorWrapT_tensor_def result_simps)
  have sh: "sh ! kMap active i = td_shape td ! i" if "i < ?n" "active ! i" for i
  proof -
    have "1 \<le> td_shape td ! i" "4 * td_shape td ! i \<le> stride_limit ty" using o that by blast+
    then have "to_stride ty (td_shape td ! i) = td_shape td ! i" by (intro to_stride_id) linarith+
    then show ?thesis using border_shape_ok [OF s] o that by simp
  qed
  have cs: "\<forall>i<?n. to_stride ty (cs ! i) = cs ! i" "length cs = ?n" using o by blast+
  have out: "list_ex (\<lambda>i. IsOutside (bw_active b ! i) (to_stride (tw_type (bw_tensorWrap b)) (cs ! i)) (bw_shape b ! kMap (bw_active b) i))
      [0..<length cs] \<longleftrightarrow> coord_outside active (td_shape td) cs"
    using sh cs by (auto simp: list_ex_iff coord_outside_def IsOutside_def beq ty)
  show ?thesis
  proof (cases "coord_outside active (td_shape td) cs")
    case False
    have dims: "td_dims td = take ?n (zip (td_shape td) (td_strides td))" using o by (simp add: td_dims_def)
    have "list_all2 (\<lambda>c d. 0 \<le> c \<and> c < fst d) cs (td_dims td)"
    proof (rule list_all2_all_nthI)
      show "length cs = length (td_dims td)" using o by (simp add: dims)
      fix i assume i: "i < length cs"
      then have "active ! i \<or> 0 \<le> cs ! i \<and> cs ! i < td_shape td ! i" using o by auto
      then show "0 \<le> cs ! i \<and> cs ! i < fst (td_dims td ! i)"
        using False i o by (auto simp: coord_outside_def dims not_less)
    qed
    then have x: "at_coord cs (td_dims td) \<in> set (offsets (td_dims td))" by (rule at_coord_offsets)
    have "\<forall>x \<in> set cs. to_stride ty x = x" "\<forall>i<?n. 0 \<le> td_strides td ! i"
      using cs o by (auto simp: in_set_conv_nth)
    note wo = wrap_offset_at [OF w _ refl cs(2) _ _ this]
    have "wrap_offset w cs = to_stride ty (at_coord cs (td_dims td))" "tw_data w = td_basePtr td" unfolding dims using wo o by blast+
    moreover have "to_stride ty (at_coord cs (td_dims td)) = at_coord cs (td_dims td)" using lim x by (intro to_stride_id) auto
    moreover have "border_ptr b cs = Inr (wrap_ptr w cs)" using out False by (simp add: border_ptr_def beq)
    ultimately show ?thesis using False x by (simp add: wrap_ptr_def)
  next
    case True
    then show ?thesis using out by (simp add: border_ptr_def beq)
  qed
qed

text \<open>
  Property C10: kernels stay inside the tensor. A border wrap over all dimensions of a tensor that
  was built from calculated requirements yields, for every coordinate and every border type, the
  address of an element of the tensor's memory, or null for a constant border exactly when the
  coordinate is outside. The coordinates of dimensions without border handling must be inside; four
  times each extent and the size of the memory must fit the stride type.
\<close>

theorem border_access_in_buffer:
  assumes "Tensor_CalcRequirements cuda old oldl rank shape dtype layout ub ur = Inr reqs"
    and "calc_inputs_ok cuda old shape rank dtype sb ur" "list_all dim_ok (reqs_dims reqs)" "tr_alignBytes reqs < 2 ^ 31"
    and "CalcTotalSizeBytes (cudaMem (tr_mem reqs)) = Inr tot" "tot \<le> stride_limit ty" "uint buf + tot < 2 ^ 64"
    and td: "td = Tensor_exportData \<lparr>te_alloc = a, te_reqs = reqs, te_memBuffer = buf\<rparr>"
    and "BorderWrap_tensor ty Strides B active td = Inr b" "border_access_ok ty Strides active td cs"
  shows "\<exists>p. border_ptr b cs = Inr p
    \<and> (if B = NVCV_BORDER_CONSTANT \<and> coord_outside active (td_shape td) cs then p = 0
       else uint buf \<le> uint p \<and> uint p + sb \<le> uint buf + tot)"
proof -
  have "spread sb tot (reqs_dims reqs)" by (rule tensor_dims_spread [OF assms(1-5)])
  moreover have dims: "td_dims td = reqs_dims reqs" by (simp add: td td_dims_export)
  ultimately have in_buf: "0 \<le> x \<and> x + sb \<le> tot" if "x \<in> set (offsets (td_dims td))" for x using that by (simp add: spread_def)
  have sb: "0 < sb" using assms(2) by (simp add: calc_inputs_ok_def)
  have lim: "\<forall>x \<in> set (offsets (td_dims td)). - stride_limit ty \<le> x \<and> x < stride_limit ty"
    using in_buf assms(6) sb by fastforce
  have base: "td_basePtr td = buf" by (simp add: td Tensor_exportData_def Let_def)
  have addr: "uint buf \<le> uint (buf + word_of_int x) \<and> uint (buf + word_of_int x) + sb \<le> uint buf + tot"
    if "x \<in> set (offsets (td_dims td))" for x
  proof -
    have x: "0 \<le> x" "x + sb \<le> tot" using in_buf [OF that] by simp_all
    have "0 \<le> uint buf" by simp
    then have "x < 2 ^ 64" using x sb assms(7) by linarith
    then have u: "uint (word_of_int x :: ptr) = x" using x(1) by (simp add: uint_word_of_int_eq take_bit_int_eq_self)
    then have "uint (buf + word_of_int x) = uint buf + x"
      using x sb assms(7) by (subst uint_add_lem [THEN iffD1]) simp_all
    then show ?thesis using x by simp
  qed
  show ?thesis
  proof (cases "B = NVCV_BORDER_CONSTANT")
    case True
    then show ?thesis
      using border_access_constant [of ty Strides active td b cs] assms(9,10) lim addr base by (auto split: if_splits)
  next
    case False
    then show ?thesis using border_access [OF assms(9,10) False lim] addr base by auto
  qed
qed


definition rgb_data :: NVCVTensorData where
  "rgb_data = Tensor_exportData \<lparr>te_alloc = DefaultAllocator counting_runtime, te_reqs = rgb_batch, te_memBuffer = 4096\<rparr>"

definition rgb_border :: "NVCVBorderType \<Rightarrow> BorderWrap result" where
  "rgb_border B = BorderWrap_tensor Int32 [-1, -1, -1, 1] B [False, True, True, False] rgb_data"

lemma rgb_data_fields: "td_shape rgb_data = [2, 4, 5, 3] @ replicate 11 0" "td_strides rgb_data = [128, 32, 3, 1] @ replicate 11 0"
  "td_rank rgb_data = 4" "td_basePtr rgb_data = 4096"
  by (simp_all add: rgb_data_def Tensor_exportData_def rgb_batch_def)

lemma upt_four_wrap: "[0..<4] = [0, 1, 2, 3 :: nat]"
  by (simp add: upt_rec)

lemma rgb_border_eq:
  "rgb_border B = Inr \<lparr>bw_tensorWrap = \<lparr>tw_type = Int32, tw_Strides = [-1, -1, -1, 1], tw_data = 4096, tw_strides = [128, 32, 3]\<rparr>,
     bw_borderType = B, bw_active = [False, True, True, False], bw_shape = [4, 5]\<rparr>"
  by (simp add: rgb_border_def BorderWrap_tensor_def TensorWrapT_tensor_def rgb_data_fields kVariableStrides_def upt_rec
      eval_nat_numeral)

lemma all_four: "(\<forall>i<Suc (Suc (Suc (Suc 0))). P i) \<longleftrightarrow> P 0 \<and> P (Suc 0) \<and> P (Suc (Suc 0)) \<and> P (Suc (Suc (Suc 0)))"
  by (auto simp: less_Suc_eq)

lemma rgb_access_ok: "border_access_ok Int32 [-1, -1, -1, 1] [False, True, True, False] rgb_data [1, -1, 7, 2]"
proof -
  have "leading_variable [-1, -1, -1, 1] 3" by (auto simp: leading_variable_def less_Suc_eq eval_nat_numeral)
  then show ?thesis
    by (simp add: border_access_ok_def rgb_data_fields kVariableStrides_def all_four numeral_3_eq_3)
qed

theorem border_access_in_buffer_witness:
  "\<exists>b p. rgb_border NVCV_BORDER_REFLECT = Inr b \<and> border_ptr b [1, -1, 7, 2] = Inr p \<and> 4096 \<le> uint p \<and> uint p + 1 \<le> 4096 + 512"
proof -
  have h: "list_all dim_ok (reqs_dims rgb_batch)" "tr_alignBytes rgb_batch < 2 ^ 31"
    by (simp_all add: rgb_batch_dims dim_ok_def) (simp add: rgb_batch_def)
  have t: "CalcTotalSizeBytes (cudaMem (tr_mem rgb_batch)) = Inr 512" by code_simp
  obtain b where b: "rgb_border NVCV_BORDER_REFLECT = Inr b" by (simp add: rgb_border_eq)
  show ?thesis
    using border_access_in_buffer [OF rgb_batch_requirements rgb_batch_inputs h t _ _ rgb_data_def b [unfolded rgb_border_def] rgb_access_ok]
      b by auto
qed

text \<open>
  With 32-bit indices and more than 2^30 elements the doubled size is negative, and a coordinate
  that is inside is moved.
\<close>

lemma reflect_overflow: "GetIndexWithBorder Int32 NVCV_BORDER_REFLECT True 0 (2 ^ 30 + 1) = Inr 1"
  by (simp add: GetIndexWithBorder_def border_index_def Let_def wrap32_def drop_bit_eq_div smod_int_alt_def)

end
