(* ===== verification/Tensor_Access.thy ===== *)
theory Tensor_Access
  imports Device_Access
begin

text \<open>
  How host code looks at the data of a tensor (\<open>TensorLayoutInfo.hpp\<close>, \<open>TensorShapeInfo.hpp\<close>,
  \<open>TensorDataAccess.hpp\<close> and \<open>detail/TensorDataImpl.hpp\<close> under \<open>src/nvcv/src/include/nvcv\<close>): which
  dimensions of a layout are samples, rows, columns and channels, whether the tensor is an image,
  and the addresses of its samples, rows, planes and channels.
\<close>

section \<open>Labels of a layout\<close>

definition GetLabel :: "NVCVTensorLayout \<Rightarrow> int \<Rightarrow> char" where
  "GetLabel l idx =
     (if idx < 0 then (if 0 \<le> tl_rank l + idx \<and> tl_rank l + idx < tl_rank l then tl_data l ! nat (tl_rank l + idx) else CHR 0x00)
      else if 0 \<le> idx \<and> idx < tl_rank l then tl_data l ! nat idx else CHR 0x00)"

definition StartsWith :: "NVCVTensorLayout \<Rightarrow> NVCVTensorLayout \<Rightarrow> bool" where
  "StartsWith l test \<longleftrightarrow>
     (if tl_rank test \<le> tl_rank l then take (nat (tl_rank test)) (tl_data test) = take (nat (tl_rank test)) (tl_data l) else False)"

definition EndsWith :: "NVCVTensorLayout \<Rightarrow> NVCVTensorLayout \<Rightarrow> bool" where
  "EndsWith l test \<longleftrightarrow>
     (if tl_rank test \<le> tl_rank l
      then take (nat (tl_rank test)) (tl_data test) = take (nat (tl_rank test)) (drop (nat (tl_rank l - tl_rank test)) (tl_data l))
      else False)"

definition TENSOR_NONE :: NVCVTensorLayout where "TENSOR_NONE = LAYOUT_MAKE ''''"
definition TENSOR_W :: NVCVTensorLayout where "TENSOR_W = LAYOUT_MAKE ''W''"
definition TENSOR_CHW :: NVCVTensorLayout where "TENSOR_CHW = LAYOUT_MAKE ''CHW''"
definition TENSOR_HWC :: NVCVTensorLayout where "TENSOR_HWC = LAYOUT_MAKE ''HWC''"

section \<open>Layouts\<close>

record TensorLayoutInfo =
  li_layout :: NVCVTensorLayout
  li_isBatch :: bool
  li_isImage :: bool
  li_idxSample :: int

record TensorLayoutInfoImage = TensorLayoutInfo +
  li_numSpatialDims :: int
  li_isRowMajor :: bool
  li_idxChannel :: int
  li_idxWidth :: int
  li_idxHeight :: int
  li_idxDepth :: int
  li_hasChannel :: bool
  li_isChannelFirst :: bool
  li_isChannelLast :: bool

definition TensorLayoutInfo_ctor :: "NVCVTensorLayout \<Rightarrow> TensorLayoutInfo" where
  "TensorLayoutInfo_ctor l =
     (let isBatch = (tl_rank l > 0 \<and> GetLabel l 0 = CHR ''N'') in
      \<lparr>li_layout = l, li_isBatch = isBatch,
       li_isImage = (if \<not> layout_eq l TENSOR_NONE then FindDimIndex l (CHR ''W'') \<ge> 0 else False),
       li_idxSample = (if isBatch then 0 else -1)\<rparr>)"

definition TensorLayoutInfoImage_ctor :: "NVCVTensorLayout \<Rightarrow> TensorLayoutInfoImage" where
  "TensorLayoutInfoImage_ctor l =
     (let base = TensorLayoutInfo_ctor l; idxChannel = FindDimIndex l (CHR ''C''); hasChannel = (idxChannel \<ge> 0) in
      \<lparr>li_layout = li_layout base, li_isBatch = li_isBatch base, li_isImage = li_isImage base, li_idxSample = li_idxSample base,
       li_numSpatialDims = int (length (filter (\<lambda>v. v = CHR ''W'' \<or> v = CHR ''H'' \<or> v = CHR ''D'') (take (nat (tl_rank l)) (tl_data l)))),
       li_isRowMajor = (EndsWith l TENSOR_W \<or> EndsWith l NVCV_TENSOR_WC),
       li_idxChannel = idxChannel,
       li_idxWidth = FindDimIndex l (CHR ''W''),
       li_idxHeight = FindDimIndex l (CHR ''H''),
       li_idxDepth = FindDimIndex l (CHR ''D''),
       li_hasChannel = hasChannel,
       li_isChannelFirst = (if \<not> layout_eq l TENSOR_NONE
          then (if li_isBatch base then GetLabel l 1 = CHR ''C'' else GetLabel l 0 = CHR ''C'') else False),
       li_isChannelLast = (if \<not> layout_eq l TENSOR_NONE then GetLabel l (tl_rank l - 1) = CHR ''C'' \<or> \<not> hasChannel else False)\<rparr>)"

definition LayoutInfoImage_IsCompatible :: "NVCVTensorLayout \<Rightarrow> bool" where
  "LayoutInfoImage_IsCompatible l \<longleftrightarrow> li_isImage (TensorLayoutInfo_ctor l)"

definition LayoutInfoImage_Create :: "NVCVTensorLayout \<Rightarrow> TensorLayoutInfoImage option" where
  "LayoutInfoImage_Create l = (if LayoutInfoImage_IsCompatible l then Some (TensorLayoutInfoImage_ctor l) else None)"

section \<open>Shapes\<close>

record TensorShape =
  ts_shape :: "int list"
  ts_layout :: NVCVTensorLayout

definition TensorShape_ctor :: "int list \<Rightarrow> NVCVTensorLayout \<Rightarrow> TensorShape result" where
  "TensorShape_ctor shape l =
     throw_if (\<not> layout_eq l TENSOR_NONE \<and> int (length shape) \<noteq> tl_rank l) NVCV_ERROR_INVALID_ARGUMENT
       (Inr \<lparr>ts_shape = shape, ts_layout = l\<rparr>)"

definition TensorShape_at :: "TensorShape \<Rightarrow> int \<Rightarrow> int result" where
  "TensorShape_at s i = nvcv_assert (0 \<le> i \<and> i < int (length (ts_shape s))) (Inr (ts_shape s ! nat i))"

text \<open>The value of an \<open>Optional\<close>, which throws a \<open>std::runtime_error\<close> if there is none.\<close>

definition Optional_value :: "'a option \<Rightarrow> 'a result" where
  "Optional_value x = (case x of Some v \<Rightarrow> Inr v | None \<Rightarrow> Inl RuntimeError)"

text \<open>The extents are 64-bit; what is kept of them is an \<open>int\<close>.\<close>

record TensorShapeInfoImage =
  si_shape :: TensorShape
  si_infoLayout :: TensorLayoutInfoImage
  si_numSamples :: int
  si_numChannels :: int
  si_cols :: int
  si_rows :: int

definition si_samples :: "TensorShape \<Rightarrow> int \<Rightarrow> int result" where
  "si_samples s idx =
     (if idx \<ge> 0 then bind_result (TensorShape_at s idx) (\<lambda>n. Inr (wrap32 n))
      else if \<not> layout_eq (ts_layout s) TENSOR_NONE then Inr 1 else Inr 0)"

definition TensorShapeInfoImage_ctor :: "TensorShape \<Rightarrow> TensorShapeInfoImage result" where
  "TensorShapeInfoImage_ctor s =
     bind_result (Optional_value (LayoutInfoImage_Create (ts_layout s))) (\<lambda>info.
     bind_result (si_samples s (li_idxSample info)) (\<lambda>samples.
     bind_result (if li_idxChannel info \<ge> 0 then TensorShape_at s (li_idxChannel info) else Inr 1) (\<lambda>channels.
     throw_if (li_idxWidth info < 0) NVCV_ERROR_INVALID_ARGUMENT
    (bind_result (TensorShape_at s (li_idxWidth info)) (\<lambda>w.
     bind_result (if li_idxHeight info \<ge> 0 then TensorShape_at s (li_idxHeight info) else Inr 1) (\<lambda>h.
     Inr \<lparr>si_shape = s, si_infoLayout = info, si_numSamples = samples, si_numChannels = wrap32 channels,
          si_cols = wrap32 w, si_rows = wrap32 h\<rparr>))))))"

definition ShapeInfoImage_IsCompatible :: "TensorShape \<Rightarrow> bool" where
  "ShapeInfoImage_IsCompatible s \<longleftrightarrow> True"

definition ShapeInfoImage_Create :: "TensorShape \<Rightarrow> TensorShapeInfoImage option result" where
  "ShapeInfoImage_Create s =
     (if ShapeInfoImage_IsCompatible s then bind_result (TensorShapeInfoImage_ctor s) (\<lambda>i. Inr (Some i)) else Inr None)"

text \<open>Planar images.\<close>

record TensorShapeInfoImagePlanar =
  sp_image :: TensorShapeInfoImage
  sp_numPlanes :: int

definition ShapeInfoPlanar_IsCompatible :: "TensorShape \<Rightarrow> bool result" where
  "ShapeInfoPlanar_IsCompatible s =
     (let l = ts_layout s in
      case LayoutInfoImage_Create l of
        Some info \<Rightarrow>
          if li_isRowMajor info \<and> (li_isChannelFirst info \<or> li_isChannelLast info) then
            (let iheight = li_idxHeight info in
             if iheight \<ge> 0 then
               nvcv_assert (iheight + 1 < tl_rank l)
                 (Inr (GetLabel l (iheight + 1) = CHR ''W''
                   \<and> (iheight = 0 \<or> li_isChannelLast info \<or> GetLabel l (iheight - 1) = CHR ''C'')))
             else (let ichannel = li_idxChannel info in Inr (ichannel = -1 \<or> ichannel \<ge> tl_rank l - 2)))
          else Inr False
      | None \<Rightarrow> Inr False)"

definition ShapeInfoPlanar_ctor :: "TensorShape \<Rightarrow> TensorShapeInfoImagePlanar result" where
  "ShapeInfoPlanar_ctor s =
     bind_result (TensorShapeInfoImage_ctor s) (\<lambda>base.
     let info = si_infoLayout base in
     if li_isChannelLast info then Inr \<lparr>sp_image = base, sp_numPlanes = 1\<rparr>
     else if li_idxChannel info \<ge> 0
       then bind_result (TensorShape_at s (li_idxChannel info)) (\<lambda>n. Inr \<lparr>sp_image = base, sp_numPlanes = wrap32 n\<rparr>)
       else Inr \<lparr>sp_image = base, sp_numPlanes = 1\<rparr>)"

definition ShapeInfoPlanar_Create :: "TensorShape \<Rightarrow> TensorShapeInfoImagePlanar option result" where
  "ShapeInfoPlanar_Create s =
     bind_result (ShapeInfoPlanar_IsCompatible s) (\<lambda>c.
       if c then bind_result (ShapeInfoPlanar_ctor s) (\<lambda>i. Inr (Some i)) else Inr None)"

section \<open>Data\<close>

definition TensorData_shape :: "NVCVTensorData \<Rightarrow> TensorShape result" where
  "TensorData_shape td =
     throw_if (td_rank td < 0 \<or> td_rank td > NVCV_TENSOR_MAX_RANK) NVCV_ERROR_INVALID_ARGUMENT
       (TensorShape_ctor (take (nat (td_rank td)) (td_shape td)) (td_layout td))"

definition TensorData_layout :: "NVCVTensorData \<Rightarrow> NVCVTensorLayout result" where
  "TensorData_layout td = bind_result (TensorData_shape td) (\<lambda>s. Inr (ts_layout s))"

definition TensorData_stride :: "NVCVTensorData \<Rightarrow> int \<Rightarrow> int result" where
  "TensorData_stride td d =
     throw_if (d < 0 \<or> d \<ge> td_rank td) NVCV_ERROR_INVALID_ARGUMENT (Inr (td_strides td ! nat d))"

definition Strided_IsCompatibleKind :: "int \<Rightarrow> bool" where
  "Strided_IsCompatibleKind kind \<longleftrightarrow> kind = NVCV_TENSOR_BUFFER_STRIDED_CUDA"

section \<open>Access objects\<close>

record TensorDataAccess =
  da_tdata :: NVCVTensorData
  da_info :: TensorShapeInfoImagePlanar

definition Access_IsCompatible :: "NVCVTensorData \<Rightarrow> bool result" where
  "Access_IsCompatible td =
     (if Strided_IsCompatibleKind (td_bufferType td)
      then bind_result (TensorData_shape td) (\<lambda>s.
             if ShapeInfoImage_IsCompatible s then ShapeInfoPlanar_IsCompatible s else Inr False)
      else Inr False)"

text \<open>\<open>TensorDataAccessStridedImagePlanar::Create\<close>\<close>

definition Access_Create :: "NVCVTensorData \<Rightarrow> TensorDataAccess option result" where
  "Access_Create td =
     bind_result (Access_IsCompatible td) (\<lambda>c.
       if c then
         bind_result (TensorData_shape td) (\<lambda>s.
         bind_result (ShapeInfoPlanar_Create s) (\<lambda>i.
         bind_result (Optional_value i) (\<lambda>i. Inr (Some \<lparr>da_tdata = td, da_info = i\<rparr>))))
       else Inr None)"

text \<open>\<open>TensorDataAccessStridedImage::Create\<close>, up to the access object made from the shape info\<close>

definition AccessImage_Create :: "NVCVTensorData \<Rightarrow> TensorShapeInfoImage option result" where
  "AccessImage_Create td =
     (if Strided_IsCompatibleKind (td_bufferType td)
      then bind_result (TensorData_shape td) (\<lambda>s.
             if ShapeInfoImage_IsCompatible s
             then bind_result (ShapeInfoImage_Create s) (\<lambda>i. bind_result (Optional_value i) (\<lambda>i. Inr (Some i)))
             else Inr None)
      else Inr None)"

definition da_layout :: "TensorDataAccess \<Rightarrow> TensorLayoutInfoImage" where
  "da_layout a = si_infoLayout (sp_image (da_info a))"

definition numSamples :: "TensorDataAccess \<Rightarrow> int" where
  "numSamples a = si_numSamples (sp_image (da_info a))"

definition numChannels :: "TensorDataAccess \<Rightarrow> int" where
  "numChannels a = si_numChannels (sp_image (da_info a))"

definition numCols :: "TensorDataAccess \<Rightarrow> int" where
  "numCols a = si_cols (sp_image (da_info a))"

definition numRows :: "TensorDataAccess \<Rightarrow> int" where
  "numRows a = si_rows (sp_image (da_info a))"

definition numPlanes_access :: "TensorDataAccess \<Rightarrow> int" where
  "numPlanes_access a = sp_numPlanes (da_info a)"

definition stride_or_zero :: "TensorDataAccess \<Rightarrow> int \<Rightarrow> int result" where
  "stride_or_zero a idx = (if idx \<ge> 0 then TensorData_stride (da_tdata a) idx else Inr 0)"

definition sampleStride :: "TensorDataAccess \<Rightarrow> int result" where
  "sampleStride a = stride_or_zero a (li_idxSample (da_layout a))"

definition chStride :: "TensorDataAccess \<Rightarrow> int result" where
  "chStride a = stride_or_zero a (li_idxChannel (da_layout a))"

definition colStride :: "TensorDataAccess \<Rightarrow> int result" where
  "colStride a = stride_or_zero a (li_idxWidth (da_layout a))"

definition rowStride :: "TensorDataAccess \<Rightarrow> int result" where
  "rowStride a = stride_or_zero a (li_idxHeight (da_layout a))"

definition depthStride :: "TensorDataAccess \<Rightarrow> int result" where
  "depthStride a = stride_or_zero a (li_idxDepth (da_layout a))"

definition planeStride :: "TensorDataAccess \<Rightarrow> int result" where
  "planeStride a =
     (if li_isChannelFirst (da_layout a)
      then nvcv_assert (li_idxChannel (da_layout a) \<ge> 0) (TensorData_stride (da_tdata a) (li_idxChannel (da_layout a)))
      else Inr 0)"

text \<open>A pointer moved by a stride, with the assertion on the index.\<close>

definition data_at :: "int result \<Rightarrow> int \<Rightarrow> int \<Rightarrow> ptr \<Rightarrow> ptr result" where
  "data_at stride count i base =
     nvcv_assert (0 \<le> i \<and> i < count) (bind_result stride (\<lambda>s. Inr (base + word_of_int (wrap64 (s * i)))))"

definition sampleData :: "TensorDataAccess \<Rightarrow> int \<Rightarrow> ptr \<Rightarrow> ptr result" where
  "sampleData a n base = data_at (sampleStride a) (numSamples a) n base"

definition rowData :: "TensorDataAccess \<Rightarrow> int \<Rightarrow> ptr \<Rightarrow> ptr result" where
  "rowData a y base = data_at (rowStride a) (numRows a) y base"

definition chData :: "TensorDataAccess \<Rightarrow> int \<Rightarrow> ptr \<Rightarrow> ptr result" where
  "chData a c base = data_at (chStride a) (numChannels a) c base"

definition planeData :: "TensorDataAccess \<Rightarrow> int \<Rightarrow> ptr \<Rightarrow> ptr result" where
  "planeData a p base = data_at (planeStride a) (numPlanes_access a) p base"

section \<open>Where the elements are\<close>

text \<open>The stride that belongs to a label, and 0 for a label that the layout does not have.\<close>

definition label_stride :: "NVCVTensorData \<Rightarrow> char \<Rightarrow> int" where
  "label_stride td c = (let i = FindDimIndex (td_layout td) c in if i \<ge> 0 then td_strides td ! nat i else 0)"

text \<open>The coordinates of channel \<open>c\<close> of the pixel in row \<open>y\<close> and column \<open>x\<close> of sample \<open>n\<close>.\<close>

definition image_coords :: "NVCVTensorLayout \<Rightarrow> int \<Rightarrow> int \<Rightarrow> int \<Rightarrow> int \<Rightarrow> int list" where
  "image_coords l n y x c =
     map (\<lambda>k. if k = CHR ''N'' then n else if k = CHR ''H'' then y else if k = CHR ''W'' then x else if k = CHR ''C'' then c else 0) (labels l)"

lemma FindDimIndex_bounds: "layout_ok l \<Longrightarrow> FindDimIndex l c = -1 \<or> 0 \<le> FindDimIndex l c \<and> FindDimIndex l c < tl_rank l"
proof -
  have "memchr s c n = Some i \<Longrightarrow> i < n" for s n i
    by (induction s c n arbitrary: i rule: memchr.induct) (auto split: if_splits)
  then show ?thesis by (fastforce simp: FindDimIndex_def split: option.splits)
qed

lemma FindDimIndex_mem:
  assumes "layout_ok l" "distinct (labels l)" "c \<in> set (labels l)"
  obtains j where "j < length (labels l)" "labels l ! j = c" "FindDimIndex l c = int j"
  using assms FindDimIndex_nth by (metis in_set_conv_nth)

lemma sum_no_label: "c \<notin> set ls \<Longrightarrow> sum_list (map2 (*) (map (\<lambda>k. if k = c then v else 0) ls) (ss :: int list)) = 0"
  by (induction ls arbitrary: ss) (auto simp: zip_Cons1 split: list.splits)

lemma sum_one_label:
  assumes "distinct ls" "length ls \<le> length ss" "j < length ls"
  shows "sum_list (map2 (*) (map (\<lambda>k. if k = ls ! j then v else 0) ls) (ss :: int list)) = v * ss ! j"
  using assms
proof (induction ls arbitrary: ss j)
  case (Cons k ls)
  obtain s ss' where ss: "ss = s # ss'" using Cons.prems by (cases ss) auto
  show ?case
  proof (cases j)
    case 0
    then show ?thesis using Cons.prems ss sum_no_label [of k ls v ss'] by simp
  next
    case (Suc i)
    then have "ls ! i \<noteq> k" using Cons.prems by auto
    then show ?thesis using Cons.IH [of ss' i] Cons.prems ss Suc by auto
  qed
qed simp

lemma sum_map2_add:
  "sum_list (map2 (*) (map (\<lambda>k. f k + g k :: int) ls) ss) =
     sum_list (map2 (*) (map f ls) ss) + sum_list (map2 (*) (map g ls) ss)"
  by (induction ls arbitrary: ss) (auto simp: zip_Cons1 algebra_simps split: list.splits)

lemma label_stride_sum:
  assumes "layout_ok (td_layout td)" "distinct (labels (td_layout td))" "length (labels (td_layout td)) \<le> length (td_strides td)"
  shows "sum_list (map2 (*) (map (\<lambda>k. if k = c then v else 0) (labels (td_layout td))) (td_strides td)) = v * label_stride td c"
proof (cases "c \<in> set (labels (td_layout td))")
  case True
  then obtain j where "j < length (labels (td_layout td))" "labels (td_layout td) ! j = c" "FindDimIndex (td_layout td) c = int j"
    using FindDimIndex_mem [OF assms(1,2)] by blast
  then show ?thesis using sum_one_label [OF assms(2,3), of j v] by (simp add: label_stride_def)
next
  case False
  then show ?thesis using sum_no_label [OF False, of v] by (simp add: label_stride_def FindDimIndex_none)
qed

lemma elem_addr_image:
  assumes "layout_ok (td_layout td)" "distinct (labels (td_layout td))" "length (labels (td_layout td)) \<le> length (td_strides td)"
  shows "elem_addr td (image_coords (td_layout td) n y x c) =
    td_basePtr td + word_of_int (label_stride td (CHR ''N'') * n + label_stride td (CHR ''H'') * y
      + label_stride td (CHR ''W'') * x + label_stride td (CHR ''C'') * c)"
proof -
  let ?one = "\<lambda>a v k. if k = a then v else (0 :: int)"
  have f: "(\<lambda>k. if k = CHR ''N'' then n else if k = CHR ''H'' then y else if k = CHR ''W'' then x else if k = CHR ''C'' then c else 0) =
      (\<lambda>k. ?one (CHR ''N'') n k + (?one (CHR ''H'') y k + (?one (CHR ''W'') x k + ?one (CHR ''C'') c k)))"
    by (rule ext) simp
  show ?thesis
    unfolding elem_addr_def image_coords_def f sum_map2_add label_stride_sum [OF assms] by (simp add: algebra_simps)
qed

text \<open>The arrays of the data have 15 entries, and no label occurs twice.\<close>

definition tensor_data_ok :: "NVCVTensorData \<Rightarrow> bool" where
  "tensor_data_ok td \<longleftrightarrow> layout_ok (td_layout td) \<and> distinct (labels (td_layout td))
     \<and> length (td_shape td) = 15 \<and> length (td_strides td) = 15"

definition label_extent :: "NVCVTensorData \<Rightarrow> char \<Rightarrow> int" where
  "label_extent td c = (let i = FindDimIndex (td_layout td) c in if i \<ge> 0 then td_shape td ! nat i else 1)"

lemma TensorData_shapeD:
  assumes "TensorData_shape td = Inr s"
  shows "ts_layout s = td_layout td \<and> ts_shape s = take (nat (td_rank td)) (td_shape td) \<and> 0 \<le> td_rank td \<and> td_rank td \<le> 15
    \<and> (\<not> layout_eq (td_layout td) TENSOR_NONE \<longrightarrow> int (length (ts_shape s)) = tl_rank (td_layout td))"
  using assms by (auto simp: TensorData_shape_def TensorShape_ctor_def result_simps)

lemma TensorShapeInfoImage_ctorD:
  assumes "TensorShapeInfoImage_ctor s = Inr i" "layout_ok (ts_layout s)"
    "\<not> layout_eq (ts_layout s) TENSOR_NONE \<longrightarrow> int (length (ts_shape s)) = tl_rank (ts_layout s)"
  defines "info \<equiv> TensorLayoutInfoImage_ctor (ts_layout s)"
  defines "ext \<equiv> \<lambda>c. (let i = FindDimIndex (ts_layout s) c in if i \<ge> 0 then ts_shape s ! nat i else 1)"
  shows "si_infoLayout i = info \<and> \<not> layout_eq (ts_layout s) TENSOR_NONE \<and> int (length (ts_shape s)) = tl_rank (ts_layout s)
    \<and> si_numSamples i = wrap32 (if li_isBatch info then ts_shape s ! 0 else 1)
    \<and> si_numChannels i = wrap32 (ext (CHR ''C'')) \<and> si_cols i = wrap32 (ext (CHR ''W'')) \<and> si_rows i = wrap32 (ext (CHR ''H''))"
proof -
  have im: "li_isImage (TensorLayoutInfo_ctor (ts_layout s))"
    using assms(1) by (auto simp: TensorShapeInfoImage_ctor_def LayoutInfoImage_Create_def LayoutInfoImage_IsCompatible_def
        Optional_value_def result_simps split: if_splits)
  then have ne: "\<not> layout_eq (ts_layout s) TENSOR_NONE" by (auto simp: TensorLayoutInfo_ctor_def Let_def split: if_splits)
  have c: "LayoutInfoImage_Create (ts_layout s) = Some info"
    using im by (simp add: LayoutInfoImage_Create_def LayoutInfoImage_IsCompatible_def info_def)
  have idx: "li_idxChannel info = FindDimIndex (ts_layout s) (CHR ''C'')" "li_idxWidth info = FindDimIndex (ts_layout s) (CHR ''W'')"
    "li_idxHeight info = FindDimIndex (ts_layout s) (CHR ''H'')" "li_idxSample info = (if li_isBatch info then 0 else -1)"
    by (simp_all add: info_def TensorLayoutInfoImage_ctor_def TensorLayoutInfo_ctor_def Let_def)
  show ?thesis
    using assms(1,3) ne c idx
    by (auto simp: TensorShapeInfoImage_ctor_def Optional_value_def si_samples_def TensorShape_at_def ext_def Let_def result_simps
        split: if_splits)
qed

lemma Access_CreateD:
  assumes "tensor_data_ok td" "Access_Create td = Inr (Some a)"
  defines "info \<equiv> TensorLayoutInfoImage_ctor (td_layout td)"
  shows "da_tdata a = td \<and> da_layout a = info \<and> td_rank td = tl_rank (td_layout td) \<and> li_isImage info \<and> li_isRowMajor info
    \<and> numSamples a = wrap32 (if li_isBatch info then td_shape td ! 0 else 1)
    \<and> numChannels a = wrap32 (label_extent td (CHR ''C'')) \<and> numCols a = wrap32 (label_extent td (CHR ''W''))
    \<and> numRows a = wrap32 (label_extent td (CHR ''H''))
    \<and> numPlanes_access a = (if li_isChannelLast info then 1 else wrap32 (label_extent td (CHR ''C'')))
    \<and> (li_isChannelFirst info \<or> li_isChannelLast info)"
proof -
  note ok = assms(1) [unfolded tensor_data_ok_def]
  obtain s where s: "TensorData_shape td = Inr s" and c: "ShapeInfoPlanar_IsCompatible s = Inr True"
    using assms(2) by (auto simp: Access_Create_def Access_IsCompatible_def ShapeInfoPlanar_Create_def ShapeInfoImage_IsCompatible_def
        Optional_value_def result_simps split: if_splits)
  obtain i where a: "a = \<lparr>da_tdata = td, da_info = i\<rparr>" and i: "ShapeInfoPlanar_ctor s = Inr i"
    using assms(2) s c by (auto simp: Access_Create_def ShapeInfoPlanar_Create_def Optional_value_def result_simps split: if_splits option.splits)
  obtain b where b: "TensorShapeInfoImage_ctor s = Inr b"
    using i by (auto simp: ShapeInfoPlanar_ctor_def result_simps)
  note sd = TensorData_shapeD [OF s]
  have bd: "si_infoLayout b = info" "\<not> layout_eq (td_layout td) TENSOR_NONE" "int (length (ts_shape s)) = tl_rank (td_layout td)"
    "si_numSamples b = wrap32 (if li_isBatch info then ts_shape s ! 0 else 1)"
    "si_numChannels b = wrap32 (let i = FindDimIndex (td_layout td) (CHR ''C'') in if i \<ge> 0 then ts_shape s ! nat i else 1)"
    "si_cols b = wrap32 (let i = FindDimIndex (td_layout td) (CHR ''W'') in if i \<ge> 0 then ts_shape s ! nat i else 1)"
    "si_rows b = wrap32 (let i = FindDimIndex (td_layout td) (CHR ''H'') in if i \<ge> 0 then ts_shape s ! nat i else 1)"
    using TensorShapeInfoImage_ctorD [OF b] sd ok unfolding info_def by auto
  have rank: "td_rank td = tl_rank (td_layout td)" using bd(3) sd ok by (simp add: min_def split: if_splits)
  have ext: "(let i = FindDimIndex (td_layout td) k in if i \<ge> 0 then ts_shape s ! nat i else 1) = label_extent td k" for k
  proof -
    have "nat (FindDimIndex (td_layout td) k) < nat (td_rank td)" if "0 \<le> FindDimIndex (td_layout td) k"
      using that FindDimIndex_bounds [of "td_layout td" k] ok rank by linarith
    then show ?thesis using sd by (simp add: label_extent_def Let_def)
  qed
  have im: "LayoutInfoImage_Create (td_layout td) = Some info" "li_isRowMajor info" "li_isChannelFirst info \<or> li_isChannelLast info"
    using c sd by (auto simp: ShapeInfoPlanar_IsCompatible_def LayoutInfoImage_Create_def info_def Let_def split: if_splits option.splits)
  have "li_isImage info"
    using im(1) by (auto simp: LayoutInfoImage_Create_def LayoutInfoImage_IsCompatible_def info_def TensorLayoutInfoImage_ctor_def Let_def
        split: if_splits)
  have first: "ts_shape s ! 0 = td_shape td ! 0" if "li_isBatch info"
    using that sd rank by (simp add: info_def TensorLayoutInfoImage_ctor_def TensorLayoutInfo_ctor_def Let_def)
  have planes: "sp_image i = b \<and> sp_numPlanes i = (if li_isChannelLast info then 1 else wrap32 (label_extent td (CHR ''C'')))"
    using i b bd(1) ext [of "CHR ''C''"]
    by (auto simp: ShapeInfoPlanar_ctor_def TensorShape_at_def info_def TensorLayoutInfoImage_ctor_def Let_def label_extent_def result_simps
        split: if_splits)
  show ?thesis
    using bd rank ext first planes im \<open>li_isImage info\<close> unfolding a
    by (simp add: da_layout_def numSamples_def numChannels_def numCols_def numRows_def numPlanes_access_def)
qed

lemma stride_or_zero_label:
  assumes "tensor_data_ok td" "Access_Create td = Inr (Some a)"
  shows "stride_or_zero a (FindDimIndex (td_layout td) c) = Inr (label_stride td c)"
  using Access_CreateD [OF assms] FindDimIndex_bounds [of "td_layout td" c] assms(1)
  by (auto simp: stride_or_zero_def TensorData_stride_def label_stride_def tensor_data_ok_def Let_def)

text \<open>The strides of an access object.\<close>

lemma access_strides:
  assumes "tensor_data_ok td" "Access_Create td = Inr (Some a)"
  shows "sampleStride a = Inr (if li_isBatch (da_layout a) then label_stride td (CHR ''N'') else 0)"
    "rowStride a = Inr (label_stride td (CHR ''H''))" "colStride a = Inr (label_stride td (CHR ''W''))"
    "chStride a = Inr (label_stride td (CHR ''C''))"
proof -
  note d = Access_CreateD [OF assms] and st = stride_or_zero_label [OF assms]
  have l: "da_layout a = TensorLayoutInfoImage_ctor (td_layout td)" using d by simp
  show "rowStride a = Inr (label_stride td (CHR ''H''))" "colStride a = Inr (label_stride td (CHR ''W''))"
    "chStride a = Inr (label_stride td (CHR ''C''))"
    using st by (simp_all add: rowStride_def colStride_def chStride_def l TensorLayoutInfoImage_ctor_def Let_def)
  show "sampleStride a = Inr (if li_isBatch (da_layout a) then label_stride td (CHR ''N'') else 0)"
  proof (cases "li_isBatch (da_layout a)")
    case True
    then have b: "0 < tl_rank (td_layout td)" "tl_data (td_layout td) ! 0 = CHR ''N''"
      by (auto simp: l TensorLayoutInfoImage_ctor_def TensorLayoutInfo_ctor_def Let_def GetLabel_def)
    then have "FindDimIndex (td_layout td) (CHR ''N'') = 0"
      using FindDimIndex_nth [of "td_layout td" 0] labels_nth [of "td_layout td" 0] length_labels [of "td_layout td"] assms(1)
      by (simp add: tensor_data_ok_def)
    then show ?thesis using True st [of "CHR ''N''"]
      by (simp add: sampleStride_def l TensorLayoutInfoImage_ctor_def TensorLayoutInfo_ctor_def Let_def)
  qed (auto simp: sampleStride_def stride_or_zero_def l TensorLayoutInfoImage_ctor_def TensorLayoutInfo_ctor_def Let_def)
qed

lemma GetLabel_mem:
  assumes "layout_ok l" "GetLabel l i \<noteq> CHR 0x00"
  shows "GetLabel l i \<in> set (labels l)"
proof -
  define k where "k = nat (if i < 0 then tl_rank l + i else i)"
  have k: "k < length (labels l)" "GetLabel l i = tl_data l ! k"
    using assms(2) length_labels [OF assms(1)] by (auto simp: GetLabel_def k_def split: if_splits)
  then have "GetLabel l i = labels l ! k" using labels_nth [OF assms(1)] length_labels [OF assms(1)] by simp
  then show ?thesis using k(1) by simp
qed

lemma channel_first_index:
  assumes "layout_ok l" "distinct (labels l)" "li_isChannelFirst (TensorLayoutInfoImage_ctor l)"
  shows "0 \<le> FindDimIndex l (CHR ''C'')"
proof -
  obtain i where "GetLabel l i = CHR ''C''"
    using assms(3) by (auto simp: TensorLayoutInfoImage_ctor_def Let_def split: if_splits)
  then have "CHR ''C'' \<in> set (labels l)" using GetLabel_mem [OF assms(1), of i] by simp
  then obtain j where "FindDimIndex l (CHR ''C'') = int j" using FindDimIndex_mem [OF assms(1,2)] by metis
  then show ?thesis by simp
qed

lemma data_at_ok: "stride = Inr s \<Longrightarrow> 0 \<le> i \<Longrightarrow> i < k \<Longrightarrow> data_at stride k i base = Inr (base + word_of_int (s * i))"
  by (simp add: data_at_def)

text \<open>
  Property C11: the addresses of an access object. For a tensor whose layout has distinct labels and
  which is accepted as a planar image, going from the base to sample \<open>n\<close>, row \<open>y\<close> and channel \<open>c\<close>
  gives the address of the element with these coordinates, for all indices within the counts of
  the object; adding \<open>x\<close> column strides gives column \<open>x\<close>. When the channels come first a plane is a
  channel, and otherwise there is one plane, which starts at the base.
\<close>

theorem image_access_addresses:
  assumes "tensor_data_ok td" "Access_Create td = Inr (Some a)"
    and "0 \<le> n" "n < numSamples a" "0 \<le> y" "y < numRows a" "0 \<le> c" "c < numChannels a"
  shows "\<exists>p q r cs. sampleData a n (td_basePtr td) = Inr p \<and> rowData a y p = Inr q \<and> chData a c q = Inr r \<and> colStride a = Inr cs
      \<and> r + word_of_int (cs * x) = elem_addr td (image_coords (td_layout td) n y x c)
      \<and> (if li_isChannelLast (da_layout a) then numPlanes_access a = 1 \<and> planeData a 0 p = Inr p
         else numPlanes_access a = numChannels a \<and> planeData a c p = chData a c p)"
proof -
  note d = Access_CreateD [OF assms(1,2)] and st = access_strides [OF assms(1,2)]
  have ok: "layout_ok (td_layout td)" "distinct (labels (td_layout td))" "length (labels (td_layout td)) \<le> length (td_strides td)"
    using assms(1) length_labels [of "td_layout td"] by (auto simp: tensor_data_ok_def layout_ok_def)
  have n0: "n = 0" if "\<not> li_isBatch (da_layout a)" using that d assms(3,4) by simp
  let ?p = "td_basePtr td + word_of_int (label_stride td (CHR ''N'') * n)"
  let ?q = "?p + word_of_int (label_stride td (CHR ''H'') * y)"
  have p: "sampleData a n (td_basePtr td) = Inr ?p"
    unfolding sampleData_def using data_at_ok [OF st(1) assms(3,4), of "td_basePtr td"] n0 by (auto split: if_splits)
  have q: "rowData a y ?p = Inr ?q" unfolding rowData_def by (rule data_at_ok [OF st(2) assms(5,6)])
  have r: "chData a c b = Inr (b + word_of_int (label_stride td (CHR ''C'') * c))" for b
    unfolding chData_def by (rule data_at_ok [OF st(4) assms(7,8)])
  have planes: "if li_isChannelLast (da_layout a) then numPlanes_access a = 1 \<and> planeData a 0 ?p = Inr ?p
      else numPlanes_access a = numChannels a \<and> planeData a c ?p = chData a c ?p"
  proof (cases "li_isChannelLast (da_layout a)")
    case True
    then have one: "numPlanes_access a = 1" using d by simp
    have l: "da_layout a = TensorLayoutInfoImage_ctor (td_layout td)" using d by blast
    have i: "li_idxChannel (da_layout a) = FindDimIndex (td_layout td) (CHR ''C'')"
      by (simp add: l TensorLayoutInfoImage_ctor_def Let_def)
    have "\<exists>s. planeStride a = Inr s"
    proof (cases "li_isChannelFirst (da_layout a)")
      case True
      then have "0 \<le> FindDimIndex (td_layout td) (CHR ''C'')" using channel_first_index [OF ok(1,2)] l by simp
      then show ?thesis using True i stride_or_zero_label [OF assms(1,2), of "CHR ''C''"]
        by (simp add: planeStride_def stride_or_zero_def)
    qed (simp add: planeStride_def)
    then show ?thesis using True one data_at_ok [of "planeStride a" _ 0 1 ?p] by (auto simp: planeData_def)
  next
    case False
    then have "li_idxChannel (da_layout a) = FindDimIndex (td_layout td) (CHR ''C'')" "0 \<le> FindDimIndex (td_layout td) (CHR ''C'')"
      "li_isChannelFirst (da_layout a)"
      using d by (auto simp: TensorLayoutInfoImage_ctor_def Let_def split: if_splits)
    then have "planeStride a = chStride a"
      using stride_or_zero_label [OF assms(1,2), of "CHR ''C''"] st(4) by (simp add: planeStride_def stride_or_zero_def)
    then show ?thesis using False d by (simp add: planeData_def chData_def)
  qed
  show ?thesis
    by (intro exI conjI, rule p, rule q, rule r, rule st(3), unfold elem_addr_image [OF ok], simp, rule planes)
qed

text \<open>Two images of 4 x 5 pixels with three channels of one byte.\<close>

lemma rgb_data_ok: "tensor_data_ok rgb_data"
  by (simp add: tensor_data_ok_def rgb_data_fields rgb_data_def Tensor_exportData_def rgb_batch_def Let_def NVCV_TENSOR_NHWC_def
      LAYOUT_MAKE_def layout_ok_def labels_def)

definition rgb_access :: TensorDataAccess where
  "rgb_access = (case Access_Create rgb_data of Inr (Some a) \<Rightarrow> a | _ \<Rightarrow> undefined)"

lemma rgb_access_created: "Access_Create rgb_data = Inr (Some rgb_access)"
  "numSamples rgb_access = 2" "numRows rgb_access = 4" "numCols rgb_access = 5" "numChannels rgb_access = 3"
  by code_simp+


theorem image_access_addresses_witness:
  "\<exists>p q r. sampleData rgb_access 1 4096 = Inr p \<and> rowData rgb_access 3 p = Inr q \<and> chData rgb_access 2 q = Inr r
     \<and> r + word_of_int (3 * 4) = elem_addr rgb_data (image_coords (td_layout rgb_data) 1 3 4 2)"
proof -
  have "colStride rgb_access = Inr 3" by code_simp
  then show ?thesis
    using image_access_addresses [OF rgb_data_ok rgb_access_created(1), where n = 1 and y = 3 and c = 2 and x = 4]
    by (auto simp: rgb_access_created rgb_data_fields)
qed

text \<open>
  \<open>TensorShapeInfoImage\<close> asks the wrong class whether a layout is compatible, so a tensor that is no
  image is accepted and its creation throws instead of returning nothing.
\<close>

lemma no_image_accepted:
  "let td = rgb_data\<lparr>td_layout := LAYOUT_MAKE ''NHDC''\<rparr> in
   Access_Create td = Inr None \<and> AccessImage_Create td = Inl RuntimeError"
  by code_simp

text \<open>Extents beyond 32 bits are cut.\<close>

lemma extent_truncated:
  "case Access_Create (rgb_data\<lparr>td_shape := [1, 4, 2 ^ 32 + 5, 3] @ replicate 11 0\<rparr>) of Inr (Some a) \<Rightarrow> numCols a = 5 | _ \<Rightarrow> False"
  by code_simp

end
