(* ===== verification/Kernels.thy ===== *)
theory Kernels
  imports Tensor_Access
begin

text \<open>
  Kernels on device memory, as the operators of \<open>src/cvcuda/priv/legacy\<close> launch them: bytes of
  memory, the threads of a grid, and the helpers of \<open>CvCudaUtils.cuh\<close>. The threads of a launch run
  one after the other in an order that the device chooses; a thread of the kernels here writes
  elements of its own and reads none that another thread writes, so a finer interleaving makes no
  difference.
\<close>

section \<open>Memory\<close>

type_synonym memory = "ptr \<Rightarrow> 8 word"

definition load_bytes :: "nat \<Rightarrow> ptr \<Rightarrow> memory \<Rightarrow> 8 word list" where
  "load_bytes n p m = map (\<lambda>i. m (p + of_nat i)) [0..<n]"

definition store_bytes :: "ptr \<Rightarrow> 8 word list \<Rightarrow> memory \<Rightarrow> memory" where
  "store_bytes p bs m = (\<lambda>q. if unat (q - p) < length bs then bs ! unat (q - p) else m q)"

definition byte_range :: "ptr \<Rightarrow> nat \<Rightarrow> ptr set" where
  "byte_range p n = {q. unat (q - p) < n}"

lemma length_load [simp]: "length (load_bytes n p m) = n"
  by (simp add: load_bytes_def)

lemma store_outside: "q \<notin> byte_range p (length bs) \<Longrightarrow> store_bytes p bs m q = m q"
  by (simp add: store_bytes_def byte_range_def)

lemma in_byte_range: "i < n \<Longrightarrow> n \<le> 2 ^ 64 \<Longrightarrow> p + of_nat i \<in> byte_range p n"
  by (simp add: byte_range_def unat_of_nat)

lemma load_store: "length bs \<le> 2 ^ 64 \<Longrightarrow> load_bytes (length bs) p (store_bytes p bs m) = bs"
  by (rule nth_equalityI) (auto simp: load_bytes_def store_bytes_def unat_of_nat)

lemma load_cong: "n \<le> 2 ^ 64 \<Longrightarrow> (\<And>q. q \<in> byte_range p n \<Longrightarrow> m q = m' q) \<Longrightarrow> load_bytes n p m = load_bytes n p m'"
  using in_byte_range by (auto simp: load_bytes_def)

section \<open>Launches\<close>

type_synonym dim3 = "nat \<times> nat \<times> nat"

text \<open>A thread: \<open>blockIdx\<close> and \<open>threadIdx\<close>.\<close>

type_synonym thread = "dim3 \<times> dim3"

definition indices :: "dim3 \<Rightarrow> dim3 list" where
  "indices d = (case d of (x, y, z) \<Rightarrow> [(i, j, k). k \<leftarrow> [0..<z], j \<leftarrow> [0..<y], i \<leftarrow> [0..<x]])"

definition all_threads :: "dim3 \<Rightarrow> dim3 \<Rightarrow> thread list" where
  "all_threads grid block = [(b, t). b \<leftarrow> indices grid, t \<leftarrow> indices block]"

text \<open>What the device does with a launch: whether it accepts the sizes, and the order of the threads.\<close>

record gpu =
  gpu_accepts :: "dim3 \<Rightarrow> dim3 \<Rightarrow> bool"
  gpu_order :: "dim3 \<Rightarrow> dim3 \<Rightarrow> thread list"

text \<open>The limits of the CUDA programming guide.\<close>

definition within_limits :: "dim3 \<Rightarrow> dim3 \<Rightarrow> bool" where
  "within_limits grid block = (case (grid, block) of ((gx, gy, gz), (bx, by, bz)) \<Rightarrow>
     1 \<le> gx \<and> gx < 2 ^ 31 \<and> 1 \<le> gy \<and> gy < 2 ^ 16 \<and> 1 \<le> gz \<and> gz < 2 ^ 16
   \<and> 1 \<le> bx \<and> 1 \<le> by \<and> 1 \<le> bz \<and> bx * by * bz \<le> 1024 \<and> bz \<le> 64)"

definition gpu_ok :: "gpu \<Rightarrow> bool" where
  "gpu_ok g \<longleftrightarrow> (\<forall>grid block. distinct (gpu_order g grid block) \<and> set (gpu_order g grid block) = set (all_threads grid block)
     \<and> (within_limits grid block \<longrightarrow> gpu_accepts g grid block))"

text \<open>A loop of steps that ends when one fails, and a step that changes the memory or fails.\<close>

fun st_for :: "('t \<Rightarrow> (unit, 's) st) \<Rightarrow> 't list \<Rightarrow> (unit, 's) st" where
  "st_for f [] = st_return ()"
| "st_for f (t # ts) = st_bind (f t) (\<lambda>_. st_for f ts)"

definition st_update :: "('s \<Rightarrow> 's result) \<Rightarrow> (unit, 's) st" where
  "st_update k s = (case k s of Inl e \<Rightarrow> (Inl e, s) | Inr s' \<Rightarrow> (Inr (), s'))"

text \<open>\<open>checkKernelErrors\<close> aborts the process if the launch was refused.\<close>

definition launch :: "gpu \<Rightarrow> dim3 \<Rightarrow> dim3 \<Rightarrow> (thread \<Rightarrow> memory \<Rightarrow> memory result) \<Rightarrow> (unit, memory) st" where
  "launch g grid block k m =
     (if gpu_accepts g grid block then st_for (\<lambda>t. st_update (k t)) (gpu_order g grid block) m else (Inl Terminated, m))"

text \<open>\<open>blockIdx * blockDim + threadIdx\<close>, computed without sign and assigned to an \<open>int\<close>.\<close>

definition thread_index :: "nat \<Rightarrow> nat \<Rightarrow> nat \<Rightarrow> int" where
  "thread_index b d t = wrap32 (int (b * d + t))"

definition to_unsigned :: "int \<Rightarrow> nat" where
  "to_unsigned n = nat (n mod 2 ^ 32)"

section \<open>divUp\<close>

text \<open>
  An \<open>int\<close> converted to \<open>float\<close>: 24 bits of precision, ties to even. In \<open>divUp\<close> the quotient by the
  extent of a block, which is a power of two for every caller here, is then exact.
\<close>

fun int_bits :: "nat \<Rightarrow> int \<Rightarrow> nat" where
  "int_bits 0 n = 0"
| "int_bits (Suc k) n = (if n = 0 then 0 else Suc (int_bits k (n div 2)))"

definition round_even :: "int \<Rightarrow> nat \<Rightarrow> int" where
  "round_even n e = (let q = n div 2 ^ e; r = n mod 2 ^ e in
     if 2 * r > 2 ^ e \<or> 2 * r = 2 ^ e \<and> odd q then q + 1 else q)"

definition to_float :: "int \<Rightarrow> int" where
  "to_float a = (let n = \<bar>a\<bar>; e = int_bits 32 n - 24 in
     if e = 0 then a else sgn a * round_even n e * 2 ^ e)"

definition divUp :: "int \<Rightarrow> int \<Rightarrow> int" where
  "divUp a b = - ((- to_float a) div b)"

lemma int_bits_less: "0 \<le> n \<Longrightarrow> n < 2 ^ k \<Longrightarrow> int_bits m n \<le> k"
proof (induction m n arbitrary: k rule: int_bits.induct)
  case (2 j n)
  then show ?case by (cases k) (auto simp: pos_imp_zdiv_nonneg_iff)
qed simp

lemma to_float_small:
  assumes "\<bar>a\<bar> < 2 ^ 24"
  shows "to_float a = a"
proof -
  have "int_bits 32 \<bar>a\<bar> - 24 = 0" using int_bits_less [OF abs_ge_zero assms] by simp
  then show ?thesis unfolding to_float_def Let_def by (simp only: if_True simp_thms)
qed

lemma divUp_small:
  assumes "0 \<le> a" "a < 2 ^ 24" "0 < b"
  shows "a \<le> b * divUp a b" "b * divUp a b < a + b" "0 \<le> divUp a b" "divUp a b \<le> a"
proof -
  define d where "d = (- a) div b"
  have e: "divUp a b = - d" using assms by (simp add: divUp_def to_float_small d_def)
  have m: "b * d + (- a) mod b = - a" "0 \<le> (- a) mod b" "(- a) mod b < b" using assms by (simp_all add: d_def)
  show c: "a \<le> b * divUp a b" "b * divUp a b < a + b" using m unfolding e by simp_all
  have "d \<le> 0" using assms by (simp add: d_def div_nonpos_pos_le0)
  then show "0 \<le> divUp a b" by (simp add: e)
  show "divUp a b \<le> a"
  proof (cases "a = 0")
    case False
    then have "- a * b \<le> - a" using assms by (simp add: mult_le_cancel_left1)
    then have "(- a * b) div b \<le> d" unfolding d_def using assms(3) by (intro zdiv_mono1)
    moreover have "(- a * b) div b = - a" using assms(3) by (intro nonzero_mult_div_cancel_right) simp
    ultimately have "- a \<le> d" by simp
    then show ?thesis by (simp add: e)
  next
    case True
    then show ?thesis unfolding e d_def by simp
  qed
qed

text \<open>With 2^24 + 1 columns the blocks do not reach the last column.\<close>

lemma divUp_misses_column: "32 * divUp (2 ^ 24 + 1) 32 < 2 ^ 24 + 1"
  by code_simp

section \<open>Steps that write regions of their own\<close>

text \<open>
  If the regions that different steps write do not overlap, and what a step does depends only on
  memory outside all of them, then the order of the steps does not matter: afterwards each has done
  what it does on the memory before.
\<close>

lemma st_for_regions:
  assumes "distinct ts"
    and k: "\<And>t m. t \<in> set ts \<Longrightarrow> \<exists>m1. k t m = (Inr (), m1) \<and> post t m m1 \<and> (\<forall>q. q \<notin> R t \<longrightarrow> m1 q = m q)"
    and disj: "\<And>t t'. t \<in> set ts \<Longrightarrow> t' \<in> set ts \<Longrightarrow> t \<noteq> t' \<Longrightarrow> R t \<inter> R t' = {}"
    and D: "\<And>t. t \<in> set ts \<Longrightarrow> R t \<subseteq> D"
    and frame: "\<And>t m m1 m2 m3. t \<in> set ts \<Longrightarrow> post t m m1 \<Longrightarrow> (\<And>q. q \<notin> D \<Longrightarrow> m q = m2 q) \<Longrightarrow> (\<And>q. q \<in> R t \<Longrightarrow> m1 q = m3 q) \<Longrightarrow> post t m2 m3"
  shows "\<exists>m'. st_for k ts m = (Inr (), m') \<and> (\<forall>t \<in> set ts. post t m m') \<and> (\<forall>q. (\<forall>t \<in> set ts. q \<notin> R t) \<longrightarrow> m' q = m q)"
  using assms(1) k disj D frame
proof (induction ts arbitrary: m)
  case (Cons t ts)
  obtain m1 where m1: "k t m = (Inr (), m1)" "post t m m1" "\<And>q. q \<notin> R t \<Longrightarrow> m1 q = m q" using Cons.prems(2) [of t m] by auto
  have "\<exists>m'. st_for k ts m1 = (Inr (), m') \<and> (\<forall>t \<in> set ts. post t m1 m') \<and> (\<forall>q. (\<forall>t \<in> set ts. q \<notin> R t) \<longrightarrow> m' q = m1 q)"
  proof (rule Cons.IH)
    show "distinct ts" using Cons.prems(1) by simp
    show "post u m2 m3" if "u \<in> set ts" "post u m0 m1" "\<And>q. q \<notin> D \<Longrightarrow> m0 q = m2 q" "\<And>q. q \<in> R u \<Longrightarrow> m1 q = m3 q" for u m0 m1 m2 m3
      by (rule Cons.prems(5) [OF _ that(2)]) (use that in auto)
  qed (use Cons.prems(2,3,4) in auto)
  then obtain m' where m': "st_for k ts m1 = (Inr (), m')" "\<And>u. u \<in> set ts \<Longrightarrow> post u m1 m'"
    "\<And>q. (\<forall>u \<in> set ts. q \<notin> R u) \<Longrightarrow> m' q = m1 q" by blast
  have "m' q = m1 q" if "q \<in> R t" for q
  proof (rule m'(3), intro ballI)
    fix u assume "u \<in> set ts"
    then show "q \<notin> R u" using Cons.prems(3) [of t u] that Cons.prems(1) by auto
  qed
  then have "post t m m'" using Cons.prems(5) [of t m m1 m m'] m1(2) by auto
  moreover have "post u m m'" if u: "u \<in> set ts" for u
  proof (rule Cons.prems(5) [OF _ m'(2) [OF u]])
    show "m1 q = m q" if "q \<notin> D" for q using m1(3) Cons.prems(4) [of t] that by auto
  qed (use u in auto)
  ultimately have "\<forall>u \<in> set (t # ts). post u m m'" by auto
  moreover have "\<forall>q. (\<forall>u \<in> set (t # ts). q \<notin> R u) \<longrightarrow> m' q = m q" using m'(3) m1(3) by auto
  moreover have "st_for k (t # ts) m = (Inr (), m')" using m1(1) m'(1) by simp
  ultimately show ?case by blast
qed simp

text \<open>In particular when each active step writes one element.\<close>

lemma st_for_writes:
  assumes "distinct ts" "n \<le> 2 ^ 64"
    and k: "\<And>t m. t \<in> set ts \<Longrightarrow> k t m = (Inr (), if active t then store_bytes (dst t) (val t m) m else m)"
    and len: "\<And>t m. length (val t m) = n"
    and disj: "\<And>t t'. t \<in> set ts \<Longrightarrow> t' \<in> set ts \<Longrightarrow> active t \<Longrightarrow> active t' \<Longrightarrow> t \<noteq> t' \<Longrightarrow> byte_range (dst t) n \<inter> byte_range (dst t') n = {}"
    and D: "\<And>t. t \<in> set ts \<Longrightarrow> active t \<Longrightarrow> byte_range (dst t) n \<subseteq> D"
    and indep: "\<And>t m m'. t \<in> set ts \<Longrightarrow> active t \<Longrightarrow> (\<And>q. q \<notin> D \<Longrightarrow> m q = m' q) \<Longrightarrow> val t m = val t m'"
  shows "\<exists>m'. st_for k ts m = (Inr (), m') \<and> (\<forall>t \<in> set ts. active t \<longrightarrow> load_bytes n (dst t) m' = val t m)
    \<and> (\<forall>q. (\<forall>t \<in> set ts. active t \<longrightarrow> q \<notin> byte_range (dst t) n) \<longrightarrow> m' q = m q)"
proof -
  let ?R = "\<lambda>t. if active t then byte_range (dst t) n else {}" and ?post = "\<lambda>t m m'. active t \<longrightarrow> load_bytes n (dst t) m' = val t m"
  have "\<exists>m'. st_for k ts m = (Inr (), m') \<and> (\<forall>t \<in> set ts. ?post t m m') \<and> (\<forall>q. (\<forall>t \<in> set ts. q \<notin> ?R t) \<longrightarrow> m' q = m q)"
  proof (rule st_for_regions [OF assms(1), where D = D])
    fix t m assume t: "t \<in> set ts"
    show "\<exists>m1. k t m = (Inr (), m1) \<and> ?post t m m1 \<and> (\<forall>q. q \<notin> ?R t \<longrightarrow> m1 q = m q)"
      using k [OF t, of m] load_store [of "val t m" "dst t" m] store_outside [of _ "dst t" "val t m" m] assms(2) by (simp add: len)
  next
    fix t m m1 m2 m3
    assume t: "t \<in> set ts" and p: "?post t m m1" and e: "\<And>q. q \<notin> D \<Longrightarrow> m q = m2 q" "\<And>q. q \<in> ?R t \<Longrightarrow> m1 q = m3 q"
    show "?post t m2 m3"
    proof
      assume a: "active t"
      then have "load_bytes n (dst t) m1 = load_bytes n (dst t) m3" by (intro load_cong [OF assms(2)] e(2)) simp
      then show "load_bytes n (dst t) m3 = val t m2" using p a indep [OF t a e(1)] by simp
    qed
  qed (use disj D in auto)
  then show ?thesis by (auto split: if_splits)
qed

text \<open>Nested loops are one loop over pairs, and so is a loop inside a thread.\<close>

lemma st_for_append: "st_for f (ts @ us) = st_bind (st_for f ts) (\<lambda>_. st_for f us)"
  by (induction ts) (auto simp: st_bind_def fun_eq_iff st_return_def split: prod.splits sum.splits)

lemma st_for_product: "st_for (\<lambda>i. st_for (f i) ps) is = st_for (\<lambda>(i, p). f i p) (List.product is ps)"
proof (induction "is")
  case (Cons i "is")
  have "st_for (\<lambda>(i, p). f i p) (map (Pair i) ps) = st_for (f i) ps" by (induction ps) auto
  then show ?case using Cons by (simp add: st_for_append)
qed simp

lemma st_for_cong: "(\<And>t m. t \<in> set ts \<Longrightarrow> f t m = g t m) \<Longrightarrow> st_for f ts m = st_for g ts m"
proof (induction ts arbitrary: m)
  case (Cons t ts)
  then have "f t m = g t m" "\<And>m. st_for f ts m = st_for g ts m" by simp_all
  then show ?case by (simp add: st_bind_def split: prod.split sum.split)
qed simp

lemma st_for_fold: "st_for (\<lambda>c m. (Inr (), f c m)) cs m = (Inr (), fold f cs m)"
  by (induction cs arbitrary: m) simp_all

lemma st_for_loop:
  assumes "\<And>t m. t \<in> set ts \<Longrightarrow> k t m = Inr (if active t then fold (f t) cs m else m)"
  shows "st_for (\<lambda>t. st_update (k t)) ts m = st_for (\<lambda>(t, c) m. (Inr (), if active t then f t c m else m)) (List.product ts cs) m"
proof -
  have "fold (\<lambda>c m. m) cs m = m" for m :: 'b by (induction cs) simp_all
  then have "st_update (k t) m = st_for (\<lambda>c m. (Inr (), if active t then f t c m else m)) cs m" if "t \<in> set ts" for t m
    unfolding st_for_fold using assms [OF that] by (simp add: st_update_def)
  then show ?thesis unfolding st_for_product [symmetric] by (intro st_for_cong)
qed

section \<open>One thread per pixel\<close>

definition thread_pixel :: "dim3 \<Rightarrow> thread \<Rightarrow> int \<times> int \<times> int" where
  "thread_pixel block t = (case (block, t) of ((bw, bh, bd), ((bx, by, bz), (tx, ty, tz))) \<Rightarrow>
     (thread_index bx bw tx, thread_index by bh ty, thread_index bz bd tz))"

lemma in_all_threads:
  "((bx, by, bz), (tx, ty, tz)) \<in> set (all_threads (gx, gy, gz) (bw, bh, bd)) \<longleftrightarrow>
     bx < gx \<and> by < gy \<and> bz < gz \<and> tx < bw \<and> ty < bh \<and> tz < bd"
proof -
  have i: "(i, j, k) \<in> set (indices (x, y, z)) \<longleftrightarrow> i < x \<and> j < y \<and> k < z" for i j k x y z
    by (simp add: indices_def) (auto simp: image_def)
  have "(b, t) \<in> set (all_threads grid block) \<longleftrightarrow> b \<in> set (indices grid) \<and> t \<in> set (indices block)" for b t grid block
    by (auto simp: all_threads_def)
  then show ?thesis by (simp add: i)
qed

lemma thread_index_id: "b < g \<Longrightarrow> t < d \<Longrightarrow> g * d < 2 ^ 31 \<Longrightarrow> thread_index b d t = int (b * d + t)"
proof -
  assume a: "b < g" "t < d" "g * d < 2 ^ 31"
  have "b * d + t < (b + 1) * d" using a(2) by simp
  also have "\<dots> \<le> g * d" using a(1) by (intro mult_right_mono) auto
  finally have "b * d + t < 2 ^ 31" using a(3) by (rule less_trans)
  then have "int (b * d + t) < 2 ^ 31" by (metis of_nat_less_iff of_nat_numeral of_nat_power)
  moreover have "- (2 ^ 31) \<le> int (b * d + t)" by (rule order_trans [OF _ of_nat_0_le_iff]) simp
  ultimately show ?thesis unfolding thread_index_def by (intro wrap32_id)
qed

lemma block_index: "t < d \<Longrightarrow> (b * d + t) div d = b \<and> (b * d + t) mod d = (t :: nat)"
  by (cases "d = 0") auto

text \<open>The pixels of a grid: no pixel twice, and every one that the blocks cover.\<close>

lemma thread_pixel_inj:
  assumes "gx * bw < 2 ^ 31" "gy * bh < 2 ^ 31" "gz < 2 ^ 31"
  shows "inj_on (thread_pixel (bw, bh, 1)) (set (all_threads (gx, gy, gz) (bw, bh, 1)))"
proof (rule inj_onI)
  fix t u assume t: "t \<in> set (all_threads (gx, gy, gz) (bw, bh, 1))" and u: "u \<in> set (all_threads (gx, gy, gz) (bw, bh, 1))"
    and e: "thread_pixel (bw, bh, 1) t = thread_pixel (bw, bh, 1) u"
  obtain bx "by" bz tx ty tz where t': "t = ((bx, by, bz), (tx, ty, tz))" by (metis surj_pair)
  obtain cx cy cz ux uy uz where u': "u = ((cx, cy, cz), (ux, uy, uz))" by (metis surj_pair)
  have b: "bx < gx" "by < gy" "bz < gz" "tx < bw" "ty < bh" "tz = 0" "cx < gx" "cy < gy" "cz < gz" "ux < bw" "uy < bh" "uz = 0"
    using t u unfolding t' u' in_all_threads by auto
  have "int (bx * bw + tx) = int (cx * bw + ux)" "int (by * bh + ty) = int (cy * bh + uy)" "int bz = int cz"
    using e b thread_index_id [of bx gx tx bw] thread_index_id [of cx gx ux bw] thread_index_id [of "by" gy ty bh]
      thread_index_id [of cy gy uy bh] thread_index_id [of bz gz 0 1] thread_index_id [of cz gz 0 1] assms
    by (simp_all add: t' u' thread_pixel_def del: of_nat_add of_nat_mult)
  then show "t = u" using block_index b unfolding t' u' of_nat_eq_iff by metis
qed

lemma thread_pixel_surj:
  assumes "gx * bw < 2 ^ 31" "gy * bh < 2 ^ 31" "gz < 2 ^ 31" "0 < bw" "0 < bh"
    and "0 \<le> x" "x < int (gx * bw)" "0 \<le> y" "y < int (gy * bh)" "0 \<le> z" "z < int gz"
  shows "\<exists>t \<in> set (all_threads (gx, gy, gz) (bw, bh, 1)). thread_pixel (bw, bh, 1) t = (x, y, z)"
proof -
  have b: "nat x div bw < gx" "nat y div bh < gy" "nat z < gz" "nat x mod bw < bw" "nat y mod bh < bh"
    using assms by (auto simp: div_less_iff_less_mult nat_less_iff)
  let ?t = "((nat x div bw, nat y div bh, nat z), (nat x mod bw, nat y mod bh, 0))"
  have "thread_pixel (bw, bh, 1) ?t = (x, y, z)"
    using thread_index_id [OF b(1,4) assms(1)] thread_index_id [OF b(2,5) assms(2)] thread_index_id [OF b(3), of 0 1] assms
    by (simp add: thread_pixel_def)
  moreover have "?t \<in> set (all_threads (gx, gy, gz) (bw, bh, 1))" using b unfolding in_all_threads by simp
  ultimately show ?thesis by blast
qed

definition pixel_grid :: "int \<Rightarrow> int \<Rightarrow> int \<Rightarrow> dim3 \<Rightarrow> dim3" where
  "pixel_grid w h n block = (case block of (bw, bh, bd) \<Rightarrow>
     (to_unsigned (divUp w (int bw)), to_unsigned (divUp h (int bh)), to_unsigned n))"

definition in_image :: "int \<times> int \<times> int \<Rightarrow> int \<Rightarrow> int \<Rightarrow> int \<Rightarrow> bool" where
  "in_image s z y x = (case s of (n, h, w) \<Rightarrow> 0 \<le> z \<and> z < n \<and> 0 \<le> y \<and> y < h \<and> 0 \<le> x \<and> x < w)"

text \<open>The sizes that a launch with one thread per pixel can serve.\<close>

definition launchable :: "int \<times> int \<times> int \<Rightarrow> nat \<Rightarrow> nat \<Rightarrow> bool" where
  "launchable s bw bh = (case s of (n, h, w) \<Rightarrow>
     0 < w \<and> w < 2 ^ 24 \<and> 0 < h \<and> h < 2 ^ 24 \<and> h \<le> (2 ^ 16 - 1) * int bh \<and> 0 < n \<and> n < 2 ^ 16 \<and> 0 < bw \<and> 0 < bh \<and> bw * bh \<le> 1024)"

lemma to_unsigned_id: "0 \<le> n \<Longrightarrow> n < 2 ^ 32 \<Longrightarrow> int (to_unsigned n) = n"
  by (simp add: to_unsigned_def)

lemma launchable_grid:
  assumes "launchable (n, h, w) bw bh"
  obtains gx gy where "pixel_grid w h n (bw, bh, 1) = (gx, gy, nat n)" "within_limits (gx, gy, nat n) (bw, bh, 1)"
    "gx * bw < 2 ^ 31" "gy * bh < 2 ^ 31" "w \<le> int (gx * bw)" "h \<le> int (gy * bh)"
proof -
  note a = assms [unfolded launchable_def prod.case]
  have b: "0 < int bw" "0 < int bh" using a by simp_all
  have "bw * 1 \<le> bw * bh" "1 * bh \<le> bw * bh" using a by (intro mult_le_mono; simp)+
  then have bb: "int bw \<le> 1024" "int bh \<le> 1024" using a by linarith+
  have wh: "0 \<le> w" "w < 2 ^ 24" "0 \<le> h" "h < 2 ^ 24" using a by linarith+
  note dx = divUp_small [OF wh(1,2) b(1)] and dy = divUp_small [OF wh(3,4) b(2)]
  define gx gy where "gx = to_unsigned (divUp w (int bw))" and "gy = to_unsigned (divUp h (int bh))"
  have "divUp w (int bw) < 2 ^ 32" "divUp h (int bh) < 2 ^ 32" using dx(4) dy(4) wh by simp_all
  then have gx: "int gx = divUp w (int bw)" and gy: "int gy = divUp h (int bh)"
    unfolding gx_def gy_def using to_unsigned_id [OF dx(3)] to_unsigned_id [OF dy(3)] by blast+
  have px: "int (gx * bw) = int bw * divUp w (int bw)" and py: "int (gy * bh) = int bh * divUp h (int bh)"
    using gx gy by (simp_all add: mult.commute)
  have ly: "divUp h (int bh) < 2 ^ 16"
  proof (rule ccontr)
    assume "\<not> divUp h (int bh) < 2 ^ 16"
    then have "int bh * 65536 \<le> int bh * divUp h (int bh)" using b by (intro mult_left_mono) simp_all
    moreover have "h \<le> 65535 * int bh" using a by simp
    ultimately show False using dy(2) by linarith
  qed
  have cover: "w \<le> int (gx * bw)" "h \<le> int (gy * bh)" unfolding px py using dx(1) dy(1) a b by linarith+
  have fit: "int (gx * bw) < 2 ^ 31" "int (gy * bh) < 2 ^ 31" unfolding px py using dx(2) dy(2) wh bb by simp_all
  have "0 < int (gx * bw)" "0 < int (gy * bh)" using cover a by linarith+
  then have pos: "gx \<noteq> 0" "gy \<noteq> 0" by (intro notI, simp)+
  have "within_limits (gx, gy, nat n) (bw, bh, 1)"
  proof -
    have "int gx < 2 ^ 31" "int gy < 2 ^ 16" unfolding gx gy using ly dx(4) wh by simp_all
    then have "gx < 2 ^ 31" "gy < 2 ^ 16" by (metis of_nat_less_iff of_nat_numeral of_nat_power)+
    then show ?thesis using pos a by (simp add: within_limits_def nat_less_iff Suc_le_eq)
  qed
  moreover have "pixel_grid w h n (bw, bh, 1) = (gx, gy, nat n)"
    using a by (simp add: pixel_grid_def gx_def gy_def) (simp add: to_unsigned_def)
  moreover have "gx * bw < 2 ^ 31" "gy * bh < 2 ^ 31" using fit by (metis of_nat_less_iff of_nat_numeral of_nat_power)+
  ultimately show ?thesis using that cover by blast
qed

text \<open>
  A kernel in which the thread of a pixel writes some elements: each has the value computed from the
  memory before the launch, and nothing else has changed.
\<close>

lemma launch_elements:
  assumes "gpu_ok g" "launchable (n, h, w) bw bh" "sz \<le> 2 ^ 64" "distinct cs"
    and k: "\<And>t m x y z. t \<in> set (all_threads (pixel_grid w h n (bw, bh, 1)) (bw, bh, 1)) \<Longrightarrow> thread_pixel (bw, bh, 1) t = (x, y, z) \<Longrightarrow>
      0 \<le> x \<Longrightarrow> 0 \<le> y \<Longrightarrow> 0 \<le> z \<Longrightarrow> z < n \<Longrightarrow>
      k t m = Inr (if x < w \<and> y < h then fold (\<lambda>c m. store_bytes (dst z y x c) (val z y x c m) m) cs m else m)"
    and len: "\<And>z y x c m. length (val z y x c m) = sz"
    and disj: "\<And>z y x c z' y' x' c'. in_image (n, h, w) z y x \<Longrightarrow> in_image (n, h, w) z' y' x' \<Longrightarrow> c \<in> set cs \<Longrightarrow> c' \<in> set cs \<Longrightarrow>
      (z, y, x, c) \<noteq> (z', y', x', c') \<Longrightarrow> byte_range (dst z y x c) sz \<inter> byte_range (dst z' y' x' c') sz = {}"
    and D: "\<And>z y x c. in_image (n, h, w) z y x \<Longrightarrow> c \<in> set cs \<Longrightarrow> byte_range (dst z y x c) sz \<subseteq> D"
    and indep: "\<And>z y x c m m'. in_image (n, h, w) z y x \<Longrightarrow> c \<in> set cs \<Longrightarrow> (\<And>q. q \<notin> D \<Longrightarrow> m q = m' q) \<Longrightarrow> val z y x c m = val z y x c m'"
  shows "\<exists>m'. launch g (pixel_grid w h n (bw, bh, 1)) (bw, bh, 1) k m = (Inr (), m')
    \<and> (\<forall>z y x. \<forall>c \<in> set cs. in_image (n, h, w) z y x \<longrightarrow> load_bytes sz (dst z y x c) m' = val z y x c m) \<and> (\<forall>q. q \<notin> D \<longrightarrow> m' q = m q)"
proof -
  note One_nat_def [simp del]
  obtain gx gy where grid: "pixel_grid w h n (bw, bh, 1) = (gx, gy, nat n)" "within_limits (gx, gy, nat n) (bw, bh, 1)"
    and lim: "gx * bw < 2 ^ 31" "gy * bh < 2 ^ 31" "w \<le> int (gx * bw)" "h \<le> int (gy * bh)"
    by (rule launchable_grid [OF assms(2)])
  note a = assms(2) [unfolded launchable_def prod.case]
  have nz: "nat n < 2 ^ 31" using a by (simp add: nat_less_iff)
  let ?ts = "gpu_order g (gx, gy, nat n) (bw, bh, 1)" and ?px = "thread_pixel (bw, bh, 1)"
  define active where "active t = (case ?px t of (x, y, z) \<Rightarrow> x < w \<and> y < h)" for t
  define at where "at = (\<lambda>(t, c). case ?px t of (x, y, z) \<Rightarrow> dst z y x c)"
  define vt where "vt = (\<lambda>(t, c). case ?px t of (x, y, z) \<Rightarrow> val z y x c)"
  have ts: "distinct ?ts" "set ?ts = set (all_threads (gx, gy, nat n) (bw, bh, 1))" "gpu_accepts g (gx, gy, nat n) (bw, bh, 1)"
    using assms(1) grid(2) by (simp_all add: gpu_ok_def)
  have inj: "inj_on ?px (set ?ts)" unfolding ts(2) by (rule thread_pixel_inj [OF lim(1,2) nz])
  have px: "\<exists>x y z. ?px t = (x, y, z) \<and> 0 \<le> x \<and> 0 \<le> y \<and> 0 \<le> z \<and> z < n" if "t \<in> set ?ts" for t
  proof -
    obtain bx "by" bz tx ty tz where t: "t = ((bx, by, bz), (tx, ty, tz))" by (metis surj_pair)
    have b: "bx < gx" "by < gy" "bz < nat n" "tx < bw" "ty < bh" "tz = 0" using that unfolding ts(2) t in_all_threads by auto
    have e: "?px t = (int (bx * bw + tx), int (by * bh + ty), int bz)"
      using thread_index_id [OF b(1,4) lim(1)] thread_index_id [OF b(2,5) lim(2)] thread_index_id [OF b(3), of 0 1] b(6) nz
      by (simp add: t thread_pixel_def)
    show ?thesis unfolding e using b(3) by (simp del: of_nat_add of_nat_mult)
  qed
  have inim: "in_image (n, h, w) z y x" if "t \<in> set ?ts" "active t" "?px t = (x, y, z)" for t x y z
    using px [OF that(1)] that(2,3) by (auto simp: in_image_def active_def)
  let ?run = "st_for (\<lambda>t. st_update (k t)) ?ts m" and ?step = "\<lambda>(t, c) m. (Inr (), if active t then store_bytes (at (t, c)) (vt (t, c) m) m else m)" and ?tcs = "List.product ?ts cs"
  have flat: "?run = st_for ?step ?tcs m"
  proof (rule st_for_loop)
    fix t m assume t: "t \<in> set ?ts"
    obtain x y z where p: "?px t = (x, y, z)" "0 \<le> x" "0 \<le> y" "0 \<le> z" "z < n" using px [OF t] by blast
    show "k t m = Inr (if active t then fold (\<lambda>c m. store_bytes (at (t, c)) (vt (t, c) m) m) cs m else m)"
      unfolding active_def at_def vt_def prod.case p(1) using t unfolding ts(2) by (intro k [OF _ p]) (simp only: grid(1))
  qed
  have "\<exists>m'. st_for ?step ?tcs m = (Inr (), m') \<and> (\<forall>s \<in> set ?tcs. active (fst s) \<longrightarrow> load_bytes sz (at s) m' = vt s m)
    \<and> (\<forall>q. (\<forall>s \<in> set ?tcs. active (fst s) \<longrightarrow> q \<notin> byte_range (at s) sz) \<longrightarrow> m' q = m q)"
  proof (rule st_for_writes [OF distinct_product [OF ts(1) assms(4)] assms(3), where D = D])
    fix s s' assume s: "s \<in> set ?tcs" "s' \<in> set ?tcs" "active (fst s)" "active (fst s')" "s \<noteq> s'"
    obtain t c t' c' x y z x' y' z' where e: "s = (t, c)" "s' = (t', c')" "?px t = (x, y, z)" "?px t' = (x', y', z')" by (metis surj_pair)
    then have "t \<in> set ?ts" "t' \<in> set ?ts" "c \<in> set cs" "c' \<in> set cs" using s by auto
    moreover from this have "(z, y, x, c) \<noteq> (z', y', x', c')" using inj_onD [OF inj, of t t'] s(5) e by auto
    ultimately show "byte_range (at s) sz \<inter> byte_range (at s') sz = {}"
      using disj [OF inim [of t x y z] inim [of t' x' y' z']] s e by (simp add: at_def)
  next
    fix s assume s: "s \<in> set ?tcs" "active (fst s)"
    obtain t c x y z where e: "s = (t, c)" "?px t = (x, y, z)" by (metis surj_pair)
    then have i: "in_image (n, h, w) z y x" "c \<in> set cs" using inim [of t x y z] s by auto
    show "byte_range (at s) sz \<subseteq> D" using D [OF i] by (simp add: at_def e)
    show "vt s m = vt s m'" if "\<And>q. q \<notin> D \<Longrightarrow> m q = m' q" for m m'
      using indep [OF i that] by (simp add: vt_def e)
  qed (auto simp: vt_def len split: prod.split)
  then obtain m' where m': "?run = (Inr (), m')"
    "\<And>t c. t \<in> set ?ts \<Longrightarrow> c \<in> set cs \<Longrightarrow> active t \<Longrightarrow> load_bytes sz (at (t, c)) m' = vt (t, c) m"
    "\<And>q. (\<forall>s \<in> set ?tcs. active (fst s) \<longrightarrow> q \<notin> byte_range (at s) sz) \<Longrightarrow> m' q = m q" unfolding flat by auto
  have "load_bytes sz (dst z y x c) m' = val z y x c m" if i: "in_image (n, h, w) z y x" "c \<in> set cs" for z y x c
  proof -
    have "\<exists>t \<in> set ?ts. ?px t = (x, y, z)" unfolding ts(2)
      by (rule thread_pixel_surj [OF lim(1,2) nz]) (use i a lim in \<open>auto simp: in_image_def\<close>)
    then obtain t where t: "t \<in> set ?ts" "?px t = (x, y, z)" by blast
    then show ?thesis using m'(2) [OF t(1) i(2)] i(1) by (simp add: active_def at_def vt_def in_image_def)
  qed
  moreover have "m' q = m q" if "q \<notin> D" for q
  proof (rule m'(3), intro ballI impI)
    fix s assume s: "s \<in> set ?tcs" "active (fst s)"
    obtain t c x y z where e: "s = (t, c)" "?px t = (x, y, z)" by (metis surj_pair)
    then show "q \<notin> byte_range (at s) sz" using D [OF inim [of t x y z], of c] s that by (auto simp: at_def)
  qed
  ultimately show ?thesis using m'(1) ts(3) by (auto simp: launch_def grid(1))
qed

text \<open>In particular a kernel that writes one element per pixel.\<close>

lemma launch_pixels:
  assumes "gpu_ok g" "launchable (n, h, w) bw bh" "sz \<le> 2 ^ 64"
    and k: "\<And>t m x y z. t \<in> set (all_threads (pixel_grid w h n (bw, bh, 1)) (bw, bh, 1)) \<Longrightarrow> thread_pixel (bw, bh, 1) t = (x, y, z) \<Longrightarrow>
      0 \<le> x \<Longrightarrow> 0 \<le> y \<Longrightarrow> 0 \<le> z \<Longrightarrow> z < n \<Longrightarrow>
      k t m = Inr (if x < w \<and> y < h then store_bytes (dst z y x) (val z y x m) m else m)"
    and len: "\<And>z y x m. length (val z y x m) = sz"
    and disj: "\<And>z y x z' y' x'. in_image (n, h, w) z y x \<Longrightarrow> in_image (n, h, w) z' y' x' \<Longrightarrow> (z, y, x) \<noteq> (z', y', x') \<Longrightarrow>
      byte_range (dst z y x) sz \<inter> byte_range (dst z' y' x') sz = {}"
    and D: "\<And>z y x. in_image (n, h, w) z y x \<Longrightarrow> byte_range (dst z y x) sz \<subseteq> D"
    and indep: "\<And>z y x m m'. in_image (n, h, w) z y x \<Longrightarrow> (\<And>q. q \<notin> D \<Longrightarrow> m q = m' q) \<Longrightarrow> val z y x m = val z y x m'"
  shows "\<exists>m'. launch g (pixel_grid w h n (bw, bh, 1)) (bw, bh, 1) k m = (Inr (), m')
    \<and> (\<forall>z y x. in_image (n, h, w) z y x \<longrightarrow> load_bytes sz (dst z y x) m' = val z y x m) \<and> (\<forall>q. q \<notin> D \<longrightarrow> m' q = m q)"
proof -
  have "\<exists>m'. launch g (pixel_grid w h n (bw, bh, 1)) (bw, bh, 1) k m = (Inr (), m')
    \<and> (\<forall>z y x. \<forall>c \<in> set [()]. in_image (n, h, w) z y x \<longrightarrow> load_bytes sz (dst z y x) m' = val z y x m) \<and> (\<forall>q. q \<notin> D \<longrightarrow> m' q = m q)"
  proof (rule launch_elements [OF assms(1,2,3), where dst = "\<lambda>z y x c. dst z y x" and val = "\<lambda>z y x c. val z y x"])
    show "byte_range (dst z y x) sz \<inter> byte_range (dst z' y' x') sz = {}"
      if "in_image (n, h, w) z y x" "in_image (n, h, w) z' y' x'" "(z, y, x, c) \<noteq> (z', y', x', c')" for z y x z' y' x' and c c' :: unit
      by (rule disj [OF that(1,2)]) (use that(3) in simp)
    show "val z y x m = val z y x m'" if "in_image (n, h, w) z y x" "\<And>q. q \<notin> D \<Longrightarrow> m q = m' q" for z y x m m'
      by (rule indep [OF that])
  qed (simp_all add: k len D)
  then show ?thesis by simp
qed

end
