(* ===== verification/Image_Operators.thy ===== *)
theory Image_Operators
  imports Kernels
begin

text \<open>
  Operators on tensors of images, from \<open>src/cvcuda/priv/legacy\<close>: flipping (\<open>flip.cu\<close>), cropping
  (\<open>custom_crop.cu\<close>, \<open>center_crop.cu\<close>) and adding a border (\<open>copy_make_border.cu\<close>), each with the
  checks of its \<open>infer\<close>, the choice of the element type, the launch and the kernel, and the helpers
  of \<open>CvCudaLegacyHelpers.cpp\<close>. An element type of the C++ templates is given by its size.
\<close>

section \<open>Formats, types and error codes\<close>

datatype ErrorCode = SUCCESS | INVALID_DATA_TYPE | INVALID_DATA_SHAPE | INVALID_DATA_FORMAT | INVALID_PARAMETER

datatype DataFormat = kNCHW | kNHWC | kCHW | kHWC

datatype LegacyDataType = kCV_8U | kCV_8S | kCV_16U | kCV_16S | kCV_32S | kCV_32F | kCV_64F | kCV_16F

definition GetLegacyDataFormat :: "NVCVTensorLayout \<Rightarrow> DataFormat result" where
  "GetLegacyDataFormat l =
     (if layout_eq l NVCV_TENSOR_NCHW then Inr kNCHW
      else if layout_eq l TENSOR_CHW then Inr kCHW
      else if layout_eq l NVCV_TENSOR_NHWC then Inr kNHWC
      else if layout_eq l TENSOR_HWC then Inr kHWC
      else Inl (Throw NVCV_ERROR_INVALID_ARGUMENT))"

definition GetLegacyCvFloatType :: "int \<Rightarrow> LegacyDataType result" where
  "GetLegacyCvFloatType bpc =
     (if bpc = 64 then Inr kCV_64F else if bpc = 32 then Inr kCV_32F else if bpc = 16 then Inr kCV_16F
      else Inl (Throw NVCV_ERROR_INVALID_ARGUMENT))"

definition GetLegacyCvSignedType :: "int \<Rightarrow> LegacyDataType result" where
  "GetLegacyCvSignedType bpc =
     (if bpc = 8 then Inr kCV_8S else if bpc = 16 then Inr kCV_16S else if bpc = 32 then Inr kCV_32S
      else Inl (Throw NVCV_ERROR_INVALID_ARGUMENT))"

definition GetLegacyCvUnsignedType :: "int \<Rightarrow> LegacyDataType result" where
  "GetLegacyCvUnsignedType bpc =
     (if bpc = 8 then Inr kCV_8U else if bpc = 16 then Inr kCV_16U else Inl (Throw NVCV_ERROR_INVALID_ARGUMENT))"

definition GetLegacyDataType_kind :: "int \<Rightarrow> u64 \<Rightarrow> LegacyDataType result" where
  "GetLegacyDataType_kind bpc kind =
     (if kind = NVCV_DATA_KIND_FLOAT then GetLegacyCvFloatType bpc
      else if kind = NVCV_DATA_KIND_SIGNED then GetLegacyCvSignedType bpc
      else if kind = NVCV_DATA_KIND_UNSIGNED then GetLegacyCvUnsignedType bpc
      else Inl (Throw NVCV_ERROR_INVALID_ARGUMENT))"

definition GetLegacyDataType :: "u64 \<Rightarrow> LegacyDataType result" where
  "GetLegacyDataType dtype =
     bind_result (dt_bpc dtype) (\<lambda>bpc.
     throw_if (list_ex (\<lambda>i. bpc ! i \<noteq> bpc ! 0) [1..<dt_numChannels dtype]) NVCV_ERROR_INVALID_ARGUMENT
       (GetLegacyDataType_kind (bpc ! 0) (dataKind dtype)))"

fun DataSize :: "LegacyDataType \<Rightarrow> nat" where
  "DataSize kCV_8U = 1" | "DataSize kCV_8S = 1"
| "DataSize kCV_16U = 2" | "DataSize kCV_16S = 2" | "DataSize kCV_16F = 2"
| "DataSize kCV_32S = 4" | "DataSize kCV_32F = 4"
| "DataSize kCV_64F = 8"

fun legacy_index :: "LegacyDataType \<Rightarrow> nat" where
  "legacy_index kCV_8U = 0" | "legacy_index kCV_8S = 1" | "legacy_index kCV_16U = 2" | "legacy_index kCV_16S = 3"
| "legacy_index kCV_32S = 4" | "legacy_index kCV_32F = 5" | "legacy_index kCV_64F = 6" | "legacy_index kCV_16F = 7"

fun TranslateError_legacy :: "ErrorCode \<Rightarrow> NVCVStatus" where
  "TranslateError_legacy SUCCESS = NVCV_SUCCESS"
| "TranslateError_legacy INVALID_PARAMETER = NVCV_ERROR_INVALID_ARGUMENT"
| "TranslateError_legacy INVALID_DATA_FORMAT = NVCV_ERROR_INVALID_ARGUMENT"
| "TranslateError_legacy INVALID_DATA_SHAPE = NVCV_ERROR_INVALID_ARGUMENT"
| "TranslateError_legacy INVALID_DATA_TYPE = NVCV_ERROR_INVALID_ARGUMENT"

section \<open>Tensors in kernels\<close>

text \<open>\<open>Create\<close> followed by the assertion that there is an access object\<close>

definition require_access :: "NVCVTensorData \<Rightarrow> TensorDataAccess result" where
  "require_access td = bind_result (Access_Create td) (\<lambda>a. case a of Some a \<Rightarrow> Inr a | None \<Rightarrow> Inl AssertFailed)"

definition CreateTensorWrapNHW :: "StrideType \<Rightarrow> nat \<Rightarrow> NVCVTensorData \<Rightarrow> TensorWrapT result" where
  "CreateTensorWrapNHW ty sz td =
     bind_result (require_access td) (\<lambda>a.
     bind_result (sampleStride a) (\<lambda>ss. nvcv_assert (ss \<le> stride_limit ty - 1)
    (bind_result (rowStride a) (\<lambda>rs. nvcv_assert (rs \<le> stride_limit ty - 1)
    (Inr (TensorWrapT_strides ty [-1, -1, int sz] (td_basePtr td) [ss, rs]))))))"

definition CreateBorderWrapNHW :: "StrideType \<Rightarrow> NVCVBorderType \<Rightarrow> nat \<Rightarrow> NVCVTensorData \<Rightarrow> BorderWrap result" where
  "CreateBorderWrapNHW ty B sz td =
     bind_result (require_access td) (\<lambda>a.
     nvcv_assert (numRows a \<le> stride_limit ty - 1)
    (nvcv_assert (numCols a \<le> stride_limit ty - 1)
    (bind_result (CreateTensorWrapNHW ty sz td) (\<lambda>w.
     Inr \<lparr>bw_tensorWrap = w, bw_borderType = B, bw_active = [False, True, True],
          bw_shape = [to_stride ty (numRows a), to_stride ty (numCols a)]\<rparr>))))"

text \<open>The subscript operator of a border wrap, read as a value.\<close>

definition border_read :: "BorderWrap \<Rightarrow> 8 word list \<Rightarrow> nat \<Rightarrow> int list \<Rightarrow> memory \<Rightarrow> 8 word list result" where
  "border_read b bvalue sz c m =
     bind_result (border_ptr b c) (\<lambda>p.
       Inr (if bw_borderType b = NVCV_BORDER_CONSTANT \<and> p = 0 then bvalue else load_bytes sz p m))"

text \<open>The stride of all samples together, which must fit 32 bits.\<close>

definition max_stride :: "TensorDataAccess \<Rightarrow> int result" where
  "max_stride a = bind_result (sampleStride a) (\<lambda>s. Inr (wrap64 (s * numSamples a)))"

text \<open>The function of a table for a row and a number of channels; a null entry cannot be called.\<close>

definition table_entry :: "nat option list list \<Rightarrow> nat \<Rightarrow> int \<Rightarrow> nat result" where
  "table_entry t row channels =
     in_bounds (row < length t \<and> 0 \<le> channels - 1 \<and> channels - 1 < int (length (t ! row)))
       (case t ! row ! nat (channels - 1) of Some sz \<Rightarrow> Inr sz | None \<Rightarrow> Inl OutOfBounds)"

section \<open>Flip\<close>

definition flipHorizontal :: "nat \<Rightarrow> TensorWrapT \<Rightarrow> TensorWrapT \<Rightarrow> int \<Rightarrow> int \<Rightarrow> dim3 \<Rightarrow> thread \<Rightarrow> memory \<Rightarrow> memory result" where
  "flipHorizontal sz src dst out_width out_height block t m =
     (case (block, t) of ((bw, bh, bd), ((bx, by, bz), (tx, ty, tz))) \<Rightarrow>
        let dst_x = thread_index bx bw tx; dst_y = thread_index by bh ty; batch_idx = wrap32 (int bz) in
        Inr (if dst_x < out_width \<and> dst_y < out_height
             then store_bytes (wrap_ptr dst [batch_idx, dst_y, dst_x])
                    (load_bytes sz (wrap_ptr src [batch_idx, dst_y, wrap32 (out_width - 1 - dst_x)]) m) m
             else m))"

definition flipVertical :: "nat \<Rightarrow> TensorWrapT \<Rightarrow> TensorWrapT \<Rightarrow> int \<Rightarrow> int \<Rightarrow> dim3 \<Rightarrow> thread \<Rightarrow> memory \<Rightarrow> memory result" where
  "flipVertical sz src dst out_width out_height block t m =
     (case (block, t) of ((bw, bh, bd), ((bx, by, bz), (tx, ty, tz))) \<Rightarrow>
        let dst_x = thread_index bx bw tx; dst_y = thread_index by bh ty; batch_idx = wrap32 (int bz) in
        Inr (if dst_x < out_width \<and> dst_y < out_height
             then store_bytes (wrap_ptr dst [batch_idx, dst_y, dst_x])
                    (load_bytes sz (wrap_ptr src [batch_idx, wrap32 (out_height - 1 - dst_y), dst_x]) m) m
             else m))"

definition flipHorizontalVertical :: "nat \<Rightarrow> TensorWrapT \<Rightarrow> TensorWrapT \<Rightarrow> int \<Rightarrow> int \<Rightarrow> dim3 \<Rightarrow> thread \<Rightarrow> memory \<Rightarrow> memory result" where
  "flipHorizontalVertical sz src dst out_width out_height block t m =
     (case (block, t) of ((bw, bh, bd), ((bx, by, bz), (tx, ty, tz))) \<Rightarrow>
        let dst_x = thread_index bx bw tx; dst_y = thread_index by bh ty; batch_idx = wrap32 (int bz) in
        Inr (if dst_x < out_width \<and> dst_y < out_height
             then store_bytes (wrap_ptr dst [batch_idx, dst_y, dst_x])
                    (load_bytes sz (wrap_ptr src [batch_idx, wrap32 (out_height - 1 - dst_y), wrap32 (out_width - 1 - dst_x)]) m) m
             else m))"

definition runFlipKernel ::
    "gpu \<Rightarrow> nat \<Rightarrow> TensorWrapT \<Rightarrow> TensorWrapT \<Rightarrow> int \<Rightarrow> int \<Rightarrow> int \<Rightarrow> int \<Rightarrow> (unit, memory) st" where
  "runFlipKernel g sz src dst w h samples flipCode =
     (let block = (32, 8, 1); grid = pixel_grid w h samples block in
      if flipCode > 0 then launch g grid block (flipHorizontal sz src dst w h block)
      else if flipCode = 0 then launch g grid block (flipVertical sz src dst w h block)
      else launch g grid block (flipHorizontalVertical sz src dst w h block))"

definition flip_typed :: "gpu \<Rightarrow> nat \<Rightarrow> NVCVTensorData \<Rightarrow> NVCVTensorData \<Rightarrow> int \<Rightarrow> (ErrorCode, memory) st" where
  "flip_typed g sz input out flipCode =
     st_bind (st_lift (require_access out)) (\<lambda>outAccess.
     st_bind (st_lift (require_access input)) (\<lambda>inAccess.
     st_bind (st_lift (max_stride inAccess)) (\<lambda>inMaxStride.
     st_bind (st_lift (max_stride outAccess)) (\<lambda>outMaxStride.
     if max inMaxStride outMaxStride \<le> 2 ^ 31 - 1 then
       st_bind (st_lift (CreateTensorWrapNHW Int32 sz input)) (\<lambda>src.
       st_bind (st_lift (CreateTensorWrapNHW Int32 sz out)) (\<lambda>dst.
       st_bind (runFlipKernel g sz src dst (numCols outAccess) (numRows outAccess) (numSamples outAccess) flipCode) (\<lambda>_.
       st_return SUCCESS)))
     else st_return INVALID_PARAMETER))))"

definition flip_funcs :: "nat option list list" where
  "flip_funcs =
     [[Some 1, None, Some 3, Some 4],
      [None, None, None, None],
      [Some 2, None, Some 6, Some 8],
      [None, None, None, None],
      [Some 4, None, Some 12, Some 16],
      [Some 4, None, Some 12, Some 16]]"

definition Flip_infer :: "gpu \<Rightarrow> NVCVTensorData \<Rightarrow> NVCVTensorData \<Rightarrow> int \<Rightarrow> (ErrorCode, memory) st" where
  "Flip_infer g input out flipCode =
     (if td_dtype input \<noteq> td_dtype out then st_return INVALID_DATA_TYPE
      else
        st_bind (st_lift (bind_result (TensorData_layout input) GetLegacyDataFormat)) (\<lambda>inputFormat.
        st_bind (st_lift (bind_result (TensorData_layout out) GetLegacyDataFormat)) (\<lambda>outputFormat.
        if inputFormat \<noteq> outputFormat then st_return INVALID_DATA_FORMAT
        else if \<not> (inputFormat = kNHWC \<or> inputFormat = kHWC) then st_return INVALID_DATA_FORMAT
        else
          st_bind (st_lift (GetLegacyDataType (td_dtype input))) (\<lambda>dataType.
          if \<not> (dataType = kCV_8U \<or> dataType = kCV_16U \<or> dataType = kCV_32S \<or> dataType = kCV_32F) then st_return INVALID_DATA_TYPE
          else
            st_bind (st_lift (require_access input)) (\<lambda>inAccess.
            if numChannels inAccess > 4 then st_return INVALID_DATA_SHAPE
            else
              st_bind (st_lift (table_entry flip_funcs (legacy_index dataType) (numChannels inAccess))) (\<lambda>sz.
              flip_typed g sz input out flipCode))))))"

section \<open>CustomCrop\<close>

record NVCVRectI =
  roi_x :: int
  roi_y :: int
  roi_width :: int
  roi_height :: int

definition custom_crop_kernel ::
    "nat \<Rightarrow> TensorWrapT \<Rightarrow> TensorWrapT \<Rightarrow> int \<Rightarrow> int \<Rightarrow> int \<Rightarrow> int \<Rightarrow> dim3 \<Rightarrow> thread \<Rightarrow> memory \<Rightarrow> memory result" where
  "custom_crop_kernel sz src dst start_x start_y width height block t m =
     (case (block, t) of ((bw, bh, bd), ((bx, by, bz), (tx, ty, tz))) \<Rightarrow>
        let x = thread_index bx bw tx; y = thread_index by bh ty; batch_idx = wrap32 (int bz) in
        Inr (if x \<ge> width \<or> y \<ge> height then m
             else store_bytes (wrap_ptr dst [batch_idx, y, x])
                    (load_bytes sz (wrap_ptr src [batch_idx, wrap32 (y + start_y), wrap32 (x + start_x)]) m) m))"

definition customCrop :: "gpu \<Rightarrow> nat \<Rightarrow> NVCVTensorData \<Rightarrow> NVCVTensorData \<Rightarrow> NVCVRectI \<Rightarrow> (ErrorCode, memory) st" where
  "customCrop g sz input out roi =
     st_bind (st_lift (require_access out)) (\<lambda>outAccess.
     st_bind (st_lift (require_access input)) (\<lambda>inAccess.
     st_bind (st_lift (max_stride outAccess)) (\<lambda>outMaxStride.
     st_bind (st_lift (max_stride inAccess)) (\<lambda>inMaxStride.
     let block = (16, 16, 1); grid = pixel_grid (roi_width roi) (roi_height roi) (numSamples outAccess) block in
     if max outMaxStride inMaxStride \<le> 2 ^ 31 - 1 then
       st_bind (st_lift (CreateTensorWrapNHW Int32 sz input)) (\<lambda>src.
       st_bind (st_lift (CreateTensorWrapNHW Int32 sz out)) (\<lambda>dst.
       st_bind (launch g grid block (custom_crop_kernel sz src dst (roi_x roi) (roi_y roi) (roi_width roi) (roi_height roi) block)) (\<lambda>_.
       st_return SUCCESS)))
     else st_return INVALID_PARAMETER))))"

text \<open>The rows are indexed by half the size of the data type.\<close>

definition crop_funcs :: "nat option list list" where
  "crop_funcs =
     [[Some 1, Some 2, Some 3, Some 4],
      [Some 2, Some 4, Some 6, Some 8],
      [Some 4, Some 8, Some 12, Some 16],
      [None, None, None, None],
      [Some 8, Some 16, Some 24, Some 32],
      [None, None, None, None]]"

definition CustomCrop_infer :: "gpu \<Rightarrow> NVCVTensorData \<Rightarrow> NVCVTensorData \<Rightarrow> NVCVRectI \<Rightarrow> (ErrorCode, memory) st" where
  "CustomCrop_infer g input out roi =
     st_bind (st_lift (bind_result (TensorData_layout input) GetLegacyDataFormat)) (\<lambda>input_format.
     st_bind (st_lift (bind_result (TensorData_layout out) GetLegacyDataFormat)) (\<lambda>output_format.
     if \<not> (input_format = kNHWC \<or> input_format = kHWC) \<or> \<not> (output_format = kNHWC \<or> output_format = kHWC) then st_return INVALID_DATA_FORMAT
     else if td_dtype input \<noteq> td_dtype out then st_return INVALID_DATA_FORMAT
     else
       st_bind (st_lift (Access_Create input)) (\<lambda>inAccess.
       case inAccess of None \<Rightarrow> st_return INVALID_DATA_FORMAT
       | Some inAccess \<Rightarrow>
           if numChannels inAccess > 4 \<or> numChannels inAccess < 1 then st_return INVALID_DATA_SHAPE
           else
             st_bind (st_lift (Access_Create out)) (\<lambda>outAccess.
             case outAccess of None \<Rightarrow> st_return INVALID_DATA_FORMAT
             | Some outAccess \<Rightarrow>
                 if roi_height roi > numRows outAccess \<or> roi_width roi > numCols outAccess then st_return INVALID_DATA_SHAPE
                 else
                   st_bind (st_lift (GetLegacyDataType (td_dtype input))) (\<lambda>dataType.
                   let start_x = roi_x roi; start_y = roi_y roi;
                       end_x = wrap32 (start_x + roi_width roi - 1); end_y = wrap32 (start_y + roi_height roi - 1) in
                   if start_x < 0 \<or> start_y < 0 \<or> end_x \<ge> numCols inAccess \<or> end_y \<ge> numRows inAccess then st_return INVALID_PARAMETER
                   else
                     st_bind (st_lift (table_entry crop_funcs (DataSize dataType div 2) (numChannels inAccess))) (\<lambda>sz.
                     customCrop g sz input out roi))))))"

section \<open>CenterCrop\<close>

definition center_crop_kernel_nhwc ::
    "nat \<Rightarrow> TensorWrapT \<Rightarrow> TensorWrapT \<Rightarrow> int \<Rightarrow> int \<Rightarrow> int \<Rightarrow> int \<Rightarrow> dim3 \<Rightarrow> thread \<Rightarrow> memory \<Rightarrow> memory result" where
  "center_crop_kernel_nhwc sz src dst left_indices top_indices crop_rows crop_columns block t m =
     (case (block, t) of ((bw, bh, bd), ((bx, by, bz), (tx, ty, tz))) \<Rightarrow>
        let dst_x = thread_index bx bw tx; dst_y = thread_index by bh ty; batch_idx = wrap32 (int bz) in
        Inr (if dst_x < crop_columns \<and> dst_y < crop_rows
             then store_bytes (wrap_ptr dst [batch_idx, dst_y, dst_x])
                    (load_bytes sz (wrap_ptr src [batch_idx, wrap32 (dst_y + top_indices), wrap32 (dst_x + left_indices)]) m) m
             else m))"

definition center_crop ::
    "gpu \<Rightarrow> nat \<Rightarrow> NVCVTensorData \<Rightarrow> NVCVTensorData \<Rightarrow> int \<Rightarrow> int \<Rightarrow> int \<Rightarrow> int \<Rightarrow> int \<Rightarrow> (unit, memory) st" where
  "center_crop g sz input out crop_rows crop_columns batch_size rows columns =
     (let top_indices = wrap32 (rows - crop_rows) sdiv 2; left_indices = wrap32 (columns - crop_columns) sdiv 2;
          block = (32, 8, 1); grid = pixel_grid crop_columns crop_rows batch_size block in
      st_bind (st_lift (CreateTensorWrapNHW Int32 sz input)) (\<lambda>src.
      st_bind (st_lift (CreateTensorWrapNHW Int32 sz out)) (\<lambda>dst.
      launch g grid block (center_crop_kernel_nhwc sz src dst left_indices top_indices crop_rows crop_columns block))))"

definition CenterCrop_infer :: "gpu \<Rightarrow> NVCVTensorData \<Rightarrow> NVCVTensorData \<Rightarrow> int \<Rightarrow> int \<Rightarrow> (ErrorCode, memory) st" where
  "CenterCrop_infer g input out crop_rows crop_columns =
     st_bind (st_lift (bind_result (TensorData_layout input) GetLegacyDataFormat)) (\<lambda>input_format.
     st_bind (st_lift (bind_result (TensorData_layout out) GetLegacyDataFormat)) (\<lambda>output_format.
     if td_dtype input \<noteq> td_dtype out then st_return INVALID_DATA_FORMAT
     else if \<not> (input_format = kNHWC \<or> input_format = kHWC) \<or> \<not> (output_format = kNHWC \<or> output_format = kHWC) then st_return INVALID_DATA_FORMAT
     else
       st_bind (st_lift (Access_Create input)) (\<lambda>inAccess.
       case inAccess of None \<Rightarrow> st_return INVALID_DATA_FORMAT
       | Some inAccess \<Rightarrow>
           if numChannels inAccess > 4 \<or> numChannels inAccess < 1 then st_return INVALID_DATA_SHAPE
           else
             st_bind (st_lift (Access_Create out)) (\<lambda>outAccess.
             case outAccess of None \<Rightarrow> st_return INVALID_DATA_FORMAT
             | Some outAccess \<Rightarrow>
                 if numSamples inAccess \<noteq> numSamples outAccess \<or> crop_rows > numRows outAccess \<or> crop_columns > numCols outAccess
                 then st_return INVALID_DATA_SHAPE
                 else
                   st_bind (st_lift (max_stride inAccess)) (\<lambda>inMaxStride.
                   st_bind (st_lift (max_stride outAccess)) (\<lambda>outMaxStride.
                   if max inMaxStride outMaxStride > 2 ^ 31 - 1 then st_return INVALID_PARAMETER
                   else
                     st_bind (st_lift (GetLegacyDataType (td_dtype input))) (\<lambda>dataType.
                     st_bind (st_lift (table_entry (take 5 crop_funcs) (DataSize dataType div 2) (numChannels inAccess))) (\<lambda>sz.
                     st_bind (center_crop g sz input out crop_rows crop_columns (numSamples inAccess) (numRows inAccess) (numCols inAccess)) (\<lambda>_.
                     st_return SUCCESS)))))))))"

section \<open>CopyMakeBorder\<close>

text \<open>
  The border value arrives as four floats and is cast to the element type; \<open>bvalue\<close> gives the bytes
  of the result.
\<close>

definition copyMakeBorderKernel ::
    "nat \<Rightarrow> BorderWrap \<Rightarrow> 8 word list \<Rightarrow> TensorWrapT \<Rightarrow> int \<Rightarrow> int \<Rightarrow> int \<Rightarrow> int \<Rightarrow> dim3 \<Rightarrow> thread \<Rightarrow> memory \<Rightarrow> memory result" where
  "copyMakeBorderKernel sz src bvalue dst w h left_border top_border block t m =
     (case thread_pixel block t of (x, y, z) \<Rightarrow>
        if x < w \<and> y < h
        then bind_result (border_read src bvalue sz [z, wrap32 (y - top_border), wrap32 (x - left_border)] m) (\<lambda>v.
               Inr (store_bytes (wrap_ptr dst [z, y, x]) v m))
        else Inr m)"

definition copyMakeBorder ::
    "gpu \<Rightarrow> NVCVBorderType \<Rightarrow> nat \<Rightarrow> NVCVTensorData \<Rightarrow> NVCVTensorData \<Rightarrow> 8 word list \<Rightarrow> int \<Rightarrow> int \<Rightarrow> (ErrorCode, memory) st" where
  "copyMakeBorder g B sz input out bvalue left_border top_border =
     st_bind (st_lift (require_access out)) (\<lambda>outAccess.
     st_bind (st_lift (require_access input)) (\<lambda>inAccess.
     let w = numCols outAccess; h = numRows outAccess; block = (32, 8, 1); grid = pixel_grid w h (numSamples outAccess) block in
     st_bind (st_lift (max_stride inAccess)) (\<lambda>srcMaxStride.
     st_bind (st_lift (max_stride outAccess)) (\<lambda>dstMaxStride.
     if max srcMaxStride dstMaxStride \<le> 2 ^ 31 - 1 then
       st_bind (st_lift (CreateBorderWrapNHW Int32 B sz input)) (\<lambda>src.
       st_bind (st_lift (CreateTensorWrapNHW Int32 sz out)) (\<lambda>dst.
       st_bind (launch g grid block (copyMakeBorderKernel sz src bvalue dst w h left_border top_border block)) (\<lambda>_.
       st_return SUCCESS)))
     else st_return INVALID_PARAMETER))))"

definition border_funcs :: "nat option list list" where
  "border_funcs =
     [[Some 1, Some 2, Some 3, Some 4],
      [None, None, None, None],
      [Some 2, None, Some 6, Some 8],
      [Some 2, None, Some 6, Some 8],
      [None, None, None, None],
      [Some 4, None, Some 12, Some 16]]"

text \<open>A border type that is none of the enumerators is \<open>None\<close>.\<close>

definition CopyMakeBorder_infer ::
    "gpu \<Rightarrow> NVCVTensorData \<Rightarrow> NVCVTensorData \<Rightarrow> int \<Rightarrow> int \<Rightarrow> NVCVBorderType option \<Rightarrow> (LegacyDataType \<Rightarrow> int \<Rightarrow> 8 word list)
     \<Rightarrow> (ErrorCode, memory) st" where
  "CopyMakeBorder_infer g input out top_border left_border border_type bvalue =
     st_bind (st_lift (bind_result (TensorData_layout input) GetLegacyDataFormat)) (\<lambda>input_format.
     st_bind (st_lift (bind_result (TensorData_layout out) GetLegacyDataFormat)) (\<lambda>output_format.
     if input_format \<noteq> output_format then st_return INVALID_DATA_FORMAT
     else if \<not> (input_format = kNHWC \<or> input_format = kHWC) then st_return INVALID_DATA_FORMAT
     else if td_dtype input \<noteq> td_dtype out then st_return INVALID_DATA_TYPE
     else
       st_bind (st_lift (require_access input)) (\<lambda>inAccess.
       st_bind (st_lift (require_access out)) (\<lambda>outAccess.
       st_bind (st_lift (GetLegacyDataType (td_dtype input))) (\<lambda>data_type.
       let channels = numChannels inAccess in
       if channels > 4 then st_return INVALID_DATA_SHAPE
       else if \<not> (data_type = kCV_8U \<or> data_type = kCV_16U \<or> data_type = kCV_16S \<or> data_type = kCV_32F) then st_return INVALID_DATA_TYPE
       else case border_type of None \<Rightarrow> st_return INVALID_PARAMETER
       | Some B \<Rightarrow>
           if \<not> (top_border \<ge> 0 \<and> numRows outAccess \<ge> wrap32 (top_border + numRows inAccess) \<and> left_border \<ge> 0 \<and> numCols outAccess \<ge> wrap32 (left_border + numCols inAccess))
           then st_return INVALID_PARAMETER
           else
             st_bind (st_lift (in_bounds (0 \<le> channels - 1)
               (case border_funcs ! legacy_index data_type ! nat (channels - 1) of Some sz \<Rightarrow> Inr sz | None \<Rightarrow> Inl AssertFailed))) (\<lambda>sz.
             copyMakeBorder g B sz input out (bvalue data_type channels) left_border top_border))))))"

section \<open>The operators of the library\<close>

text \<open>
  The call operators of \<open>OpFlip.cpp\<close>, \<open>OpCustomCrop.cpp\<close>, \<open>OpCenterCrop.cpp\<close> and
  \<open>OpCopyMakeBorder.cpp\<close>: both tensors must export strided device memory, and an error code becomes
  an exception.
\<close>

definition op_submit :: "(NVCVTensorData \<Rightarrow> NVCVTensorData \<Rightarrow> (ErrorCode, memory) st) \<Rightarrow> NVCVTensorData \<Rightarrow> NVCVTensorData \<Rightarrow> (unit, memory) st" where
  "op_submit infer input out =
     st_throw_if (\<not> Strided_IsCompatibleKind (td_bufferType input)) (Throw NVCV_ERROR_INVALID_ARGUMENT)
    (st_throw_if (\<not> Strided_IsCompatibleKind (td_bufferType out)) (Throw NVCV_ERROR_INVALID_ARGUMENT)
    (st_bind (infer input out) (\<lambda>e. st_throw_if (e \<noteq> SUCCESS) (Throw (TranslateError_legacy e)) (st_return ()))))"

end
