(* ===== verification/Operator_Correctness.thy ===== *)
theory Operator_Correctness
  imports Image_Operators
begin

text \<open>
  What the operators of \<open>Image_Operators\<close> compute: tensors as images in memory, the contract of an
  operator as a locale with its consequences, and the interpretations for the four operators.
\<close>

section \<open>Tensors as images\<close>

definition image_size :: "NVCVTensorData \<Rightarrow> int \<times> int \<times> int" where
  "image_size td = (label_extent td (CHR ''N''), label_extent td (CHR ''H''), label_extent td (CHR ''W''))"

definition pixel_addr :: "NVCVTensorData \<Rightarrow> int \<Rightarrow> int \<Rightarrow> int \<Rightarrow> ptr" where
  "pixel_addr td z y x = elem_addr td (image_coords (td_layout td) z y x 0)"

definition pixel_size :: "NVCVTensorData \<Rightarrow> nat" where
  "pixel_size td = nat (label_stride td (CHR ''W''))"

text \<open>The channels of the pixel in row \<open>y\<close> and column \<open>x\<close> of sample \<open>z\<close>.\<close>

definition pixel :: "NVCVTensorData \<Rightarrow> memory \<Rightarrow> int \<Rightarrow> int \<Rightarrow> int \<Rightarrow> 8 word list" where
  "pixel td m z y x = load_bytes (pixel_size td) (pixel_addr td z y x) m"

text \<open>The bytes that belong to pixels, of the whole image or of its first rows and columns.\<close>

definition region_bytes :: "NVCVTensorData \<Rightarrow> int \<times> int \<times> int \<Rightarrow> ptr set" where
  "region_bytes td s = {q. \<exists>z y x. in_image s z y x \<and> q \<in> byte_range (pixel_addr td z y x) (pixel_size td)}"

definition image_bytes :: "NVCVTensorData \<Rightarrow> ptr set" where
  "image_bytes td = region_bytes td (image_size td)"

text \<open>
  A tensor that an operator can work on: in layout \<open>NHWC\<close> or \<open>HWC\<close>, with packed pixels of \<open>b\<close> bytes
  per channel, rows and samples one after the other, and less than 2^31 bytes, all within the
  address space. Tensors that pass \<open>ValidateTensorBufferStrided\<close> with positive extents and less
  than 2^31 bytes have this form.
\<close>

definition image_operand :: "nat \<Rightarrow> NVCVTensorData \<Rightarrow> bool" where
  "image_operand b td \<longleftrightarrow>
     tensor_data_ok td \<and> td_bufferType td = NVCV_TENSOR_BUFFER_STRIDED_CUDA \<and> td_rank td = tl_rank (td_layout td)
   \<and> (labels (td_layout td) = ''NHWC'' \<or> labels (td_layout td) = ''HWC'') \<and> td_basePtr td \<noteq> 0 \<and> 0 < b
   \<and> (let (n, h, w) = image_size td; c = label_extent td (CHR ''C'');
          sn = label_stride td (CHR ''N''); sh = label_stride td (CHR ''H''); sw = label_stride td (CHR ''W'') in
      0 < n \<and> n < 2 ^ 31 \<and> 0 < h \<and> h < 2 ^ 31 \<and> 0 < w \<and> w < 2 ^ 31 \<and> 0 < c \<and> c < 2 ^ 31
    \<and> sw = c * int b \<and> w * sw \<le> sh \<and> h * sh < 2 ^ 31 \<and> 0 \<le> sn \<and> (1 < n \<longrightarrow> h * sh \<le> sn) \<and> n * sn < 2 ^ 31
    \<and> uint (td_basePtr td) + (n - 1) * sn + h * sh \<le> 2 ^ 64)"

lemma layout_split:
  assumes "layout_ok l" "labels l = s"
  obtains rest where "l = \<lparr>tl_data = s @ rest, tl_rank = int (length s)\<rparr>"
proof -
  have "tl_data l = s @ drop (nat (tl_rank l)) (tl_data l)" unfolding assms(2) [symmetric] labels_def by simp
  moreover have "tl_rank l = int (length s)" using length_labels [OF assms(1)] assms by (simp add: layout_ok_def)
  ultimately show ?thesis using that [of "drop (nat (tl_rank l)) (tl_data l)"] by (cases l) simp
qed

lemmas layout_eval = LayoutInfoImage_Create_def LayoutInfoImage_IsCompatible_def TensorLayoutInfoImage_ctor_def
  TensorLayoutInfo_ctor_def layout_eq_def TENSOR_NONE_def TENSOR_W_def NVCV_TENSOR_WC_def LAYOUT_MAKE_def EndsWith_def GetLabel_def
  FindDimIndex_def eval_nat_numeral

definition image_layout :: "NVCVTensorLayout \<Rightarrow> bool" where
  "image_layout l \<longleftrightarrow> layout_ok l \<and> labels l \<in> {''NHWC'', ''HWC'', ''NCHW'', ''CHW''}"

lemma image_layout_cases:
  assumes "image_layout l"
  obtains rest where "l = \<lparr>tl_data = ''NHWC'' @ rest, tl_rank = int (length ''NHWC'')\<rparr>"
  | rest where "l = \<lparr>tl_data = ''HWC'' @ rest, tl_rank = int (length ''HWC'')\<rparr>"
  | rest where "l = \<lparr>tl_data = ''NCHW'' @ rest, tl_rank = int (length ''NCHW'')\<rparr>"
  | rest where "l = \<lparr>tl_data = ''CHW'' @ rest, tl_rank = int (length ''CHW'')\<rparr>"
  using assms unfolding image_layout_def by (metis insertE empty_iff layout_split)

lemma image_layout_info:
  assumes "image_layout (ts_layout s)"
  shows "ShapeInfoPlanar_IsCompatible s = Inr True" "LayoutInfoImage_Create (ts_layout s) = Some (TensorLayoutInfoImage_ctor (ts_layout s))"
    "li_idxWidth (TensorLayoutInfoImage_ctor (ts_layout s)) \<ge> 0"
    "li_isChannelLast (TensorLayoutInfoImage_ctor (ts_layout s)) \<or> li_idxChannel (TensorLayoutInfoImage_ctor (ts_layout s)) \<ge> 0"
  by (cases rule: image_layout_cases [OF assms];
      simp add: ShapeInfoPlanar_IsCompatible_def layout_eval Let_def)+

text \<open>Host code can look at any tensor of images in one of these layouts.\<close>

lemma image_access_ex:
  assumes ok: "tensor_data_ok td" and layout: "image_layout (td_layout td)" and rank: "td_rank td = tl_rank (td_layout td)"
    and kind: "td_bufferType td = NVCV_TENSOR_BUFFER_STRIDED_CUDA"
  shows "\<exists>a. Access_Create td = Inr (Some a)"
proof -
  have d: "0 \<le> td_rank td" "td_rank td \<le> 15" "int (length (take (nat (td_rank td)) (td_shape td))) = tl_rank (td_layout td)"
    using ok rank by (auto simp: tensor_data_ok_def layout_ok_def)
  define s where "s = \<lparr>ts_shape = take (nat (td_rank td)) (td_shape td), ts_layout = td_layout td\<rparr>"
  define info where "info = TensorLayoutInfoImage_ctor (ts_layout s)"
  have sh: "TensorData_shape td = Inr s"
    using d by (simp add: TensorData_shape_def TensorShape_ctor_def s_def)
  have il: "image_layout (ts_layout s)" using layout by (simp add: s_def)
  note info = image_layout_info [OF il, folded info_def]
  have at: "\<exists>n. TensorShape_at s (FindDimIndex (ts_layout s) c) = Inr n" if "FindDimIndex (ts_layout s) c \<ge> 0" for c
    using that FindDimIndex_bounds [of "ts_layout s" c] il d(3) by (auto simp: TensorShape_at_def s_def image_layout_def)
  have idx: "li_idxWidth info = FindDimIndex (ts_layout s) (CHR ''W'')" "li_idxHeight info = FindDimIndex (ts_layout s) (CHR ''H'')"
    "li_idxChannel info = FindDimIndex (ts_layout s) (CHR ''C'')" by (simp_all add: info_def TensorLayoutInfoImage_ctor_def Let_def)
  have "\<exists>n. si_samples s (li_idxSample info) = Inr n"
    using d(3) by (auto simp: si_samples_def info_def TensorLayoutInfoImage_ctor_def TensorLayoutInfo_ctor_def TensorShape_at_def Let_def s_def)
  then obtain n where n: "si_samples s (li_idxSample info) = Inr n" by blast
  obtain w where w: "TensorShape_at s (li_idxWidth info) = Inr w" using at info(3) idx by metis
  obtain h where h: "(if li_idxHeight info \<ge> 0 then TensorShape_at s (li_idxHeight info) else Inr 1) = Inr h"
    using at idx by (cases "li_idxHeight info \<ge> 0") auto
  obtain c where c: "(if li_idxChannel info \<ge> 0 then TensorShape_at s (li_idxChannel info) else Inr 1) = Inr c"
    using at idx by (cases "li_idxChannel info \<ge> 0") auto
  have "\<not> li_idxWidth info < 0" using info(3) by simp
  then obtain j where j: "TensorShapeInfoImage_ctor s = Inr j" "si_infoLayout j = info"
    unfolding TensorShapeInfoImage_ctor_def info(2) Optional_value_def option.case bind_result_simps n w h c by simp
  have "\<exists>i. ShapeInfoPlanar_ctor s = Inr i"
    using info(4) at [of "CHR ''C''"] idx(3) by (auto simp: ShapeInfoPlanar_ctor_def j Let_def)
  then show ?thesis
    using sh info(1) kind
    by (auto simp: Access_Create_def Access_IsCompatible_def ShapeInfoPlanar_Create_def ShapeInfoImage_IsCompatible_def
        Strided_IsCompatibleKind_def Optional_value_def)
qed

lemma operand_layout: "image_operand b td \<Longrightarrow> image_layout (td_layout td)"
  by (auto simp: image_operand_def tensor_data_ok_def image_layout_def)

lemma operand_dims:
  assumes "image_operand b td"
  shows "layout_ok (td_layout td)" "distinct (labels (td_layout td))" "0 \<le> td_rank td" "td_rank td \<le> 15"
    "int (length (take (nat (td_rank td)) (td_shape td))) = tl_rank (td_layout td)" "length (labels (td_layout td)) \<le> length (td_strides td)"
  using assms length_labels [of "td_layout td"] by (auto simp: image_operand_def tensor_data_ok_def layout_ok_def)

text \<open>The samples of a tensor: those of its first dimension, or one.\<close>

lemma image_samples:
  assumes "image_layout (td_layout td)"
  defines "info \<equiv> TensorLayoutInfoImage_ctor (td_layout td)"
  shows "(if li_isBatch info then td_shape td ! 0 else 1) = label_extent td (CHR ''N'')"
    "(if li_isBatch info then label_stride td (CHR ''N'') else 0) = label_stride td (CHR ''N'')"
  unfolding info_def label_extent_def label_stride_def
  by (cases rule: image_layout_cases [OF assms(1)]; simp add: layout_eval Let_def)+

lemma operand_access:
  assumes "image_operand b td"
  obtains a where "Access_Create td = Inr (Some a)" "require_access td = Inr a" "(numSamples a, numRows a, numCols a) = image_size td"
    "numChannels a = label_extent td (CHR ''C'')" "sampleStride a = Inr (label_stride td (CHR ''N''))"
    "rowStride a = Inr (label_stride td (CHR ''H''))"
proof -
  have ok: "tensor_data_ok td" "td_rank td = tl_rank (td_layout td)" "td_bufferType td = NVCV_TENSOR_BUFFER_STRIDED_CUDA"
    using assms by (simp_all add: image_operand_def)
  note l = operand_layout [OF assms]
  obtain a where a: "Access_Create td = Inr (Some a)" using image_access_ex [OF ok(1) l ok(2,3)] by blast
  note d = Access_CreateD [OF ok(1) a] and st = access_strides [OF ok(1) a] and b = image_samples [OF l]
  have "wrap32 (label_extent td k) = label_extent td k" if "k \<in> set ''NHWC''" for k
    using that assms by (auto simp: image_operand_def image_size_def Let_def)
  then show ?thesis
    using that [OF a] b d st a by (simp add: require_access_def image_size_def)
qed

section \<open>Pixels in memory\<close>

lemma byte_range_uint:
  assumes "uint p + int n \<le> 2 ^ 64"
  shows "q \<in> byte_range p n \<longleftrightarrow> uint p \<le> uint q \<and> uint q < uint p + int n"
proof -
  have m: "uint (q - p) = (uint q - uint p) mod 2 ^ 64" by (simp add: uint_word_ariths)
  have b: "0 \<le> uint p" "0 \<le> uint q" "uint p < 2 ^ 64" "uint q < 2 ^ 64" using uint_lt2p [of p] uint_lt2p [of q] by simp_all
  have in_iff: "q \<in> byte_range p n \<longleftrightarrow> uint (q - p) < int n"
    unfolding byte_range_def mem_Collect_eq by (metis of_nat_less_iff of_nat_unat uint_nat)
  show ?thesis
  proof (cases "uint p \<le> uint q")
    case True
    then have "uint (q - p) = uint q - uint p" unfolding m using b by (intro mod_pos_pos_trivial) linarith+
    then show ?thesis unfolding in_iff using True by linarith
  next
    case False
    have "(uint q - uint p) mod 2 ^ 64 = (uint q - uint p + 2 ^ 64) mod 2 ^ 64" by simp
    also have "\<dots> = uint q - uint p + 2 ^ 64" using False b by (intro mod_pos_pos_trivial) linarith+
    finally show ?thesis unfolding in_iff m using False assms b by linarith
  qed
qed

definition pixel_offset :: "NVCVTensorData \<Rightarrow> int \<Rightarrow> int \<Rightarrow> int \<Rightarrow> int" where
  "pixel_offset td z y x = label_stride td (CHR ''N'') * z + label_stride td (CHR ''H'') * y + label_stride td (CHR ''W'') * x"

lemma pixel_addr_offset:
  "image_operand b td \<Longrightarrow> pixel_addr td z y x = td_basePtr td + word_of_int (pixel_offset td z y x)"
  unfolding pixel_addr_def pixel_offset_def by (subst elem_addr_image) (simp_all add: operand_dims)

lemma operand_strides:
  assumes "image_operand b td" "image_size td = (n, h, w)"
  defines "sn \<equiv> label_stride td (CHR ''N'')" and "sh \<equiv> label_stride td (CHR ''H'')" and "sw \<equiv> label_stride td (CHR ''W'')"
  shows "0 < n" "n < 2 ^ 31" "0 < h" "h < 2 ^ 31" "0 < w" "w < 2 ^ 31" "0 < sw" "w * sw \<le> sh" "h * sh < 2 ^ 31" "0 \<le> sn"
    "1 < n \<Longrightarrow> h * sh \<le> sn" "n * sn < 2 ^ 31" "uint (td_basePtr td) + (n - 1) * sn + h * sh \<le> 2 ^ 64" "int (pixel_size td) = sw"
    "0 \<le> sh" "sh < 2 ^ 31" "sn < 2 ^ 31" "sw < 2 ^ 31"
    "sw = label_extent td (CHR ''C'') * int b" "0 < label_extent td (CHR ''C'')"
proof -
  have a: "0 < n" "n < 2 ^ 31" "0 < h" "h < 2 ^ 31" "0 < w" "w < 2 ^ 31" "sw = label_extent td (CHR ''C'') * int b" "w * sw \<le> sh" "h * sh < 2 ^ 31"
    "0 \<le> sn" "1 < n \<longrightarrow> h * sh \<le> sn" "n * sn < 2 ^ 31" "uint (td_basePtr td) + (n - 1) * sn + h * sh \<le> 2 ^ 64"
    "0 < label_extent td (CHR ''C'')" "0 < b"
    using assms(1) unfolding image_operand_def assms(2) Let_def prod.case sn_def sh_def sw_def by blast+
  show sw: "0 < sw" using a by simp
  show "0 < n" "n < 2 ^ 31" "0 < h" "h < 2 ^ 31" "0 < w" "w < 2 ^ 31" "w * sw \<le> sh" "h * sh < 2 ^ 31" "0 \<le> sn"
    "1 < n \<Longrightarrow> h * sh \<le> sn" "n * sn < 2 ^ 31" "uint (td_basePtr td) + (n - 1) * sn + h * sh \<le> 2 ^ 64"
    "sw = label_extent td (CHR ''C'') * int b" "0 < label_extent td (CHR ''C'')"
    using a by blast+
  have "1 * sw \<le> w * sw" using a(5) sw by (intro mult_right_mono) simp_all
  then have s: "sw \<le> sh" using a(8) by simp
  then show "0 \<le> sh" using sw by simp
  then have "1 * sh \<le> h * sh" using a(3) by (intro mult_right_mono) simp_all
  then show "sh < 2 ^ 31" "sw < 2 ^ 31" using a(9) s by simp_all
  have "1 * sn \<le> n * sn" using a(1,10) by (intro mult_right_mono) simp_all
  then show "sn < 2 ^ 31" using a(12) by simp
  show "int (pixel_size td) = sw" using sw by (simp add: pixel_size_def sw_def)
qed

text \<open>Where a pixel ends, and the pixels after it begin.\<close>

lemma pixel_offset_bounds:
  assumes "image_operand b td" "in_image (image_size td) z y x" "image_size td = (n, h, w)"
  defines "sn \<equiv> label_stride td (CHR ''N'')" and "sh \<equiv> label_stride td (CHR ''H'')"
  shows "0 \<le> pixel_offset td z y x" "pixel_offset td z y x + int (pixel_size td) \<le> sn * z + sh * (y + 1)"
    "pixel_offset td z y x + int (pixel_size td) \<le> sn * z + h * sh"
    "pixel_offset td z y x + int (pixel_size td) \<le> (n - 1) * sn + h * sh" "pixel_offset td z y x < 2 ^ 31"
proof -
  note s = operand_strides [OF assms(1,3)]
  let ?sw = "label_stride td (CHR ''W'')"
  have i: "0 \<le> z" "z < n" "0 \<le> y" "y < h" "0 \<le> x" "x < w" using assms(2,3) by (simp_all add: in_image_def)
  have "0 \<le> sn * z" "0 \<le> sh * y" "0 \<le> ?sw * x" using s i by (simp_all add: sn_def sh_def)
  then show p: "0 \<le> pixel_offset td z y x" by (simp add: pixel_offset_def sn_def sh_def)
  have "?sw * (x + 1) \<le> ?sw * w" using i s(7) by (intro mult_left_mono) simp_all
  then have "?sw * x + ?sw \<le> sh" using s(8) by (simp add: algebra_simps sh_def)
  then show e: "pixel_offset td z y x + int (pixel_size td) \<le> sn * z + sh * (y + 1)"
    using s(14) by (simp add: pixel_offset_def sn_def sh_def algebra_simps)
  have "sh * (y + 1) \<le> sh * h" using i s(15) by (intro mult_left_mono) (simp_all add: sh_def)
  then show f: "pixel_offset td z y x + int (pixel_size td) \<le> sn * z + h * sh" using e by (simp add: mult.commute)
  have "sn * z \<le> sn * (n - 1)" using i s(10) by (intro mult_left_mono) (simp_all add: sn_def)
  then show l: "pixel_offset td z y x + int (pixel_size td) \<le> (n - 1) * sn + h * sh" using f by (simp add: mult.commute)
  have "(n - 1) * sn + h * sh < 2 ^ 31"
  proof (cases "1 < n")
    case True
    then have "(n - 1) * sn + h * sh \<le> n * sn" using s(11) by (simp add: algebra_simps sn_def sh_def)
    then show ?thesis using s(12) by (simp add: sn_def)
  next
    case False
    then have "n = 1" using s(1) by simp
    then show ?thesis using s(9) by (simp add: sh_def)
  qed
  then show "pixel_offset td z y x < 2 ^ 31" using l by linarith
qed

lemma pixel_addr_uint:
  assumes "image_operand b td" "in_image (image_size td) z y x"
  shows "uint (pixel_addr td z y x) = uint (td_basePtr td) + pixel_offset td z y x"
    "uint (pixel_addr td z y x) + int (pixel_size td) \<le> 2 ^ 64" "pixel_addr td z y x \<noteq> 0" "pixel_size td \<le> 2 ^ 64" "0 < pixel_size td"
proof -
  obtain n h w where sz: "image_size td = (n, h, w)" by (metis surj_pair)
  note s = operand_strides [OF assms(1) sz] and o = pixel_offset_bounds [OF assms sz]
  have fit: "uint (td_basePtr td) + pixel_offset td z y x + int (pixel_size td) \<le> 2 ^ 64" using o(4) s(13) by linarith
  have pos: "0 < int (pixel_size td)" using s(7,14) by simp
  then show "0 < pixel_size td" by simp
  have u: "uint (word_of_int (pixel_offset td z y x) :: ptr) = pixel_offset td z y x"
    using o(1,5) by (simp add: uint_word_of_int_eq take_bit_int_eq_self)
  have "uint (td_basePtr td) + uint (word_of_int (pixel_offset td z y x) :: ptr) < 2 ^ 64" unfolding u using fit pos by linarith
  then show e: "uint (pixel_addr td z y x) = uint (td_basePtr td) + pixel_offset td z y x"
    unfolding pixel_addr_offset [OF assms(1)] by (subst uint_add_lem [THEN iffD1]) (simp_all add: u)
  show "uint (pixel_addr td z y x) + int (pixel_size td) \<le> 2 ^ 64" unfolding e using fit by simp
  have "td_basePtr td \<noteq> 0" using assms(1) by (simp add: image_operand_def)
  then have "0 < uint (td_basePtr td)" by (metis uint_0_iff uint_ge_0 less_le)
  then have "uint (pixel_addr td z y x) \<noteq> 0" unfolding e using o(1) by linarith
  then show "pixel_addr td z y x \<noteq> 0" by (intro notI) simp
  have "int (pixel_size td) < 2 ^ 31" using s(14,18) by simp
  then show "pixel_size td \<le> 2 ^ 64" by simp
qed

lemma pixel_before:
  assumes "image_operand b td" "in_image (image_size td) z y x" "in_image (image_size td) z' y' x'"
    and "z < z' \<or> z = z' \<and> (y < y' \<or> y = y' \<and> x < x')"
  shows "pixel_offset td z y x + int (pixel_size td) \<le> pixel_offset td z' y' x'"
proof -
  obtain n h w where sz: "image_size td = (n, h, w)" by (metis surj_pair)
  note s = operand_strides [OF assms(1) sz] and o = pixel_offset_bounds [OF assms(1,2) sz]
  let ?sn = "label_stride td (CHR ''N'')" and ?sh = "label_stride td (CHR ''H'')" and ?sw = "label_stride td (CHR ''W'')"
  have i: "0 \<le> z" "z' < n" "0 \<le> y'" "0 \<le> x'" "0 \<le> x" using assms(2,3) sz by (simp_all add: in_image_def)
  have nn: "0 \<le> ?sh * y'" "0 \<le> ?sw * x'" using i s(7,15) by simp_all
  from assms(4) show ?thesis
  proof (elim disjE conjE)
    assume z: "z < z'"
    then have "1 < n" using i by linarith
    then have "h * ?sh \<le> ?sn" by (rule s(11))
    moreover have "?sn * (z + 1) \<le> ?sn * z'" using z s(10) by (intro mult_left_mono) simp_all
    ultimately show ?thesis using o(3) nn by (simp add: pixel_offset_def algebra_simps)
  next
    assume y: "z = z'" "y < y'"
    have "?sh * (y + 1) \<le> ?sh * y'" using y(2) s(15) by (intro mult_left_mono) simp_all
    then show ?thesis using o(2) nn y(1) by (simp add: pixel_offset_def algebra_simps)
  next
    assume x: "z = z'" "y = y'" "x < x'"
    have "?sw * (x + 1) \<le> ?sw * x'" using x(3) s(7) by (intro mult_left_mono) simp_all
    then show ?thesis using s(14) x by (simp add: pixel_offset_def algebra_simps)
  qed
qed

lemma pixel_disjoint:
  assumes "image_operand b td" "in_image (image_size td) z y x" "in_image (image_size td) z' y' x'" "(z, y, x) \<noteq> (z', y', x')"
  shows "byte_range (pixel_addr td z y x) (pixel_size td) \<inter> byte_range (pixel_addr td z' y' x') (pixel_size td) = {}"
proof -
  note u = pixel_addr_uint [OF assms(1,2)] and u' = pixel_addr_uint [OF assms(1,3)]
  consider "z < z' \<or> z = z' \<and> (y < y' \<or> y = y' \<and> x < x')" | "z' < z \<or> z' = z \<and> (y' < y \<or> y' = y \<and> x' < x)"
    using assms(4) by fastforce
  then have "pixel_offset td z y x + int (pixel_size td) \<le> pixel_offset td z' y' x'
      \<or> pixel_offset td z' y' x' + int (pixel_size td) \<le> pixel_offset td z y x"
    using pixel_before [OF assms(1,2,3)] pixel_before [OF assms(1,3,2)] by cases simp_all
  then show ?thesis
    using byte_range_uint [OF u(2)] byte_range_uint [OF u'(2)] u(1) u'(1) by fastforce
qed

lemma pixel_in_image_bytes:
  "in_image (image_size td) z y x \<Longrightarrow> byte_range (pixel_addr td z y x) (pixel_size td) \<subseteq> image_bytes td"
  by (auto simp: image_bytes_def region_bytes_def)

lemma length_pixel [simp]: "length (pixel td m z y x) = pixel_size td"
  by (simp add: pixel_def)

text \<open>The pixels of an image depend on its bytes only.\<close>

lemma pixel_cong:
  assumes "image_operand b td" "in_image (image_size td) z y x" "\<And>q. q \<in> image_bytes td \<Longrightarrow> m q = m' q"
  shows "pixel td m z y x = pixel td m' z y x"
  unfolding pixel_def
  by (rule load_cong [OF pixel_addr_uint(4) [OF assms(1,2)]]) (use pixel_in_image_bytes [OF assms(2)] assms(3) in blast)

text \<open>The address that a wrap computes is the one of the pixel.\<close>

lemma wrap_NHW:
  assumes "image_operand b td" "sz = pixel_size td"
  shows "\<exists>wr. CreateTensorWrapNHW Int32 sz td = Inr wr
    \<and> (\<forall>z y x. in_image (image_size td) z y x \<longrightarrow> wrap_ptr wr [z, y, x] = pixel_addr td z y x)"
proof -
  obtain n h w where sz: "image_size td = (n, h, w)" by (metis surj_pair)
  note s = operand_strides [OF assms(1) sz]
  obtain a where a: "require_access td = Inr a" "sampleStride a = Inr (label_stride td (CHR ''N''))"
    "rowStride a = Inr (label_stride td (CHR ''H''))" using operand_access [OF assms(1)] by metis
  let ?ss = "[label_stride td (CHR ''N''), label_stride td (CHR ''H'')]" and ?st = "[-1, -1, int sz]"
  let ?wr = "TensorWrapT_strides Int32 ?st (td_basePtr td) ?ss"
  have c: "CreateTensorWrapNHW Int32 sz td = Inr ?wr"
    using s(16,17) by (simp add: CreateTensorWrapNHW_def a)
  have "wrap_ptr ?wr [z, y, x] = pixel_addr td z y x" if i: "in_image (image_size td) z y x" for z y x
  proof -
    have k: "kVariableStrides ?st = 2" by (simp add: kVariableStrides_def)
    have r: "0 \<le> z" "z < n" "0 \<le> y" "y < h" "0 \<le> x" "x < w" using i sz by (simp_all add: in_image_def)
    have id: "wrap32 z = z" "wrap32 y = y" "wrap32 x = x" using r s(2,4,6) by simp_all
    have ss: "wrap32 (label_stride td (CHR ''N'')) = label_stride td (CHR ''N'')"
      "wrap32 (label_stride td (CHR ''H'')) = label_stride td (CHR ''H'')" using s(10,15,16,17) by simp_all
    have off: "0 \<le> pixel_offset td z y x" "pixel_offset td z y x < 2 ^ 31" using pixel_offset_bounds [OF assms(1) i sz] by simp_all
    have wo: "wrap_offset ?wr [z, y, x] = wrap32 (pixel_offset td z y x)"
    proof -
      have w2: "wrap32 (wrap32 p + q) = wrap32 (p + q)" "wrap32 (p + wrap32 q) = wrap32 (p + q)" for p q
        using to_stride_add [of Int32] by simp_all
      have l: "[0..<2] = [0, 1 :: nat]" "[2..<3] = [2 :: nat]" by (simp_all add: upt_rec)
      have "wrap_offset ?wr [z, y, x] = wrap32 (wrap32 (wrap32 (0 + wrap32 (z * label_stride td (CHR ''N'')))
          + wrap32 (y * label_stride td (CHR ''H''))) + wrap32 (x * int sz))"
        by (simp add: wrap_offset_def TensorWrapT_strides_def Let_def k id ss l)
      also have "\<dots> = wrap32 (z * label_stride td (CHR ''N'') + y * label_stride td (CHR ''H'') + x * int sz)"
        by (simp only: w2 add_0 add.assoc)
      also have "z * label_stride td (CHR ''N'') + y * label_stride td (CHR ''H'') + x * int sz = pixel_offset td z y x"
        using s(14) by (simp add: pixel_offset_def assms(2) mult.commute)
      finally show ?thesis .
    qed
    show ?thesis
      unfolding pixel_addr_offset [OF assms(1)] wrap_ptr_def wo using off
      by (simp add: TensorWrapT_strides_def)
  qed
  then show ?thesis using c by blast
qed

section \<open>One pixel per thread\<close>

definition inside_size :: "int \<times> int \<times> int \<Rightarrow> int \<times> int \<times> int \<Rightarrow> bool" where
  "inside_size r s = (case (r, s) of ((n, h, w), (n', h', w')) \<Rightarrow> n \<le> n' \<and> h \<le> h' \<and> w \<le> w')"

lemma in_image_mono: "inside_size r s \<Longrightarrow> in_image r z y x \<Longrightarrow> in_image s z y x"
  by (auto simp: inside_size_def in_image_def split: prod.splits)

lemma region_subset: "inside_size r (image_size td) \<Longrightarrow> region_bytes td r \<subseteq> image_bytes td"
  using in_image_mono unfolding image_bytes_def region_bytes_def by blast

lemma launch_copies:
  assumes "gpu_ok g" "image_operand b out" "inside_size (n, h, w) (image_size out)" "launchable (n, h, w) bw bh"
    and apart: "A \<inter> image_bytes out = {}"
    and k: "\<And>t m x y z. thread_pixel (bw, bh, 1) t = (x, y, z) \<Longrightarrow> 0 \<le> x \<Longrightarrow> 0 \<le> y \<Longrightarrow> 0 \<le> z \<Longrightarrow> z < n \<Longrightarrow>
      t \<in> set (all_threads (pixel_grid w h n (bw, bh, 1)) (bw, bh, 1)) \<Longrightarrow>
      k t m = Inr (if x < w \<and> y < h then store_bytes (pixel_addr out z y x) (val m z y x) m else m)"
    and len: "\<And>m z y x. length (val m z y x) = pixel_size out"
    and local: "\<And>m m' z y x. in_image (n, h, w) z y x \<Longrightarrow> (\<And>q. q \<in> A \<Longrightarrow> m q = m' q) \<Longrightarrow> val m z y x = val m' z y x"
  shows "\<exists>m'. launch g (pixel_grid w h n (bw, bh, 1)) (bw, bh, 1) k m = (Inr (), m')
    \<and> (\<forall>z y x. in_image (n, h, w) z y x \<longrightarrow> pixel out m' z y x = val m z y x) \<and> (\<forall>q. q \<notin> region_bytes out (n, h, w) \<longrightarrow> m' q = m q)"
proof -
  have sz: "pixel_size out \<le> 2 ^ 64"
  proof -
    obtain n' h' w' where s: "image_size out = (n', h', w')" by (metis surj_pair)
    have "int (pixel_size out) < 2 ^ 31" using operand_strides(14,18) [OF assms(2) s] by simp
    then show ?thesis by simp
  qed
  have sub: "region_bytes out (n, h, w) \<subseteq> image_bytes out" by (rule region_subset [OF assms(3)])
  show ?thesis unfolding pixel_def
  proof (rule launch_pixels [OF assms(1,4) sz, where D = "region_bytes out (n, h, w)" and val = "\<lambda>z y x m. val m z y x"
        and dst = "pixel_addr out"])
    show "byte_range (pixel_addr out z y x) (pixel_size out) \<inter> byte_range (pixel_addr out z' y' x') (pixel_size out) = {}"
      if "in_image (n, h, w) z y x" "in_image (n, h, w) z' y' x'" "(z, y, x) \<noteq> (z', y', x')" for z y x z' y' x'
      by (rule pixel_disjoint [OF assms(2) in_image_mono [OF assms(3) that(1)] in_image_mono [OF assms(3) that(2)] that(3)])
    show "byte_range (pixel_addr out z y x) (pixel_size out) \<subseteq> region_bytes out (n, h, w)" if "in_image (n, h, w) z y x" for z y x
      using that by (auto simp: region_bytes_def)
    show "val m z y x = val m' z y x" if "in_image (n, h, w) z y x" "\<And>q. q \<notin> region_bytes out (n, h, w) \<Longrightarrow> m q = m' q" for z y x m m'
      by (rule local [OF that(1)]) (use that(2) apart sub in blast)
  qed (use k len in auto)
qed

section \<open>The contract of an operator\<close>

text \<open>
  \<open>fits\<close>: the tensors and parameters that the operator is meant for; \<open>region\<close>: the part of the
  output that it fills; \<open>outcome\<close>: the pixel it puts there, from the memory before. An operator that
  keeps this contract does not depend on the order of the threads, leaves its input alone, and gives
  the same output when it runs again.
\<close>

locale image_operator =
  fixes run :: "'p \<Rightarrow> gpu \<Rightarrow> NVCVTensorData \<Rightarrow> NVCVTensorData \<Rightarrow> (ErrorCode, memory) st"
    and fits :: "'p \<Rightarrow> NVCVTensorData \<Rightarrow> NVCVTensorData \<Rightarrow> bool"
    and region :: "'p \<Rightarrow> NVCVTensorData \<Rightarrow> int \<times> int \<times> int"
    and outcome :: "'p \<Rightarrow> NVCVTensorData \<Rightarrow> NVCVTensorData \<Rightarrow> memory \<Rightarrow> int \<Rightarrow> int \<Rightarrow> int \<Rightarrow> 8 word list"
  assumes run_correct: "gpu_ok g \<Longrightarrow> fits p i out \<Longrightarrow> \<exists>m'. run p g i out m = (Inr SUCCESS, m')
      \<and> (\<forall>z y x. in_image (region p out) z y x \<longrightarrow> pixel out m' z y x = outcome p i out m z y x)
      \<and> (\<forall>q. q \<notin> region_bytes out (region p out) \<longrightarrow> m' q = m q)"
    and outcome_local: "fits p i out \<Longrightarrow> in_image (region p out) z y x \<Longrightarrow> (\<And>q. q \<in> image_bytes i \<Longrightarrow> m q = m' q) \<Longrightarrow>
      outcome p i out m z y x = outcome p i out m' z y x"
    and operands: "fits p i out \<Longrightarrow> (\<exists>b. image_operand b i) \<and> (\<exists>b. image_operand b out) \<and> image_bytes i \<inter> image_bytes out = {}
      \<and> inside_size (region p out) (image_size out)"
begin

lemma same_pixels_same_memory:
  assumes "fits p i out" "\<And>z y x. in_image (region p out) z y x \<Longrightarrow> pixel out m1 z y x = pixel out m2 z y x"
    and "\<And>q. q \<notin> region_bytes out (region p out) \<Longrightarrow> m1 q = m2 q"
  shows "m1 = m2"
proof
  fix q
  show "m1 q = m2 q"
  proof (cases "q \<in> region_bytes out (region p out)")
    case True
    then obtain z y x where i: "in_image (region p out) z y x" "unat (q - pixel_addr out z y x) < pixel_size out"
      unfolding region_bytes_def byte_range_def by blast
    have byte: "m q = pixel out m z y x ! unat (q - pixel_addr out z y x)" for m
      using i(2) by (simp add: pixel_def load_bytes_def)
    show ?thesis unfolding byte [of m1] byte [of m2] assms(2) [OF i(1)] ..
  qed (rule assms(3))
qed

lemma schedule_independent:
  assumes "fits p i out"
  shows "\<exists>m'. (\<forall>g. gpu_ok g \<longrightarrow> run p g i out m = (Inr SUCCESS, m')) \<and> (\<forall>g. gpu_ok g \<longrightarrow> run p g i out m' = (Inr SUCCESS, m'))
    \<and> (\<forall>q. q \<notin> image_bytes out \<longrightarrow> m' q = m q)"
proof -
  note ops = operands [OF assms]
  have sub: "region_bytes out (region p out) \<subseteq> image_bytes out" using ops region_subset by blast
  define same where "same m0 m' \<longleftrightarrow> (\<forall>z y x. in_image (region p out) z y x \<longrightarrow> pixel out m' z y x = outcome p i out m0 z y x)
      \<and> (\<forall>q. q \<notin> region_bytes out (region p out) \<longrightarrow> m' q = m0 q)" for m0 m'
  have run: "\<exists>m'. run p g i out m0 = (Inr SUCCESS, m') \<and> same m0 m'" if "gpu_ok g" for g m0
    using run_correct [OF that assms, of m0] by (auto simp: same_def)
  have uniq: "m1 = m2" if "same m m1" "same m m2" for m1 m2
    using same_pixels_same_memory [OF assms, of m1 m2] that by (auto simp: same_def)
  show ?thesis
  proof (cases "\<exists>g. gpu_ok g")
    case True
    then obtain m' where m': "same m m'" using run by blast
    have again: "same m m''" if "same m' m''" for m''
    proof -
      have "m q = m' q" if "q \<in> image_bytes i" for q
      proof -
        have "q \<notin> region_bytes out (region p out)" using that sub ops by blast
        then show ?thesis using m' by (simp add: same_def)
      qed
      then have "outcome p i out m z y x = outcome p i out m' z y x" if "in_image (region p out) z y x" for z y x
        by (rule outcome_local [OF assms that])
      then show ?thesis using that m' by (auto simp: same_def)
    qed
    have "run p g i out m = (Inr SUCCESS, m')" if "gpu_ok g" for g using run [OF that, of m] uniq m' by blast
    moreover have "run p g i out m' = (Inr SUCCESS, m')" if "gpu_ok g" for g using run [OF that, of m'] again uniq m' by blast
    moreover have "m' q = m q" if "q \<notin> image_bytes out" for q using m' sub that by (auto simp: same_def)
    ultimately show ?thesis by blast
  qed auto
qed

end

section \<open>Common preparations\<close>

text \<open>Two images of one data type and number of channels, apart from each other in memory.\<close>

definition operands_ok :: "LegacyDataType \<Rightarrow> NVCVTensorData \<Rightarrow> NVCVTensorData \<Rightarrow> bool" where
  "operands_ok dt i out \<longleftrightarrow>
     GetLegacyDataType (td_dtype i) = Inr dt \<and> td_dtype out = td_dtype i
   \<and> image_operand (DataSize dt) i \<and> image_operand (DataSize dt) out \<and> label_extent out (CHR ''C'') = label_extent i (CHR ''C'')
   \<and> label_extent i (CHR ''C'') \<le> 4 \<and> label_extent out (CHR ''N'') = label_extent i (CHR ''N'')
   \<and> image_bytes i \<inter> image_bytes out = {}"

lemma operand_format:
  assumes "image_operand b td"
  shows "bind_result (TensorData_layout td) GetLegacyDataFormat = Inr (if labels (td_layout td) = ''NHWC'' then kNHWC else kHWC)"
proof -
  note d = operand_dims [OF assms]
  have "TensorData_layout td = Inr (td_layout td)"
    using d by (simp add: TensorData_layout_def TensorData_shape_def TensorShape_ctor_def)
  moreover have "GetLegacyDataFormat (td_layout td) = Inr (if labels (td_layout td) = ''NHWC'' then kNHWC else kHWC)"
  proof -
    have ok: "layout_ok NVCV_TENSOR_NCHW" "layout_ok TENSOR_CHW" "layout_ok NVCV_TENSOR_NHWC" "layout_ok TENSOR_HWC"
      "labels NVCV_TENSOR_NCHW = ''NCHW''" "labels TENSOR_CHW = ''CHW''" "labels NVCV_TENSOR_NHWC = ''NHWC''" "labels TENSOR_HWC = ''HWC''"
      by code_simp+
    have "labels (td_layout td) = ''NHWC'' \<or> labels (td_layout td) = ''HWC''" using assms by (simp add: image_operand_def)
    then show ?thesis unfolding GetLegacyDataFormat_def using ok layout_eq_labels [OF d(1)] by auto
  qed
  ultimately show ?thesis by simp
qed

lemma operand_max_stride:
  assumes "image_operand b td" "require_access td = Inr a"
  shows "\<exists>s. max_stride a = Inr s \<and> s \<le> 2 ^ 31 - 1"
proof -
  obtain n h w where sz: "image_size td = (n, h, w)" by (metis surj_pair)
  note s = operand_strides [OF assms(1) sz]
  have "sampleStride a = Inr (label_stride td (CHR ''N''))" "numSamples a = n"
    using operand_access [OF assms(1)] assms(2) sz by (metis Pair_inject sum.inject(2))+
  moreover have "- (2 ^ 63) \<le> label_stride td (CHR ''N'') * n"
    using s(1,10) by (intro order_trans [OF _ mult_nonneg_nonneg]) simp_all
  ultimately show ?thesis using s(12) by (simp add: max_stride_def mult.commute)
qed

lemma operand_pixel_size:
  assumes "image_operand b td"
  shows "int (pixel_size td) = label_extent td (CHR ''C'') * int b"
proof -
  obtain n h w where sz: "image_size td = (n, h, w)" by (metis surj_pair)
  show ?thesis using operand_strides(14,19) [OF assms sz] by simp
qed

lemma thread_pixel_coords:
  assumes "thread_pixel (bw, bh, 1) ((bx, by, bz), (tx, ty, tz)) = (x, y, z)" "0 \<le> z" "tz = 0"
  shows "thread_index bx bw tx = x \<and> thread_index by bh ty = y \<and> wrap32 (int bz) = z"
  using assms by (auto simp: thread_pixel_def thread_index_def)

lemma int_small: "0 \<le> a \<Longrightarrow> a < 2 ^ 31 \<Longrightarrow> wrap32 a = a"
  by simp

section \<open>Flip\<close>

definition flip_fits :: "int \<Rightarrow> NVCVTensorData \<Rightarrow> NVCVTensorData \<Rightarrow> bool" where
  "flip_fits code i out \<longleftrightarrow>
     (\<exists>dt. operands_ok dt i out \<and> (dt = kCV_8U \<or> dt = kCV_16U \<or> dt = kCV_32S \<or> dt = kCV_32F))
   \<and> label_extent i (CHR ''C'') \<noteq> 2 \<and> labels (td_layout i) = labels (td_layout out)
   \<and> image_size i = image_size out \<and> launchable (image_size out) 32 8"

definition flip_outcome :: "int \<Rightarrow> NVCVTensorData \<Rightarrow> NVCVTensorData \<Rightarrow> memory \<Rightarrow> int \<Rightarrow> int \<Rightarrow> int \<Rightarrow> 8 word list" where
  "flip_outcome code i out m z y x = (case image_size out of (n, h, w) \<Rightarrow>
     pixel i m z (if code > 0 then y else h - 1 - y) (if code = 0 then x else w - 1 - x))"

lemma flip_coords:
  assumes "in_image (n, h, w) z y x"
  shows "in_image (n, h, w) z (if code > 0 then y else h - 1 - y) (if code = 0 then x else w - 1 - (x :: int))"
  using assms by (auto simp: in_image_def)

lemma flip_kernel_correct:
  assumes "gpu_ok g" "operands_ok dt i out" "image_size i = image_size out" "image_size out = (n, h, w)" "launchable (n, h, w) 32 8"
    and "sz = pixel_size out" "CreateTensorWrapNHW Int32 sz i = Inr src" "CreateTensorWrapNHW Int32 sz out = Inr dst"
  shows "\<exists>m'. runFlipKernel g sz src dst w h n code m = (Inr (), m')
    \<and> (\<forall>z y x. in_image (n, h, w) z y x \<longrightarrow> pixel out m' z y x = flip_outcome code i out m z y x)
    \<and> (\<forall>q. q \<notin> region_bytes out (n, h, w) \<longrightarrow> m' q = m q)"
proof -
  have o: "image_operand (DataSize dt) i" "image_operand (DataSize dt) out" "image_bytes i \<inter> image_bytes out = {}"
    using assms(2) by (simp_all add: operands_ok_def)
  have ps: "pixel_size i = sz"
    using operand_pixel_size [OF o(1)] operand_pixel_size [OF o(2)] assms(2,6) by (simp add: operands_ok_def)
  note s = operand_strides [OF o(2) assms(4)]
  have src: "wrap_ptr src [z, y, x] = pixel_addr i z y x" if "in_image (n, h, w) z y x" for z y x
    using wrap_NHW [OF o(1), of sz] ps that assms(3,4,7) by auto
  have dst: "wrap_ptr dst [z, y, x] = pixel_addr out z y x" if "in_image (n, h, w) z y x" for z y x
    using wrap_NHW [OF o(2), of sz] assms(4,6,8) that by auto
  let ?grid = "pixel_grid w h n (32, 8, 1)"
  define kern where "kern = (if code > 0 then flipHorizontal sz src dst w h (32, 8, 1)
    else if code = 0 then flipVertical sz src dst w h (32, 8, 1) else flipHorizontalVertical sz src dst w h (32, 8, 1))"
  have run: "runFlipKernel g sz src dst w h n code = launch g ?grid (32, 8, 1) kern"
    by (simp add: runFlipKernel_def Let_def kern_def)
  have k: "kern t m = Inr (if x < w \<and> y < h then store_bytes (pixel_addr out z y x) (flip_outcome code i out m z y x) m else m)"
    if t: "thread_pixel (32, 8, 1) t = (x, y, z)" "0 \<le> x" "0 \<le> y" "0 \<le> z" "z < n" "t \<in> set (all_threads ?grid (32, 8, 1))" for t m x y z
  proof -
    obtain bx "by" bz tx ty tz where tt: "t = ((bx, by, bz), (tx, ty, tz))" by (metis surj_pair)
    obtain gx gy gz where gg: "?grid = (gx, gy, gz)" by (metis surj_pair)
    have "tz = 0" using t(6) unfolding tt gg in_all_threads by simp
    then have c: "thread_index bx 32 tx = x" "thread_index by 8 ty = y" "wrap32 (int bz) = z"
      using thread_pixel_coords t(1,4) tt by blast+
    show ?thesis
    proof (cases "x < w \<and> y < h")
      case True
      then have im: "in_image (n, h, w) z y x" using t by (simp add: in_image_def)
      have w1: "wrap32 (w - 1 - x) = w - 1 - x" "wrap32 (h - 1 - y) = h - 1 - y" using True t s(4,6) by (intro int_small; simp)+
      have "load_bytes sz (wrap_ptr src [z, if code > 0 then y else h - 1 - y, if code = 0 then x else w - 1 - x]) m = flip_outcome code i out m z y x"
        unfolding src [OF flip_coords [OF im]] by (simp add: flip_outcome_def assms(4) pixel_def ps)
      then show ?thesis using True
        by (auto simp: kern_def flipHorizontal_def flipVertical_def flipHorizontalVertical_def tt c w1 dst [OF im])
    next
      case False
      then show ?thesis
        by (auto simp: kern_def flipHorizontal_def flipVertical_def flipHorizontalVertical_def tt c)
    qed
  qed
  show ?thesis unfolding run
  proof (rule launch_copies [OF assms(1) o(2) _ assms(5) o(3) k])
    show "inside_size (n, h, w) (image_size out)" by (simp add: inside_size_def assms(4))
    show "length (flip_outcome code i out m z y x) = pixel_size out" for m z y x
      using ps assms(6) by (simp add: flip_outcome_def assms(4))
    show "flip_outcome code i out m z y x = flip_outcome code i out m' z y x"
      if "in_image (n, h, w) z y x" "\<And>q. q \<in> image_bytes i \<Longrightarrow> m q = m' q" for m m' z y x
      unfolding flip_outcome_def assms(4) prod.case using flip_coords [OF that(1), of code] assms(3,4)
      by (intro pixel_cong [OF o(1) _ that(2)]) simp_all
  qed
qed

lemma flip_funcs_entry:
  assumes "dt = kCV_8U \<or> dt = kCV_16U \<or> dt = kCV_32S \<or> dt = kCV_32F" "0 < c" "c \<le> 4" "c \<noteq> 2"
  shows "table_entry flip_funcs (legacy_index dt) c = Inr (nat (c * int (DataSize dt)))"
proof -
  have "c = 1 \<or> c = 3 \<or> c = 4" using assms by linarith
  then show ?thesis using assms(1) by (elim disjE; simp add: table_entry_def flip_funcs_def eval_nat_numeral)
qed

lemma flip_run_correct:
  assumes "gpu_ok g" "flip_fits code i out"
  shows "\<exists>m'. Flip_infer g i out code m = (Inr SUCCESS, m')
    \<and> (\<forall>z y x. in_image (image_size out) z y x \<longrightarrow> pixel out m' z y x = flip_outcome code i out m z y x)
    \<and> (\<forall>q. q \<notin> region_bytes out (image_size out) \<longrightarrow> m' q = m q)"
proof -
  obtain dt where dt: "operands_ok dt i out" "dt = kCV_8U \<or> dt = kCV_16U \<or> dt = kCV_32S \<or> dt = kCV_32F"
    using assms(2) by (auto simp: flip_fits_def)
  obtain n h w where sz: "image_size out = (n, h, w)" by (metis surj_pair)
  have f: "label_extent i (CHR ''C'') \<noteq> 2" "labels (td_layout i) = labels (td_layout out)" "image_size i = image_size out"
    "launchable (n, h, w) 32 8" using assms(2) by (simp_all add: flip_fits_def sz [symmetric])
  have o: "image_operand (DataSize dt) i" "image_operand (DataSize dt) out" "GetLegacyDataType (td_dtype i) = Inr dt"
    "td_dtype out = td_dtype i" "label_extent i (CHR ''C'') \<le> 4" "label_extent out (CHR ''C'') = label_extent i (CHR ''C'')"
    using dt(1) by (simp_all add: operands_ok_def)
  obtain ai where ai: "require_access i = Inr ai" "numChannels ai = label_extent i (CHR ''C'')"
    using operand_access [OF o(1)] by metis
  obtain ao where ao: "require_access out = Inr ao" "(numSamples ao, numRows ao, numCols ao) = image_size out"
    using operand_access [OF o(2)] by metis
  have st: "0 < label_extent i (CHR ''C'')" using operand_strides(20) [OF o(2) sz] o(6) by simp
  have ps: "nat (label_extent i (CHR ''C'') * int (DataSize dt)) = pixel_size out"
    using operand_pixel_size [OF o(2)] o(6) by (metis nat_int)
  have psi: "pixel_size i = pixel_size out" using operand_pixel_size [OF o(1)] operand_pixel_size [OF o(2)] o(6) by simp
  obtain src where src: "CreateTensorWrapNHW Int32 (pixel_size out) i = Inr src" using wrap_NHW [OF o(1)] psi by metis
  obtain dst where dst: "CreateTensorWrapNHW Int32 (pixel_size out) out = Inr dst" using wrap_NHW [OF o(2)] by metis
  obtain si so where ms: "max_stride ai = Inr si" "si \<le> 2 ^ 31 - 1" "max_stride ao = Inr so" "so \<le> 2 ^ 31 - 1"
    using operand_max_stride [OF o(1) ai(1)] operand_max_stride [OF o(2) ao(1)] by blast
  obtain m' where m': "runFlipKernel g (pixel_size out) src dst w h n code m = (Inr (), m')"
    "\<forall>z y x. in_image (n, h, w) z y x \<longrightarrow> pixel out m' z y x = flip_outcome code i out m z y x"
    "\<forall>q. q \<notin> region_bytes out (n, h, w) \<longrightarrow> m' q = m q"
    using flip_kernel_correct [OF assms(1) dt(1) f(3) sz f(4) refl src dst] by blast
  have cnt: "numCols ao = w" "numRows ao = h" "numSamples ao = n" using ao(2) sz by simp_all
  have typed: "flip_typed g (pixel_size out) i out code m = (Inr SUCCESS, m')"
    using ms m'(1) by (simp add: flip_typed_def ai(1) ao(1) src dst cnt)
  have "Flip_infer g i out code m = (Inr SUCCESS, m')"
    using dt(2) typed flip_funcs_entry [OF dt(2) st o(5) f(1)] o(5)
    by (auto simp: Flip_infer_def operand_format [OF o(1)] operand_format [OF o(2)] f(2) o(3,4) ai ps)
  then show ?thesis using m'(2,3) sz by auto
qed

interpretation flip: image_operator "\<lambda>code g i out. Flip_infer g i out code" flip_fits "\<lambda>_. image_size" flip_outcome
proof
  fix code i out z y x and m m' :: memory
  assume f: "flip_fits code i out" and im: "in_image (image_size out) z y x" and eq: "\<And>q. q \<in> image_bytes i \<Longrightarrow> m q = m' q"
  obtain n h w where sz: "image_size out = (n, h, w)" by (metis surj_pair)
  obtain b where b: "image_operand b i" "image_size i = (n, h, w)" using f sz by (auto simp: flip_fits_def operands_ok_def)
  show "flip_outcome code i out m z y x = flip_outcome code i out m' z y x"
    unfolding flip_outcome_def sz prod.case using flip_coords [OF im [unfolded sz], of code] b(2)
    by (intro pixel_cong [OF b(1) _ eq]) simp_all
next
  fix code i out
  assume "flip_fits code i out"
  then show "(\<exists>b. image_operand b i) \<and> (\<exists>b. image_operand b out) \<and> image_bytes i \<inter> image_bytes out = {} \<and> inside_size (image_size out) (image_size out)"
    by (auto simp: flip_fits_def operands_ok_def inside_size_def split: prod.splits)
qed (rule flip_run_correct)

text \<open>
  Property C4: \<open>Flip\<close> flips. On two tensors of one shape, data type and layout that do not overlap,
  with 1, 3 or 4 channels of an accepted type and less than 2^24 rows and columns, the operator
  succeeds whatever the order of the threads: afterwards the pixel in row \<open>y\<close> and column \<open>x\<close> of each
  sample of the output is that of the input with the column mirrored (positive code), the row
  mirrored (code 0) or both (negative code), and no byte outside the pixels of the output has
  changed.
\<close>

theorem flip_correct:
  assumes "gpu_ok g" "flip_fits code i out" "image_size out = (n, h, w)"
  shows "\<exists>m'. Flip_infer g i out code m = (Inr SUCCESS, m')
    \<and> (\<forall>z y x. in_image (n, h, w) z y x \<longrightarrow>
         pixel out m' z y x = pixel i m z (if code > 0 then y else h - 1 - y) (if code = 0 then x else w - 1 - x))
    \<and> (\<forall>q. q \<notin> image_bytes out \<longrightarrow> m' q = m q)"
  using flip_run_correct [OF assms(1,2), of m] assms(3) by (simp add: flip_outcome_def image_bytes_def)

text \<open>A memory in which every byte is the end of its address.\<close>

definition sample_memory :: memory where
  "sample_memory q = ucast q"

text \<open>A device that runs the threads in order, and two tensors of two 4 x 5 images in RGB.\<close>

definition in_order :: gpu where
  "in_order = \<lparr>gpu_accepts = within_limits, gpu_order = all_threads\<rparr>"

lemma in_order_ok: "gpu_ok in_order"
proof -
  have d: "distinct (indices s)" for s
  proof -
    obtain x y z where s: "s = (x, y, z)" by (metis surj_pair)
    have "distinct (concat (map (\<lambda>k. concat (map (\<lambda>j. map (\<lambda>i. (i, j, k)) [0..<x]) [0..<y])) ks))" if "distinct ks" for ks :: "nat list"
      using that
    proof (induction ks)
      case (Cons k ks)
      have "distinct (concat (map (\<lambda>j. map (\<lambda>i. (i, j, k)) [0..<x]) js))" if "distinct js" for js :: "nat list"
        using that by (induction js) (auto simp: distinct_map inj_on_def)
      then show ?case using Cons by auto
    qed simp
    then show ?thesis by (simp add: indices_def s)
  qed
  have "distinct (concat (map (\<lambda>b. map (Pair b) ts) bs))" if "distinct bs" "distinct ts" for bs :: "dim3 list" and ts :: "dim3 list"
    using that by (induction bs) (auto simp: distinct_map inj_on_def)
  then show ?thesis using d by (simp add: gpu_ok_def in_order_def all_threads_def)
qed

lemma image_bytes_range:
  assumes "image_operand b td" "image_size td = (n, h, w)" "q \<in> image_bytes td"
  shows "uint (td_basePtr td) \<le> uint q \<and> uint q < uint (td_basePtr td) + (n - 1) * label_stride td (CHR ''N'') + h * label_stride td (CHR ''H'')"
proof -
  obtain z y x where i: "in_image (image_size td) z y x" "q \<in> byte_range (pixel_addr td z y x) (pixel_size td)"
    using assms(3) by (auto simp: image_bytes_def region_bytes_def)
  note u = pixel_addr_uint [OF assms(1) i(1)] and o = pixel_offset_bounds [OF assms(1) i(1) assms(2)]
  have "uint (pixel_addr td z y x) \<le> uint q" "uint q < uint (pixel_addr td z y x) + int (pixel_size td)"
    using i(2) byte_range_uint [OF u(2)] by blast+
  then show ?thesis using u(1) o(1,4) by linarith
qed

definition rgb_at :: "ptr \<Rightarrow> NVCVTensorData" where
  "rgb_at p = \<lparr>td_dtype = 171798626433, td_layout = NVCV_TENSOR_NHWC, td_rank = 4, td_shape = [2, 4, 5, 3] @ replicate 11 0,
     td_bufferType = NVCV_TENSOR_BUFFER_STRIDED_CUDA, td_strides = [128, 32, 3, 1] @ replicate 11 0, td_basePtr = p\<rparr>"

lemma rgb_at_labels:
  "label_extent (rgb_at p) (CHR ''N'') = 2" "label_extent (rgb_at p) (CHR ''H'') = 4" "label_extent (rgb_at p) (CHR ''W'') = 5"
  "label_extent (rgb_at p) (CHR ''C'') = 3" "label_stride (rgb_at p) (CHR ''N'') = 128" "label_stride (rgb_at p) (CHR ''H'') = 32"
  "label_stride (rgb_at p) (CHR ''W'') = 3" "labels (td_layout (rgb_at p)) = ''NHWC''"
  by (simp_all add: label_extent_def label_stride_def FindDimIndex_def rgb_at_def NVCV_TENSOR_NHWC_def LAYOUT_MAKE_def eval_nat_numeral
      labels_def)

lemma rgb_at_size: "image_size (rgb_at p) = (2, 4, 5)"
  by (simp add: image_size_def rgb_at_labels)

lemma rgb_at_operand:
  assumes "p \<noteq> 0" "uint p + 256 \<le> 2 ^ 64"
  shows "image_operand 1 (rgb_at p)"
proof -
  have "tensor_data_ok (rgb_at p)" "td_bufferType (rgb_at p) = NVCV_TENSOR_BUFFER_STRIDED_CUDA" "td_rank (rgb_at p) = tl_rank (td_layout (rgb_at p))"
    "td_basePtr (rgb_at p) = p"
    by (simp_all add: tensor_data_ok_def rgb_at_labels(8)) (simp_all add: rgb_at_def layout_ok_def NVCV_TENSOR_NHWC_def LAYOUT_MAKE_def)
  then show ?thesis using assms unfolding image_operand_def rgb_at_size by (simp add: rgb_at_labels)
qed

lemma rgb_at_type: "GetLegacyDataType 171798626433 = Inr kCV_8U"
  by code_simp

lemma rgb_at_operands:
  assumes "p \<noteq> 0" "uint p + 256 \<le> uint q" "uint q + 256 \<le> 2 ^ 64"
  shows "operands_ok kCV_8U (rgb_at p) (rgb_at q)"
proof -
  have q: "q \<noteq> 0" using assms(2) uint_ge_0 [of p] by (intro notI) simp
  have o: "image_operand 1 (rgb_at p)" "image_operand 1 (rgb_at q)" using assms q rgb_at_operand [of p] rgb_at_operand [of q] by simp_all
  have b: "td_basePtr (rgb_at r) = r" "td_dtype (rgb_at r) = 171798626433" for r by (simp_all add: rgb_at_def)
  have "image_bytes (rgb_at p) \<inter> image_bytes (rgb_at q) = {}"
    using image_bytes_range [OF o(1) rgb_at_size] image_bytes_range [OF o(2) rgb_at_size] assms(2)
    unfolding b rgb_at_labels by fastforce
  then show ?thesis using o by (simp add: operands_ok_def b rgb_at_type rgb_at_labels)
qed

lemma rgb_at_flip: "flip_fits code (rgb_at 4096) (rgb_at 8192)"
  using rgb_at_operands [of 4096 8192] by (auto simp: flip_fits_def rgb_at_labels rgb_at_size launchable_def)

theorem flip_correct_witness:
  "\<exists>m'. Flip_infer in_order (rgb_at 4096) (rgb_at 8192) (- 1) sample_memory = (Inr SUCCESS, m')
     \<and> pixel (rgb_at 8192) m' 1 0 1 = pixel (rgb_at 4096) sample_memory 1 3 3"
proof -
  have "in_image (2, 4, 5) 1 0 1" by (simp add: in_image_def)
  then show ?thesis
    using flip_correct [OF in_order_ok rgb_at_flip rgb_at_size, where m = sample_memory] by fastforce
qed

text \<open>
  Property C13: flipping twice gives the image back. Whatever the orders of the threads, flipping a
  tensor into a second one and that into a third one with the same code leaves in the third one
  the pixels of the first.
\<close>

theorem flip_twice:
  assumes "gpu_ok g" "gpu_ok g'" "flip_fits code a b" "flip_fits code b c" "in_image (image_size c) z y x"
  shows "\<exists>m1 m2. Flip_infer g a b code m = (Inr SUCCESS, m1) \<and> Flip_infer g' b c code m1 = (Inr SUCCESS, m2)
    \<and> pixel c m2 z y x = pixel a m z y x"
proof -
  obtain n h w where sz: "image_size c = (n, h, w)" by (metis surj_pair)
  then have szb: "image_size b = (n, h, w)" using assms(4) by (simp add: flip_fits_def)
  obtain m1 where m1: "Flip_infer g a b code m = (Inr SUCCESS, m1)"
    "\<And>z y x. in_image (n, h, w) z y x \<Longrightarrow> pixel b m1 z y x = flip_outcome code a b m z y x"
    using flip_run_correct [OF assms(1,3), of m] szb by auto
  obtain m2 where m2: "Flip_infer g' b c code m1 = (Inr SUCCESS, m2)"
    "\<And>z y x. in_image (n, h, w) z y x \<Longrightarrow> pixel c m2 z y x = flip_outcome code b c m1 z y x"
    using flip_run_correct [OF assms(2,4), of m1] sz by auto
  have im: "in_image (n, h, w) z y x" using assms(5) sz by simp
  show ?thesis using m1 m2(1) m2(2) [OF im] m1(2) [OF flip_coords [OF im, of code]]
    by (auto simp: flip_outcome_def sz szb split: if_splits)
qed

theorem flip_twice_witness:
  "\<exists>m1 m2. Flip_infer in_order (rgb_at 4096) (rgb_at 8192) 1 sample_memory = (Inr SUCCESS, m1)
     \<and> Flip_infer in_order (rgb_at 8192) (rgb_at 12288) 1 m1 = (Inr SUCCESS, m2)
     \<and> pixel (rgb_at 12288) m2 1 2 4 = pixel (rgb_at 4096) sample_memory 1 2 4"
proof -
  have f: "flip_fits 1 (rgb_at 8192) (rgb_at 12288)"
    using rgb_at_operands [of 8192 12288] by (auto simp: flip_fits_def rgb_at_labels rgb_at_size launchable_def)
  have "in_image (image_size (rgb_at 12288)) 1 2 4" by (simp add: in_image_def rgb_at_size)
  then show ?thesis using flip_twice [OF in_order_ok in_order_ok rgb_at_flip f] by blast
qed

section \<open>Crops\<close>

definition crop_outcome :: "int \<Rightarrow> int \<Rightarrow> NVCVTensorData \<Rightarrow> memory \<Rightarrow> int \<Rightarrow> int \<Rightarrow> int \<Rightarrow> 8 word list" where
  "crop_outcome sx sy i m z y x = pixel i m z (y + sy) (x + sx)"

text \<open>The window of the input that is copied, and the part of the output that it fills.\<close>

definition crop_window :: "int \<Rightarrow> int \<Rightarrow> int \<Rightarrow> int \<Rightarrow> NVCVTensorData \<Rightarrow> NVCVTensorData \<Rightarrow> bool" where
  "crop_window sx sy w h i out \<longleftrightarrow> 0 \<le> sx \<and> 0 \<le> sy
     \<and> (case image_size i of (n, hi, wi) \<Rightarrow> sy + h \<le> hi \<and> sx + w \<le> wi) \<and> (case image_size out of (n, ho, wo) \<Rightarrow> h \<le> ho \<and> w \<le> wo)"

lemma crop_local:
  assumes "image_operand b i" "image_size i = (n, hi, wi)" "crop_window sx sy w h i out" "in_image (n, h, w) z y x"
    and "\<And>q. q \<in> image_bytes i \<Longrightarrow> m q = m' q"
  shows "in_image (image_size i) z (y + sy) (x + sx)" "crop_outcome sx sy i m z y x = crop_outcome sx sy i m' z y x"
proof -
  show im: "in_image (image_size i) z (y + sy) (x + sx)" using assms(2,3,4) by (auto simp: crop_window_def in_image_def)
  show "crop_outcome sx sy i m z y x = crop_outcome sx sy i m' z y x"
    unfolding crop_outcome_def by (rule pixel_cong [OF assms(1) im assms(5)])
qed

lemma crop_kernel_correct:
  assumes "gpu_ok g" "operands_ok dt i out" "image_size i = (n, hi, wi)" "crop_window sx sy w h i out" "launchable (n, h, w) bw bh"
    and "sz = pixel_size out" "CreateTensorWrapNHW Int32 sz i = Inr src" "CreateTensorWrapNHW Int32 sz out = Inr dst"
    and k: "\<And>bx by bz tx ty tz m. kern ((bx, by, bz), (tx, ty, tz)) m =
      (let x = thread_index bx bw tx; y = thread_index by bh ty; z = wrap32 (int bz) in
       Inr (if x < w \<and> y < h then store_bytes (wrap_ptr dst [z, y, x]) (load_bytes sz (wrap_ptr src [z, wrap32 (y + sy), wrap32 (x + sx)]) m) m
            else m))"
  shows "\<exists>m'. launch g (pixel_grid w h n (bw, bh, 1)) (bw, bh, 1) kern m = (Inr (), m')
    \<and> (\<forall>z y x. in_image (n, h, w) z y x \<longrightarrow> pixel out m' z y x = crop_outcome sx sy i m z y x)
    \<and> (\<forall>q. q \<notin> region_bytes out (n, h, w) \<longrightarrow> m' q = m q)"
proof -
  have o: "image_operand (DataSize dt) i" "image_operand (DataSize dt) out" "image_bytes i \<inter> image_bytes out = {}"
    using assms(2) by (simp_all add: operands_ok_def)
  have ps: "pixel_size i = sz"
    using operand_pixel_size [OF o(1)] operand_pixel_size [OF o(2)] assms(2,6) by (simp add: operands_ok_def)
  have inside: "inside_size (n, h, w) (image_size out)"
    using assms(2,3,4) by (auto simp: inside_size_def operands_ok_def crop_window_def image_size_def)
  note s = operand_strides [OF o(1) assms(3)]
  let ?grid = "pixel_grid w h n (bw, bh, 1)"
  have kk: "kern t m = Inr (if x < w \<and> y < h then store_bytes (pixel_addr out z y x) (crop_outcome sx sy i m z y x) m else m)"
    if t: "thread_pixel (bw, bh, 1) t = (x, y, z)" "0 \<le> x" "0 \<le> y" "0 \<le> z" "z < n" "t \<in> set (all_threads ?grid (bw, bh, 1))" for t m x y z
  proof -
    obtain bx "by" bz tx ty tz where tt: "t = ((bx, by, bz), (tx, ty, tz))" by (metis surj_pair)
    obtain gx gy gz where gg: "?grid = (gx, gy, gz)" by (metis surj_pair)
    have "tz = 0" using t(6) unfolding tt gg in_all_threads by simp
    then have c: "thread_index bx bw tx = x" "thread_index by bh ty = y" "wrap32 (int bz) = z"
      using thread_pixel_coords t(1,4) tt by blast+
    show ?thesis
    proof (cases "x < w \<and> y < h")
      case True
      then have im: "in_image (n, h, w) z y x" using t by (simp add: in_image_def)
      have ii: "in_image (image_size i) z (y + sy) (x + sx)" by (rule crop_local(1) [OF o(1) assms(3,4) im refl])
      then have "wrap32 (y + sy) = y + sy" "wrap32 (x + sx) = x + sx" using s(4,6) unfolding assms(3) in_image_def by (intro int_small; simp)+
      moreover have "wrap_ptr src [z, y + sy, x + sx] = pixel_addr i z (y + sy) (x + sx)"
        using wrap_NHW [OF o(1), of sz] ps ii assms(7) by auto
      moreover have "wrap_ptr dst [z, y, x] = pixel_addr out z y x"
        using wrap_NHW [OF o(2) assms(6)] in_image_mono [OF inside im] assms(8) by auto
      ultimately show ?thesis using True by (simp add: tt k c crop_outcome_def pixel_def ps Let_def)
    next
      case False
      then show ?thesis by (auto simp: tt k c Let_def)
    qed
  qed
  show ?thesis
    by (rule launch_copies [OF assms(1) o(2) inside assms(5) o(3) kk]; (rule crop_local(2) [OF o(1) assms(3,4)])?)
      (simp_all add: crop_outcome_def ps assms(6))
qed

lemma crop_table:
  assumes "0 < c" "c \<le> 4"
  shows "table_entry crop_funcs (DataSize dt div 2) c = Inr (nat (c * int (DataSize dt)))"
    "table_entry (take 5 crop_funcs) (DataSize dt div 2) c = Inr (nat (c * int (DataSize dt)))"
proof -
  have c: "c = 1 \<or> c = 2 \<or> c = 3 \<or> c = 4" using assms by linarith
  then show "table_entry crop_funcs (DataSize dt div 2) c = Inr (nat (c * int (DataSize dt)))"
    by (cases dt) (elim disjE; simp add: table_entry_def crop_funcs_def)+
  show "table_entry (take 5 crop_funcs) (DataSize dt div 2) c = Inr (nat (c * int (DataSize dt)))" using c
    by (cases dt) (elim disjE; simp add: table_entry_def crop_funcs_def)+
qed

text \<open>What every operator finds out about its operands.\<close>

lemma operands_accessed:
  assumes "operands_ok dt i out" "image_size i = (n, hi, wi)" "image_size out = (n', ho, wo)"
  obtains ai ao src dst si so where "Access_Create i = Inr (Some ai)" "require_access i = Inr ai" "Access_Create out = Inr (Some ao)"
    "require_access out = Inr ao" "numSamples ai = n" "numRows ai = hi" "numCols ai = wi" "numSamples ao = n" "numRows ao = ho" "numCols ao = wo"
    "numChannels ai = label_extent i (CHR ''C'')" "max_stride ai = Inr si" "si \<le> 2 ^ 31 - 1" "max_stride ao = Inr so" "so \<le> 2 ^ 31 - 1"
    "CreateTensorWrapNHW Int32 (pixel_size out) i = Inr src" "CreateTensorWrapNHW Int32 (pixel_size out) out = Inr dst"
    "nat (label_extent i (CHR ''C'') * int (DataSize dt)) = pixel_size out" "0 < label_extent i (CHR ''C'')" "label_extent i (CHR ''C'') \<le> 4"
proof -
  have o: "image_operand (DataSize dt) i" "image_operand (DataSize dt) out" "label_extent i (CHR ''C'') \<le> 4"
    "label_extent out (CHR ''C'') = label_extent i (CHR ''C'')" "n' = n"
    using assms by (simp_all add: operands_ok_def image_size_def)
  obtain ai where ai: "Access_Create i = Inr (Some ai)" "require_access i = Inr ai" "(numSamples ai, numRows ai, numCols ai) = image_size i"
    "numChannels ai = label_extent i (CHR ''C'')" using operand_access [OF o(1)] by metis
  obtain ao where ao: "Access_Create out = Inr (Some ao)" "require_access out = Inr ao" "(numSamples ao, numRows ao, numCols ao) = image_size out"
    using operand_access [OF o(2)] by metis
  have c: "0 < label_extent i (CHR ''C'')" using operand_strides(20) [OF o(1) assms(2)] .
  have ps: "nat (label_extent i (CHR ''C'') * int (DataSize dt)) = pixel_size out" "pixel_size i = pixel_size out"
    using operand_pixel_size [OF o(1)] operand_pixel_size [OF o(2)] o(4) by (metis nat_int, simp)
  obtain src where src: "CreateTensorWrapNHW Int32 (pixel_size out) i = Inr src" using wrap_NHW [OF o(1)] ps(2) by metis
  obtain dst where dst: "CreateTensorWrapNHW Int32 (pixel_size out) out = Inr dst" using wrap_NHW [OF o(2)] by metis
  obtain si so where ms: "max_stride ai = Inr si" "si \<le> 2 ^ 31 - 1" "max_stride ao = Inr so" "so \<le> 2 ^ 31 - 1"
    using operand_max_stride [OF o(1) ai(2)] operand_max_stride [OF o(2) ao(2)] by blast
  show ?thesis
    by (rule that [OF ai(1,2) ao(1,2) _ _ _ _ _ _ ai(4) ms src dst ps(1) c o(3)]) (use ai(3) ao(3) assms(2,3) o(5) in simp_all)
qed

definition custom_crop_fits :: "NVCVRectI \<Rightarrow> NVCVTensorData \<Rightarrow> NVCVTensorData \<Rightarrow> bool" where
  "custom_crop_fits roi i out \<longleftrightarrow> (\<exists>dt. operands_ok dt i out)
     \<and> crop_window (roi_x roi) (roi_y roi) (roi_width roi) (roi_height roi) i out
     \<and> launchable (label_extent i (CHR ''N''), roi_height roi, roi_width roi) 16 16"

definition custom_crop_region :: "NVCVRectI \<Rightarrow> NVCVTensorData \<Rightarrow> int \<times> int \<times> int" where
  "custom_crop_region roi out = (label_extent out (CHR ''N''), roi_height roi, roi_width roi)"

definition custom_crop_outcome :: "NVCVRectI \<Rightarrow> NVCVTensorData \<Rightarrow> NVCVTensorData \<Rightarrow> memory \<Rightarrow> int \<Rightarrow> int \<Rightarrow> int \<Rightarrow> 8 word list" where
  "custom_crop_outcome roi i out = crop_outcome (roi_x roi) (roi_y roi) i"

lemma if_flip: "\<not> c \<longleftrightarrow> c' \<Longrightarrow> (if c then a else b) = (if c' then b else a)"
  by auto

lemma custom_crop_run_correct:
  assumes "gpu_ok g" "custom_crop_fits roi i out"
  shows "\<exists>m'. CustomCrop_infer g i out roi m = (Inr SUCCESS, m')
    \<and> (\<forall>z y x. in_image (custom_crop_region roi out) z y x \<longrightarrow> pixel out m' z y x = custom_crop_outcome roi i out m z y x)
    \<and> (\<forall>q. q \<notin> region_bytes out (custom_crop_region roi out) \<longrightarrow> m' q = m q)"
proof -
  obtain dt where dt: "operands_ok dt i out" using assms(2) by (auto simp: custom_crop_fits_def)
  obtain n hi wi where sz: "image_size i = (n, hi, wi)" by (metis surj_pair)
  obtain n' ho wo where so: "image_size out = (n', ho, wo)" by (metis surj_pair)
  have nn: "label_extent i (CHR ''N'') = n" "n' = n" "label_extent out (CHR ''N'') = n"
    using dt sz so by (simp_all add: operands_ok_def image_size_def)
  let ?h = "roi_height roi" and ?w = "roi_width roi" and ?sx = "roi_x roi" and ?sy = "roi_y roi"
  have win: "crop_window ?sx ?sy ?w ?h i out" and la: "launchable (n, ?h, ?w) 16 16"
    using assms(2) by (simp_all add: custom_crop_fits_def nn)
  have o: "image_operand (DataSize dt) i" "image_operand (DataSize dt) out" "GetLegacyDataType (td_dtype i) = Inr dt" "td_dtype out = td_dtype i"
    using dt by (simp_all add: operands_ok_def)
  note s = operand_strides [OF o(1) sz]
  obtain ai ao src dst si so' where A: "Access_Create i = Inr (Some ai)" "require_access i = Inr ai" "Access_Create out = Inr (Some ao)"
    "require_access out = Inr ao" "numSamples ai = n" "numRows ai = hi" "numCols ai = wi" "numSamples ao = n" "numRows ao = ho" "numCols ao = wo"
    "numChannels ai = label_extent i (CHR ''C'')" "max_stride ai = Inr si" "si \<le> 2 ^ 31 - 1" "max_stride ao = Inr so'" "so' \<le> 2 ^ 31 - 1"
    "CreateTensorWrapNHW Int32 (pixel_size out) i = Inr src" "CreateTensorWrapNHW Int32 (pixel_size out) out = Inr dst"
    "nat (label_extent i (CHR ''C'') * int (DataSize dt)) = pixel_size out" "0 < label_extent i (CHR ''C'')" "label_extent i (CHR ''C'') \<le> 4"
    by (rule operands_accessed [OF dt sz so])
  have W: "0 \<le> ?sx" "0 \<le> ?sy" "?sy + ?h \<le> hi" "?sx + ?w \<le> wi" "?h \<le> ho" "?w \<le> wo" "0 < ?w" "0 < ?h"
    using win la by (simp_all add: crop_window_def sz so launchable_def)
  have kern: "custom_crop_kernel (pixel_size out) src dst ?sx ?sy ?w ?h (16, 16, 1) ((bx, by, bz), (tx, ty, tz)) m =
      (let x = thread_index bx 16 tx; y = thread_index by 16 ty; z = wrap32 (int bz) in
       Inr (if x < ?w \<and> y < ?h then store_bytes (wrap_ptr dst [z, y, x])
              (load_bytes (pixel_size out) (wrap_ptr src [z, wrap32 (y + ?sy), wrap32 (x + ?sx)]) m) m else m))" for bx "by" bz tx ty tz m
    unfolding custom_crop_kernel_def prod.case Let_def by (rule arg_cong [where f = Inr], rule if_flip, simp add: not_le)
  obtain m' where m': "launch g (pixel_grid ?w ?h n (16, 16, 1)) (16, 16, 1) (custom_crop_kernel (pixel_size out) src dst ?sx ?sy ?w ?h (16, 16, 1)) m
      = (Inr (), m')"
    "\<forall>z y x. in_image (n, ?h, ?w) z y x \<longrightarrow> pixel out m' z y x = crop_outcome ?sx ?sy i m z y x"
    "\<forall>q. q \<notin> region_bytes out (n, ?h, ?w) \<longrightarrow> m' q = m q"
    using crop_kernel_correct [OF assms(1) dt sz win la refl A(16,17) kern, of m] by blast
  have crop: "customCrop g (pixel_size out) i out roi m = (Inr SUCCESS, m')"
    using m'(1) A(13,15) by (simp add: customCrop_def A(2,4,8,12,14,16,17) nn(2) Let_def del: One_nat_def)
  have ends: "wrap32 (?sx + ?w - 1) = ?sx + ?w - 1" "wrap32 (?sy + ?h - 1) = ?sy + ?h - 1" using W s(4,6) by (intro int_small; simp)+
  have "CustomCrop_infer g i out roi m = (Inr SUCCESS, m')"
    using crop W crop_table(1) [OF A(19,20), of dt] A(19,20)
    by (simp add: CustomCrop_infer_def operand_format [OF o(1)] operand_format [OF o(2)] o(3,4) A(1,3,6,7,9,10,11,18) ends)
  then show ?thesis using m'(2,3) by (simp add: custom_crop_region_def custom_crop_outcome_def nn)
qed

lemma crop_operands:
  assumes "operands_ok dt i out" "crop_window sx sy w h i out"
  shows "(\<exists>b. image_operand b i) \<and> (\<exists>b. image_operand b out) \<and> image_bytes i \<inter> image_bytes out = {}
    \<and> inside_size (label_extent out (CHR ''N''), h, w) (image_size out)"
  using assms by (auto simp: operands_ok_def crop_window_def inside_size_def image_size_def)

lemma crop_outcome_local:
  assumes "operands_ok dt i out" "crop_window sx sy w h i out" "in_image (label_extent out (CHR ''N''), h, w) z y x"
    and "\<And>q. q \<in> image_bytes i \<Longrightarrow> m q = m' q"
  shows "crop_outcome sx sy i m z y x = crop_outcome sx sy i m' z y x"
proof -
  obtain n hi wi where sz: "image_size i = (n, hi, wi)" by (metis surj_pair)
  then have "label_extent out (CHR ''N'') = n" using assms(1) by (simp add: operands_ok_def image_size_def)
  moreover have "image_operand (DataSize dt) i" using assms(1) by (simp add: operands_ok_def)
  ultimately show ?thesis using assms(3) by (intro crop_local(2) [OF _ sz assms(2) _ assms(4)]) simp_all
qed

interpretation custom_crop: image_operator "\<lambda>roi g i out. CustomCrop_infer g i out roi" custom_crop_fits custom_crop_region custom_crop_outcome
proof
  fix roi i out z y x and m m' :: memory
  assume f: "custom_crop_fits roi i out" and im: "in_image (custom_crop_region roi out) z y x" and eq: "\<And>q. q \<in> image_bytes i \<Longrightarrow> m q = m' q"
  obtain dt where "operands_ok dt i out" using f by (auto simp: custom_crop_fits_def)
  moreover have "crop_window (roi_x roi) (roi_y roi) (roi_width roi) (roi_height roi) i out" using f by (simp add: custom_crop_fits_def)
  ultimately show "custom_crop_outcome roi i out m z y x = custom_crop_outcome roi i out m' z y x"
    unfolding custom_crop_outcome_def by (rule crop_outcome_local [OF _ _ im [unfolded custom_crop_region_def] eq])
next
  fix roi i out
  assume f: "custom_crop_fits roi i out"
  obtain dt where "operands_ok dt i out" using f by (auto simp: custom_crop_fits_def)
  moreover have "crop_window (roi_x roi) (roi_y roi) (roi_width roi) (roi_height roi) i out" using f by (simp add: custom_crop_fits_def)
  ultimately show "(\<exists>b. image_operand b i) \<and> (\<exists>b. image_operand b out) \<and> image_bytes i \<inter> image_bytes out = {}
      \<and> inside_size (custom_crop_region roi out) (image_size out)"
    unfolding custom_crop_region_def by (rule crop_operands)
qed (rule custom_crop_run_correct)

definition center_crop_start :: "int \<Rightarrow> int \<Rightarrow> int" where
  "center_crop_start extent crop = (extent - crop) div 2"

text \<open>The parameters of \<open>CenterCrop\<close> are the rows and columns of the crop.\<close>

definition center_crop_fits :: "int \<times> int \<Rightarrow> NVCVTensorData \<Rightarrow> NVCVTensorData \<Rightarrow> bool" where
  "center_crop_fits p i out = (case p of (rows, cols) \<Rightarrow> case image_size i of (n, h, w) \<Rightarrow>
     (\<exists>dt. operands_ok dt i out) \<and> crop_window (center_crop_start w cols) (center_crop_start h rows) cols rows i out
   \<and> launchable (n, rows, cols) 32 8)"

definition center_crop_region :: "int \<times> int \<Rightarrow> NVCVTensorData \<Rightarrow> int \<times> int \<times> int" where
  "center_crop_region p out = (label_extent out (CHR ''N''), fst p, snd p)"

definition center_crop_outcome :: "int \<times> int \<Rightarrow> NVCVTensorData \<Rightarrow> NVCVTensorData \<Rightarrow> memory \<Rightarrow> int \<Rightarrow> int \<Rightarrow> int \<Rightarrow> 8 word list" where
  "center_crop_outcome p i out = (case image_size i of (n, h, w) \<Rightarrow>
     crop_outcome (center_crop_start w (snd p)) (center_crop_start h (fst p)) i)"

lemma half_nonneg: "0 \<le> (a :: int) \<Longrightarrow> a sdiv 2 = a div 2"
  by (cases "a = 0") (simp_all add: signed_divide_int_def)

lemma center_crop_run_correct:
  assumes "gpu_ok g" "center_crop_fits p i out"
  shows "\<exists>m'. CenterCrop_infer g i out (fst p) (snd p) m = (Inr SUCCESS, m')
    \<and> (\<forall>z y x. in_image (center_crop_region p out) z y x \<longrightarrow> pixel out m' z y x = center_crop_outcome p i out m z y x)
    \<and> (\<forall>q. q \<notin> region_bytes out (center_crop_region p out) \<longrightarrow> m' q = m q)"
proof -
  obtain h w where p: "p = (h, w)" by (metis surj_pair)
  obtain n hi wi where sz: "image_size i = (n, hi, wi)" by (metis surj_pair)
  obtain n' ho wo where so: "image_size out = (n', ho, wo)" by (metis surj_pair)
  let ?sx = "center_crop_start wi w" and ?sy = "center_crop_start hi h"
  obtain dt where dt: "operands_ok dt i out" and win: "crop_window ?sx ?sy w h i out" and la: "launchable (n, h, w) 32 8"
    using assms(2) by (auto simp: center_crop_fits_def p sz)
  have nn: "label_extent i (CHR ''N'') = n" "n' = n" "label_extent out (CHR ''N'') = n"
    using dt sz so by (simp_all add: operands_ok_def image_size_def)
  have o: "image_operand (DataSize dt) i" "image_operand (DataSize dt) out" "GetLegacyDataType (td_dtype i) = Inr dt" "td_dtype out = td_dtype i"
    using dt by (simp_all add: operands_ok_def)
  note s = operand_strides [OF o(1) sz]
  obtain ai ao src dst si so' where A: "Access_Create i = Inr (Some ai)" "require_access i = Inr ai" "Access_Create out = Inr (Some ao)"
    "require_access out = Inr ao" "numSamples ai = n" "numRows ai = hi" "numCols ai = wi" "numSamples ao = n" "numRows ao = ho" "numCols ao = wo"
    "numChannels ai = label_extent i (CHR ''C'')" "max_stride ai = Inr si" "si \<le> 2 ^ 31 - 1" "max_stride ao = Inr so'" "so' \<le> 2 ^ 31 - 1"
    "CreateTensorWrapNHW Int32 (pixel_size out) i = Inr src" "CreateTensorWrapNHW Int32 (pixel_size out) out = Inr dst"
    "nat (label_extent i (CHR ''C'') * int (DataSize dt)) = pixel_size out" "0 < label_extent i (CHR ''C'')" "label_extent i (CHR ''C'') \<le> 4"
    by (rule operands_accessed [OF dt sz so])
  have W: "0 \<le> ?sx" "0 \<le> ?sy" "?sy + h \<le> hi" "?sx + w \<le> wi" "h \<le> ho" "w \<le> wo" "0 < w" "0 < h"
    using win la by (simp_all add: crop_window_def sz so launchable_def)
  have start: "wrap32 (hi - h) sdiv 2 = ?sy" "wrap32 (wi - w) sdiv 2 = ?sx"
    using W s(4,6) by (simp_all add: center_crop_start_def half_nonneg)
  have kern: "center_crop_kernel_nhwc (pixel_size out) src dst ?sx ?sy h w (32, 8, 1) ((bx, by, bz), (tx, ty, tz)) m =
      (let x = thread_index bx 32 tx; y = thread_index by 8 ty; z = wrap32 (int bz) in
       Inr (if x < w \<and> y < h then store_bytes (wrap_ptr dst [z, y, x])
              (load_bytes (pixel_size out) (wrap_ptr src [z, wrap32 (y + ?sy), wrap32 (x + ?sx)]) m) m else m))" for bx "by" bz tx ty tz m
    unfolding center_crop_kernel_nhwc_def prod.case Let_def ..
  obtain m' where m': "launch g (pixel_grid w h n (32, 8, 1)) (32, 8, 1) (center_crop_kernel_nhwc (pixel_size out) src dst ?sx ?sy h w (32, 8, 1)) m
      = (Inr (), m')"
    "\<forall>z y x. in_image (n, h, w) z y x \<longrightarrow> pixel out m' z y x = crop_outcome ?sx ?sy i m z y x"
    "\<forall>q. q \<notin> region_bytes out (n, h, w) \<longrightarrow> m' q = m q"
    using crop_kernel_correct [OF assms(1) dt sz win la refl A(16,17) kern, of m] by blast
  have crop: "center_crop g (pixel_size out) i out h w n hi wi m = (Inr (), m')"
    using m'(1) by (simp add: center_crop_def A(16,17) start Let_def del: One_nat_def)
  have "CenterCrop_infer g i out h w m = (Inr SUCCESS, m')"
    using crop W crop_table(2) [OF A(19,20), of dt] A(13,15,19,20)
    by (simp add: CenterCrop_infer_def operand_format [OF o(1)] operand_format [OF o(2)] o(3,4) A(1,3,5-12,14,18) nn)
  then show ?thesis using m'(2,3) by (simp add: center_crop_region_def center_crop_outcome_def nn p sz)
qed

interpretation center_crop: image_operator "\<lambda>p g i out. CenterCrop_infer g i out (fst p) (snd p)" center_crop_fits center_crop_region center_crop_outcome
proof
  fix p i out z y x and m m' :: memory
  assume f: "center_crop_fits p i out" and im: "in_image (center_crop_region p out) z y x" and eq: "\<And>q. q \<in> image_bytes i \<Longrightarrow> m q = m' q"
  obtain n h w where sz: "image_size i = (n, h, w)" by (metis surj_pair)
  obtain dt where "operands_ok dt i out" "crop_window (center_crop_start w (snd p)) (center_crop_start h (fst p)) (snd p) (fst p) i out"
    using f by (auto simp: center_crop_fits_def sz split: prod.splits)
  then show "center_crop_outcome p i out m z y x = center_crop_outcome p i out m' z y x"
    unfolding center_crop_outcome_def sz prod.case by (rule crop_outcome_local [OF _ _ im [unfolded center_crop_region_def] eq])
next
  fix p i out
  assume f: "center_crop_fits p i out"
  obtain n h w where sz: "image_size i = (n, h, w)" by (metis surj_pair)
  obtain dt where "operands_ok dt i out" "crop_window (center_crop_start w (snd p)) (center_crop_start h (fst p)) (snd p) (fst p) i out"
    using f by (auto simp: center_crop_fits_def sz split: prod.splits)
  then show "(\<exists>b. image_operand b i) \<and> (\<exists>b. image_operand b out) \<and> image_bytes i \<inter> image_bytes out = {}
      \<and> inside_size (center_crop_region p out) (image_size out)"
    unfolding center_crop_region_def by (rule crop_operands)
qed (rule center_crop_run_correct)

end
