(* ===== verification/Border_Operator.thy ===== *)
theory Border_Operator
  imports Operator_Correctness
begin

text \<open>
  What \<open>CopyMakeBorder\<close> computes: reading through a border wrap gives the border value or the pixel
  that the border type stands for, and the operator keeps the contract of \<open>image_operator\<close>. The
  theory closes with what the contract gives for all operators.
\<close>

section \<open>Reading through a border\<close>

text \<open>The pixel at any coordinates, as a border of type \<open>B\<close> continues the image.\<close>

definition border_pixel :: "NVCVBorderType \<Rightarrow> 8 word list \<Rightarrow> NVCVTensorData \<Rightarrow> memory \<Rightarrow> int \<Rightarrow> int \<Rightarrow> int \<Rightarrow> 8 word list" where
  "border_pixel B bvalue i m z y x = (case image_size i of (n, h, w) \<Rightarrow>
     if B = NVCV_BORDER_CONSTANT \<and> \<not> in_image (n, h, w) z y x then bvalue
     else pixel i m z (border_spec B h y) (border_spec B w x))"

lemma wrap_reads_border:
  assumes "image_operand b i" "image_size i = (n, h, w)" "sz = pixel_size i" "4 * h \<le> 2 ^ 31" "4 * w \<le> 2 ^ 31"
  shows "\<exists>bw. CreateBorderWrapNHW Int32 B sz i = Inr bw
    \<and> (\<forall>z y x m. 0 \<le> z \<longrightarrow> z < n \<longrightarrow> wrap32 y = y \<longrightarrow> wrap32 x = x \<longrightarrow>
         border_read bw bvalue sz [z, y, x] m = Inr (border_pixel B bvalue i m z y x))"
proof -
  note s = operand_strides [OF assms(1,2)]
  obtain a where a: "require_access i = Inr a" "numRows a = h" "numCols a = w"
    using operand_access [OF assms(1)] assms(2) by (metis Pair_inject)
  obtain wr where wr: "CreateTensorWrapNHW Int32 sz i = Inr wr"
    "\<And>z y x. in_image (n, h, w) z y x \<Longrightarrow> wrap_ptr wr [z, y, x] = pixel_addr i z y x"
    using wrap_NHW [OF assms(1,3)] assms(2) by auto
  define bw where "bw = \<lparr>bw_tensorWrap = wr, bw_borderType = B, bw_active = [False, True, True], bw_shape = [h, w]\<rparr>"
  have c: "CreateBorderWrapNHW Int32 B sz i = Inr bw"
    using s(4,6) s(3,5) by (simp add: CreateBorderWrapNHW_def a wr(1) bw_def)
  have ty: "tw_type wr = Int32"
    using wr(1) by (auto simp: CreateTensorWrapNHW_def TensorWrapT_strides_def result_simps)
  have km: "kMap [False, True, True] 1 = 0" "kMap [False, True, True] 2 = 1" by (simp_all add: kMap_def)
  have "border_read bw bvalue sz [z, y, x] m = Inr (border_pixel B bvalue i m z y x)"
    if z: "0 \<le> z" "z < n" "wrap32 y = y" "wrap32 x = x" for z y x m
  proof -
    have zz: "wrap32 z = z" using z s(2) by simp
    show ?thesis
    proof (cases "B = NVCV_BORDER_CONSTANT")
      case True
      have l: "[0..<length [z, y, x]] = [0, 1, 2]" by (simp add: upt_rec)
      have out: "list_ex (\<lambda>k. IsOutside (bw_active bw ! k) (to_stride (tw_type (bw_tensorWrap bw)) ([z, y, x] ! k)) (bw_shape bw ! kMap (bw_active bw) k))
          [0..<length [z, y, x]] \<longleftrightarrow> \<not> in_image (n, h, w) z y x"
        unfolding l using z by (auto simp: bw_def ty IsOutside_def km [unfolded One_nat_def] in_image_def)
      have "border_ptr bw [z, y, x] = Inr (if in_image (n, h, w) z y x then pixel_addr i z y x else 0)"
        unfolding border_ptr_def out using True wr(2) by (simp add: bw_def)
      then show ?thesis
        using True pixel_addr_uint(3) [OF assms(1), of z y x] assms(2,3) by (auto simp: border_read_def bw_def border_pixel_def pixel_def)
    next
      case False
      have idx: "GetIndexWithBorder Int32 B True y h = Inr (border_spec B h y)" "GetIndexWithBorder Int32 B True x w = Inr (border_spec B w x)"
        "GetIndexWithBorder Int32 B False z k = Inr z" for k
        using border_index_spec [OF s(3) _ False, of Int32 y] border_index_spec [OF s(5) _ False, of Int32 x] assms(4,5) False
        by (simp_all add: GetIndexWithBorder_def)
      have "border_coords bw 0 [z, y, x] = Inr [z, border_spec B h y, border_spec B w x]"
        using idx z zz km by (simp add: bw_def ty Let_def numeral_2_eq_2)
      moreover have "in_image (n, h, w) z (border_spec B h y) (border_spec B w x)"
        using border_spec_range [OF s(3) False, of y] border_spec_range [OF s(5) False, of x] z by (simp add: in_image_def)
      ultimately have "border_ptr bw [z, y, x] = Inr (pixel_addr i z (border_spec B h y) (border_spec B w x))"
        using False wr(2) by (simp add: border_ptr_def bw_def)
      then show ?thesis using False assms(2,3) by (simp add: border_read_def bw_def border_pixel_def pixel_def)
    qed
  qed
  then show ?thesis using c by blast
qed

section \<open>CopyMakeBorder\<close>

record border_params =
  bp_type :: NVCVBorderType
  bp_top :: int
  bp_left :: int
  bp_value :: "LegacyDataType \<Rightarrow> int \<Rightarrow> 8 word list"

definition border_value :: "border_params \<Rightarrow> NVCVTensorData \<Rightarrow> 8 word list" where
  "border_value p i = (case GetLegacyDataType (td_dtype i) of Inr dt \<Rightarrow> bp_value p dt (label_extent i (CHR ''C'')) | Inl _ \<Rightarrow> [])"

definition border_fits :: "border_params \<Rightarrow> NVCVTensorData \<Rightarrow> NVCVTensorData \<Rightarrow> bool" where
  "border_fits p i out \<longleftrightarrow>
     (\<exists>dt. operands_ok dt i out \<and> (dt = kCV_8U \<or> (dt = kCV_16U \<or> dt = kCV_16S \<or> dt = kCV_32F) \<and> label_extent i (CHR ''C'') \<noteq> 2))
   \<and> labels (td_layout i) = labels (td_layout out) \<and> length (border_value p i) = pixel_size out
   \<and> (case (image_size i, image_size out) of ((n, h, w), (n', h', w')) \<Rightarrow>
        0 \<le> bp_top p \<and> bp_top p + h \<le> h' \<and> 0 \<le> bp_left p \<and> bp_left p + w \<le> w' \<and> 4 * h \<le> 2 ^ 31 \<and> 4 * w \<le> 2 ^ 31)
   \<and> launchable (image_size out) 32 8"

definition border_outcome :: "border_params \<Rightarrow> NVCVTensorData \<Rightarrow> NVCVTensorData \<Rightarrow> memory \<Rightarrow> int \<Rightarrow> int \<Rightarrow> int \<Rightarrow> 8 word list" where
  "border_outcome p i out m z y x = border_pixel (bp_type p) (border_value p i) i m z (y - bp_top p) (x - bp_left p)"

definition border_run :: "border_params \<Rightarrow> gpu \<Rightarrow> NVCVTensorData \<Rightarrow> NVCVTensorData \<Rightarrow> (ErrorCode, memory) st" where
  "border_run p g i out = CopyMakeBorder_infer g i out (bp_top p) (bp_left p) (Some (bp_type p)) (bp_value p)"

lemma border_pixel_local:
  assumes "image_operand b i" "image_size i = (n, h, w)" "0 \<le> z" "z < n" "\<And>q. q \<in> image_bytes i \<Longrightarrow> m q = m' q"
  shows "border_pixel B v i m z y x = border_pixel B v i m' z y x"
proof -
  note s = operand_strides [OF assms(1,2)]
  show ?thesis
  proof (cases "B = NVCV_BORDER_CONSTANT \<and> \<not> in_image (n, h, w) z y x")
    case False
    have "in_image (n, h, w) z (border_spec B h y) (border_spec B w x)"
    proof (cases "B = NVCV_BORDER_CONSTANT")
      case True
      then show ?thesis using False by simp
    next
      case B: False
      show ?thesis using border_spec_range [OF s(3) B, of y] border_spec_range [OF s(5) B, of x] assms(3,4) by (simp add: in_image_def)
    qed
    then have "pixel i m z (border_spec B h y) (border_spec B w x) = pixel i m' z (border_spec B h y) (border_spec B w x)"
      unfolding assms(2) [symmetric] by (rule pixel_cong [OF assms(1) _ assms(5)])
    then show ?thesis by (simp add: border_pixel_def assms(2))
  qed (simp add: border_pixel_def assms(2))
qed

lemma border_table:
  assumes "dt = kCV_8U \<or> (dt = kCV_16U \<or> dt = kCV_16S \<or> dt = kCV_32F) \<and> c \<noteq> 2" "0 < c" "c \<le> 4"
  shows "border_funcs ! legacy_index dt ! nat (c - 1) = Some (nat (c * int (DataSize dt)))"
proof -
  have "c = 1 \<or> c = 2 \<or> c = 3 \<or> c = 4" using assms by linarith
  then show ?thesis using assms(1) by (elim disjE conjE; simp add: border_funcs_def)
qed

lemma border_run_correct:
  assumes "gpu_ok g" "border_fits p i out"
  shows "\<exists>m'. border_run p g i out m = (Inr SUCCESS, m')
    \<and> (\<forall>z y x. in_image (image_size out) z y x \<longrightarrow> pixel out m' z y x = border_outcome p i out m z y x)
    \<and> (\<forall>q. q \<notin> region_bytes out (image_size out) \<longrightarrow> m' q = m q)"
proof -
  obtain n hi wi where sz: "image_size i = (n, hi, wi)" by (metis surj_pair)
  obtain n' h w where so: "image_size out = (n', h, w)" by (metis surj_pair)
  let ?t = "bp_top p" and ?l = "bp_left p" and ?c = "label_extent i (CHR ''C'')"
  obtain dt where dt: "operands_ok dt i out" "dt = kCV_8U \<or> (dt = kCV_16U \<or> dt = kCV_16S \<or> dt = kCV_32F) \<and> ?c \<noteq> 2"
    using assms(2) by (auto simp: border_fits_def)
  have f: "labels (td_layout i) = labels (td_layout out)" "length (border_value p i) = pixel_size out" "0 \<le> ?t" "?t + hi \<le> h" "0 \<le> ?l" "?l + wi \<le> w"
    "4 * hi \<le> 2 ^ 31" "4 * wi \<le> 2 ^ 31" "launchable (n', h, w) 32 8" using assms(2) by (simp_all add: border_fits_def sz so)
  have nn: "n' = n" using dt(1) sz so by (simp add: operands_ok_def image_size_def)
  have o: "image_operand (DataSize dt) i" "image_operand (DataSize dt) out" "GetLegacyDataType (td_dtype i) = Inr dt" "td_dtype out = td_dtype i"
    "image_bytes i \<inter> image_bytes out = {}" "label_extent out (CHR ''C'') = ?c" using dt(1) by (simp_all add: operands_ok_def)
  note s = operand_strides [OF o(1) sz] and s' = operand_strides [OF o(2) so]
  have ps: "pixel_size out = pixel_size i" using operand_pixel_size [OF o(1)] operand_pixel_size [OF o(2)] o(6) by simp
  have bv: "border_value p i = bp_value p dt ?c" by (simp add: border_value_def o(3))
  obtain ai ao src dst si so' where A: "Access_Create i = Inr (Some ai)" "require_access i = Inr ai" "Access_Create out = Inr (Some ao)"
    "require_access out = Inr ao" "numSamples ai = n" "numRows ai = hi" "numCols ai = wi" "numSamples ao = n" "numRows ao = h" "numCols ao = w"
    "numChannels ai = ?c" "max_stride ai = Inr si" "si \<le> 2 ^ 31 - 1" "max_stride ao = Inr so'" "so' \<le> 2 ^ 31 - 1"
    "CreateTensorWrapNHW Int32 (pixel_size out) i = Inr src" "CreateTensorWrapNHW Int32 (pixel_size out) out = Inr dst"
    "nat (?c * int (DataSize dt)) = pixel_size out" "0 < ?c" "?c \<le> 4"
    by (rule operands_accessed [OF dt(1) sz so])
  obtain bw where bw: "CreateBorderWrapNHW Int32 (bp_type p) (pixel_size out) i = Inr bw"
    "\<And>z y x m. 0 \<le> z \<Longrightarrow> z < n \<Longrightarrow> wrap32 y = y \<Longrightarrow> wrap32 x = x \<Longrightarrow>
       border_read bw (border_value p i) (pixel_size out) [z, y, x] m = Inr (border_pixel (bp_type p) (border_value p i) i m z y x)"
    using wrap_reads_border [OF o(1) sz ps f(7,8), of "bp_type p" "border_value p i"] by blast
  let ?block = "(32, 8, 1) :: dim3"
  let ?kern = "copyMakeBorderKernel (pixel_size out) bw (border_value p i) dst w h ?l ?t ?block"
  have k: "?kern t m = Inr (if x < w \<and> y < h then store_bytes (pixel_addr out z y x) (border_outcome p i out m z y x) m else m)"
    if t: "thread_pixel ?block t = (x, y, z)" "0 \<le> x" "0 \<le> y" "0 \<le> z" "z < n" for t m x y z
  proof (cases "x < w \<and> y < h")
    case True
    have c: "wrap32 (y - ?t) = y - ?t" "wrap32 (x - ?l) = x - ?l" using True t f(3-6) s(3,5) s'(4,6) by (intro wrap32_id; simp)+
    have "wrap_ptr dst [z, y, x] = pixel_addr out z y x"
      using wrap_NHW [OF o(2) refl] A(17) True t by (auto simp: so nn in_image_def)
    then show ?thesis using True bw(2) [OF t(4,5) c] by (simp add: copyMakeBorderKernel_def t(1) c border_outcome_def del: One_nat_def)
  next
    case False
    then show ?thesis by (auto simp: copyMakeBorderKernel_def t(1) simp del: One_nat_def)
  qed
  have "\<exists>m'. launch g (pixel_grid w h n ?block) ?block ?kern m = (Inr (), m')
      \<and> (\<forall>z y x. in_image (n, h, w) z y x \<longrightarrow> pixel out m' z y x = border_outcome p i out m z y x)
      \<and> (\<forall>q. q \<notin> region_bytes out (n, h, w) \<longrightarrow> m' q = m q)"
  proof (rule launch_copies [OF assms(1) o(2) _ _ o(5) k])
    show "inside_size (n, h, w) (image_size out)" by (simp add: inside_size_def so nn)
    show "launchable (n, h, w) 32 8" using f(9) nn by simp
    show "length (border_outcome p i out m z y x) = pixel_size out" for m z y x
      using f(2) ps by (simp add: border_outcome_def border_pixel_def sz)
    show "border_outcome p i out m z y x = border_outcome p i out m' z y x"
      if "in_image (n, h, w) z y x" "\<And>q. q \<in> image_bytes i \<Longrightarrow> m q = m' q" for m m' z y x
      unfolding border_outcome_def by (rule border_pixel_local [OF o(1) sz _ _ that(2)]) (use that(1) in \<open>simp_all add: in_image_def\<close>)
  qed
  then obtain m' where m': "launch g (pixel_grid w h n ?block) ?block ?kern m = (Inr (), m')"
    "\<forall>z y x. in_image (n, h, w) z y x \<longrightarrow> pixel out m' z y x = border_outcome p i out m z y x"
    "\<forall>q. q \<notin> region_bytes out (n, h, w) \<longrightarrow> m' q = m q" by blast
  have run: "copyMakeBorder g (bp_type p) (pixel_size out) i out (bp_value p dt ?c) ?l ?t m = (Inr SUCCESS, m')"
    using m'(1) A(13,15) by (simp add: copyMakeBorder_def A(2,4,8,9,10,12,14,17) bw(1) bv Let_def del: One_nat_def)
  have ends: "wrap32 (?t + hi) = ?t + hi" "wrap32 (?l + wi) = ?l + wi" using f(3-6) s(3,5) s'(4,6) by (intro int_small; simp)+
  have types: "dt = kCV_8U \<or> dt = kCV_16U \<or> dt = kCV_16S \<or> dt = kCV_32F" using dt(2) by blast
  have "border_run p g i out m = (Inr SUCCESS, m')"
    using run types A(19,20) f(3-6)
    by (simp add: border_run_def CopyMakeBorder_infer_def operand_format [OF o(1)] operand_format [OF o(2)] f(1) o(3,4) A(2,4,6,7,9,10,11,18) ends
        border_table [OF dt(2) A(19,20)] Let_def)
  then show ?thesis using m'(2,3) by (simp add: so nn)
qed

interpretation border: image_operator border_run border_fits "\<lambda>_. image_size" border_outcome
proof
  fix p i out z y x and m m' :: memory
  assume f: "border_fits p i out" and im: "in_image (image_size out) z y x" and eq: "\<And>q. q \<in> image_bytes i \<Longrightarrow> m q = m' q"
  obtain n h w where sz: "image_size i = (n, h, w)" by (metis surj_pair)
  obtain dt where dt: "operands_ok dt i out" using f by (auto simp: border_fits_def)
  have "0 \<le> z" "z < n" using im dt sz by (auto simp: in_image_def operands_ok_def image_size_def)
  then show "border_outcome p i out m z y x = border_outcome p i out m' z y x"
    unfolding border_outcome_def using dt by (intro border_pixel_local [OF _ sz _ _ eq]) (auto simp: operands_ok_def)
next
  fix p i out
  assume "border_fits p i out"
  then show "(\<exists>b. image_operand b i) \<and> (\<exists>b. image_operand b out) \<and> image_bytes i \<inter> image_bytes out = {} \<and> inside_size (image_size out) (image_size out)"
    by (auto simp: border_fits_def operands_ok_def inside_size_def split: prod.splits)
qed (rule border_run_correct)

section \<open>The properties of the operators\<close>

text \<open>
  Property C5: \<open>CopyMakeBorder\<close> puts the input at its place and continues it around. For an output
  that has room for the input at offset (top, left), whatever the order of the threads, the
  operator succeeds; the pixel at row \<open>y\<close> and column \<open>x\<close> of the output is the pixel at
  (\<open>y\<close> - top, \<open>x\<close> - left) of the input where that is inside, and elsewhere the border value, or
  the pixel at the coordinates that clamping, repeating or mirroring gives. Bytes outside the output
  do not change.
\<close>

theorem copy_make_border_correct:
  assumes "gpu_ok g" "border_fits p i out" "image_size i = (n, h, w)"
  shows "\<exists>m'. CopyMakeBorder_infer g i out (bp_top p) (bp_left p) (Some (bp_type p)) (bp_value p) m = (Inr SUCCESS, m')
    \<and> (\<forall>z y x. in_image (image_size out) z y x \<longrightarrow>
         (let y' = y - bp_top p; x' = x - bp_left p in
          pixel out m' z y x =
            (if bp_type p = NVCV_BORDER_CONSTANT then (if in_image (n, h, w) z y' x' then pixel i m z y' x' else border_value p i)
             else pixel i m z (border_spec (bp_type p) h y') (border_spec (bp_type p) w x'))))
    \<and> (\<forall>q. q \<notin> image_bytes out \<longrightarrow> m' q = m q)"
  using border_run_correct [OF assms(1,2), of m] assms(3)
  by (auto simp: border_run_def border_outcome_def border_pixel_def image_bytes_def Let_def split: if_splits)

definition rgb_large :: "ptr \<Rightarrow> NVCVTensorData" where
  "rgb_large p = \<lparr>td_dtype = 171798626433, td_layout = NVCV_TENSOR_NHWC, td_rank = 4, td_shape = [2, 6, 9, 3] @ replicate 11 0,
     td_bufferType = NVCV_TENSOR_BUFFER_STRIDED_CUDA, td_strides = [192, 32, 3, 1] @ replicate 11 0, td_basePtr = p\<rparr>"

lemma rgb_large_labels:
  "label_extent (rgb_large p) (CHR ''N'') = 2" "label_extent (rgb_large p) (CHR ''H'') = 6" "label_extent (rgb_large p) (CHR ''W'') = 9"
  "label_extent (rgb_large p) (CHR ''C'') = 3" "label_stride (rgb_large p) (CHR ''N'') = 192" "label_stride (rgb_large p) (CHR ''H'') = 32"
  "label_stride (rgb_large p) (CHR ''W'') = 3" "labels (td_layout (rgb_large p)) = ''NHWC''"
  by (simp_all add: label_extent_def label_stride_def FindDimIndex_def rgb_large_def NVCV_TENSOR_NHWC_def LAYOUT_MAKE_def eval_nat_numeral
      labels_def)

lemma rgb_large_size: "image_size (rgb_large p) = (2, 6, 9)"
  by (simp add: image_size_def rgb_large_labels)

lemma rgb_large_operand: "image_operand 1 (rgb_large 8192)"
proof -
  have "tensor_data_ok (rgb_large p)" "td_bufferType (rgb_large p) = NVCV_TENSOR_BUFFER_STRIDED_CUDA" "td_rank (rgb_large p) = tl_rank (td_layout (rgb_large p))"
    "td_basePtr (rgb_large p) = p" for p
    by (simp_all add: tensor_data_ok_def rgb_large_labels(8)) (simp_all add: rgb_large_def layout_ok_def NVCV_TENSOR_NHWC_def LAYOUT_MAKE_def)
  then show ?thesis unfolding image_operand_def rgb_large_size by (simp add: rgb_large_labels)
qed

lemma rgb_large_operands: "operands_ok kCV_8U (rgb_at 4096) (rgb_large 8192)" "operands_ok kCV_8U (rgb_large 8192) (rgb_at 4096)"
proof -
  have o: "image_operand 1 (rgb_at 4096)" by (rule rgb_at_operand) simp_all
  have b: "td_basePtr (rgb_at 4096) = 4096" "td_dtype (rgb_at 4096) = 171798626433" "td_basePtr (rgb_large 8192) = 8192"
    "td_dtype (rgb_large 8192) = 171798626433" by (simp_all add: rgb_at_def rgb_large_def)
  have "image_bytes (rgb_at 4096) \<inter> image_bytes (rgb_large 8192) = {}"
    using image_bytes_range [OF o rgb_at_size] image_bytes_range [OF rgb_large_operand rgb_large_size]
    unfolding b rgb_at_labels rgb_large_labels by fastforce
  then show "operands_ok kCV_8U (rgb_at 4096) (rgb_large 8192)" "operands_ok kCV_8U (rgb_large 8192) (rgb_at 4096)"
    using o rgb_large_operand by (simp_all add: operands_ok_def b rgb_at_type rgb_at_labels rgb_large_labels Int_commute)
qed

definition grey_border :: "NVCVBorderType \<Rightarrow> border_params" where
  "grey_border B = \<lparr>bp_type = B, bp_top = 1, bp_left = 2, bp_value = \<lambda>dt c. replicate (DataSize dt * nat c) 128\<rparr>"

lemma grey_border_fits: "border_fits (grey_border B) (rgb_at 4096) (rgb_large 8192)"
proof -
  have t: "td_dtype (rgb_at 4096) = 171798626433" by (simp add: rgb_at_def)
  show ?thesis
    using rgb_large_operands(1)
    by (auto simp: border_fits_def rgb_at_labels rgb_large_labels rgb_at_size rgb_large_size launchable_def grey_border_def border_value_def
        rgb_at_type t pixel_size_def)
qed

theorem copy_make_border_correct_witness:
  "\<exists>m'. CopyMakeBorder_infer in_order (rgb_at 4096) (rgb_large 8192) 1 2 (Some NVCV_BORDER_REFLECT101) (bp_value (grey_border NVCV_BORDER_REFLECT101)) sample_memory
       = (Inr SUCCESS, m')
     \<and> pixel (rgb_large 8192) m' 1 0 1 = pixel (rgb_at 4096) sample_memory 1 1 1"
proof -
  have "border_spec NVCV_BORDER_REFLECT101 4 (- 1) = 1" "border_spec NVCV_BORDER_REFLECT101 5 (- 1) = 1"
    by (simp_all add: reflected101.simps)
  moreover have "in_image (2, 6, 9) 1 0 1" by (simp add: in_image_def)
  ultimately show ?thesis
    using copy_make_border_correct [OF in_order_ok grey_border_fits rgb_at_size, of NVCV_BORDER_REFLECT101 sample_memory]
    by (fastforce simp: grey_border_def rgb_large_size Let_def)
qed

text \<open>
  Property C9: crops copy their window. \<open>CustomCrop\<close> copies the region of interest and \<open>CenterCrop\<close>
  the region of the requested size in the middle of the input, to the top left of the output;
  neither changes anything else. Both work on 1 to 4 channels of every data type, for windows that
  lie in the input and are no larger than the output.
\<close>

theorem crops_correct:
  assumes "gpu_ok g"
  shows "(custom_crop_fits roi i out \<longrightarrow>
      (\<exists>m'. CustomCrop_infer g i out roi m = (Inr SUCCESS, m')
         \<and> (\<forall>z y x. in_image (label_extent out (CHR ''N''), roi_height roi, roi_width roi) z y x \<longrightarrow>
              pixel out m' z y x = pixel i m z (y + roi_y roi) (x + roi_x roi))
         \<and> (\<forall>q. q \<notin> region_bytes out (label_extent out (CHR ''N''), roi_height roi, roi_width roi) \<longrightarrow> m' q = m q)))
    \<and> (center_crop_fits (rows, cols) i out \<longrightarrow>
      (\<exists>m'. CenterCrop_infer g i out rows cols m = (Inr SUCCESS, m')
         \<and> (\<forall>z y x. in_image (label_extent out (CHR ''N''), rows, cols) z y x \<longrightarrow>
              pixel out m' z y x = pixel i m z (y + (label_extent i (CHR ''H'') - rows) div 2) (x + (label_extent i (CHR ''W'') - cols) div 2))
         \<and> (\<forall>q. q \<notin> region_bytes out (label_extent out (CHR ''N''), rows, cols) \<longrightarrow> m' q = m q)))"
  using custom_crop_run_correct [OF assms, of roi i out m] center_crop_run_correct [OF assms, of "(rows, cols)" i out m]
  by (simp add: custom_crop_region_def custom_crop_outcome_def center_crop_region_def center_crop_outcome_def center_crop_start_def
      crop_outcome_def image_size_def)

definition some_roi :: NVCVRectI where
  "some_roi = \<lparr>roi_x = 2, roi_y = 1, roi_width = 5, roi_height = 4\<rparr>"

theorem crops_correct_witness:
  "(\<exists>m'. CustomCrop_infer in_order (rgb_large 8192) (rgb_at 4096) some_roi sample_memory = (Inr SUCCESS, m')
      \<and> pixel (rgb_at 4096) m' 1 3 4 = pixel (rgb_large 8192) sample_memory 1 4 6)
   \<and> (\<exists>m'. CenterCrop_infer in_order (rgb_large 8192) (rgb_at 4096) 3 3 sample_memory = (Inr SUCCESS, m')
      \<and> pixel (rgb_at 4096) m' 0 0 0 = pixel (rgb_large 8192) sample_memory 0 1 3)"
proof -
  have fit: "custom_crop_fits some_roi (rgb_large 8192) (rgb_at 4096)" "center_crop_fits (3, 3) (rgb_large 8192) (rgb_at 4096)"
    using rgb_large_operands(2)
    by (auto simp: custom_crop_fits_def center_crop_fits_def crop_window_def rgb_at_size rgb_large_size rgb_large_labels launchable_def
        some_roi_def center_crop_start_def)
  have "in_image (2, 4, 5) 1 3 4" "in_image (2, 3, 3) 0 0 0" by (simp_all add: in_image_def)
  then show ?thesis
    using crops_correct [OF in_order_ok, of some_roi "rgb_large 8192" "rgb_at 4096" sample_memory 3 3] fit
    by (auto simp: some_roi_def rgb_at_labels rgb_large_labels)
qed

text \<open>
  Property C8: the order of the threads does not matter. For each of the four operators there is one
  memory that every device leaves, whatever its order of the threads; it differs from the memory
  before only in bytes of the output, and running the operator again changes nothing.
\<close>

theorem operators_deterministic:
  assumes "flip_fits code i out \<and> op = (\<lambda>g. Flip_infer g i out code)
    \<or> custom_crop_fits roi i out \<and> op = (\<lambda>g. CustomCrop_infer g i out roi)
    \<or> center_crop_fits (rows, cols) i out \<and> op = (\<lambda>g. CenterCrop_infer g i out rows cols)
    \<or> border_fits p i out \<and> op = (\<lambda>g. CopyMakeBorder_infer g i out (bp_top p) (bp_left p) (Some (bp_type p)) (bp_value p))"
  shows "\<exists>m'. (\<forall>g. gpu_ok g \<longrightarrow> op g m = (Inr SUCCESS, m')) \<and> (\<forall>g. gpu_ok g \<longrightarrow> op g m' = (Inr SUCCESS, m'))
    \<and> (\<forall>q. q \<notin> image_bytes out \<longrightarrow> m' q = m q)"
  using assms flip.schedule_independent [of code i out m] custom_crop.schedule_independent [of roi i out m]
    center_crop.schedule_independent [of "(rows, cols)" i out m] border.schedule_independent [of p i out m]
  unfolding border_run_def fst_conv snd_conv by blast

theorem operators_deterministic_witness:
  "\<exists>m'. \<forall>g. gpu_ok g \<longrightarrow> Flip_infer g (rgb_at 4096) (rgb_at 8192) 0 sample_memory = (Inr SUCCESS, m')"
  using operators_deterministic [of 0 "rgb_at 4096" "rgb_at 8192" "\<lambda>g. Flip_infer g (rgb_at 4096) (rgb_at 8192) 0", where m = sample_memory] rgb_at_flip
  by blast

section \<open>What the checks let through\<close>

text \<open>A device that accepts every launch and runs no thread shows how far the checks go.\<close>

definition idle_gpu :: gpu where
  "idle_gpu = \<lparr>gpu_accepts = \<lambda>_ _. True, gpu_order = \<lambda>_ _. []\<rparr>"

text \<open>Two channels pass the check of \<open>Flip\<close> and lead to a null entry of its table.\<close>

lemma two_channel_flip_faults:
  "fst (Flip_infer idle_gpu (rgb_at 4096\<lparr>td_shape := [2, 4, 5, 2] @ replicate 11 0\<rparr>) (rgb_at 8192\<lparr>td_shape := [2, 4, 5, 2] @ replicate 11 0\<rparr>)
     1 sample_memory) = Inl OutOfBounds"
  by code_simp

text \<open>Sizes are not compared: the input may be smaller than the output, and is read behind its end.\<close>

lemma flip_sizes_unchecked:
  "fst (Flip_infer idle_gpu (rgb_at 4096) (rgb_large 8192) 1 sample_memory) = Inr SUCCESS"
  by code_simp

text \<open>The end of a region of interest is computed in 32 bits: one far outside is accepted.\<close>

lemma custom_crop_end_wraps:
  "fst (CustomCrop_infer idle_gpu (rgb_large 8192) (rgb_at 4096) (some_roi\<lparr>roi_x := 2 ^ 31 - 1\<rparr>) sample_memory) = Inr SUCCESS"
  by code_simp

text \<open>\<open>CenterCrop\<close> does not compare the crop with the input; a larger one starts before the image.\<close>

lemma center_crop_larger_than_input:
  "fst (CenterCrop_infer idle_gpu (rgb_at 4096) (rgb_large 8192) 6 9 sample_memory) = Inr SUCCESS"
  "wrap32 (4 - 6) sdiv 2 < (0 :: int)"
  by code_simp+

text \<open>
  Without samples the test for 32-bit strides multiplies zero: an \<open>HWC\<close> image of more than 2^31
  bytes is accepted, and the offsets of its lower rows are negative.
\<close>

definition tall_image :: "ptr \<Rightarrow> NVCVTensorData" where
  "tall_image p = (rgb_at p)\<lparr>td_layout := TENSOR_HWC, td_rank := 3, td_shape := [70000, 16000, 3] @ replicate 12 0,
     td_strides := [48000, 3, 1] @ replicate 12 0\<rparr>"

lemma tall_image_accepted:
  "fst (Flip_infer idle_gpu (tall_image 4096) (tall_image (2 ^ 40)) 1 sample_memory) = Inr SUCCESS"
  "map_sum id (\<lambda>w. wrap_offset w [0, 60000, 0]) (CreateTensorWrapNHW Int32 3 (tall_image 4096)) = Inr (- 1414967296)"
  by code_simp+

section \<open>Errors\<close>

text \<open>An error code is returned before anything is written.\<close>

definition error_clean :: "(ErrorCode, memory) st \<Rightarrow> bool" where
  "error_clean f \<longleftrightarrow> (\<forall>m e m'. f m = (Inr e, m') \<longrightarrow> e = SUCCESS \<or> m' = m)"

lemma clean_return [intro]: "error_clean (st_return e)"
  by (simp add: error_clean_def)

lemma clean_lift [intro]: "(\<And>x. error_clean (k x)) \<Longrightarrow> error_clean (st_bind (st_lift r) k)"
  by (cases r) (auto simp: error_clean_def st_bind_def)

lemma clean_success [intro]: "error_clean (st_bind f (\<lambda>_. st_return SUCCESS))"
  by (auto simp: error_clean_def st_bind_def split: prod.splits sum.splits)

lemma clean_if [intro]: "error_clean f \<Longrightarrow> error_clean h \<Longrightarrow> error_clean (if c then f else h)"
  by simp

lemma clean_option [intro]: "error_clean f \<Longrightarrow> (\<And>x. error_clean (h x)) \<Longrightarrow> error_clean (case y of None \<Rightarrow> f | Some x \<Rightarrow> h x)"
  by (cases y) auto

lemma operators_error_clean:
  "error_clean (Flip_infer g i out code)" "error_clean (CustomCrop_infer g i out roi)" "error_clean (CenterCrop_infer g i out rows cols)"
  "error_clean (CopyMakeBorder_infer g i out t l B bvalue)"
  unfolding Flip_infer_def flip_typed_def CustomCrop_infer_def customCrop_def CenterCrop_infer_def CopyMakeBorder_infer_def copyMakeBorder_def Let_def
  by (intro clean_if clean_option clean_success clean_lift clean_return)+

text \<open>
  Property C12: a rejected call does nothing. When one of the four operators throws, as it is called
  by the library, an exception about its arguments, memory is as it was; and for tensors and
  parameters that fit, every call returns without an exception.
\<close>

theorem rejected_operator_harmless:
  assumes "op = (\<lambda>i out. Flip_infer g i out code) \<and> ok = flip_fits code \<or> op = (\<lambda>i out. CustomCrop_infer g i out roi) \<and> ok = custom_crop_fits roi
    \<or> op = (\<lambda>i out. CenterCrop_infer g i out rows cols) \<and> ok = center_crop_fits (rows, cols)
    \<or> op = (\<lambda>i out. CopyMakeBorder_infer g i out (bp_top p) (bp_left p) (Some (bp_type p)) (bp_value p)) \<and> ok = border_fits p"
  shows "(\<forall>e m'. op i out m = (Inr e, m') \<and> e \<noteq> SUCCESS \<longrightarrow> op_submit op i out m = (Inl (Throw NVCV_ERROR_INVALID_ARGUMENT), m))
    \<and> (gpu_ok g \<and> ok i out \<longrightarrow> (\<exists>m'. op_submit op i out m = (Inr (), m')))"
proof -
  have clean: "error_clean (op i out)" using assms operators_error_clean by auto
  have "op_submit op i out m = (Inl (Throw NVCV_ERROR_INVALID_ARGUMENT), m)" if "op i out m = (Inr e, m')" "e \<noteq> SUCCESS" for e m'
  proof -
    have "m' = m" using clean that by (auto simp: error_clean_def)
    then have r: "op i out m = (Inr e, m)" using that(1) by simp
    have t: "TranslateError_legacy e = NVCV_ERROR_INVALID_ARGUMENT" using that(2) by (cases e) simp_all
    show ?thesis using that(2) by (simp add: op_submit_def st_throw_if_app r t)
  qed
  moreover have "\<exists>m'. op_submit op i out m = (Inr (), m')" if "gpu_ok g" "ok i out"
  proof -
    have "(\<exists>m'. op i out m = (Inr SUCCESS, m')) \<and> (\<exists>b. image_operand b i) \<and> (\<exists>b. image_operand b out)"
      using assms
    proof (elim disjE conjE)
      assume o: "op = (\<lambda>i out. Flip_infer g i out code)" "ok = flip_fits code"
      show ?thesis using flip_run_correct [of g code i out m] flip.operands [of code i out] that unfolding o by blast
    next
      assume o: "op = (\<lambda>i out. CustomCrop_infer g i out roi)" "ok = custom_crop_fits roi"
      show ?thesis using custom_crop_run_correct [of g roi i out m] custom_crop.operands [of roi i out] that unfolding o by blast
    next
      assume o: "op = (\<lambda>i out. CenterCrop_infer g i out rows cols)" "ok = center_crop_fits (rows, cols)"
      show ?thesis
        using center_crop_run_correct [of g "(rows, cols)" i out m] center_crop.operands [of "(rows, cols)" i out] that
        unfolding o fst_conv snd_conv by blast
    next
      assume o: "op = (\<lambda>i out. CopyMakeBorder_infer g i out (bp_top p) (bp_left p) (Some (bp_type p)) (bp_value p))" "ok = border_fits p"
      show ?thesis using border_run_correct [of g p i out m] border.operands [of p i out] that unfolding o border_run_def by blast
    qed
    then obtain m' b b' where r: "op i out m = (Inr SUCCESS, m')" "image_operand b i" "image_operand b' out" by blast
    have "td_bufferType i = NVCV_TENSOR_BUFFER_STRIDED_CUDA" "td_bufferType out = NVCV_TENSOR_BUFFER_STRIDED_CUDA"
      using r(2,3) unfolding image_operand_def by blast+
    then show ?thesis using r(1) by (simp add: op_submit_def Strided_IsCompatibleKind_def st_throw_if_app)
  qed
  ultimately show ?thesis by blast
qed

theorem rejected_operator_harmless_witness:
  "op_submit (\<lambda>i out. CustomCrop_infer idle_gpu i out (some_roi\<lparr>roi_x := 20\<rparr>)) (rgb_large 8192) (rgb_at 4096) sample_memory
     = (Inl (Throw NVCV_ERROR_INVALID_ARGUMENT), sample_memory)"
proof -
  let ?roi = "some_roi\<lparr>roi_x := 20\<rparr>" and ?op = "\<lambda>i out. CustomCrop_infer idle_gpu i out (some_roi\<lparr>roi_x := 20\<rparr>)"
  have e: "fst (?op (rgb_large 8192) (rgb_at 4096) sample_memory) = Inr INVALID_PARAMETER" by code_simp
  then obtain m' where "?op (rgb_large 8192) (rgb_at 4096) sample_memory = (Inr INVALID_PARAMETER, m')" by (metis prod.collapse)
  then show ?thesis
    using rejected_operator_harmless [of ?op idle_gpu _ "custom_crop_fits ?roi" ?roi, where i = "rgb_large 8192" and out = "rgb_at 4096"
      and m = sample_memory] by blast
qed

end
