(* ===== verification/Buffer_Blocks.thy ===== *)
theory Buffer_Blocks
  imports Allocators
begin

text \<open>
  Objects that own several buffers: what they ask of an allocator, the allocation of a list of
  buffers one after the other and their release. The constructors and destructors of the batches
  and of the workspaces are built on these.
\<close>

section \<open>The contract of an allocator\<close>

text \<open>
  \<open>live\<close>: the blocks in use, with their kind. A call that throws or returns null leaves them; one
  that returns a pointer adds a new block. A block in use can be released, and null as well.
\<close>

definition serves :: "('s \<Rightarrow> (int \<times> ptr) set) \<Rightarrow> int \<Rightarrow> 's alloc_fn \<Rightarrow> 's free_fn \<Rightarrow> bool" where
  "serves live k al fr \<longleftrightarrow>
     (\<forall>sz a s. case al sz a s of
        (Inr p, s') \<Rightarrow> if p = 0 then live s' = live s else (k, p) \<notin> live s \<and> live s' = insert (k, p) (live s)
      | (Inl e, s') \<Rightarrow> live s' = live s)
   \<and> (\<forall>p sz a s. (p = 0 \<longrightarrow> live (fr p sz a s) = live s) \<and> (p \<noteq> 0 \<longrightarrow> (k, p) \<in> live s \<longrightarrow> live (fr p sz a s) = live s - {(k, p)}))"

definition alloc_kind :: "'s IAllocator \<Rightarrow> int \<Rightarrow> 's alloc_fn" where
  "alloc_kind a k = (if k = NVCV_RESOURCE_MEM_HOST then allocHostMem a
     else if k = NVCV_RESOURCE_MEM_CUDA then allocCudaMem a else allocHostPinnedMem a)"

definition free_kind :: "'s IAllocator \<Rightarrow> int \<Rightarrow> 's free_fn" where
  "free_kind a k = (if k = NVCV_RESOURCE_MEM_HOST then freeHostMem a
     else if k = NVCV_RESOURCE_MEM_CUDA then freeCudaMem a else freeHostPinnedMem a)"

definition honest :: "('s \<Rightarrow> (int \<times> ptr) set) \<Rightarrow> 's IAllocator \<Rightarrow> bool" where
  "honest live a \<longleftrightarrow> serves live 0 (allocHostMem a) (freeHostMem a) \<and> serves live 1 (allocCudaMem a) (freeCudaMem a)
     \<and> serves live 2 (allocHostPinnedMem a) (freeHostPinnedMem a)"

definition kind_ok :: "int \<Rightarrow> bool" where
  "kind_ok k \<longleftrightarrow> k = 0 \<or> k = 1 \<or> k = 2"

lemma honest_serves: "honest live a \<Longrightarrow> kind_ok k \<Longrightarrow> serves live k (alloc_kind a k) (free_kind a k)"
  by (auto simp: honest_def kind_ok_def alloc_kind_def free_kind_def)

lemma serves_fails: "serves live k al fr \<Longrightarrow> al sz a s = (Inl e, s') \<Longrightarrow> live s' = live s"
  unfolding serves_def by (elim conjE allE [of _ sz] allE [of _ a] allE [of _ s]) simp

lemma serves_block:
  "serves live k al fr \<Longrightarrow> al sz a s = (Inr p, s') \<Longrightarrow> p \<noteq> 0 \<Longrightarrow> (k, p) \<notin> live s \<and> live s' = insert (k, p) (live s)"
  unfolding serves_def by (elim conjE allE [of _ sz] allE [of _ a] allE [of _ s]) simp

lemma serves_null: "serves live k al fr \<Longrightarrow> al sz a s = (Inr 0, s') \<Longrightarrow> live s' = live s"
  unfolding serves_def by (elim conjE allE [of _ sz] allE [of _ a] allE [of _ s]) simp

lemma serves_free:
  "serves live k al fr \<Longrightarrow> p = 0 \<or> (k, p) \<in> live s \<Longrightarrow> live (fr p sz a s) = live s - (if p = 0 then {} else {(k, p)})"
  by (auto simp: serves_def)

section \<open>Buffers, one after the other\<close>

text \<open>
  A buffer: its kind, its size, and the index of the buffer that the assertion after its allocation
  tests. \<open>ps\<close> holds the buffers allocated so far.
\<close>

type_synonym buffer = "int \<times> int \<times> nat"

fun alloc_buffers :: "'s IAllocator \<Rightarrow> int \<Rightarrow> buffer list \<Rightarrow> ptr list \<Rightarrow> 's \<Rightarrow> unit result \<times> ptr list \<times> 's" where
  "alloc_buffers a align [] ps s = (Inr (), ps, s)"
| "alloc_buffers a align ((k, sz, t) # bs) ps s =
     (case alloc_kind a k sz align s of
        (Inl e, s') \<Rightarrow> (Inl e, ps, s')
      | (Inr p, s') \<Rightarrow>
          if (ps @ [p]) ! t = 0 then (Inl AssertFailed, ps @ [p], s') else alloc_buffers a align bs (ps @ [p]) s')"

text \<open>The buffers that were not allocated are null.\<close>

fun free_buffers :: "'s IAllocator \<Rightarrow> int \<Rightarrow> buffer list \<Rightarrow> ptr list \<Rightarrow> 's \<Rightarrow> 's" where
  "free_buffers a align [] ps s = s"
| "free_buffers a align ((k, sz, t) # bs) ps s =
     free_buffers a align bs (tl ps) (free_kind a k (case ps of [] \<Rightarrow> 0 | p # _ \<Rightarrow> p) sz align s)"

definition kinds_ok :: "buffer list \<Rightarrow> bool" where
  "kinds_ok bs \<longleftrightarrow> list_all (\<lambda>b. kind_ok (fst b)) bs"

text \<open>The blocks behind a list of buffers.\<close>

fun blocks :: "buffer list \<Rightarrow> ptr list \<Rightarrow> (int \<times> ptr) list" where
  "blocks ((k, sz, t) # bs) (p # ps) = (if p = 0 then blocks bs ps else (k, p) # blocks bs ps)"
| "blocks _ _ = []"

lemma blocks_Nil [simp]: "blocks bs [] = []"
  by (cases bs) auto

lemma free_buffers_live:
  assumes "honest live a" "kinds_ok bs" "distinct (blocks bs ps)" "set (blocks bs ps) \<subseteq> live s"
  shows "live (free_buffers a align bs ps s) = live s - set (blocks bs ps)"
  using assms
proof (induction bs arbitrary: ps s)
  case (Cons b bs)
  obtain k sz t where b: "b = (k, sz, t)" by (cases b)
  have k: "serves live k (alloc_kind a k) (free_kind a k)" "kinds_ok bs"
    using Cons.prems(1,2) honest_serves by (auto simp: kinds_ok_def b)
  show ?case
  proof (cases ps)
    case Nil
    have "live (free_kind a k 0 sz align s) = live s" using serves_free [OF k(1), of 0 s sz align] by simp
    then show ?thesis using Cons.IH [OF Cons.prems(1) k(2), of "[]"] Nil b by simp
  next
    case p: (Cons p ps')
    have "live (free_kind a k p sz align s) = live s - (if p = 0 then {} else {(k, p)})"
      using serves_free [OF k(1)] Cons.prems(4) p b by (auto split: if_splits)
    then show ?thesis using Cons.IH [OF Cons.prems(1) k(2), of ps' "free_kind a k p sz align s"] Cons.prems(3,4) p b
      by (auto split: if_splits)
  qed
qed auto

lemma blocks_append:
  "length ps = length bs \<Longrightarrow> blocks (bs @ (k, sz, t) # cs) (ps @ [p]) = blocks bs ps @ (if p = 0 then [] else [(k, p)])"
  by (induction bs ps rule: blocks.induct) auto

lemma blocks_prefix: "length ps = length bs \<Longrightarrow> blocks (bs @ cs) ps = blocks bs ps"
  by (induction bs ps rule: blocks.induct) auto

text \<open>However far it gets, exactly the blocks of the buffers allocated have been added.\<close>

lemma alloc_buffers_live:
  assumes "honest live a" "kinds_ok cs" "length ps = length bs" "alloc_buffers a align cs ps s = (r, ps', s')"
    and "distinct (blocks bs ps)" "live s = L \<union> set (blocks bs ps)" "L \<inter> set (blocks bs ps) = {}"
  shows "distinct (blocks (bs @ cs) ps') \<and> live s' = L \<union> set (blocks (bs @ cs) ps') \<and> L \<inter> set (blocks (bs @ cs) ps') = {}
    \<and> (r = Inr () \<longrightarrow> length ps' = length (bs @ cs))"
  using assms
proof (induction cs arbitrary: bs ps s)
  case (Cons c cs)
  obtain k sz t where c: "c = (k, sz, t)" by (cases c)
  have k: "serves live k (alloc_kind a k) (free_kind a k)" "kinds_ok cs"
    using Cons.prems(1,2) honest_serves by (auto simp: kinds_ok_def c)
  obtain q s1 where q: "alloc_kind a k sz align s = (q, s1)" by (cases "alloc_kind a k sz align s")
  show ?case
  proof (cases q)
    case (Inl e)
    then have "r = Inl e" "ps' = ps" "s' = s1" "live s1 = live s"
      using Cons.prems(4) q c serves_fails [OF k(1)] by auto
    then show ?thesis using Cons.prems(3,5,6,7) by (simp add: blocks_prefix)
  next
    case (Inr p)
    let ?bs = "bs @ [c]" and ?ps = "ps @ [p]"
    have bl: "blocks ?bs ?ps = blocks bs ps @ (if p = 0 then [] else [(k, p)])"
      using blocks_append [OF Cons.prems(3), where cs = "[]"] c by simp
    have l1: "live s1 = L \<union> set (blocks ?bs ?ps)" "distinct (blocks ?bs ?ps)" "L \<inter> set (blocks ?bs ?ps) = {}"
      using serves_block [OF k(1)] serves_null [OF k(1)] q Inr Cons.prems(5-7) unfolding bl by (cases "p = 0"; fastforce)+
    show ?thesis
    proof (cases "?ps ! t = 0")
      case True
      then have "r = Inl AssertFailed" "ps' = ?ps" "s' = s1" using Cons.prems(4) q Inr c by auto
      moreover have "blocks (bs @ c # cs) ?ps = blocks ?bs ?ps" using blocks_prefix [of ?ps ?bs cs] Cons.prems(3) by simp
      ultimately show ?thesis using l1 by simp
    next
      case False
      then have "alloc_buffers a align cs ?ps s1 = (r, ps', s')" using Cons.prems(4) q Inr c by simp
      from Cons.IH [OF Cons.prems(1) k(2) _ this l1(2,1,3)] Cons.prems(3) show ?thesis by simp
    qed
  qed
qed auto

text \<open>All or nothing: what a constructor does with its buffers, and its destructor.\<close>

definition construct_buffers :: "'s IAllocator \<Rightarrow> int \<Rightarrow> buffer list \<Rightarrow> cudaError \<Rightarrow> (ptr list, 's) st" where
  "construct_buffers a align bs event s =
     (case alloc_buffers a align bs [] s of
        (Inr _, ps, s') \<Rightarrow>
          if event = cudaSuccess then (Inr ps, s')
          else (Inl (Throw (TranslateError event)), free_buffers a align bs ps s')
      | (Inl e, ps, s') \<Rightarrow>
          if e = AssertFailed then (Inl e, s') else (Inl e, free_buffers a align bs ps s'))"

lemma construct_buffers_live:
  assumes "honest live a" "kinds_ok bs"
  shows "case construct_buffers a align bs event s of
     (Inr ps, s') \<Rightarrow> length ps = length bs \<and> live s' = live s \<union> set (blocks bs ps) \<and> live s \<inter> set (blocks bs ps) = {}
       \<and> live (free_buffers a align bs ps s') = live s
   | (Inl e, s') \<Rightarrow> e \<noteq> AssertFailed \<longrightarrow> live s' = live s"
proof -
  obtain r ps s1 where c: "alloc_buffers a align bs [] s = (r, ps, s1)" by (cases "alloc_buffers a align bs [] s")
  have l: "distinct (blocks bs ps)" "live s1 = live s \<union> set (blocks bs ps)" "live s \<inter> set (blocks bs ps) = {}"
    "r = Inr () \<longrightarrow> length ps = length bs"
    using alloc_buffers_live [OF assms, of "[]" "[]" align s r ps s1 "live s"] c by simp_all
  have "live (free_buffers a align bs ps s1) = live s"
    using free_buffers_live [OF assms l(1), of s1 align] l(2,3) by auto
  then show ?thesis using c l by (cases r) (auto simp: construct_buffers_def)
qed

section \<open>The default allocator keeps the contract\<close>

text \<open>
  What the CUDA and C functions must do for each kind: \<open>allocates\<close>, no null block, and releasing
  null does nothing. \<open>std::aligned_alloc\<close> returns null when it fails.
\<close>

definition runtime_serves :: "('s \<Rightarrow> (int \<times> ptr) set) \<Rightarrow> int \<Rightarrow> (int \<Rightarrow> 's \<Rightarrow> (cudaError \<times> ptr) \<times> 's) \<Rightarrow> (ptr \<Rightarrow> 's \<Rightarrow> cudaError \<times> 's) \<Rightarrow> bool" where
  "runtime_serves live k mallocf freef \<longleftrightarrow>
     (\<forall>sz s err p s'. mallocf sz s = ((err, p), s') \<longrightarrow>
        (if err = cudaSuccess then p \<noteq> 0 \<and> (k, p) \<notin> live s \<and> live s' = insert (k, p) (live s) else live s' = live s))
   \<and> (\<forall>p s. (p = 0 \<longrightarrow> live (snd (freef p s)) = live s) \<and> (p \<noteq> 0 \<longrightarrow> (k, p) \<in> live s \<longrightarrow> live (snd (freef p s)) = live s - {(k, p)}))"

lemma checked_alloc_serves: "serves live k al fr \<Longrightarrow> serves live k (checked_alloc al) fr"
  by (auto simp: serves_def checked_alloc_def st_throw_if_app)

lemma alloc_then_check_serves:
  assumes "runtime_serves live k mallocf freef"
  shows "serves live k (alloc_then_check mallocf freef) (\<lambda>p sz align s. snd (freef p s))"
  unfolding serves_def
proof (intro conjI allI)
  fix sz a s
  obtain err p s1 where m: "mallocf sz s = ((err, p), s1)" by (metis surj_pair)
  have r: "if err = cudaSuccess then p \<noteq> 0 \<and> (k, p) \<notin> live s \<and> live s1 = insert (k, p) (live s) else live s1 = live s"
    using assms m unfolding runtime_serves_def by blast
  have f: "p \<noteq> 0 \<Longrightarrow> (k, p) \<in> live s1 \<Longrightarrow> live (snd (freef p s1)) = live s1 - {(k, p)}" using assms unfolding runtime_serves_def by blast
  show "case alloc_then_check mallocf freef sz a s of
        (Inr p, s') \<Rightarrow> if p = 0 then live s' = live s else (k, p) \<notin> live s \<and> live s' = insert (k, p) (live s)
      | (Inl e, s') \<Rightarrow> live s' = live s"
    using m r f by (cases "err = cudaSuccess") (auto simp: alloc_then_check_def CHECK_THROW_def split_beta)
qed (use assms in \<open>auto simp: runtime_serves_def\<close>)

lemma default_allocator_honest:
  assumes "serves live 0 (\<lambda>sz align s. let (p, s') = aligned_alloc rt align sz s in (Inr p, s')) (\<lambda>p sz align. free_fn rt p)"
    and "runtime_serves live 1 (cudaMalloc rt) (cudaFree rt)" "runtime_serves live 2 (cudaHostAlloc rt) (cudaFreeHost rt)"
  shows "honest live (DefaultAllocator rt)"
proof -
  have "serves live 0 (default_doAllocHostMem rt) (default_doFreeHostMem rt)"
    using assms(1) by (simp add: serves_def default_doAllocHostMem_def default_doFreeHostMem_def)
  moreover have "serves live 1 (default_doAllocCudaMem rt) (default_doFreeCudaMem rt)"
    "serves live 2 (default_doAllocHostPinnedMem rt) (default_doFreeHostPinnedMem rt)"
    using alloc_then_check_serves [OF assms(2)] alloc_then_check_serves [OF assms(3)]
    by (simp_all add: serves_def default_doAllocCudaMem_def default_doFreeCudaMem_def default_doAllocHostPinnedMem_def
        default_doFreeHostPinnedMem_def)
  ultimately show ?thesis
    by (auto simp: honest_def DefaultAllocator_def allocHostMem_def allocCudaMem_def allocHostPinnedMem_def freeHostMem_def
        freeCudaMem_def freeHostPinnedMem_def intro: checked_alloc_serves)
qed

section \<open>An allocator that keeps the contract\<close>

text \<open>Blocks with their kinds, at addresses that grow; the third cudaMalloc finds no memory.\<close>

definition next_block :: "(int \<times> ptr) list \<Rightarrow> ptr" where
  "next_block s = (case s of [] \<Rightarrow> 256 | p # ps \<Rightarrow> fold max (map snd ps) (snd p) + 256)"

definition list_alloc :: "int \<Rightarrow> ((int \<times> ptr) list) alloc_fn" where
  "list_alloc k sz align s = (let p = next_block s in
     if p = 0 \<or> (k, p) \<in> set s \<or> (k = 1 \<and> 3 \<le> length s) then (Inl (Throw NVCV_ERROR_OUT_OF_MEMORY), s) else (Inr p, (k, p) # s))"

definition list_free :: "int \<Rightarrow> ((int \<times> ptr) list) free_fn" where
  "list_free k p sz align s = filter (\<lambda>b. b \<noteq> (k, p) \<or> p = 0) s"

definition list_allocator :: "((int \<times> ptr) list) IAllocator" where
  "list_allocator =
     \<lparr>doAllocHostMem = list_alloc 0, doFreeHostMem = list_free 0, doAllocHostPinnedMem = list_alloc 2,
      doFreeHostPinnedMem = list_free 2, doAllocCudaMem = list_alloc 1, doFreeCudaMem = list_free 1,
      doGet = (\<lambda>_. Inl (Throw NVCV_ERROR_INVALID_ARGUMENT))\<rparr>"

lemma list_serves: "serves set k (list_alloc k) (list_free k)"
  by (auto simp: serves_def list_alloc_def list_free_def Let_def)

lemma list_allocator_honest: "honest set list_allocator"
  using checked_alloc_serves [OF list_serves] list_serves
  by (auto simp: honest_def list_allocator_def allocHostMem_def allocCudaMem_def allocHostPinnedMem_def freeHostMem_def
      freeCudaMem_def freeHostPinnedMem_def serves_def)

end
