(* ===== verification/Image_Batch.thy ===== *)
theory Image_Batch
  imports Core_Object Image_Object
begin

text \<open>
  Batches of images of different sizes (\<open>src/nvcv/src/priv/ImageBatchVarShape.cpp\<close>). The batch
  keeps the plane descriptions of its images in a host buffer, a copy of them in a device buffer
  that is brought up to date when the batch is exported, the handles of the images, whose
  reference counts it owns through the image manager, and two caches. A copy queued on a stream
  takes effect at once here: the code waits for it before it writes to the host buffer again.
\<close>

section \<open>Images and batches\<close>

text \<open>The virtual functions of \<open>IImage\<close> that the batch calls.\<close>

record IImage =
  ii_format :: u64
  ii_export :: "NVCVImageData result"
  ii_size :: "Size2D result"
  ii_version :: Version

type_synonym strided = "int \<times> NVCVImagePlaneStrided list"

text \<open>The buffers have \<open>capacity\<close> entries; \<open>ib_images\<close> is the manager of all images.\<close>

record ImageBatch =
  ib_capacity :: nat
  ib_dirty :: nat
  ib_numImages :: nat
  ib_hostImages :: "strided list"
  ib_devImages :: "strided list"
  ib_hostFormats :: "u64 list"
  ib_devFormats :: "u64 list"
  ib_handles :: "handle list"
  ib_cacheMaxSize :: "Size2D option"
  ib_cacheUniqueFormat :: "u64 option"
  ib_images :: "IImage manager"

type_synonym 'a batch_op = "('a, ImageBatch) st"

definition CoreObjectIncRef :: "handle \<Rightarrow> int batch_op" where
  "CoreObjectIncRef h = (\<lambda>b. let (r, m) = incRef h (ib_images b) in (r, b\<lparr>ib_images := m\<rparr>))"

definition CoreObjectDecRef :: "handle \<Rightarrow> int batch_op" where
  "CoreObjectDecRef h = (\<lambda>b. let (r, m) = decRef h (ib_images b) in (r, b\<lparr>ib_images := m\<rparr>))"

definition max_size :: "Size2D \<Rightarrow> Size2D \<Rightarrow> Size2D" where
  "max_size a b = \<lparr>width_px = max (width_px a) (width_px b), height_px = max (height_px a) (height_px b)\<rparr>"

section \<open>Adding images\<close>

definition update_caches :: "Size2D \<Rightarrow> u64 \<Rightarrow> ImageBatch \<Rightarrow> ImageBatch" where
  "update_caches sz fmt b =
     (if ib_numImages b = 1 then b\<lparr>ib_cacheMaxSize := Some sz, ib_cacheUniqueFormat := Some fmt\<rparr>
      else b\<lparr>ib_cacheMaxSize := map_option (\<lambda>m. max_size m sz) (ib_cacheMaxSize b),
             ib_cacheUniqueFormat := map_option (\<lambda>f. if f \<noteq> fmt then NVCV_IMAGE_FORMAT_NONE else f) (ib_cacheUniqueFormat b)\<rparr>)"

definition store_image :: "strided \<Rightarrow> u64 \<Rightarrow> handle \<Rightarrow> ImageBatch \<Rightarrow> ImageBatch" where
  "store_image s fmt h b =
     b\<lparr>ib_hostImages := (ib_hostImages b)[ib_numImages b := s], ib_hostFormats := (ib_hostFormats b)[ib_numImages b := fmt],
       ib_handles := (ib_handles b)[ib_numImages b := h]\<rparr>"

definition doPushImage :: "Version \<Rightarrow> handle \<Rightarrow> unit batch_op" where
  "doPushImage current h = (\<lambda>b.
     if \<not> ib_numImages b < ib_capacity b then (Inl AssertFailed, b)
     else case ToStaticRef ii_version current (ib_images b) h of
       Inl e \<Rightarrow> (Inl e, b)
     | Inr img \<Rightarrow>
         if memLayout (ii_format img) \<noteq> NVCV_MEM_LAYOUT_PL then (Inl (Throw NVCV_ERROR_INVALID_ARGUMENT), b)
         else case ii_export img of
           Inl e \<Rightarrow> (Inl e, b)
         | Inr d \<Rightarrow>
             if id_bufferType d \<noteq> NVCV_IMAGE_BUFFER_STRIDED_CUDA then (Inl (Throw NVCV_ERROR_INVALID_ARGUMENT), b)
             else
               let b = store_image (id_numPlanes d, id_planes d) (id_format d) h b in
               case ii_size img of
                 Inl e \<Rightarrow> (Inl e, b)
               | Inr sz \<Rightarrow> (Inr (), update_caches sz (id_format d) (b\<lparr>ib_numImages := Suc (ib_numImages b)\<rparr>)))"

text \<open>\<open>catch (...)\<close>: the number of images is put back, nothing else.\<close>

definition restoring_num :: "'a batch_op \<Rightarrow> 'a batch_op" where
  "restoring_num m = (\<lambda>b. case m b of
     (Inl e, b') \<Rightarrow> (Inl e, b'\<lparr>ib_numImages := ib_numImages b\<rparr>) | (Inr x, b') \<Rightarrow> (Inr x, b'))"

fun push_loop :: "Version \<Rightarrow> handle list \<Rightarrow> unit batch_op" where
  "push_loop current [] = st_return ()"
| "push_loop current (h # hs) =
     st_bind (doPushImage current h) (\<lambda>_.
     st_bind (if h \<noteq> 0 then CoreObjectIncRef h else st_return 0) (\<lambda>_. push_loop current hs))"

text \<open>The sum of the counts is taken in \<open>int\<close>; \<open>sync\<close> is the outcome of waiting for the last copy.\<close>

definition pushImages :: "Version \<Rightarrow> cudaError \<Rightarrow> handle list option \<Rightarrow> int \<Rightarrow> unit batch_op" where
  "pushImages current sync images numImages = (\<lambda>b.
     case images of
       None \<Rightarrow> (Inl (Throw NVCV_ERROR_INVALID_ARGUMENT), b)
     | Some hs \<Rightarrow>
         st_throw_if (wrap32 (numImages + int (ib_numImages b)) > int (ib_capacity b)) (Throw NVCV_ERROR_OVERFLOW)
        (st_bind (CHECK_THROW sync) (\<lambda>_. restoring_num (push_loop current (take (nat numImages) hs)))) b)"

text \<open>The callback is given by the handles it returns before the first null one.\<close>

fun push_callback_loop :: "Version \<Rightarrow> handle list \<Rightarrow> unit batch_op" where
  "push_callback_loop current [] = st_return ()"
| "push_callback_loop current (h # hs) = (\<lambda>b.
     if ib_numImages b = ib_capacity b then (Inl (Throw NVCV_ERROR_OVERFLOW), b)
     else st_bind (doPushImage current h) (\<lambda>_. push_callback_loop current hs) b)"

definition pushImages_callback :: "Version \<Rightarrow> cudaError \<Rightarrow> handle list option \<Rightarrow> unit batch_op" where
  "pushImages_callback current sync cb = (\<lambda>b.
     case cb of
       None \<Rightarrow> (Inl (Throw NVCV_ERROR_INVALID_ARGUMENT), b)
     | Some hs \<Rightarrow> st_bind (CHECK_THROW sync) (\<lambda>_. restoring_num (push_callback_loop current hs)) b)"

section \<open>Removing and reading images\<close>

fun drop_refs :: "handle list \<Rightarrow> unit batch_op" where
  "drop_refs [] = st_return ()"
| "drop_refs (h # hs) = st_bind (if h \<noteq> 0 then CoreObjectDecRef h else st_return 0) (\<lambda>_. drop_refs hs)"

definition popImages :: "int \<Rightarrow> unit batch_op" where
  "popImages numImages = (\<lambda>b.
     st_throw_if (numImages < 0) (Throw NVCV_ERROR_INVALID_ARGUMENT)
    (st_throw_if (int (ib_numImages b) - numImages < 0) (Throw NVCV_ERROR_UNDERFLOW)
    (st_bind (drop_refs (map (\<lambda>i. ib_handles b ! i) (rev [ib_numImages b - nat numImages..<ib_numImages b]))) (\<lambda>_ b.
       let n = ib_numImages b - nat numImages in
       (Inr (), b\<lparr>ib_numImages := n, ib_dirty := min (ib_dirty b) n, ib_cacheMaxSize := None,
                 ib_cacheUniqueFormat := (if n = 0 then None else ib_cacheUniqueFormat b)\<rparr>)))) b)"

fun take_refs :: "handle list \<Rightarrow> unit batch_op" where
  "take_refs [] = st_return ()"
| "take_refs (h # hs) = st_bind (if h \<noteq> 0 then CoreObjectIncRef h else st_return 0) (\<lambda>_. take_refs hs)"

text \<open>The end of the range is computed in \<open>int\<close>; reading behind the buffer is undefined.\<close>

definition getImages :: "int \<Rightarrow> int \<Rightarrow> handle list batch_op" where
  "getImages begIndex numImages = (\<lambda>b.
     st_throw_if (begIndex < 0) (Throw NVCV_ERROR_INVALID_ARGUMENT)
    (st_throw_if (wrap32 (begIndex + numImages) > int (ib_numImages b)) (Throw NVCV_ERROR_OVERFLOW)
    (st_throw_if (0 < numImages \<and> int (length (ib_handles b)) < begIndex + numImages) OutOfBounds
    (let hs = take (nat numImages) (drop (nat begIndex) (ib_handles b)) in
     st_bind (take_refs hs) (\<lambda>_. st_return hs)))) b)"

text \<open>\<open>clear\<close> nulls each handle after dropping its reference.\<close>

fun clear_loop :: "nat list \<Rightarrow> unit batch_op" where
  "clear_loop [] = st_return ()"
| "clear_loop (i # is) = (\<lambda>b.
     if ib_handles b ! i \<noteq> 0
     then st_bind (CoreObjectDecRef (ib_handles b ! i)) (\<lambda>_ b. clear_loop is (b\<lparr>ib_handles := (ib_handles b)[i := 0]\<rparr>)) b
     else clear_loop is b)"

definition clear_batch :: "unit batch_op" where
  "clear_batch = (\<lambda>b. st_bind (clear_loop [0..<ib_numImages b]) (\<lambda>_ b.
     (Inr (), b\<lparr>ib_numImages := 0, ib_dirty := 0, ib_cacheMaxSize := Some \<lparr>width_px = 0, height_px = 0\<rparr>,
               ib_cacheUniqueFormat := None\<rparr>)) b)"

section \<open>Caches and export\<close>

definition plane0_size :: "strided \<Rightarrow> Size2D" where
  "plane0_size s = \<lparr>width_px = pl_width (snd s ! 0), height_px = pl_height (snd s ! 0)\<rparr>"

fun cache_loop :: "ImageBatch \<Rightarrow> nat list \<Rightarrow> Size2D \<times> u64 option \<Rightarrow> Size2D \<times> u64 option" where
  "cache_loop b [] c = c"
| "cache_loop b (i # is) (m, u) =
     cache_loop b is
       (max_size m (plane0_size (ib_hostImages b ! i)),
        (case u of None \<Rightarrow> Some (ib_hostFormats b ! i)
         | Some f \<Rightarrow> Some (if f \<noteq> NVCV_IMAGE_FORMAT_NONE \<and> f \<noteq> ib_hostFormats b ! i then NVCV_IMAGE_FORMAT_NONE else f)))"

text \<open>After the loop the format cache can only be empty if there are no images.\<close>

definition doUpdateCache :: "unit batch_op" where
  "doUpdateCache = (\<lambda>b.
     if ib_cacheMaxSize b \<noteq> None \<and> ib_cacheUniqueFormat b \<noteq> None then (Inr (), b)
     else
       let m = (case ib_cacheMaxSize b of None \<Rightarrow> \<lparr>width_px = 0, height_px = 0\<rparr> | Some m \<Rightarrow> m);
           (m, u) = cache_loop b [0..<ib_numImages b] (m, ib_cacheUniqueFormat b) in
       case u of
         Some f \<Rightarrow> (Inr (), b\<lparr>ib_cacheMaxSize := Some m, ib_cacheUniqueFormat := Some f\<rparr>)
       | None \<Rightarrow>
           if ib_numImages b = 0
           then (Inr (), b\<lparr>ib_cacheMaxSize := Some m, ib_cacheUniqueFormat := Some NVCV_IMAGE_FORMAT_NONE\<rparr>)
           else (Inl AssertFailed, b\<lparr>ib_cacheMaxSize := Some m\<rparr>))"

definition batch_maxSize :: "Size2D option batch_op" where
  "batch_maxSize = st_bind doUpdateCache (\<lambda>_ b. (Inr (ib_cacheMaxSize b), b))"

definition uniqueFormat :: "u64 option batch_op" where
  "uniqueFormat = st_bind doUpdateCache (\<lambda>_ b. (Inr (ib_cacheUniqueFormat b), b))"

text \<open>The exported data: the device buffers by their contents.\<close>

record NVCVImageBatchData =
  bd_numImages :: nat
  bd_imageList :: "strided list"
  bd_formatList :: "u64 list"
  bd_hostFormatList :: "u64 list"
  bd_maxWidth :: int
  bd_maxHeight :: int
  bd_uniqueFormat :: u64

definition copy_range :: "nat \<Rightarrow> nat \<Rightarrow> 'a list \<Rightarrow> 'a list \<Rightarrow> 'a list" where
  "copy_range d n src dst = take d dst @ take (n - d) (drop d src) @ drop n dst"

text \<open>\<open>errs\<close>: the outcomes of waiting for the event, the two copies and recording the event.\<close>

definition export_copy :: "cudaError \<times> cudaError \<times> cudaError \<times> cudaError \<Rightarrow> unit batch_op" where
  "export_copy errs = (\<lambda>b.
     let (eWait, eImages, eFormats, eRecord) = errs; d = ib_dirty b; n = ib_numImages b in
     if d < n then
       st_bind (CHECK_THROW eWait) (\<lambda>_.
       st_bind (CHECK_THROW eImages) (\<lambda>_ b.
         let b = b\<lparr>ib_devImages := copy_range d n (ib_hostImages b) (ib_devImages b)\<rparr> in
       st_bind (CHECK_THROW eFormats) (\<lambda>_ b.
         let b = b\<lparr>ib_devFormats := copy_range d n (ib_hostFormats b) (ib_devFormats b)\<rparr> in
       st_bind (CHECK_THROW eRecord) (\<lambda>_ b. (Inr (), b\<lparr>ib_dirty := n\<rparr>)) b) b)) b
     else (Inr (), b))"

definition batch_exportData :: "cudaError \<times> cudaError \<times> cudaError \<times> cudaError \<Rightarrow> NVCVImageBatchData batch_op" where
  "batch_exportData errs = (\<lambda>b.
     st_throw_if (\<not> ib_dirty b \<le> ib_numImages b) AssertFailed
    (st_bind (export_copy errs) (\<lambda>_.
     st_bind doUpdateCache (\<lambda>_ b.
       case (ib_cacheMaxSize b, ib_cacheUniqueFormat b) of
         (Some m, Some f) \<Rightarrow>
           (Inr \<lparr>bd_numImages = ib_numImages b, bd_imageList = ib_devImages b, bd_formatList = ib_devFormats b,
                 bd_hostFormatList = ib_hostFormats b, bd_maxWidth = width_px m, bd_maxHeight = height_px m,
                 bd_uniqueFormat = f\<rparr>, b)
       | _ \<Rightarrow> (Inl AssertFailed, b)))) b)"

section \<open>The invariant\<close>

definition size_le :: "Size2D \<Rightarrow> Size2D \<Rightarrow> bool" where
  "size_le a b \<longleftrightarrow> width_px a \<le> width_px b \<and> height_px a \<le> height_px b"

text \<open>An image reports the size of its first plane.\<close>

definition image_ok :: "IImage \<Rightarrow> bool" where
  "image_ok img \<longleftrightarrow> (\<forall>d sz. ii_export img = Inr d \<longrightarrow> ii_size img = Inr sz \<longrightarrow> sz = plane0_size (id_numPlanes d, id_planes d))"

definition objects_ok :: "IImage manager \<Rightarrow> bool" where
  "objects_ok m \<longleftrightarrow> (\<forall>r x. m_ptrObj (res m r) = Some x \<longrightarrow> image_ok x)"

definition batch_shape :: "ImageBatch \<Rightarrow> bool" where
  "batch_shape b \<longleftrightarrow> length (ib_hostImages b) = ib_capacity b \<and> length (ib_devImages b) = ib_capacity b
     \<and> length (ib_hostFormats b) = ib_capacity b \<and> length (ib_devFormats b) = ib_capacity b
     \<and> length (ib_handles b) = ib_capacity b \<and> ib_numImages b \<le> ib_capacity b \<and> ib_dirty b \<le> ib_numImages b"

definition device_current :: "ImageBatch \<Rightarrow> bool" where
  "device_current b \<longleftrightarrow> take (ib_dirty b) (ib_devImages b) = take (ib_dirty b) (ib_hostImages b)
     \<and> take (ib_dirty b) (ib_devFormats b) = take (ib_dirty b) (ib_hostFormats b)"

definition caches_ok :: "ImageBatch \<Rightarrow> bool" where
  "caches_ok b \<longleftrightarrow>
     (\<forall>m i. ib_cacheMaxSize b = Some m \<longrightarrow> i < ib_numImages b \<longrightarrow> size_le (plane0_size (ib_hostImages b ! i)) m)
   \<and> (\<forall>f i. ib_cacheUniqueFormat b = Some f \<longrightarrow> f \<noteq> NVCV_IMAGE_FORMAT_NONE \<longrightarrow> i < ib_numImages b \<longrightarrow> ib_hostFormats b ! i = f)"

definition batch_inv :: "ImageBatch \<Rightarrow> bool" where
  "batch_inv b \<longleftrightarrow> batch_shape b \<and> device_current b \<and> caches_ok b \<and> objects_ok (ib_images b)"

lemmas batch_defs = batch_inv_def batch_shape_def device_current_def caches_ok_def

text \<open>Reference counting touches the counts and the free list only, and a destroyed object is gone.\<close>

lemma objects_ok_incRef: "objects_ok m \<Longrightarrow> objects_ok (snd (incRef h m))"
  by (auto simp: objects_ok_def incRef_def res_incRef_def set_res_def Let_def split: option.splits if_splits)

lemma objects_ok_decRef: "objects_ok m \<Longrightarrow> objects_ok (snd (decRef h m))"
  by (auto simp: objects_ok_def decRef_def res_decRef_def set_res_def destroyObject_def doReturnResource_def Let_def
      split: option.splits if_splits)

lemma batch_inv_images: "batch_inv b \<Longrightarrow> objects_ok m \<Longrightarrow> batch_inv (b\<lparr>ib_images := m\<rparr>)"
  by (simp add: batch_defs)

lemma batch_inv_shrink:
  "batch_inv b \<Longrightarrow> n \<le> ib_numImages b \<Longrightarrow> ib_dirty b \<le> n \<Longrightarrow> batch_inv (b\<lparr>ib_numImages := n\<rparr>)"
  by (auto simp: batch_defs)

section \<open>Every operation keeps the invariant\<close>

text \<open>Operations that only add: they keep the invariant, the dirty index and the images there are.\<close>

definition adds :: "'a batch_op \<Rightarrow> bool" where
  "adds m \<longleftrightarrow> (\<forall>b. batch_inv b \<longrightarrow> batch_inv (snd (m b)) \<and> ib_dirty (snd (m b)) = ib_dirty b
     \<and> ib_numImages b \<le> ib_numImages (snd (m b)))"

lemma addsI:
  "(\<And>b. batch_inv b \<Longrightarrow> batch_inv (snd (m b)) \<and> ib_dirty (snd (m b)) = ib_dirty b \<and> ib_numImages b \<le> ib_numImages (snd (m b)))
     \<Longrightarrow> adds m"
  by (auto simp: adds_def)

lemma adds_return [intro]: "adds (st_return x)" "adds (st_fail e)" "adds (Pair (Inr x))"
  by (simp_all add: adds_def)

lemma adds_bind [intro]:
  assumes "adds m" "\<And>x. adds (f x)"
  shows "adds (st_bind m f)"
proof (rule addsI)
  fix b assume b: "batch_inv b"
  show "batch_inv (snd (st_bind m f b)) \<and> ib_dirty (snd (st_bind m f b)) = ib_dirty b
    \<and> ib_numImages b \<le> ib_numImages (snd (st_bind m f b))"
    using assms b unfolding adds_def
    by (cases "m b"; cases "fst (m b)") (auto simp: st_bind_def split: sum.splits, (metis le_trans snd_conv)+)
qed

lemma adds_refs [intro]: "adds (CoreObjectIncRef h)" "adds (CoreObjectDecRef h)"
proof -
  have inc: "CoreObjectIncRef h b = (fst (incRef h (ib_images b)), b\<lparr>ib_images := snd (incRef h (ib_images b))\<rparr>)"
    and dec: "CoreObjectDecRef h b = (fst (decRef h (ib_images b)), b\<lparr>ib_images := snd (decRef h (ib_images b))\<rparr>)" for b
    by (simp_all add: CoreObjectIncRef_def CoreObjectDecRef_def split_beta)
  show "adds (CoreObjectIncRef h)" "adds (CoreObjectDecRef h)"
    unfolding adds_def inc dec
    using batch_inv_images objects_ok_incRef objects_ok_decRef batch_inv_def by fastforce+
qed

lemma size_le_max: "size_le a m \<Longrightarrow> size_le a (max_size m s)" "size_le s (max_size m s)" "size_le s s"
  by (auto simp: size_le_def max_size_def)

lemma ToStaticRef_ok: "objects_ok m \<Longrightarrow> ToStaticRef ver cur m h = Inr x \<Longrightarrow> image_ok x"
  by (auto simp: objects_ok_def ToStaticRef_def ToCoreObjectPtr_def validate_def result_simps split: option.splits if_splits)

lemma doPush_inv:
  fixes s :: strided and f h
  assumes b: "batch_inv b" and n: "ib_numImages b < ib_capacity b"
  defines "b1 \<equiv> store_image s f h b"
  shows "batch_inv b1" "batch_inv (update_caches (plane0_size s) f (b1\<lparr>ib_numImages := Suc (ib_numImages b1)\<rparr>))"
proof -
  note d = b [unfolded batch_defs]
  have host: "(ib_hostImages b)[ib_numImages b := s] ! i = (if i = ib_numImages b then s else ib_hostImages b ! i)"
    "(ib_hostFormats b)[ib_numImages b := f] ! i = (if i = ib_numImages b then f else ib_hostFormats b ! i)"
    if "i \<le> ib_numImages b" for i using that d n by (auto simp: nth_list_update)
  have dev: "take (ib_dirty b) ((ib_hostImages b)[ib_numImages b := s]) = take (ib_dirty b) (ib_hostImages b)"
    "take (ib_dirty b) ((ib_hostFormats b)[ib_numImages b := f]) = take (ib_dirty b) (ib_hostFormats b)"
    using d by (auto simp: take_update_cancel)
  show "batch_inv b1" using d dev host n by (auto simp: batch_defs b1_def store_image_def)
  show "batch_inv (update_caches (plane0_size s) f (b1\<lparr>ib_numImages := Suc (ib_numImages b1)\<rparr>))"
    using d dev host n
    by (auto simp: batch_defs b1_def store_image_def update_caches_def less_Suc_eq_le size_le_max split: if_splits)
qed

lemma push_fields [simp]:
  "ib_dirty (update_caches sz f b) = ib_dirty b" "ib_numImages (update_caches sz f b) = ib_numImages b"
  "ib_dirty (store_image s f h b) = ib_dirty b" "ib_numImages (store_image s f h b) = ib_numImages b"
  by (simp_all add: update_caches_def store_image_def)

lemma adds_doPushImage [intro]: "adds (doPushImage current h)"
proof (rule addsI)
  fix b assume b: "batch_inv b"
  show "batch_inv (snd (doPushImage current h b)) \<and> ib_dirty (snd (doPushImage current h b)) = ib_dirty b
    \<and> ib_numImages b \<le> ib_numImages (snd (doPushImage current h b))"
  proof (cases "ib_numImages b < ib_capacity b")
    case True
    have ok: "sz = plane0_size (id_numPlanes d, id_planes d)"
      if "ToStaticRef ii_version current (ib_images b) h = Inr img" "ii_export img = Inr d" "ii_size img = Inr sz" for img d sz
      using ToStaticRef_ok [OF _ that(1)] b that by (auto simp: batch_inv_def image_ok_def)
    show ?thesis
    proof (cases "\<exists>img d sz. ToStaticRef ii_version current (ib_images b) h = Inr img \<and> ii_export img = Inr d \<and> ii_size img = Inr sz")
      case ex: True
      then obtain img d sz where i: "ToStaticRef ii_version current (ib_images b) h = Inr img" "ii_export img = Inr d" "ii_size img = Inr sz"
        by blast
      show ?thesis using b True doPush_inv [OF b True] i by (simp add: doPushImage_def Let_def ok [OF i])
    next
      case False
      then show ?thesis using b True doPush_inv(1) [OF b True] by (auto simp: doPushImage_def Let_def split: sum.splits)
    qed
  qed (use b in \<open>simp add: doPushImage_def\<close>)
qed

lemma adds_push_loop [intro]: "adds (push_loop current hs)"
  by (induction current hs rule: push_loop.induct) auto

lemma adds_guard:
  "adds (f :: 'a batch_op) \<Longrightarrow> adds (g :: 'a batch_op) \<Longrightarrow> adds (\<lambda>b. if P b then f b else g b)"
  by (auto simp: adds_def)

lemma adds_push_callback_loop [intro]: "adds (push_callback_loop current hs)"
proof (induction hs)
  case (Cons h hs)
  have "adds (st_fail (Throw NVCV_ERROR_OVERFLOW) :: unit batch_op)"
    "adds (st_bind (doPushImage current h) (\<lambda>_. push_callback_loop current hs))" using Cons by auto
  from adds_guard [OF this, of "\<lambda>b. ib_numImages b = ib_capacity b"] show ?case by (simp cong: if_cong)
qed auto

lemma adds_restoring [intro]: "adds m \<Longrightarrow> adds (restoring_num m)"
proof (rule addsI)
  fix b assume "adds m" "batch_inv b"
  then have m: "batch_inv (snd (m b))" "ib_dirty (snd (m b)) = ib_dirty b" "ib_numImages b \<le> ib_numImages (snd (m b))"
    by (auto simp: adds_def)
  moreover have "ib_dirty b \<le> ib_numImages b" using \<open>batch_inv b\<close> by (simp add: batch_defs)
  ultimately show "batch_inv (snd (restoring_num m b)) \<and> ib_dirty (snd (restoring_num m b)) = ib_dirty b
    \<and> ib_numImages b \<le> ib_numImages (snd (restoring_num m b))"
    by (cases "m b") (auto simp: restoring_num_def batch_inv_shrink split: sum.splits)
qed

lemma adds_CHECK_THROW [intro]: "adds (CHECK_THROW e)"
  by (auto simp: CHECK_THROW_def)

lemma adds_take_drop_refs [intro]: "adds (drop_refs hs)" "adds (take_refs hs)"
  by (induction hs) auto

lemma pushImages_inv: "batch_inv b \<Longrightarrow> batch_inv (snd (pushImages current sync images n b))"
proof -
  have "adds (st_bind (CHECK_THROW sync) (\<lambda>_. restoring_num (push_loop current hs)))" for hs by auto
  then show "batch_inv b \<Longrightarrow> batch_inv (snd (pushImages current sync images n b))"
    by (auto simp: pushImages_def st_throw_if_app adds_def split: option.splits)
qed

lemma pushImages_callback_inv: "batch_inv b \<Longrightarrow> batch_inv (snd (pushImages_callback current sync cb b))"
proof -
  have "adds (st_bind (CHECK_THROW sync) (\<lambda>_. restoring_num (push_callback_loop current hs)))" for hs by auto
  then show "batch_inv b \<Longrightarrow> batch_inv (snd (pushImages_callback current sync cb b))"
    by (auto simp: pushImages_callback_def adds_def split: option.splits)
qed

lemma getImages_inv: "batch_inv b \<Longrightarrow> batch_inv (snd (getImages i n b))"
proof -
  have "adds (st_bind (take_refs hs) (\<lambda>_. st_return hs))" for hs by auto
  then show "batch_inv b \<Longrightarrow> batch_inv (snd (getImages i n b))"
    by (auto simp: getImages_def st_throw_if_app Let_def adds_def)
qed

text \<open>Removing images: the final update, after the references are dropped.\<close>

lemma take_min_eq: "take d xs = take d ys \<Longrightarrow> take (min d n) xs = take (min d n) ys"
  by (metis min.commute take_take)

lemma batch_inv_pop:
  assumes "batch_inv b" "n \<le> ib_numImages b"
  shows "batch_inv (b\<lparr>ib_numImages := n, ib_dirty := min (ib_dirty b) n, ib_cacheMaxSize := None,
    ib_cacheUniqueFormat := (if n = 0 then None else ib_cacheUniqueFormat b)\<rparr>)"
  using assms by (auto simp: batch_defs intro: take_min_eq)

lemma popImages_inv:
  assumes "batch_inv b"
  shows "batch_inv (snd (popImages k b))"
proof -
  let ?hs = "map (\<lambda>i. ib_handles b ! i) (rev [ib_numImages b - nat k..<ib_numImages b])"
  obtain r b' where d: "drop_refs ?hs b = (r, b')" by (cases "drop_refs ?hs b")
  have "batch_inv b'" using adds_take_drop_refs(1) [of ?hs] assms d by (auto simp: adds_def dest!: spec [of _ b])
  then show ?thesis
    using assms d batch_inv_pop [of b' "ib_numImages b' - nat k"]
    by (cases r) (auto simp: popImages_def st_throw_if_app Let_def)
qed

lemma batch_inv_null_handle: "batch_inv b \<Longrightarrow> batch_inv (b\<lparr>ib_handles := (ib_handles b)[i := h]\<rparr>)"
  by (simp add: batch_defs)

lemma adds_clear_loop [intro]: "adds (clear_loop is)"
proof (induction "is")
  case (Cons i "is")
  show ?case
  proof (rule addsI)
    fix b assume b: "batch_inv b"
    let ?h = "ib_handles b ! i"
    obtain r b' where d: "CoreObjectDecRef ?h b = (r, b')" by (cases "CoreObjectDecRef ?h b")
    have b': "batch_inv b'" "ib_dirty b' = ib_dirty b" "ib_numImages b \<le> ib_numImages b'"
      using adds_refs(2) [of ?h] b d by (auto simp: adds_def dest!: spec [of _ b])
    have n: "batch_inv (b'\<lparr>ib_handles := (ib_handles b')[i := 0]\<rparr>)" using b'(1) by (rule batch_inv_null_handle)
    show "batch_inv (snd (clear_loop (i # is) b)) \<and> ib_dirty (snd (clear_loop (i # is) b)) = ib_dirty b
      \<and> ib_numImages b \<le> ib_numImages (snd (clear_loop (i # is) b))"
      using b b' n d Cons by (cases r) (force simp: adds_def)+
  qed
qed auto

lemma clear_batch_inv:
  assumes "batch_inv b"
  shows "batch_inv (snd (clear_batch b))"
proof -
  obtain r b' where d: "clear_loop [0..<ib_numImages b] b = (r, b')" by (cases "clear_loop [0..<ib_numImages b] b")
  have "batch_inv b'" using adds_clear_loop [of "[0..<ib_numImages b]"] assms d by (auto simp: adds_def dest!: spec [of _ b])
  then show ?thesis using d by (cases r) (auto simp: clear_batch_def batch_defs)
qed

text \<open>The cache loop keeps an upper bound of the sizes, and a format only if all images have it.\<close>

lemma cache_loop_sound:
  assumes "cache_loop b is (m, u) = (m', u')"
  shows "(\<forall>x. size_le x m \<longrightarrow> size_le x m') \<and> (\<forall>i \<in> set is. size_le (plane0_size (ib_hostImages b ! i)) m')
    \<and> (\<forall>f. u' = Some f \<longrightarrow> f \<noteq> 0 \<longrightarrow> (u = None \<or> u = Some f) \<and> (\<forall>i \<in> set is. ib_hostFormats b ! i = f))
    \<and> (u' = None \<longrightarrow> is = [])"
  using assms
proof (induction b "is" "(m, u)" arbitrary: m u rule: cache_loop.induct)
  case (2 b i "is" m u)
  let ?u = "case u of None \<Rightarrow> Some (ib_hostFormats b ! i)
    | Some f \<Rightarrow> Some (if f \<noteq> 0 \<and> f \<noteq> ib_hostFormats b ! i then 0 else f)"
  have "cache_loop b is (max_size m (plane0_size (ib_hostImages b ! i)), ?u) = (m', u')" using 2(2) by simp
  note ih = 2(1) [OF this]
  have u: "(u = None \<or> u = Some f) \<and> ib_hostFormats b ! i = f" if "?u = Some f" "f \<noteq> 0" for f
    using that by (auto split: option.splits if_splits)
  have "?u \<noteq> None" by (simp split: option.splits)
  then have "u' \<noteq> None" using ih 2(2) by (cases "is") auto
  then show ?case using ih u \<open>?u \<noteq> None\<close> by (auto simp: size_le_max)
qed auto

lemma doUpdateCache_sound:
  assumes "batch_inv b"
  obtains m f where "doUpdateCache b = (Inr (), b\<lparr>ib_cacheMaxSize := Some m, ib_cacheUniqueFormat := Some f\<rparr>)"
    "batch_inv (b\<lparr>ib_cacheMaxSize := Some m, ib_cacheUniqueFormat := Some f\<rparr>)"
proof (cases "ib_cacheMaxSize b \<noteq> None \<and> ib_cacheUniqueFormat b \<noteq> None")
  case True
  then obtain m f where "ib_cacheMaxSize b = Some m" "ib_cacheUniqueFormat b = Some f" by auto
  then have "b = b\<lparr>ib_cacheMaxSize := Some m, ib_cacheUniqueFormat := Some f\<rparr>" by simp
  moreover have "doUpdateCache b = (Inr (), b)" using True by (simp add: doUpdateCache_def)
  ultimately show ?thesis using that assms by metis
next
  case False
  define m0 where "m0 = (case ib_cacheMaxSize b of None \<Rightarrow> \<lparr>width_px = 0, height_px = 0\<rparr> | Some m \<Rightarrow> m)"
  obtain m u where l: "cache_loop b [0..<ib_numImages b] (m0, ib_cacheUniqueFormat b) = (m, u)" by fastforce
  note s = cache_loop_sound [OF l]
  define f where "f = (case u of Some f \<Rightarrow> f | None \<Rightarrow> NVCV_IMAGE_FORMAT_NONE)"
  have "doUpdateCache b = (Inr (), b\<lparr>ib_cacheMaxSize := Some m, ib_cacheUniqueFormat := Some f\<rparr>)"
  proof -
    have nz: "ib_numImages b = 0" if "u = None" using s that by simp
    have "\<not> (ib_cacheMaxSize b \<noteq> None \<and> ib_cacheUniqueFormat b \<noteq> None)" using False .
    then show ?thesis unfolding doUpdateCache_def m0_def [symmetric] if_not_P Let_def l
      using nz by (cases u) (simp_all only: if_False prod.case option.case f_def if_True simp_thms)
  qed
  moreover have "batch_inv (b\<lparr>ib_cacheMaxSize := Some m, ib_cacheUniqueFormat := Some f\<rparr>)"
    using assms s by (auto simp: batch_defs f_def split: option.splits)
  ultimately show ?thesis using that by blast
qed

lemma copy_range_take:
  assumes "take d dst = take d src" "d \<le> n" "n \<le> length src" "length dst = length src"
  shows "take n (copy_range d n src dst) = take n src" "length (copy_range d n src dst) = length src"
proof -
  have "take d src @ take (n - d) (drop d src) = take n src" using assms(2) by (metis le_add_diff_inverse take_add)
  then show "take n (copy_range d n src dst) = take n src" "length (copy_range d n src dst) = length src"
    using assms by (auto simp: copy_range_def)
qed

lemma batch_inv_dev:
  assumes "batch_inv b" "take (ib_dirty b) di = take (ib_dirty b) (ib_hostImages b)" "length di = ib_capacity b"
    and "take (ib_dirty b) df = take (ib_dirty b) (ib_hostFormats b)" "length df = ib_capacity b"
  shows "batch_inv (b\<lparr>ib_devImages := di, ib_devFormats := df\<rparr>)"
  using assms by (simp add: batch_defs)

lemma take_le_eq: "take n xs = take n ys \<Longrightarrow> d \<le> n \<Longrightarrow> take d xs = take d ys"
  by (metis min.absorb1 take_take)

text \<open>The copy: whatever call fails, the invariant holds; without failure the device is up to date.\<close>

lemma export_copy_inv:
  assumes "batch_inv b"
  shows "batch_inv (snd (export_copy errs b))"
    "fst (export_copy errs b) = Inr () \<Longrightarrow>
       \<exists>di df. snd (export_copy errs b) = b\<lparr>ib_devImages := di, ib_devFormats := df, ib_dirty := ib_numImages b\<rparr>"
proof -
  obtain eW eI eF eR where e: "errs = (eW, eI, eF, eR)" by (cases errs)
  let ?d = "ib_dirty b" and ?n = "ib_numImages b"
  let ?di = "copy_range ?d ?n (ib_hostImages b) (ib_devImages b)" and ?df = "copy_range ?d ?n (ib_hostFormats b) (ib_devFormats b)"
  note i = assms [unfolded batch_defs]
  have di: "take ?n ?di = take ?n (ib_hostImages b)" "length ?di = ib_capacity b"
    and df: "take ?n ?df = take ?n (ib_hostFormats b)" "length ?df = ib_capacity b"
    using copy_range_take [of ?d "ib_devImages b" "ib_hostImages b" ?n] copy_range_take [of ?d "ib_devFormats b" "ib_hostFormats b" ?n] i
    by simp_all
  have dn: "?d \<le> ?n" using i by simp
  have b1: "batch_inv (b\<lparr>ib_devImages := ?di\<rparr>)" and b2: "batch_inv (b\<lparr>ib_devImages := ?di, ib_devFormats := ?df\<rparr>)"
    and b3: "batch_inv (b\<lparr>ib_devImages := ?di, ib_devFormats := ?df, ib_dirty := ?n\<rparr>)"
    using i di df take_le_eq [OF di(1) dn] take_le_eq [OF df(1) dn] by (simp_all add: batch_defs)
  show "batch_inv (snd (export_copy errs b))"
    using assms b1 b2 b3 by (auto simp: export_copy_def e Let_def CHECK_THROW_def st_bind_def)
  show "\<exists>di df. snd (export_copy errs b) = b\<lparr>ib_devImages := di, ib_devFormats := df, ib_dirty := ib_numImages b\<rparr>"
    if "fst (export_copy errs b) = Inr ()"
  proof (cases "?d < ?n")
    case True
    then show ?thesis using that by (auto simp: export_copy_def e Let_def CHECK_THROW_def st_bind_def split: if_splits)
  next
    case False
    then have "?d = ?n" using dn by simp
    then have "snd (export_copy errs b) = b\<lparr>ib_devImages := ib_devImages b, ib_devFormats := ib_devFormats b, ib_dirty := ?n\<rparr>"
      by (simp add: export_copy_def e)
    then show ?thesis by blast
  qed
qed

lemma doUpdateCache_inv: "batch_inv b \<Longrightarrow> batch_inv (snd (doUpdateCache b))"
  by (metis doUpdateCache_sound snd_conv)

lemma batch_exportData_inv:
  assumes "batch_inv b"
  shows "batch_inv (snd (batch_exportData errs b))"
proof -
  have d: "ib_dirty b \<le> ib_numImages b" using assms by (simp add: batch_defs)
  obtain r b1 where c: "export_copy errs b = (r, b1)" by (cases "export_copy errs b")
  have b1: "batch_inv b1" using export_copy_inv(1) [OF assms, of errs] c by simp
  obtain m f where u: "doUpdateCache b1 = (Inr (), b1\<lparr>ib_cacheMaxSize := Some m, ib_cacheUniqueFormat := Some f\<rparr>)"
    "batch_inv (b1\<lparr>ib_cacheMaxSize := Some m, ib_cacheUniqueFormat := Some f\<rparr>)"
    using doUpdateCache_sound [OF b1] by blast
  show ?thesis using d c b1 u by (cases r) (simp_all add: batch_exportData_def)
qed

text \<open>A successful export: the batch is clean, its caches are filled, and the data are read off it.\<close>

lemma export_success:
  assumes b: "batch_inv b" and e: "batch_exportData errs b = (Inr d, b')"
  shows "batch_inv b' \<and> ib_dirty b' = ib_numImages b' \<and> bd_numImages d = ib_numImages b'
    \<and> bd_imageList d = ib_devImages b' \<and> bd_formatList d = ib_devFormats b'
    \<and> ib_cacheMaxSize b' = Some \<lparr>width_px = bd_maxWidth d, height_px = bd_maxHeight d\<rparr>
    \<and> ib_cacheUniqueFormat b' = Some (bd_uniqueFormat d)"
proof -
  have dirty: "ib_dirty b \<le> ib_numImages b" using b by (simp add: batch_defs)
  obtain r b1 where c: "export_copy errs b = (r, b1)" by (cases "export_copy errs b")
  have r: "r = Inr ()" using e c dirty by (cases r) (simp_all add: batch_exportData_def)
  have b1: "batch_inv b1" "ib_dirty b1 = ib_numImages b1" using export_copy_inv [OF b, of errs] c r by auto
  obtain m f where u: "doUpdateCache b1 = (Inr (), b1\<lparr>ib_cacheMaxSize := Some m, ib_cacheUniqueFormat := Some f\<rparr>)"
    "batch_inv (b1\<lparr>ib_cacheMaxSize := Some m, ib_cacheUniqueFormat := Some f\<rparr>)"
    using doUpdateCache_sound [OF b1(1)] by blast
  have "b' = b1\<lparr>ib_cacheMaxSize := Some m, ib_cacheUniqueFormat := Some f\<rparr>"
    "d = \<lparr>bd_numImages = ib_numImages b1, bd_imageList = ib_devImages b1, bd_formatList = ib_devFormats b1,
      bd_hostFormatList = ib_hostFormats b1, bd_maxWidth = width_px m, bd_maxHeight = height_px m, bd_uniqueFormat = f\<rparr>"
    using e c r u(1) dirty by (auto simp: batch_exportData_def)
  then show ?thesis using b1 u(2) by simp
qed

section \<open>Sequences of calls\<close>

datatype batch_call =
    Push cudaError "handle list option" int
  | PushCallback cudaError "handle list option"
  | Pop int
  | Get int int
  | Clear
  | MaxSize
  | UniqueFormat
  | Export "cudaError \<times> cudaError \<times> cudaError \<times> cudaError"

text \<open>The state after a call, also one that throws.\<close>

fun after_call :: "Version \<Rightarrow> batch_call \<Rightarrow> ImageBatch \<Rightarrow> ImageBatch" where
  "after_call current (Push sync hs n) b = snd (pushImages current sync hs n b)"
| "after_call current (PushCallback sync hs) b = snd (pushImages_callback current sync hs b)"
| "after_call current (Pop n) b = snd (popImages n b)"
| "after_call current (Get i n) b = snd (getImages i n b)"
| "after_call current Clear b = snd (clear_batch b)"
| "after_call current MaxSize b = snd (batch_maxSize b)"
| "after_call current UniqueFormat b = snd (uniqueFormat b)"
| "after_call current (Export errs) b = snd (batch_exportData errs b)"

lemma after_call_inv:
  assumes "batch_inv b"
  shows "batch_inv (after_call current c b)"
proof (cases c)
  case MaxSize
  obtain m f where "doUpdateCache b = (Inr (), b\<lparr>ib_cacheMaxSize := Some m, ib_cacheUniqueFormat := Some f\<rparr>)"
    "batch_inv (b\<lparr>ib_cacheMaxSize := Some m, ib_cacheUniqueFormat := Some f\<rparr>)" using doUpdateCache_sound [OF assms] by blast
  then show ?thesis using MaxSize by (simp add: batch_maxSize_def)
next
  case UniqueFormat
  obtain m f where "doUpdateCache b = (Inr (), b\<lparr>ib_cacheMaxSize := Some m, ib_cacheUniqueFormat := Some f\<rparr>)"
    "batch_inv (b\<lparr>ib_cacheMaxSize := Some m, ib_cacheUniqueFormat := Some f\<rparr>)" using doUpdateCache_sound [OF assms] by blast
  then show ?thesis using UniqueFormat by (simp add: uniqueFormat_def)
qed (use assms in \<open>simp_all add: pushImages_inv pushImages_callback_inv popImages_inv getImages_inv clear_batch_inv batch_exportData_inv\<close>)

text \<open>A batch as its constructor leaves it; the buffers hold whatever the memory held.\<close>

definition fresh_batch :: "nat \<Rightarrow> IImage manager \<Rightarrow> strided list \<Rightarrow> strided list \<Rightarrow> u64 list \<Rightarrow> u64 list \<Rightarrow> handle list \<Rightarrow> ImageBatch" where
  "fresh_batch cap m hi di hf df hs =
     \<lparr>ib_capacity = cap, ib_dirty = 0, ib_numImages = 0, ib_hostImages = hi, ib_devImages = di, ib_hostFormats = hf,
      ib_devFormats = df, ib_handles = hs, ib_cacheMaxSize = Some \<lparr>width_px = 0, height_px = 0\<rparr>,
      ib_cacheUniqueFormat = None, ib_images = m\<rparr>"

lemma fresh_batch_inv:
  "length hi = cap \<Longrightarrow> length di = cap \<Longrightarrow> length hf = cap \<Longrightarrow> length df = cap \<Longrightarrow> length hs = cap \<Longrightarrow> objects_ok m \<Longrightarrow>
     batch_inv (fresh_batch cap m hi di hf df hs)"
  by (simp add: batch_defs fresh_batch_def)

lemma calls_inv: "batch_inv b \<Longrightarrow> batch_inv (fold (after_call current) cs b)"
  by (induction cs arbitrary: b) (auto intro: after_call_inv)

text \<open>
  Property C16: what a batch exports is up to date. After any sequence of pushes, pops, clears,
  queries and exports, whether they succeed or throw, an export that succeeds hands out device
  buffers whose first entries are exactly the images in the batch and their formats, a maximal
  size that no image exceeds, and a unique format, other than none, only if every image has it.
\<close>

theorem exported_batch_is_current:
  assumes "length hi = cap" "length di = cap" "length hf = cap" "length df = cap" "length hs = cap" "objects_ok m"
    and "batch_exportData errs (fold (after_call current) cs (fresh_batch cap m hi di hf df hs)) = (Inr d, b')"
  shows "bd_numImages d = ib_numImages b' \<and> bd_numImages d \<le> length (bd_imageList d) \<and> bd_numImages d \<le> length (bd_formatList d)
    \<and> take (bd_numImages d) (bd_imageList d) = take (bd_numImages d) (ib_hostImages b')
    \<and> take (bd_numImages d) (bd_formatList d) = take (bd_numImages d) (ib_hostFormats b')
    \<and> (\<forall>i < bd_numImages d. size_le (plane0_size (ib_hostImages b' ! i)) \<lparr>width_px = bd_maxWidth d, height_px = bd_maxHeight d\<rparr>)
    \<and> (bd_uniqueFormat d \<noteq> NVCV_IMAGE_FORMAT_NONE \<longrightarrow> (\<forall>i < bd_numImages d. ib_hostFormats b' ! i = bd_uniqueFormat d))"
proof -
  have "batch_inv (fold (after_call current) cs (fresh_batch cap m hi di hf df hs))"
    by (intro calls_inv fresh_batch_inv assms(1-6))
  from export_success [OF this assms(7)] show ?thesis by (auto simp: batch_defs)
qed

section \<open>References held by the batch\<close>

text \<open>An image that can be pushed: of a live handle, pitch-linear and accessible by the device.\<close>

definition pushable :: "Version \<Rightarrow> IImage manager \<Rightarrow> handle \<Rightarrow> bool" where
  "pushable current m h \<longleftrightarrow> (case validate m h of None \<Rightarrow> False | Some img \<Rightarrow>
     major (ii_version img) = major current \<and> memLayout (ii_format img) = NVCV_MEM_LAYOUT_PL
     \<and> (case ii_export img of Inl _ \<Rightarrow> False | Inr d \<Rightarrow> id_bufferType d = NVCV_IMAGE_BUFFER_STRIDED_CUDA)
     \<and> (case ii_size img of Inl _ \<Rightarrow> False | Inr _ \<Rightarrow> True))"

definition held :: "ImageBatch \<Rightarrow> handle list" where
  "held b = take (ib_numImages b) (ib_handles b)"

lemma pushable_nonzero: "pushable current m h \<Longrightarrow> h \<noteq> 0"
  by (auto simp: pushable_def validate_def getValidResource_def)

lemma incRef_validate:
  assumes "manager_inv m" "valid_handle m h" "count_of m h + 1 < 2 ^ 31" "valid_handle m h'"
  shows "validate (snd (incRef h m)) h' = validate m h'"
proof (cases "doGetResourceFromHandle h' = doGetResourceFromHandle h")
  case True
  then have "h' = h" using valid_same [OF assms(1,4,2)] by simp
  then show ?thesis using incRef_valid [OF assms(1-3)] by simp
next
  case False
  note i = incRef_valid [OF assms(1-3)]
  show ?thesis unfolding i(1) snd_conv by (rule valid_other(3) [OF assms(1) i(2) _ _ False assms(4)]) simp_all
qed

text \<open>One image: it is written behind the others and the rest of the handles stays.\<close>

lemma doPushImage_ok:
  assumes "pushable current (ib_images b) h" "ib_numImages b < ib_capacity b"
  obtains b' where "doPushImage current h b = (Inr (), b')" "ib_numImages b' = Suc (ib_numImages b)"
    "ib_handles b' = (ib_handles b)[ib_numImages b := h]" "ib_images b' = ib_images b" "ib_capacity b' = ib_capacity b"
proof -
  have "\<exists>b'. doPushImage current h b = (Inr (), b') \<and> ib_numImages b' = Suc (ib_numImages b)
    \<and> ib_handles b' = (ib_handles b)[ib_numImages b := h] \<and> ib_images b' = ib_images b \<and> ib_capacity b' = ib_capacity b"
    using assms unfolding pushable_def
    by (auto simp: doPushImage_def ToStaticRef_def ToCoreObjectPtr_def result_simps Let_def store_image_def update_caches_def
        split: option.splits sum.splits)
  then show ?thesis using that by blast
qed

lemma push_loop_ok:
  assumes "manager_inv (ib_images b)" "length hs + ib_numImages b \<le> ib_capacity b" "length (ib_handles b) = ib_capacity b"
    and "\<forall>h \<in> set hs. valid_handle (ib_images b) h \<and> pushable current (ib_images b) h
      \<and> count_of (ib_images b) h + int (count_list hs h) < 2 ^ 31"
  shows "\<exists>b'. push_loop current hs b = (Inr (), b') \<and> ib_numImages b' = ib_numImages b + length hs \<and> held b' = held b @ hs
    \<and> length (ib_handles b') = ib_capacity b \<and> ib_capacity b' = ib_capacity b
    \<and> ib_images b' = for_each incRef hs (ib_images b)"
  using assms
proof (induction hs arbitrary: b)
  case (Cons h hs)
  let ?m = "ib_images b"
  have h: "valid_handle ?m h" "pushable current ?m h" "count_of ?m h + 1 < 2 ^ 31" using Cons.prems(4) by (simp_all add: ac_simps)
  obtain b1 where b1: "doPushImage current h b = (Inr (), b1)" "ib_numImages b1 = Suc (ib_numImages b)"
    "ib_handles b1 = (ib_handles b)[ib_numImages b := h]" "ib_images b1 = ?m" "ib_capacity b1 = ib_capacity b"
    using doPushImage_ok [OF h(2)] Cons.prems(2) by auto
  let ?b2 = "b1\<lparr>ib_images := snd (incRef h ?m)\<rparr>"
  note i = handles.inc_ok [OF Cons.prems(1) h(1,3)]
  have "\<forall>x \<in> set hs. valid_handle (ib_images ?b2) x \<and> pushable current (ib_images ?b2) x
      \<and> count_of (ib_images ?b2) x + int (count_list hs x) < 2 ^ 31"
    using Cons.prems(4) i incRef_validate [OF Cons.prems(1) h(1,3)] by (force simp: pushable_def split: if_splits)
  moreover have "push_loop current (h # hs) b = push_loop current hs ?b2"
    using b1 i pushable_nonzero [OF h(2)] by (simp add: CoreObjectIncRef_def split_beta)
  moreover have "held ?b2 = held b @ [h]"
    using Cons.prems(2,3) b1 by (simp add: held_def take_Suc_conv_app_nth)
  ultimately show ?case using Cons.IH [of ?b2] Cons.prems b1 i by fastforce
qed (auto simp: held_def)

lemma drop_refs_ok:
  assumes "manager_inv (ib_images b)"
    and "\<forall>h \<in> set hs. h \<noteq> 0 \<and> valid_handle (ib_images b) h \<and> int (count_list hs h) < count_of (ib_images b) h"
  shows "drop_refs hs b = (Inr (), b\<lparr>ib_images := for_each decRef hs (ib_images b)\<rparr>)"
  using assms
proof (induction hs arbitrary: b)
  case (Cons h hs)
  let ?m = "ib_images b"
  let ?b = "b\<lparr>ib_images := snd (decRef h ?m)\<rparr>"
  have h: "valid_handle ?m h" "1 < count_of ?m h" using Cons.prems(2) by auto
  note d = handles.dec_shared [OF Cons.prems(1) h]
  have "\<forall>x \<in> set hs. x \<noteq> 0 \<and> valid_handle (ib_images ?b) x \<and> int (count_list hs x) < count_of (ib_images ?b) x"
    using Cons.prems(2) d by (force split: if_splits)
  then show ?case using Cons.IH [of ?b] Cons.prems d by (simp add: CoreObjectDecRef_def split_beta)
qed simp

text \<open>
  Property C18: a batch owns one reference to each of its images. Pushing images whose handles are
  live appends exactly them to the handles the batch holds and adds, for every handle, as many
  references as it was pushed times, also if it is pushed repeatedly; popping them again leaves the
  batch with the handles it held and every image with the references it had.
\<close>

theorem push_pop_references:
  assumes "batch_inv b" "manager_inv (ib_images b)" "ib_capacity b < 2 ^ 31" "length hs + ib_numImages b \<le> ib_capacity b"
    and hs: "\<forall>h \<in> set hs. valid_handle (ib_images b) h \<and> pushable current (ib_images b) h
      \<and> count_of (ib_images b) h + int (count_list hs h) < 2 ^ 31"
  shows "\<exists>b1 b2. pushImages current cudaSuccess (Some hs) (int (length hs)) b = (Inr (), b1) \<and> held b1 = held b @ hs
    \<and> (\<forall>h. valid_handle (ib_images b1) h = valid_handle (ib_images b) h)
    \<and> (\<forall>h. valid_handle (ib_images b) h \<longrightarrow> count_of (ib_images b1) h = count_of (ib_images b) h + int (count_list hs h))
    \<and> popImages (int (length hs)) b1 = (Inr (), b2) \<and> held b2 = held b
    \<and> (\<forall>h. valid_handle (ib_images b2) h = valid_handle (ib_images b) h)
    \<and> (\<forall>h. valid_handle (ib_images b) h \<longrightarrow> count_of (ib_images b2) h = count_of (ib_images b) h)"
proof -
  let ?m = "ib_images b" and ?n = "ib_numImages b" and ?k = "length hs"
  have hb: "length (ib_handles b) = ib_capacity b" using assms(1) by (simp add: batch_defs)
  obtain b1 where b1: "push_loop current hs b = (Inr (), b1)" "ib_numImages b1 = ?n + ?k" "held b1 = held b @ hs"
    "length (ib_handles b1) = ib_capacity b" "ib_images b1 = for_each incRef hs ?m"
    using push_loop_ok [OF assms(2,4) hb hs] by blast
  note inc = handles.inc_all [OF assms(2), of hs]
  have c: "\<forall>h \<in> set (rev hs). h \<noteq> 0 \<and> valid_handle (ib_images b1) h \<and> int (count_list (rev hs) h) < count_of (ib_images b1) h"
    using hs inc handles.count_pos [OF assms(2)] pushable_nonzero unfolding b1(5) by (fastforce simp: count_list_rev)
  let ?m2 = "for_each decRef (rev hs) (ib_images b1)"
  have dec: "valid_handle ?m2 h = valid_handle (ib_images b1) h
      \<and> (valid_handle (ib_images b1) h \<longrightarrow> count_of ?m2 h = count_of (ib_images b1) h - int (count_list hs h))" for h
    using handles.dec_all [of "ib_images b1" "rev hs" h] c inc hs unfolding b1(5) by (auto simp: count_list_rev)
  have top: "map ((!) (ib_handles b1)) (rev [?n..<?n + ?k]) = rev hs"
  proof -
    have "hs = drop ?n (take (?n + ?k) (ib_handles b1))" using b1(2,3) hb assms(4) by (simp add: held_def)
    also have "\<dots> = map ((!) (ib_handles b1)) [?n..<?n + ?k]" by (rule sym, subst drop_take, rule nth_equalityI)
        (use b1(4) assms(4) in simp_all)
    finally show ?thesis by (metis rev_map)
  qed
  have n: "wrap32 (int ?k + int ?n) = int ?k + int ?n" using assms(3,4) by (intro wrap32_id) auto
  have "pushImages current cudaSuccess (Some hs) (int ?k) b = (Inr (), b1)"
    using b1(1) assms(4) n by (simp add: pushImages_def st_throw_if_app CHECK_THROW_def restoring_num_def)
  moreover have "\<exists>b2. popImages (int ?k) b1 = (Inr (), b2) \<and> held b2 = held b \<and> ib_images b2 = ?m2"
  proof -
    have "manager_inv (ib_images b1)" using inc hs unfolding b1(5) by blast
    note d = drop_refs_ok [OF this c]
    have "take ?n (ib_handles b1) = take ?n (held b1)" by (simp add: held_def b1(2))
    also have "\<dots> = held b" using hb assms(4) b1(3) by (simp add: held_def)
    finally show ?thesis using d top b1(2) by (simp add: popImages_def st_throw_if_app Let_def held_def)
  qed
  ultimately show ?thesis using b1(3,5) dec inc hs by auto
qed

section \<open>A batch with one image\<close>

definition demo_data :: NVCVImageData where
  "demo_data = \<lparr>id_format = nv12, id_bufferType = NVCV_IMAGE_BUFFER_STRIDED_CUDA, id_numPlanes = 2, id_planes =
     [\<lparr>pl_width = 6, pl_height = 4, pl_rowStride = 32, pl_basePtr = 4096\<rparr>,
      \<lparr>pl_width = 3, pl_height = 2, pl_rowStride = 32, pl_basePtr = 4224\<rparr>]\<rparr>"

definition demo_image :: IImage where
  "demo_image = \<lparr>ii_format = nv12, ii_export = Inr demo_data, ii_size = Inr nv12_size, ii_version = Version 0\<rparr>"

definition demo_batch :: "nat \<Rightarrow> ImageBatch" where
  "demo_batch n = fresh_batch n (demo_with demo_image) (replicate n (0, [])) (replicate n (0, [])) (replicate n 0) (replicate n 0)
     (replicate n 0)"

lemma demo_objects_ok: "objects_ok (demo_with demo_image)"
  by (auto simp: objects_ok_def demo_create fresh_resource_def image_ok_def demo_image_def plane0_size_def demo_data_def)

lemma demo_batch_inv: "batch_inv (demo_batch n)" "manager_inv (ib_images (demo_batch n))"
  by (simp_all add: demo_batch_def fresh_batch_inv demo_objects_ok) (simp add: fresh_batch_def demo_with)

lemma demo_pushable: "pushable (Version 0) (demo_with demo_image) 4097"
  by (simp add: pushable_def demo_with demo_image_def demo_data_def nv12_planes)

theorem push_pop_references_witness:
  "\<exists>b1 b2. pushImages (Version 0) cudaSuccess (Some [4097, 4097]) 2 (demo_batch 3) = (Inr (), b1) \<and> held b1 = [4097, 4097]
     \<and> count_of (ib_images b1) 4097 = 3 \<and> popImages 2 b1 = (Inr (), b2) \<and> held b2 = [] \<and> count_of (ib_images b2) 4097 = 1"
proof -
  have m: "ib_images (demo_batch 3) = demo_with demo_image" "ib_capacity (demo_batch 3) = 3" "ib_numImages (demo_batch 3) = 0"
    by (simp_all add: demo_batch_def fresh_batch_def)
  have "\<forall>h \<in> set [4097, 4097]. valid_handle (ib_images (demo_batch 3)) h \<and> pushable (Version 0) (ib_images (demo_batch 3)) h
      \<and> count_of (ib_images (demo_batch 3)) h + int (count_list [4097, 4097] h) < 2 ^ 31"
    by (simp add: m demo_with demo_pushable)
  from push_pop_references [OF demo_batch_inv, of 3 "[4097, 4097]", OF _ _ this] m
  show ?thesis using demo_with(2,3) [of demo_image] by (auto simp: held_def)
qed


lemma demo_refs:
  "ToStaticRef ii_version (Version 0) (demo_with demo_image) 4097 = Inr demo_image"
  "ToStaticRef ii_version (Version 0) m 0 = Inl (Throw NVCV_ERROR_INVALID_ARGUMENT)"
  by (simp_all add: ToStaticRef_def ToCoreObjectPtr_def demo_with result_simps)
    (simp_all add: demo_image_def validate_def getValidResource_def)

lemma demo_inc:
  "fst (incRef 4097 (demo_with x)) = Inr 2" "count_of (snd (incRef 4097 (demo_with x))) 4097 = 2"
  using handles.inc_ok [OF demo_with(1,2) [of x], of 4097] demo_with(2,3) [of x] by simp_all

lemma demo_fields:
  "ii_format demo_image = nv12" "ii_export demo_image = Inr demo_data" "ii_size demo_image = Inr nv12_size"
  "id_format demo_data = nv12" "id_bufferType demo_data = NVCV_IMAGE_BUFFER_STRIDED_CUDA" "id_numPlanes demo_data = 2"
  by (simp_all add: demo_image_def demo_data_def)

lemmas demo_simps = demo_refs demo_inc demo_fields nv12_planes CoreObjectIncRef_def CHECK_THROW_def restoring_num_def
  doPushImage_def st_throw_if_app split_beta Let_def store_image_def update_caches_def demo_batch_def fresh_batch_def

lemma two_entries: "replicate 2 x = [x, x]"
  by (simp add: numeral_2_eq_2)

definition one_image_batch :: ImageBatch where
  "one_image_batch = (demo_batch 1)\<lparr>ib_numImages := 1, ib_hostImages := [(2, id_planes demo_data)], ib_hostFormats := [nv12],
     ib_handles := [4097], ib_cacheMaxSize := Some nv12_size, ib_cacheUniqueFormat := Some nv12\<rparr>"

lemma push_one_image:
  "pushImages (Version 0) cudaSuccess (Some [4097]) 1 (demo_batch 1) =
     (Inr (), one_image_batch\<lparr>ib_images := snd (incRef 4097 (demo_with demo_image))\<rparr>)"
  "pushImages_callback (Version 0) cudaSuccess (Some [4097]) (demo_batch 1) = (Inr (), one_image_batch)"
  by (simp_all add: pushImages_def pushImages_callback_def demo_simps one_image_batch_def)

theorem exported_batch_is_current_witness:
  "\<exists>d b'. batch_exportData (cudaSuccess, cudaSuccess, cudaSuccess, cudaSuccess)
       (fold (after_call (Version 0)) [Push cudaSuccess (Some [4097]) 1] (demo_batch 1)) = (Inr d, b')
     \<and> take 1 (bd_imageList d) = [(2, id_planes demo_data)] \<and> bd_uniqueFormat d = nv12"
proof -
  let ?e = "(cudaSuccess, cudaSuccess, cudaSuccess, cudaSuccess)"
  let ?b = "fold (after_call (Version 0)) [Push cudaSuccess (Some [4097]) 1] (demo_batch 1)"
  have b: "?b = one_image_batch\<lparr>ib_images := snd (incRef 4097 (demo_with demo_image))\<rparr>"
    by (simp only: fold_simps after_call.simps push_one_image snd_conv)
  have "\<exists>d b'. batch_exportData ?e ?b = (Inr d, b') \<and> ib_hostImages b' = [(2, id_planes demo_data)]
      \<and> ib_numImages b' = 1 \<and> bd_uniqueFormat d = nv12"
    unfolding b by (simp add: batch_exportData_def export_copy_def doUpdateCache_def demo_simps one_image_batch_def)
  then obtain d b' where e: "batch_exportData ?e ?b = (Inr d, b')" and h: "ib_hostImages b' = [(2, id_planes demo_data)]"
      "ib_numImages b' = 1" "bd_uniqueFormat d = nv12"
    by blast
  note c = exported_batch_is_current [OF _ _ _ _ _ demo_objects_ok e [unfolded demo_batch_def]]
  have "take (bd_numImages d) (bd_imageList d) = take (bd_numImages d) (ib_hostImages b')" "bd_numImages d = ib_numImages b'"
    using c by auto
  then show ?thesis using h e by auto
qed

section \<open>What a failed or a partial operation leaves\<close>

text \<open>
  A push of two images of which the second handle is null fails and the batch is as long as before,
  but the reference of the first image is not given back.
\<close>

lemma failed_push_leaks:
  "\<exists>b'. pushImages (Version 0) cudaSuccess (Some [4097, 0]) 2 (demo_batch 2) = (Inl (Throw NVCV_ERROR_INVALID_ARGUMENT), b')
     \<and> held b' = [] \<and> count_of (ib_images b') 4097 = 2"
  by (simp add: pushImages_def demo_simps held_def two_entries)

text \<open>
  The callback variant takes no reference: when the batch is cleared, the reference of whoever
  returned the handle is dropped, and an image with one reference is destroyed.
\<close>

lemma callback_push_gives_reference_away:
  "\<exists>b1 b2. pushImages_callback (Version 0) cudaSuccess (Some [4097]) (demo_batch 1) = (Inr (), b1)
     \<and> count_of (ib_images b1) 4097 = 1 \<and> clear_batch b1 = (Inr (), b2) \<and> \<not> valid_handle (ib_images b2) 4097"
proof -
  have d: "fst (decRef 4097 (demo_with demo_image)) = Inr 0" "\<not> valid_handle (snd (decRef 4097 (demo_with demo_image))) 4097"
    using decRef_last [OF demo_with(1-3), of demo_image] by simp_all
  have "\<exists>b2. clear_batch one_image_batch = (Inr (), b2) \<and> \<not> valid_handle (ib_images b2) 4097"
    using d by (simp add: one_image_batch_def demo_batch_def fresh_batch_def clear_batch_def CoreObjectDecRef_def split_beta)
  moreover have "count_of (ib_images one_image_batch) 4097 = 1"
    by (simp add: one_image_batch_def demo_batch_def fresh_batch_def demo_with)
  ultimately show ?thesis using push_one_image(2) by blast
qed

text \<open>Indices whose sum wraps around pass the check and the loop reads behind the handles.\<close>

lemma getImages_wraps:
  "fst (getImages (2 ^ 31 - 1) (2 ^ 31 - 1) (demo_batch 1)) = Inl OutOfBounds"
  by (simp add: getImages_def st_throw_if_app demo_batch_def fresh_batch_def wrap32_def)

end
