(* ===== verification/Tensor_Batch.thy ===== *)
theory Tensor_Batch
  imports Image_Batch Tensor_Data
begin

text \<open>
  Batches of tensors (\<open>src/nvcv/src/priv/TensorBatch.cpp\<close>). A batch keeps the handles of its
  tensors, whose reference counts it owns through the tensor manager, and a description of each
  tensor in a pinned buffer and in a device buffer. Only a range of indices, the dirty range, is
  written and copied when the batch is exported. As for image batches, a copy queued on a stream
  takes effect at once.
\<close>

section \<open>Tensors and batches\<close>

text \<open>The virtual functions of \<open>ITensor\<close> that the batch calls.\<close>

record ITensor =
  it_rank :: int
  it_dtype :: u64
  it_layout :: NVCVTensorLayout
  it_export :: "NVCVTensorData result"
  it_version :: Version

record BatchElement =
  be_data :: ptr
  be_shape :: "int list"
  be_stride :: "int list"

record TensorBatch =
  tb_capacity :: int
  tb_dirtyBegin :: int
  tb_dirtyEnd :: int
  tb_numTensors :: int
  tb_Tensors :: "handle list"
  tb_pinned :: "BatchElement list"
  tb_dev :: "BatchElement list"
  tb_dtype :: u64
  tb_layout :: NVCVTensorLayout
  tb_rank :: int
  tb_manager :: "ITensor manager"

type_synonym 'a tb_op = "('a, TensorBatch) st"

definition with_refs :: "(handle \<Rightarrow> ITensor manager \<Rightarrow> int result \<times> ITensor manager) \<Rightarrow> handle \<Rightarrow> int tb_op" where
  "with_refs f h = (\<lambda>b. let (r, m) = f h (tb_manager b) in (r, b\<lparr>tb_manager := m\<rparr>))"

text \<open>The array of the caller is a list; reading behind it is undefined.\<close>

fun validate_loop :: "Version \<Rightarrow> TensorBatch \<Rightarrow> handle list \<Rightarrow> unit result" where
  "validate_loop current b [] = Inr ()"
| "validate_loop current b (h # hs) =
     bind_result (ToStaticRef it_version current (tb_manager b) h) (\<lambda>t.
     throw_if (tb_rank b \<noteq> -1 \<and> it_rank t \<noteq> tb_rank b) NVCV_ERROR_INVALID_ARGUMENT
    (throw_if (it_dtype t \<noteq> tb_dtype b) NVCV_ERROR_INVALID_ARGUMENT
    (throw_if (\<not> layout_eq (it_layout t) (tb_layout b)) NVCV_ERROR_INVALID_ARGUMENT
    (validate_loop current b hs))))"

definition validateTensors :: "Version \<Rightarrow> handle list \<Rightarrow> int \<Rightarrow> unit tb_op" where
  "validateTensors current tensors n = (\<lambda>b.
     (bind_result (validate_loop current b (take (nat n) tensors)) (\<lambda>_. in_bounds (n \<le> int (length tensors)) (Inr ())), b))"

definition setLayoutAndDType :: "Version \<Rightarrow> handle list \<Rightarrow> int \<Rightarrow> unit tb_op" where
  "setLayoutAndDType current tensors n = (\<lambda>b.
     if n > 0 \<and> tb_numTensors b = 0 then
       case in_bounds (tensors \<noteq> []) (ToStaticRef it_version current (tb_manager b) (hd tensors)) of
         Inl e \<Rightarrow> (Inl e, b)
       | Inr t \<Rightarrow> (Inr (), b\<lparr>tb_rank := it_rank t, tb_dtype := it_dtype t, tb_layout := it_layout t\<rparr>)
     else (Inr (), b))"

fun store_tensors :: "nat \<Rightarrow> handle list \<Rightarrow> unit tb_op" where
  "store_tensors pos [] = st_return ()"
| "store_tensors pos (h # hs) =
     st_bind (with_refs incRef h) (\<lambda>_ b.
       if pos < length (tb_Tensors b) then store_tensors (Suc pos) hs (b\<lparr>tb_Tensors := (tb_Tensors b)[pos := h]\<rparr>)
       else (Inl OutOfBounds, b))"

text \<open>The sum of the counts is taken in \<open>int\<close>.\<close>

definition pushTensors :: "Version \<Rightarrow> handle list \<Rightarrow> int \<Rightarrow> unit tb_op" where
  "pushTensors current tensors n = (\<lambda>b.
     if n = 0 then (Inr (), b)
     else
       st_throw_if (n < 0) (Throw NVCV_ERROR_INVALID_ARGUMENT)
      (st_throw_if (wrap32 (tb_numTensors b + n) > tb_capacity b) (Throw NVCV_ERROR_OVERFLOW)
      (st_bind (setLayoutAndDType current tensors n) (\<lambda>_.
       st_bind (validateTensors current tensors n) (\<lambda>_.
       st_bind (store_tensors (nat (tb_numTensors b)) (take (nat n) tensors)) (\<lambda>_ b.
         let first = (if tb_dirtyEnd b = tb_dirtyBegin b then tb_numTensors b else tb_dirtyBegin b);
             num = wrap32 (tb_numTensors b + n)
         in (Inr (), b\<lparr>tb_dirtyBegin := first, tb_numTensors := num, tb_dirtyEnd := num\<rparr>)))))) b)"

fun drop_tensors :: "nat list \<Rightarrow> unit tb_op" where
  "drop_tensors [] = st_return ()"
| "drop_tensors (i # is) = (\<lambda>b. st_bind (with_refs decRef (tb_Tensors b ! i)) (\<lambda>_. drop_tensors is) b)"

definition popTensors :: "int \<Rightarrow> unit tb_op" where
  "popTensors n = (\<lambda>b.
     st_throw_if (n < 0) (Throw NVCV_ERROR_INVALID_ARGUMENT)
    (st_throw_if (n > tb_numTensors b) (Throw NVCV_ERROR_UNDERFLOW)
    (st_bind (drop_tensors [nat (tb_numTensors b - n)..<nat (tb_numTensors b)]) (\<lambda>_ b.
       let num = tb_numTensors b - n; en = min (tb_dirtyEnd b) num;
           b = b\<lparr>tb_numTensors := num, tb_dirtyEnd := en, tb_dirtyBegin := min (tb_dirtyBegin b) en\<rparr>
       in (Inr (), if num = 0 then b\<lparr>tb_dtype := NVCV_DATA_TYPE_NONE, tb_layout := LAYOUT_MAKE '''', tb_rank := -1\<rparr> else b)))) b)"

fun take_tensor_refs :: "handle list \<Rightarrow> unit tb_op" where
  "take_tensor_refs [] = st_return ()"
| "take_tensor_refs (h # hs) = st_bind (with_refs incRef h) (\<lambda>_. take_tensor_refs hs)"

text \<open>\<open>std::copy\<close> of a range that ends before it begins, or behind the array, is undefined.\<close>

definition getTensors :: "int \<Rightarrow> int \<Rightarrow> handle list tb_op" where
  "getTensors index n = (\<lambda>b.
     st_throw_if (wrap32 (index + n) > tb_numTensors b) (Throw NVCV_ERROR_OVERFLOW)
    (st_throw_if (index < 0) (Throw NVCV_ERROR_INVALID_ARGUMENT)
    (st_throw_if (n < 0 \<or> int (length (tb_Tensors b)) < index + n) OutOfBounds
    (let hs = take (nat n) (drop (nat index) (tb_Tensors b)) in
     st_bind (take_tensor_refs hs) (\<lambda>_. st_return hs)))) b)"

text \<open>The reference of the tensor that is replaced is dropped before the new one is taken.\<close>

fun set_loop :: "nat \<Rightarrow> handle list \<Rightarrow> unit tb_op" where
  "set_loop pos [] = st_return ()"
| "set_loop pos (h # hs) = (\<lambda>b.
     if pos < length (tb_Tensors b) then
       st_bind (with_refs decRef (tb_Tensors b ! pos)) (\<lambda>_.
       st_bind (with_refs incRef h) (\<lambda>_ b. set_loop (Suc pos) hs (b\<lparr>tb_Tensors := (tb_Tensors b)[pos := h]\<rparr>))) b
     else (Inl OutOfBounds, b))"

definition setTensors :: "Version \<Rightarrow> int \<Rightarrow> handle list \<Rightarrow> int \<Rightarrow> unit tb_op" where
  "setTensors current index tensors n = (\<lambda>b.
     st_throw_if (wrap32 (index + n) > tb_numTensors b) (Throw NVCV_ERROR_OVERFLOW)
    (st_throw_if (index < 0) (Throw NVCV_ERROR_INVALID_ARGUMENT)
    (st_bind (validateTensors current tensors n) (\<lambda>_.
     st_bind (set_loop (nat index) (take (nat n) tensors)) (\<lambda>_ b.
       (Inr (),
        if tb_dirtyBegin b \<noteq> tb_dirtyEnd b
        then b\<lparr>tb_dirtyBegin := min (tb_dirtyBegin b) index, tb_dirtyEnd := max (tb_dirtyEnd b) (wrap32 (index + n))\<rparr>
        else b\<lparr>tb_dirtyBegin := index, tb_dirtyEnd := wrap32 (index + n)\<rparr>))))) b)"

definition clear_tensors :: "unit tb_op" where
  "clear_tensors = (\<lambda>b. st_bind (drop_tensors [0..<nat (tb_numTensors b)]) (\<lambda>_ b.
     (Inr (), b\<lparr>tb_numTensors := 0, tb_dirtyBegin := 0, tb_dirtyEnd := 0, tb_dtype := NVCV_DATA_TYPE_NONE,
               tb_layout := LAYOUT_MAKE '''', tb_rank := -1\<rparr>)) b)"

section \<open>Export\<close>

record NVCVTensorBatchData =
  tbd_dtype :: u64
  tbd_layout :: NVCVTensorLayout
  tbd_rank :: int
  tbd_numTensors :: int
  tbd_type :: int
  tbd_tensors :: "BatchElement list"

text \<open>Of the arrays of an element only the entries below the rank are written.\<close>

definition fill_element :: "NVCVTensorData \<Rightarrow> BatchElement \<Rightarrow> BatchElement" where
  "fill_element td e =
     \<lparr>be_data = td_basePtr td, be_shape = copy_front (take (nat (td_rank td)) (td_shape td)) (be_shape e),
      be_stride = copy_front (take (nat (td_rank td)) (td_strides td)) (be_stride e)\<rparr>"

fun fill_loop :: "Version \<Rightarrow> nat list \<Rightarrow> unit tb_op" where
  "fill_loop current [] = st_return ()"
| "fill_loop current (i # is) = (\<lambda>b.
     case bind_result (ToStaticRef it_version current (tb_manager b) (tb_Tensors b ! i)) it_export of
       Inl e \<Rightarrow> (Inl e, b)
     | Inr td \<Rightarrow>
         if td_rank td > NVCV_TENSOR_MAX_RANK then (Inl OutOfBounds, b)
         else fill_loop current is (b\<lparr>tb_pinned := (tb_pinned b)[i := fill_element td (tb_pinned b ! i)]\<rparr>))"

text \<open>\<open>errs\<close>: the outcomes of waiting for the event, of the copy and of recording the event.\<close>

definition tb_copy :: "Version \<Rightarrow> cudaError \<times> cudaError \<times> cudaError \<Rightarrow> unit tb_op" where
  "tb_copy current errs = (\<lambda>b.
     let (eWait, eCopy, eRecord) = errs in
     if tb_dirtyBegin b < tb_dirtyEnd b then
       st_bind (CHECK_THROW eWait) (\<lambda>_.
       st_bind (fill_loop current [nat (tb_dirtyBegin b)..<nat (tb_dirtyEnd b)]) (\<lambda>_.
       st_bind (CHECK_THROW eCopy) (\<lambda>_ b.
         let b = b\<lparr>tb_dev := copy_range (nat (tb_dirtyBegin b)) (nat (tb_dirtyEnd b)) (tb_pinned b) (tb_dev b)\<rparr> in
       st_bind (CHECK_THROW eRecord) (\<lambda>_ b. (Inr (), b\<lparr>tb_dirtyBegin := tb_dirtyEnd b\<rparr>)) b))) b
     else (Inr (), b))"

definition tb_exportData :: "Version \<Rightarrow> cudaError \<times> cudaError \<times> cudaError \<Rightarrow> NVCVTensorBatchData tb_op" where
  "tb_exportData current errs = st_bind (tb_copy current errs) (\<lambda>_ b.
     (Inr \<lparr>tbd_dtype = tb_dtype b, tbd_layout = tb_layout b, tbd_rank = tb_rank b, tbd_numTensors = tb_numTensors b,
           tbd_type = NVCV_TENSOR_BUFFER_STRIDED_CUDA, tbd_tensors = tb_dev b\<rparr>, b))"

section \<open>Ranges of lists\<close>

lemma nth_copy_range:
  "d \<le> e \<Longrightarrow> e \<le> length src \<Longrightarrow> length src = length dst \<Longrightarrow> j < length dst \<Longrightarrow>
     copy_range d e src dst ! j = (if d \<le> j \<and> j < e then src ! j else dst ! j)"
  by (auto simp: copy_range_def nth_append)

lemma nth_replaced:
  "p + length hs \<le> length xs \<Longrightarrow> j < length xs \<Longrightarrow>
     (take p xs @ hs @ drop (p + length hs) xs) ! j = (if p \<le> j \<and> j < p + length hs then hs ! (j - p) else xs ! j)"
  by (auto simp: nth_append)

section \<open>The invariant\<close>

text \<open>
  \<open>desc\<close> says what object each handle stands for. Handles are never reused for another object
  while the calls of a batch run, since these only take and drop references.
\<close>

definition knows :: "(handle \<Rightarrow> ITensor) \<Rightarrow> ITensor manager \<Rightarrow> bool" where
  "knows desc m \<longleftrightarrow> (\<forall>h t. validate m h = Some t \<longrightarrow> t = desc h)"

text \<open>A tensor has a rank, exports that rank, and its arrays have 15 entries.\<close>

definition tensor_ok :: "ITensor \<Rightarrow> bool" where
  "tensor_ok t \<longleftrightarrow> 0 \<le> it_rank t \<and>
     (\<forall>td. it_export t = Inr td \<longrightarrow> td_rank td = it_rank t \<and> length (td_shape td) = 15 \<and> length (td_strides td) = 15)"

definition describes :: "ITensor \<Rightarrow> BatchElement \<Rightarrow> bool" where
  "describes t e \<longleftrightarrow> (\<exists>td. it_export t = Inr td \<and> be_data e = td_basePtr td
     \<and> take (nat (td_rank td)) (be_shape e) = take (nat (td_rank td)) (td_shape td)
     \<and> take (nat (td_rank td)) (be_stride e) = take (nat (td_rank td)) (td_strides td))"

definition same_kind :: "TensorBatch \<Rightarrow> ITensor \<Rightarrow> bool" where
  "same_kind b t \<longleftrightarrow> it_rank t = tb_rank b \<and> it_dtype t = tb_dtype b \<and> layout_eq (it_layout t) (tb_layout b)"

definition tb_shape :: "TensorBatch \<Rightarrow> bool" where
  "tb_shape b \<longleftrightarrow> length (tb_Tensors b) = nat (tb_capacity b) \<and> length (tb_pinned b) = nat (tb_capacity b)
     \<and> length (tb_dev b) = nat (tb_capacity b) \<and> 0 \<le> tb_dirtyBegin b \<and> tb_dirtyBegin b \<le> tb_dirtyEnd b
     \<and> tb_dirtyEnd b \<le> tb_numTensors b \<and> tb_numTensors b \<le> tb_capacity b \<and> tb_capacity b < 2 ^ 31"

definition tb_uniform :: "(handle \<Rightarrow> ITensor) \<Rightarrow> TensorBatch \<Rightarrow> bool" where
  "tb_uniform desc b \<longleftrightarrow> (\<forall>i<nat (tb_numTensors b). same_kind b (desc (tb_Tensors b ! i)))"

definition tb_current :: "(handle \<Rightarrow> ITensor) \<Rightarrow> TensorBatch \<Rightarrow> bool" where
  "tb_current desc b \<longleftrightarrow> (\<forall>i<nat (tb_numTensors b).
     int i < tb_dirtyBegin b \<or> tb_dirtyEnd b \<le> int i \<longrightarrow> describes (desc (tb_Tensors b ! i)) (tb_dev b ! i))"

definition tb_inv :: "(handle \<Rightarrow> ITensor) \<Rightarrow> TensorBatch \<Rightarrow> bool" where
  "tb_inv desc b \<longleftrightarrow> tb_shape b \<and> knows desc (tb_manager b) \<and> tb_uniform desc b \<and> tb_current desc b"

lemmas tb_defs = tb_inv_def tb_shape_def tb_uniform_def tb_current_def same_kind_def

lemma knows_refs:
  assumes "knows desc m"
  shows "knows desc (snd (incRef h m))" "knows desc (snd (decRef h m))"
proof -
  have "validate (snd (incRef h m)) h' = validate m h'" for h'
    by (auto simp: incRef_def res_incRef_def set_res_def validate_def getValidResource_def isManagedResource_def live_def Let_def
        split: option.splits)
  moreover have "validate (snd (decRef h m)) h' \<in> {None, validate m h'}" for h'
    by (auto simp: decRef_def res_decRef_def set_res_def validate_def getValidResource_def isManagedResource_def live_def
        destroyObject_def doReturnResource_def Let_def split: option.splits)
  ultimately show "knows desc (snd (incRef h m))" "knows desc (snd (decRef h m))"
    using assms unfolding knows_def by (metis, metis empty_iff insert_iff option.distinct(1))
qed

lemma ToStaticRef_knows: "knows desc m \<Longrightarrow> ToStaticRef ver cur m h = Inr t \<Longrightarrow> t = desc h"
  by (auto simp: knows_def ToStaticRef_def ToCoreObjectPtr_def result_simps split: option.splits if_splits)

text \<open>An operation that changes the manager only, by reference counting.\<close>

definition refs_only :: "(handle \<Rightarrow> ITensor) \<Rightarrow> 'a tb_op \<Rightarrow> bool" where
  "refs_only desc m \<longleftrightarrow> (\<forall>b. knows desc (tb_manager b) \<longrightarrow>
     snd (m b) = b\<lparr>tb_manager := tb_manager (snd (m b))\<rparr> \<and> knows desc (tb_manager (snd (m b))))"

lemma refs_onlyD:
  "refs_only desc m \<Longrightarrow> knows desc (tb_manager b) \<Longrightarrow> m b = (r, b') \<Longrightarrow>
     b' = b\<lparr>tb_manager := tb_manager b'\<rparr> \<and> knows desc (tb_manager b')"
  by (metis refs_only_def snd_conv)

lemma refs_only_with [intro]: "refs_only desc (with_refs incRef h)" "refs_only desc (with_refs decRef h)"
  using knows_refs by (fastforce simp: refs_only_def with_refs_def split_beta)+

lemma refs_only_return [intro]: "refs_only desc (st_return x)" "refs_only desc (Pair (Inr x))"
  by (auto simp: refs_only_def)

lemma refs_only_bind [intro]:
  assumes "refs_only desc m" "\<And>x. refs_only desc (f x)"
  shows "refs_only desc (st_bind m f)"
  unfolding refs_only_def
proof (intro allI impI)
  fix b :: TensorBatch assume k: "knows desc (tb_manager b)"
  obtain r b1 where m: "m b = (r, b1)" by (cases "m b")
  have b1: "b1 = b\<lparr>tb_manager := tb_manager b1\<rparr>" "knows desc (tb_manager b1)" using refs_onlyD [OF assms(1) k m] by blast+
  show "snd (st_bind m f b) = b\<lparr>tb_manager := tb_manager (snd (st_bind m f b))\<rparr> \<and> knows desc (tb_manager (snd (st_bind m f b)))"
  proof (cases r)
    case (Inr x)
    obtain s b2 where f: "f x b1 = (s, b2)" by (cases "f x b1")
    have "b2 = b1\<lparr>tb_manager := tb_manager b2\<rparr>" "knows desc (tb_manager b2)" using refs_onlyD [OF assms(2) b1(2) f] by blast+
    then show ?thesis using m Inr f b1(1) by simp (metis TensorBatch.fold_congs(11) TensorBatch.update_convs(11) TensorBatch.surjective)
  qed (use m b1 in simp)
qed

lemma refs_only_apply: "(\<And>b. refs_only desc (f b)) \<Longrightarrow> refs_only desc (\<lambda>b. f b b)"
  by (auto simp: refs_only_def)

lemma drop_tensors_refs [intro]: "refs_only desc (drop_tensors is)"
proof (induction "is")
  case (Cons i "is")
  show ?case unfolding drop_tensors.simps by (rule refs_only_apply) (intro refs_only_bind refs_only_with Cons)
qed (simp add: refs_only_return)

lemma take_tensor_refs_refs [intro]: "refs_only desc (take_tensor_refs hs)"
  by (induction hs) auto

lemma tb_inv_manager: "tb_inv desc b \<Longrightarrow> knows desc m \<Longrightarrow> tb_inv desc (b\<lparr>tb_manager := m\<rparr>)"
  by (simp add: tb_defs)

lemma refs_only_inv: "refs_only desc m \<Longrightarrow> tb_inv desc b \<Longrightarrow> tb_inv desc (snd (m b))"
  using refs_onlyD [of desc m b] tb_inv_manager [of desc b] unfolding tb_inv_def by (cases "m b") (metis snd_conv)

text \<open>What the two loops that write handles leave.\<close>

lemma store_tensors_state:
  assumes "knows desc (tb_manager b)" "store_tensors pos hs b = (r, b')" "pos \<le> length (tb_Tensors b)"
  shows "b' = b\<lparr>tb_Tensors := tb_Tensors b', tb_manager := tb_manager b'\<rparr> \<and> knows desc (tb_manager b')
    \<and> length (tb_Tensors b') = length (tb_Tensors b) \<and> take pos (tb_Tensors b') = take pos (tb_Tensors b)
    \<and> (r = Inr () \<longrightarrow> pos + length hs \<le> length (tb_Tensors b) \<and> take (pos + length hs) (tb_Tensors b') = take pos (tb_Tensors b) @ hs)"
  using assms
proof (induction hs arbitrary: pos b)
  case (Cons h hs)
  obtain q b1 where i: "with_refs incRef h b = (q, b1)" by (cases "with_refs incRef h b")
  have b1: "b1 = b\<lparr>tb_manager := tb_manager b1\<rparr>" "knows desc (tb_manager b1)"
    using refs_onlyD [OF refs_only_with(1) Cons.prems(1) i] by blast+
  then have T: "tb_Tensors b1 = tb_Tensors b" by (metis TensorBatch.select_convs(5) TensorBatch.surjective TensorBatch.update_convs(11))
  show ?case
  proof (cases "(\<exists>n. q = Inr n) \<and> pos < length (tb_Tensors b)")
    case False
    then have "b' = b1" "r \<noteq> Inr ()" using Cons.prems(2) i T by (cases q; auto)+
    then show ?thesis using b1 T Cons.prems(3) by (metis TensorBatch.surjective TensorBatch.update_convs(5,11))
  next
    case True
    let ?b2 = "b1\<lparr>tb_Tensors := (tb_Tensors b)[pos := h]\<rparr>"
    have "store_tensors (Suc pos) hs ?b2 = (r, b')" using Cons.prems(2) i True T by auto
    from Cons.IH [OF _ this] b1(2) True
    have ih: "b' = ?b2\<lparr>tb_Tensors := tb_Tensors b', tb_manager := tb_manager b'\<rparr>" "knows desc (tb_manager b')"
      "length (tb_Tensors b') = length (tb_Tensors b)" "take (Suc pos) (tb_Tensors b') = take (Suc pos) ((tb_Tensors b)[pos := h])"
      "r = Inr () \<longrightarrow> Suc pos + length hs \<le> length (tb_Tensors b)
         \<and> take (Suc pos + length hs) (tb_Tensors b') = take (Suc pos) ((tb_Tensors b)[pos := h]) @ hs"
      by auto
    have up: "take (Suc pos) ((tb_Tensors b)[pos := h]) = take pos (tb_Tensors b) @ [h]"
      using True by (simp add: take_Suc_conv_app_nth)
    have "take pos (tb_Tensors b') = take pos (take (Suc pos) (tb_Tensors b'))" by simp
    also have "\<dots> = take pos (tb_Tensors b)" unfolding ih(4) up using True by simp
    finally have tp: "take pos (tb_Tensors b') = take pos (tb_Tensors b)" .
    have "b' = b\<lparr>tb_Tensors := tb_Tensors b', tb_manager := tb_manager b'\<rparr>"
      using ih(1) b1(1) by (metis TensorBatch.surjective TensorBatch.update_convs(5,11))
    then show ?thesis using ih(2,3,5) tp by (auto simp: up)
  qed
qed auto

lemma set_loop_state:
  assumes "knows desc (tb_manager b)" "set_loop pos hs b = (Inr (), b')" "pos \<le> length (tb_Tensors b)"
  shows "b' = b\<lparr>tb_Tensors := tb_Tensors b', tb_manager := tb_manager b'\<rparr> \<and> knows desc (tb_manager b')
    \<and> pos + length hs \<le> length (tb_Tensors b)
    \<and> tb_Tensors b' = take pos (tb_Tensors b) @ hs @ drop (pos + length hs) (tb_Tensors b)"
  using assms
proof (induction hs arbitrary: pos b)
  case (Cons h hs)
  have p: "pos < length (tb_Tensors b)" using Cons.prems(2) by (auto split: if_splits)
  obtain q b1 where d: "with_refs decRef (tb_Tensors b ! pos) b = (q, b1)" by (cases "with_refs decRef (tb_Tensors b ! pos) b")
  have b1: "b1 = b\<lparr>tb_manager := tb_manager b1\<rparr>" "knows desc (tb_manager b1)"
    using refs_onlyD [OF refs_only_with(2) Cons.prems(1) d] by blast+
  obtain q2 b2 where i: "with_refs incRef h b1 = (q2, b2)" by (cases "with_refs incRef h b1")
  have b2: "b2 = b1\<lparr>tb_manager := tb_manager b2\<rparr>" "knows desc (tb_manager b2)"
    using refs_onlyD [OF refs_only_with(1) b1(2) i] by blast+
  have b: "b2 = b\<lparr>tb_manager := tb_manager b2\<rparr>" using b1(1) b2(1) by (metis TensorBatch.surjective TensorBatch.update_convs(11))
  then have T: "tb_Tensors b2 = tb_Tensors b" by (metis TensorBatch.select_convs(5) TensorBatch.surjective TensorBatch.update_convs(11))
  let ?b3 = "b2\<lparr>tb_Tensors := (tb_Tensors b)[pos := h]\<rparr>"
  have "set_loop (Suc pos) hs ?b3 = (Inr (), b')"
    using Cons.prems(2) d i p T by (cases q; cases q2) auto
  from Cons.IH [OF _ this] b2(2) p
  have ih: "b' = ?b3\<lparr>tb_Tensors := tb_Tensors b', tb_manager := tb_manager b'\<rparr>" "knows desc (tb_manager b')"
    "Suc pos + length hs \<le> length (tb_Tensors b)"
    "tb_Tensors b' = take (Suc pos) ((tb_Tensors b)[pos := h]) @ hs @ drop (Suc pos + length hs) ((tb_Tensors b)[pos := h])"
    by auto
  have "take (Suc pos) ((tb_Tensors b)[pos := h]) = take pos (tb_Tensors b) @ [h]" using p by (simp add: take_Suc_conv_app_nth)
  moreover have "b' = b\<lparr>tb_Tensors := tb_Tensors b', tb_manager := tb_manager b'\<rparr>"
    using ih(1) b by (metis TensorBatch.surjective TensorBatch.update_convs(5,11))
  ultimately show ?case using ih(2-4) by auto
qed auto

text \<open>Validated tensors are of the batch's kind.\<close>

lemma validate_loop_kind:
  assumes "knows desc (tb_manager b)" "validate_loop current b hs = Inr ()" "tb_rank b \<noteq> -1" "h \<in> set hs"
  shows "same_kind b (desc h)"
  using assms
proof (induction hs)
  case (Cons x hs)
  then obtain t where t: "ToStaticRef it_version current (tb_manager b) x = Inr t" "it_rank t = tb_rank b"
    "it_dtype t = tb_dtype b" "layout_eq (it_layout t) (tb_layout b)" "validate_loop current b hs = Inr ()"
    by (auto simp: result_simps)
  then have "desc x = t" using ToStaticRef_knows [OF Cons.prems(1)] by blast
  then show ?case using Cons t by (auto simp: same_kind_def)
qed simp

section \<open>Every operation keeps the invariant\<close>

lemma tb_inv_empty:
  "tb_inv desc b \<Longrightarrow> tb_numTensors b = 0 \<Longrightarrow> tb_inv desc (b\<lparr>tb_rank := r, tb_dtype := dt, tb_layout := l\<rparr>)"
  by (simp add: tb_defs)

lemma setLayout_inv:
  assumes "tb_inv desc b" "\<forall>h. tensor_ok (desc h)"
  shows "tb_inv desc (snd (setLayoutAndDType current hs n b))
    \<and> tb_manager (snd (setLayoutAndDType current hs n b)) = tb_manager b
    \<and> tb_numTensors (snd (setLayoutAndDType current hs n b)) = tb_numTensors b
    \<and> tb_capacity (snd (setLayoutAndDType current hs n b)) = tb_capacity b
    \<and> (fst (setLayoutAndDType current hs n b) = Inr () \<longrightarrow> 0 < n \<longrightarrow>
         tb_numTensors b = 0 \<or> tb_rank b \<noteq> -1 \<longrightarrow> tb_rank (snd (setLayoutAndDType current hs n b)) \<noteq> -1)"
proof (cases "0 < n \<and> tb_numTensors b = 0")
  case True
  show ?thesis
  proof (cases "in_bounds (hs \<noteq> []) (ToStaticRef it_version current (tb_manager b) (hd hs))")
    case (Inr t)
    then have "t = desc (hd hs)" using assms(1) ToStaticRef_knows by (auto simp: in_bounds_def tb_inv_def split: if_splits)
    then have "0 \<le> it_rank t" using assms(2) by (simp add: tensor_ok_def)
    then show ?thesis using True Inr assms(1) tb_inv_empty [OF assms(1)] by (auto simp: setLayoutAndDType_def)
  qed (use True assms in \<open>simp add: setLayoutAndDType_def\<close>)
qed (use assms in \<open>auto simp: setLayoutAndDType_def\<close>)

lemma tb_rank_nonempty:
  "tb_inv desc b \<Longrightarrow> \<forall>h. tensor_ok (desc h) \<Longrightarrow> tb_numTensors b = 0 \<or> tb_rank b \<noteq> -1"
proof (rule ccontr)
  assume a: "tb_inv desc b" "\<forall>h. tensor_ok (desc h)" and "\<not> (tb_numTensors b = 0 \<or> tb_rank b \<noteq> -1)"
  then have "0 < nat (tb_numTensors b)" "tb_rank b = -1" by (auto simp: tb_defs)
  then have "it_rank (desc (tb_Tensors b ! 0)) = -1" using a(1) by (auto simp: tb_defs)
  then show False using a(2) unfolding tensor_ok_def by (metis neg_0_le_iff_le not_one_le_zero)
qed

text \<open>Tensors behind the old ones, of the batch's kind and inside the dirty range.\<close>

lemma tb_inv_append:
  assumes "tb_inv desc b" "length T = length (tb_Tensors b)" "take (nat n + length hs) T = take (nat n) (tb_Tensors b) @ hs"
    and "nat n + length hs \<le> length T" "n = tb_numTensors b" "\<forall>h \<in> set hs. same_kind b (desc h)" "0 < length hs"
    and "first = (if tb_dirtyEnd b = tb_dirtyBegin b then n else tb_dirtyBegin b)" "knows desc m"
  shows "tb_inv desc (b\<lparr>tb_Tensors := T, tb_manager := m, tb_dirtyBegin := first, tb_numTensors := n + int (length hs),
    tb_dirtyEnd := n + int (length hs)\<rparr>)"
proof -
  have n: "0 \<le> n" "n + int (length hs) \<le> tb_capacity b" using assms(1,2,4,5) by (auto simp: tb_defs)
  have old: "T ! i = tb_Tensors b ! i" if "i < nat n" for i
    using that assms(1,2,4,5) arg_cong [OF assms(3), of "\<lambda>xs. xs ! i"] by (simp add: nth_append tb_defs)
  have new: "T ! i \<in> set hs" if "nat n \<le> i" "i < nat n + length hs" for i
    using that assms(1,2,4,5) arg_cong [OF assms(3), of "\<lambda>xs. xs ! i"] by (simp add: nth_append tb_defs)
  have "same_kind b (desc (T ! i))" if "i < nat (n + int (length hs))" for i
    using that n assms(1,5,6) old [of i] new [of i] by (cases "i < nat n") (auto simp: tb_inv_def tb_uniform_def)
  moreover have "describes (desc (T ! i)) (tb_dev b ! i)"
    if "i < nat (n + int (length hs))" "int i < first \<or> n + int (length hs) \<le> int i" for i
  proof -
    have "int i < first" "first \<le> n" using that n assms(1,5,8) by (auto simp: tb_defs split: if_splits)
    then have "i < nat n" by linarith
    moreover have "int i < tb_dirtyBegin b \<or> tb_dirtyEnd b \<le> int i" using \<open>int i < first\<close> assms(8) by (auto split: if_splits)
    ultimately show ?thesis using old assms(1,5) by (auto simp: tb_inv_def tb_current_def)
  qed
  ultimately show ?thesis using assms n by (auto simp: tb_defs split: if_splits)
qed

lemma tb_inv_handles:
  "tb_inv desc c \<Longrightarrow> length T = length (tb_Tensors c) \<Longrightarrow> \<forall>i<nat (tb_numTensors c). T ! i = tb_Tensors c ! i \<Longrightarrow>
     knows desc m \<Longrightarrow> tb_inv desc (c\<lparr>tb_Tensors := T, tb_manager := m\<rparr>)"
  by (simp add: tb_inv_def tb_shape_def tb_uniform_def tb_current_def same_kind_def)

lemma pushTensors_inv:
  assumes b: "tb_inv desc b" and ok: "\<forall>h. tensor_ok (desc h)"
  shows "tb_inv desc (snd (pushTensors current hs n b))"
proof -
  define c where "c = snd (setLayoutAndDType current hs n b)"
  note sl = setLayout_inv [OF b ok, of current hs n, folded c_def]
  show ?thesis
  proof (cases "0 < n \<and> wrap32 (tb_numTensors b + n) \<le> tb_capacity b \<and> fst (setLayoutAndDType current hs n b) = Inr ()
      \<and> validate_loop current c (take (nat n) hs) = Inr () \<and> n \<le> int (length hs)")
    case False
    obtain r c' where c': "setLayoutAndDType current hs n b = (r, c')" by (cases "setLayoutAndDType current hs n b")
    have "c' = c" using c' by (simp add: c_def)
    then have "snd (pushTensors current hs n b) \<in> {b, c}"
      using False c' unfolding pushTensors_def
      by (cases r; cases "validate_loop current c (take (nat n) hs)")
        (auto simp: st_throw_if_app validateTensors_def st_bind_def in_bounds_def split: if_splits)
    then show ?thesis using b sl by auto
  next
    case True
    let ?hs = "take (nat n) hs"
    obtain q d where d: "store_tensors (nat (tb_numTensors c)) ?hs c = (q, d)" by (cases "store_tensors (nat (tb_numTensors c)) ?hs c")
    have c: "setLayoutAndDType current hs n b = (Inr (), c)" using True unfolding c_def by (metis prod.collapse)
    have kc: "knows desc (tb_manager c)" "nat (tb_numTensors c) \<le> length (tb_Tensors c)" using sl by (auto simp: tb_defs)
    note st = store_tensors_state [OF kc(1) d kc(2)]
    have rank: "tb_rank c \<noteq> -1" using sl c True tb_rank_nonempty [OF b ok] by auto
    have kind: "\<forall>h \<in> set ?hs. same_kind c (desc h)" using validate_loop_kind [OF kc(1) _ rank] True by blast
    have len: "length ?hs = nat n" using True by auto
    have run: "pushTensors current hs n b = (case q of Inl e \<Rightarrow> (Inl e, d) | Inr _ \<Rightarrow>
       (Inr (), d\<lparr>tb_dirtyBegin := (if tb_dirtyEnd d = tb_dirtyBegin d then tb_numTensors d else tb_dirtyBegin d),
          tb_numTensors := wrap32 (tb_numTensors d + n), tb_dirtyEnd := wrap32 (tb_numTensors d + n)\<rparr>))"
      using True c d sl unfolding pushTensors_def
      by (cases q) (auto simp: st_throw_if_app validateTensors_def st_bind_def Let_def)
    show ?thesis
    proof (cases q)
      case (Inl e)
      have "d = c\<lparr>tb_Tensors := tb_Tensors d, tb_manager := tb_manager d\<rparr>" using st by blast
      moreover have "tb_inv desc (c\<lparr>tb_Tensors := tb_Tensors d, tb_manager := tb_manager d\<rparr>)"
      proof (rule tb_inv_handles)
        show "\<forall>i<nat (tb_numTensors c). tb_Tensors d ! i = tb_Tensors c ! i" using st by (metis nth_take)
      qed (use sl st in blast)+
      ultimately show ?thesis using run Inl by simp
    next
      case (Inr u)
      have e: "d = c\<lparr>tb_Tensors := tb_Tensors d, tb_manager := tb_manager d\<rparr>"
        "tb_numTensors d = tb_numTensors c" "tb_dirtyEnd d = tb_dirtyEnd c" "tb_dirtyBegin d = tb_dirtyBegin c"
        using st by (blast, (metis TensorBatch.select_convs TensorBatch.surjective TensorBatch.update_convs)+)
      have t: "nat (tb_numTensors c) + nat n \<le> length (tb_Tensors c)"
        "take (nat (tb_numTensors c) + nat n) (tb_Tensors d) = take (nat (tb_numTensors c)) (tb_Tensors c) @ ?hs"
        "length (tb_Tensors d) = length (tb_Tensors c)" "knows desc (tb_manager d)"
        using st Inr len by auto
      have w: "wrap32 (tb_numTensors c + n) = tb_numTensors c + n" using t(1) sl True by (intro wrap32_id) (auto simp: tb_defs)
      let ?f = "if tb_dirtyEnd c = tb_dirtyBegin c then tb_numTensors c else tb_dirtyBegin c"
      have "tb_inv desc (c\<lparr>tb_Tensors := tb_Tensors d, tb_manager := tb_manager d, tb_dirtyBegin := ?f,
          tb_numTensors := tb_numTensors c + int (length ?hs), tb_dirtyEnd := tb_numTensors c + int (length ?hs)\<rparr>)"
        using t True len kind sl by (intro tb_inv_append [where n = "tb_numTensors c"]) auto
      moreover have "int (length ?hs) = n" using len True by simp
      moreover have "d\<lparr>tb_dirtyBegin := x, tb_numTensors := y, tb_dirtyEnd := y\<rparr> =
          c\<lparr>tb_Tensors := tb_Tensors d, tb_manager := tb_manager d, tb_dirtyBegin := x, tb_numTensors := y, tb_dirtyEnd := y\<rparr>" for x y
        using arg_cong [OF e(1), of "\<lambda>d. d\<lparr>tb_dirtyBegin := x, tb_numTensors := y, tb_dirtyEnd := y\<rparr>"] by simp
      ultimately show ?thesis unfolding run using Inr e(2-4) w by (simp split: if_split_asm)
    qed
  qed
qed

lemma popTensors_inv:
  assumes b: "tb_inv desc b"
  shows "tb_inv desc (snd (popTensors n b))"
proof (cases "0 \<le> n \<and> n \<le> tb_numTensors b")
  case True
  let ?is = "[nat (tb_numTensors b - n)..<nat (tb_numTensors b)]"
  obtain r c where d: "drop_tensors ?is b = (r, c)" by (cases "drop_tensors ?is b")
  have k: "knows desc (tb_manager b)" using b by (simp add: tb_inv_def)
  have c: "c = b\<lparr>tb_manager := tb_manager c\<rparr>" "knows desc (tb_manager c)" using refs_onlyD [OF drop_tensors_refs k d] by blast+
  have ci: "tb_inv desc c" by (subst c(1)) (rule tb_inv_manager [OF b c(2)])
  show ?thesis
  proof (cases r)
    case (Inr u)
    let ?n = "tb_numTensors c - n"
    let ?c = "c\<lparr>tb_numTensors := ?n, tb_dirtyEnd := min (tb_dirtyEnd c) ?n, tb_dirtyBegin := min (tb_dirtyBegin c) (min (tb_dirtyEnd c) ?n)\<rparr>"
    have "tb_numTensors c = tb_numTensors b" by (metis c(1) TensorBatch.select_convs(4) TensorBatch.surjective TensorBatch.update_convs(11))
    then have i: "tb_inv desc ?c" using ci True by (auto simp: tb_defs)
    have "snd (popTensors n b) = (if ?n = 0 then ?c\<lparr>tb_rank := -1, tb_dtype := NVCV_DATA_TYPE_NONE, tb_layout := LAYOUT_MAKE ''''\<rparr> else ?c)"
      using True d Inr by (simp add: popTensors_def st_throw_if_app Let_def)
    moreover have "tb_inv desc (?c\<lparr>tb_rank := -1, tb_dtype := NVCV_DATA_TYPE_NONE, tb_layout := LAYOUT_MAKE ''''\<rparr>)" if "?n = 0"
      using tb_inv_empty [OF i] that by simp
    ultimately show ?thesis using i by (simp split: if_splits)
  qed (use True d ci in \<open>simp add: popTensors_def st_throw_if_app\<close>)
qed (use b in \<open>auto simp: popTensors_def st_throw_if_app\<close>)

lemma getTensors_inv: "tb_inv desc b \<Longrightarrow> tb_inv desc (snd (getTensors i n b))"
proof -
  assume b: "tb_inv desc b"
  have "refs_only desc (st_bind (take_tensor_refs hs) (\<lambda>_. st_return hs))" for hs by blast
  from refs_only_inv [OF this b] show ?thesis using b by (simp add: getTensors_def st_throw_if_app Let_def)
qed

lemma clear_tensors_inv: "tb_inv desc b \<Longrightarrow> tb_inv desc (snd (clear_tensors b))"
proof -
  assume b: "tb_inv desc b"
  obtain r c where d: "drop_tensors [0..<nat (tb_numTensors b)] b = (r, c)" by (cases "drop_tensors [0..<nat (tb_numTensors b)] b")
  have "tb_inv desc c" using refs_only_inv [OF drop_tensors_refs b, of "[0..<nat (tb_numTensors b)]"] d by simp
  then show ?thesis using d by (cases r) (auto simp: clear_tensors_def tb_defs)
qed

text \<open>Replaced tensors are inside the dirty range.\<close>

lemma tb_inv_replace:
  assumes "tb_inv desc b" "T = take (nat i) (tb_Tensors b) @ hs @ drop (nat i + length hs) (tb_Tensors b)" "0 \<le> i"
    and "i + int (length hs) \<le> tb_numTensors b" "\<forall>h \<in> set hs. same_kind b (desc h)" "knows desc m"
    and "(first, behind) = (if tb_dirtyBegin b \<noteq> tb_dirtyEnd b
       then (min (tb_dirtyBegin b) i, max (tb_dirtyEnd b) (i + int (length hs))) else (i, i + int (length hs)))"
  shows "tb_inv desc (b\<lparr>tb_Tensors := T, tb_manager := m, tb_dirtyBegin := first, tb_dirtyEnd := behind\<rparr>)"
proof -
  have len: "length T = length (tb_Tensors b)" using assms(1-4) by (auto simp: tb_defs)
  have nth: "T ! j = (if nat i \<le> j \<and> j < nat i + length hs then hs ! (j - nat i) else tb_Tensors b ! j)" if "j < nat (tb_numTensors b)" for j
    unfolding assms(2) using that assms(1,3,4) by (intro nth_replaced) (auto simp: tb_inv_def tb_shape_def)
  have "same_kind b (desc (T ! j))" if "j < nat (tb_numTensors b)" for j
    using nth [OF that] that assms(1,5) by (auto simp: tb_inv_def tb_uniform_def)
  moreover have "describes (desc (T ! j)) (tb_dev b ! j)" if "j < nat (tb_numTensors b)" "int j < first \<or> behind \<le> int j" for j
  proof -
    have "\<not> (nat i \<le> j \<and> j < nat i + length hs)" "int j < tb_dirtyBegin b \<or> tb_dirtyEnd b \<le> int j"
      using that assms(1,3,7) by (auto simp: tb_defs split: if_splits)
    then show ?thesis using nth [OF that(1)] that(1) assms(1) unfolding tb_inv_def tb_current_def by metis
  qed
  ultimately show ?thesis using assms len by (auto simp: tb_defs split: if_splits)
qed

lemma setTensors_inv:
  assumes b: "tb_inv desc b" and ok: "\<forall>h. tensor_ok (desc h)" and n: "0 \<le> n" and i: "i < 2 ^ 31"
    and run: "setTensors current i hs n b = (Inr (), b')"
  shows "tb_inv desc b'"
proof -
  let ?hs = "take (nat n) hs"
  have g: "wrap32 (i + n) \<le> tb_numTensors b" "0 \<le> i" "validate_loop current b ?hs = Inr ()" "n \<le> int (length hs)"
    using run by (auto simp: setTensors_def st_throw_if_app validateTensors_def st_bind_Inr in_bounds_def result_simps split: if_splits)
  then have len: "length ?hs = nat n" by auto
  obtain q c where c: "set_loop (nat i) ?hs b = (q, c)" by (cases "set_loop (nat i) ?hs b")
  have q: "q = Inr ()" and b': "b' = (if tb_dirtyBegin c \<noteq> tb_dirtyEnd c
        then c\<lparr>tb_dirtyBegin := min (tb_dirtyBegin c) i, tb_dirtyEnd := max (tb_dirtyEnd c) (wrap32 (i + n))\<rparr>
        else c\<lparr>tb_dirtyBegin := i, tb_dirtyEnd := wrap32 (i + n)\<rparr>)"
    using run g c by (cases q; auto simp: setTensors_def st_throw_if_app validateTensors_def st_bind_def)+
  have k: "knows desc (tb_manager b)" using b by (simp add: tb_inv_def)
  have pos: "nat i \<le> length (tb_Tensors b)"
  proof (cases "?hs = []")
    case True
    then have "nat n = 0" using len by (simp only: list.size)
    then have "n = 0" using n by simp
    then have "wrap32 (i + n) = i" using g(2) i by simp
    then show ?thesis using g(1,2) b by (auto simp: tb_defs)
  next
    case False
    then obtain h hs' where "?hs = h # hs'" by (meson neq_Nil_conv)
    then show ?thesis using c q by (auto split: if_splits)
  qed
  note st = set_loop_state [OF k c [unfolded q] pos]
  have w: "wrap32 (i + n) = i + n" using st len n g(2) b i by (intro wrap32_id) (auto simp: tb_defs)
  have e: "c = b\<lparr>tb_Tensors := tb_Tensors c, tb_manager := tb_manager c\<rparr>" "tb_dirtyBegin c = tb_dirtyBegin b" "tb_dirtyEnd c = tb_dirtyEnd b"
    "tb_rank c = tb_rank b"
    using st by (blast, (metis TensorBatch.select_convs TensorBatch.surjective TensorBatch.update_convs)+)
  have kind: "\<forall>h \<in> set ?hs. same_kind b (desc h)"
  proof (cases "n = 0")
    case False
    then have "tb_rank b \<noteq> -1" using tb_rank_nonempty [OF b ok] g(1,2) w n by auto
    then show ?thesis using validate_loop_kind [OF k g(3)] by blast
  qed simp
  define fb where "fb = (if tb_dirtyBegin b \<noteq> tb_dirtyEnd b
      then (min (tb_dirtyBegin b) i, max (tb_dirtyEnd b) (i + int (length ?hs))) else (i, i + int (length ?hs)))"
  have "tb_inv desc (b\<lparr>tb_Tensors := tb_Tensors c, tb_manager := tb_manager c, tb_dirtyBegin := fst fb, tb_dirtyEnd := snd fb\<rparr>)"
    using b st g(1,2) w len kind n by (intro tb_inv_replace [where i = i and hs = ?hs]) (auto simp: fb_def)
  moreover have "int (length ?hs) = n" using len n by simp
  moreover have "b' = c\<lparr>tb_dirtyBegin := fst fb, tb_dirtyEnd := snd fb\<rparr>"
    using b' e(2,3) w \<open>int (length ?hs) = n\<close> by (simp add: fb_def)
  ultimately show ?thesis using e(1) by (metis TensorBatch.surjective TensorBatch.update_convs)
qed

lemma describes_fill:
  "tensor_ok t \<Longrightarrow> it_export t = Inr td \<Longrightarrow> td_rank td \<le> NVCV_TENSOR_MAX_RANK \<Longrightarrow> describes t (fill_element td e)"
  by (auto simp: tensor_ok_def describes_def fill_element_def copy_front_def)

lemma fill_loop_state:
  assumes "tb_inv desc b" "\<forall>h. tensor_ok (desc h)" "fill_loop current is b = (r, b')"
    and "\<forall>i \<in> set is. i < length (tb_pinned b)"
  shows "b' = b\<lparr>tb_pinned := tb_pinned b'\<rparr> \<and> length (tb_pinned b') = length (tb_pinned b)
    \<and> (r = Inr () \<longrightarrow> (\<forall>i. (i \<in> set is \<longrightarrow> describes (desc (tb_Tensors b ! i)) (tb_pinned b' ! i))
        \<and> (i \<notin> set is \<longrightarrow> tb_pinned b' ! i = tb_pinned b ! i)))"
  using assms
proof (induction "is" arbitrary: b)
  case (Cons i "is")
  show ?case
  proof (cases "bind_result (ToStaticRef it_version current (tb_manager b) (tb_Tensors b ! i)) it_export")
    case (Inr td)
    let ?b = "b\<lparr>tb_pinned := (tb_pinned b)[i := fill_element td (tb_pinned b ! i)]\<rparr>"
    have t: "it_export (desc (tb_Tensors b ! i)) = Inr td"
      using Inr Cons.prems(1) ToStaticRef_knows unfolding result_simps tb_inv_def by metis
    show ?thesis
    proof (cases "td_rank td > NVCV_TENSOR_MAX_RANK")
      case False
      have "tb_inv desc ?b" using Cons.prems(1) by (simp add: tb_defs)
      moreover have "fill_loop current is ?b = (r, b')" using Cons.prems(3) Inr False by simp
      ultimately have ih: "b' = ?b\<lparr>tb_pinned := tb_pinned b'\<rparr>" "length (tb_pinned b') = length (tb_pinned b)"
        "r = Inr () \<longrightarrow> (\<forall>j. (j \<in> set is \<longrightarrow> describes (desc (tb_Tensors b ! j)) (tb_pinned b' ! j))
          \<and> (j \<notin> set is \<longrightarrow> tb_pinned b' ! j = (tb_pinned b)[i := fill_element td (tb_pinned b ! i)] ! j))"
        using Cons.IH [of ?b] Cons.prems(2,4) by auto
      have "describes (desc (tb_Tensors b ! i)) (fill_element td (tb_pinned b ! i))"
        using describes_fill t Cons.prems(2) False by force
      then have "r = Inr () \<longrightarrow> describes (desc (tb_Tensors b ! i)) (tb_pinned b' ! i)"
        using ih(3) Cons.prems(4) by (cases "i \<in> set is") simp_all
      then show ?thesis using ih by auto
    qed (use Cons.prems(3) Inr in auto)
  qed (use Cons.prems(3) in auto)
qed auto

lemma tb_inv_pinned: "tb_inv desc b \<Longrightarrow> length p = length (tb_pinned b) \<Longrightarrow> tb_inv desc (b\<lparr>tb_pinned := p\<rparr>)"
  by (simp add: tb_defs)

lemma tb_copy_inv:
  assumes b: "tb_inv desc b" and ok: "\<forall>h. tensor_ok (desc h)" and run: "tb_copy current errs b = (r, b')"
  shows "tb_inv desc b' \<and> (r = Inr () \<longrightarrow> tb_dirtyBegin b' = tb_dirtyEnd b')"
proof (cases "tb_dirtyBegin b < tb_dirtyEnd b")
  case False
  then show ?thesis using b run by (cases errs) (auto simp: tb_copy_def tb_defs)
next
  case True
  obtain eW eC eR where errs: "errs = (eW, eC, eR)" by (cases errs)
  let ?d = "nat (tb_dirtyBegin b)" and ?e = "nat (tb_dirtyEnd b)"
  obtain q c where c: "fill_loop current [?d..<?e] b = (q, c)" by (cases "fill_loop current [?d..<?e] b")
  have bd: "\<forall>i \<in> set [?d..<?e]. i < length (tb_pinned b)" using b by (auto simp: tb_defs)
  obtain p where cp: "c = b\<lparr>tb_pinned := p\<rparr>" and p: "length p = length (tb_pinned b)"
    "q = Inr () \<longrightarrow> (\<forall>i. ?d \<le> i \<and> i < ?e \<longrightarrow> describes (desc (tb_Tensors b ! i)) (p ! i))"
  proof -
    note st = fill_loop_state [OF b ok c bd]
    then show thesis by (intro that [of "tb_pinned c"]) auto
  qed
  let ?dev = "copy_range ?d ?e p (tb_dev b)"
  have ci: "tb_inv desc c" unfolding cp by (rule tb_inv_pinned [OF b p(1)])
  show ?thesis
  proof (cases q)
    case (Inl e)
    then have "tb_copy current errs b = (if eW \<noteq> cudaSuccess then (Inl (Throw (TranslateError eW)), b) else (Inl e, c))"
      using c True errs by (simp add: tb_copy_def CHECK_THROW_def)
    then have "b' \<in> {b, c}" "r \<noteq> Inr ()" using run by (auto split: if_splits)
    then show ?thesis using b ci by auto
  next
    case (Inr u)
    have bounds: "?d \<le> ?e" "?e \<le> length (tb_dev b)" "length p = length (tb_dev b)" "nat (tb_numTensors b) \<le> length (tb_dev b)"
      using b p(1) by (auto simp: tb_inv_def tb_shape_def intro: nat_mono)
    have dev: "?dev ! i = (if ?d \<le> i \<and> i < ?e then p ! i else tb_dev b ! i)" if "i < nat (tb_numTensors b)" for i
      using that bounds by (intro nth_copy_range) simp_all
    have len: "length ?dev = length (tb_dev b)" using bounds by (simp add: copy_range_def)
    have all: "describes (desc (tb_Tensors b ! i)) (?dev ! i)" if "i < nat (tb_numTensors b)" for i
    proof (cases "?d \<le> i \<and> i < ?e")
      case True
      then show ?thesis using dev [OF that] p(2) Inr by auto
    next
      case False
      then show ?thesis using dev [OF that] that b by (auto simp: tb_inv_def tb_current_def tb_shape_def)
    qed
    have "tb_inv desc (b\<lparr>tb_pinned := p, tb_dev := ?dev\<rparr>)" "tb_inv desc (b\<lparr>tb_pinned := p, tb_dev := ?dev, tb_dirtyBegin := tb_dirtyEnd b\<rparr>)"
      using b p(1) len all by (simp_all add: tb_defs)
    moreover have "tb_copy current errs b = (if eW \<noteq> cudaSuccess then (Inl (Throw (TranslateError eW)), b)
        else if eC \<noteq> cudaSuccess then (Inl (Throw (TranslateError eC)), c)
        else if eR \<noteq> cudaSuccess then (Inl (Throw (TranslateError eR)), b\<lparr>tb_pinned := p, tb_dev := ?dev\<rparr>)
        else (Inr (), b\<lparr>tb_pinned := p, tb_dev := ?dev, tb_dirtyBegin := tb_dirtyEnd b\<rparr>))"
      using c True Inr unfolding errs cp by (simp add: tb_copy_def CHECK_THROW_def)
    ultimately show ?thesis using run ci b by (auto split: if_splits)
  qed
qed

section \<open>Sequences of calls\<close>

datatype tensor_batch_call =
    PushTensors "handle list" int
  | PopTensors int
  | GetTensors int int
  | SetTensors int "handle list" int
  | ClearTensors
  | ExportTensors "cudaError \<times> cudaError \<times> cudaError"

fun run_call :: "Version \<Rightarrow> tensor_batch_call \<Rightarrow> unit tb_op" where
  "run_call current (PushTensors hs n) = pushTensors current hs n"
| "run_call current (PopTensors n) = popTensors n"
| "run_call current (GetTensors i n) = st_bind (getTensors i n) (\<lambda>_. st_return ())"
| "run_call current (SetTensors i hs n) = setTensors current i hs n"
| "run_call current ClearTensors = clear_tensors"
| "run_call current (ExportTensors errs) = st_bind (tb_exportData current errs) (\<lambda>_. st_return ())"

text \<open>
  What is asked of the calls: \<open>setTensors\<close> replaces a number of tensors that is not negative, its
  index is an \<open>int\<close>, and it returns. Every other call may also fail, with any arguments.
\<close>

fun allowed_call :: "tensor_batch_call \<Rightarrow> unit result \<Rightarrow> bool" where
  "allowed_call (SetTensors i hs n) r \<longleftrightarrow> 0 \<le> n \<and> i < 2 ^ 31 \<and> r = Inr ()"
| "allowed_call _ r \<longleftrightarrow> True"

fun run_calls :: "Version \<Rightarrow> tensor_batch_call list \<Rightarrow> TensorBatch \<Rightarrow> TensorBatch option" where
  "run_calls current [] b = Some b"
| "run_calls current (c # cs) b =
     (case run_call current c b of (r, b') \<Rightarrow> if allowed_call c r then run_calls current cs b' else None)"

lemma run_call_inv:
  assumes b: "tb_inv desc b" and ok: "\<forall>h. tensor_ok (desc h)" and run: "run_call current c b = (r, b')" and al: "allowed_call c r"
  shows "tb_inv desc b'"
proof (cases c)
  case (PushTensors hs n)
  then show ?thesis using pushTensors_inv [OF b ok, of current hs n] run by simp
next
  case (PopTensors n)
  then show ?thesis using popTensors_inv [OF b, of n] run by simp
next
  case (GetTensors i n)
  obtain q d where "getTensors i n b = (q, d)" by (cases "getTensors i n b")
  then show ?thesis using getTensors_inv [OF b, of i n] run GetTensors by (cases q) auto
next
  case (SetTensors i hs n)
  then have "0 \<le> n" "i < 2 ^ 31" "setTensors current i hs n b = (Inr (), b')" using run al by simp_all
  then show ?thesis by (rule setTensors_inv [OF b ok])
next
  case ClearTensors
  then show ?thesis using clear_tensors_inv [OF b] run by simp
next
  case (ExportTensors errs)
  obtain q d where d: "tb_copy current errs b = (q, d)" by (cases "tb_copy current errs b")
  then show ?thesis using tb_copy_inv [OF b ok d] run ExportTensors by (cases q) (auto simp: tb_exportData_def)
qed

lemma run_calls_inv:
  "tb_inv desc b \<Longrightarrow> \<forall>h. tensor_ok (desc h) \<Longrightarrow> run_calls current cs b = Some b' \<Longrightarrow> tb_inv desc b'"
proof (induction cs arbitrary: b)
  case (Cons c cs)
  obtain r b1 where r: "run_call current c b = (r, b1)" by (cases "run_call current c b")
  then have "allowed_call c r" "run_calls current cs b1 = Some b'" using Cons.prems(3) by (auto split: if_splits)
  then show ?case using Cons.IH run_call_inv [OF Cons.prems(1,2) r] Cons.prems(2) by blast
qed simp

text \<open>A batch as its constructor leaves it; the buffers hold whatever the memory held.\<close>

definition new_tensor_batch :: "int \<Rightarrow> ITensor manager \<Rightarrow> handle list \<Rightarrow> BatchElement list \<Rightarrow> BatchElement list \<Rightarrow> TensorBatch" where
  "new_tensor_batch cap m hs pinned dev =
     \<lparr>tb_capacity = cap, tb_dirtyBegin = 0, tb_dirtyEnd = 0, tb_numTensors = 0, tb_Tensors = hs, tb_pinned = pinned,
      tb_dev = dev, tb_dtype = NVCV_DATA_TYPE_NONE, tb_layout = LAYOUT_MAKE '''', tb_rank = -1, tb_manager = m\<rparr>"

definition buffers_of :: "int \<Rightarrow> handle list \<Rightarrow> BatchElement list \<Rightarrow> BatchElement list \<Rightarrow> bool" where
  "buffers_of cap hs pinned dev \<longleftrightarrow> 0 \<le> cap \<and> cap < 2 ^ 31 \<and> length hs = nat cap \<and> length pinned = nat cap \<and> length dev = nat cap"

lemma new_tensor_batch_inv:
  "buffers_of cap hs pinned dev \<Longrightarrow> knows desc m \<Longrightarrow> tb_inv desc (new_tensor_batch cap m hs pinned dev)"
  by (simp add: new_tensor_batch_def buffers_of_def tb_defs)

lemma export_tensors_success:
  assumes "tb_inv desc b" "\<forall>h. tensor_ok (desc h)" "tb_exportData current errs b = (Inr d, b')"
  shows "tb_inv desc b' \<and> tb_dirtyBegin b' = tb_dirtyEnd b' \<and> tbd_numTensors d = tb_numTensors b' \<and> tbd_rank d = tb_rank b'
    \<and> tbd_dtype d = tb_dtype b' \<and> tbd_layout d = tb_layout b' \<and> tbd_tensors d = tb_dev b'"
proof -
  obtain q c where c: "tb_copy current errs b = (q, c)" by (cases "tb_copy current errs b")
  have q: "q = Inr ()" "b' = c" using assms(3) c by (cases q; simp add: tb_exportData_def)+
  then show ?thesis using tb_copy_inv [OF assms(1,2) c] assms(3) c by (auto simp: tb_exportData_def)
qed


section \<open>A batch of one tensor\<close>

definition demo_tensor :: ITensor where
  "demo_tensor = (let td = u8_tensor ''HW'' [4, 6] [32, 1] in
     \<lparr>it_rank = 2, it_dtype = td_dtype td, it_layout = td_layout td, it_export = Inr td, it_version = Version 0\<rparr>)"

definition blank :: BatchElement where
  "blank = \<lparr>be_data = 0, be_shape = replicate 15 0, be_stride = replicate 15 0\<rparr>"

definition demo_tensors :: "int \<Rightarrow> TensorBatch" where
  "demo_tensors n = new_tensor_batch n (demo_with demo_tensor) (replicate (nat n) 0) (replicate (nat n) blank) (replicate (nat n) blank)"

definition one_tensor :: "ITensor manager \<Rightarrow> TensorBatch" where
  "one_tensor m = \<lparr>tb_capacity = 1, tb_dirtyBegin = 0, tb_dirtyEnd = 1, tb_numTensors = 1, tb_Tensors = [4097], tb_pinned = [blank],
     tb_dev = [blank], tb_dtype = it_dtype demo_tensor, tb_layout = it_layout demo_tensor, tb_rank = 2, tb_manager = m\<rparr>"

lemma demo_tensor_ok: "tensor_ok demo_tensor" "it_export demo_tensor = Inr (u8_tensor ''HW'' [4, 6] [32, 1])" "it_rank demo_tensor = 2"
  "it_version demo_tensor = Version 0"
  by (simp_all add: demo_tensor_def tensor_ok_def u8_tensor_def Let_def)

lemma demo_tensor_refs:
  "ToStaticRef it_version (Version 0) (demo_with demo_tensor) 4097 = Inr demo_tensor"
  "ToStaticRef it_version (Version 0) (snd (incRef 4097 (demo_with demo_tensor))) 4097 = Inr demo_tensor"
  "ToStaticRef it_version (Version 0) m 0 = Inl (Throw NVCV_ERROR_INVALID_ARGUMENT)"
  using incRef_validate [OF demo_with(1,2), of demo_tensor 4097] demo_with(2,3) [of demo_tensor]
  by (simp_all add: ToStaticRef_def ToCoreObjectPtr_def demo_with(4) demo_tensor_ok)
    (simp add: validate_def getValidResource_def)

lemma demo_knows: "knows (\<lambda>_. demo_tensor) (demo_with demo_tensor)"
  by (auto simp: knows_def validate_def demo_create fresh_resource_def split: option.splits if_splits)

lemma push_one_tensor:
  "pushTensors (Version 0) [4097] 1 (demo_tensors 1) = (Inr (), one_tensor (snd (incRef 4097 (demo_with demo_tensor))))"
  by (simp add: pushTensors_def demo_tensors_def new_tensor_batch_def st_throw_if_app setLayoutAndDType_def validateTensors_def
      demo_tensor_refs layout_eq_def with_refs_def demo_inc(1) split_beta one_tensor_def demo_tensor_ok)


section \<open>Where the calls go wrong\<close>

text \<open>
  Replacing a tensor by itself destroys it when the batch holds the only reference: the reference
  is dropped before the new one is taken. The call throws, and the batch keeps the stale handle.
\<close>

lemma set_same_tensor_destroys:
  "\<exists>b'. setTensors (Version 0) 0 [4097] 1 (one_tensor (demo_with demo_tensor)) = (Inl (Throw NVCV_ERROR_INVALID_ARGUMENT), b')
     \<and> tb_Tensors b' = [4097] \<and> tb_numTensors b' = 1 \<and> \<not> valid_handle (tb_manager b') 4097"
proof -
  let ?m = "snd (decRef 4097 (demo_with demo_tensor))"
  note l = decRef_last [OF demo_with(1-3), of demo_tensor]
  have "addrs ?m = addrs (demo_with demo_tensor)" using l(1) by (simp add: addrs_def doReturnResource_def set_res_def)
  then have p: "proper ?m 4097" using demo_with(2) [of demo_tensor] unfolding valid_handle_def proper_def by simp
  have d: "fst (decRef 4097 (demo_with demo_tensor)) = Inr 0" "\<not> valid_handle ?m 4097" using l by simp_all
  with p have "getValidResource ?m 4097 = None" unfolding valid_handle_def by blast
  then have "incRef 4097 ?m = (Inl (Throw NVCV_ERROR_INVALID_ARGUMENT), ?m)" by (simp add: incRef_def)
  then show ?thesis using d
    by (simp add: setTensors_def st_throw_if_app validateTensors_def one_tensor_def demo_tensor_refs demo_tensor_ok layout_eq_def
        with_refs_def split_beta)
qed

text \<open>A negative number of tensors moves the dirty range: the next tensor pushed is not exported.\<close>

lemma set_negative_count_loses_update:
  "\<exists>b b1 b2 d. setTensors (Version 0) 1000 [] (- 1000) (demo_tensors 1) = (Inr (), b)
     \<and> pushTensors (Version 0) [4097] 1 b = (Inr (), b1)
     \<and> tb_exportData (Version 0) (cudaSuccess, cudaSuccess, cudaSuccess) b1 = (Inr d, b2)
     \<and> tbd_numTensors d = 1 \<and> be_data (tbd_tensors d ! 0) = 0 \<and> \<not> describes demo_tensor (tbd_tensors d ! 0)"
  by (simp add: setTensors_def pushTensors_def demo_tensors_def new_tensor_batch_def st_throw_if_app setLayoutAndDType_def
      validateTensors_def demo_tensor_refs layout_eq_def with_refs_def demo_inc(1) split_beta demo_tensor_ok tb_exportData_def
      tb_copy_def blank_def describes_def u8_tensor_def)

text \<open>A push that is refused leaves the kind of its first tensor in an empty batch.\<close>

lemma failed_push_leaves_kind:
  "\<exists>b. pushTensors (Version 0) [4097, 0] 2 (demo_tensors 2) = (Inl (Throw NVCV_ERROR_INVALID_ARGUMENT), b)
     \<and> tb_numTensors b = 0 \<and> tb_rank b = 2 \<and> tb_dtype b \<noteq> NVCV_DATA_TYPE_NONE"
  by (simp add: pushTensors_def demo_tensors_def new_tensor_batch_def st_throw_if_app setLayoutAndDType_def validateTensors_def
      demo_tensor_refs layout_eq_def demo_tensor_ok) (simp add: demo_tensor_def u8_tensor_def Let_def)

text \<open>The end of the range wraps around in \<open>int\<close>, and the copy reads behind the handles.\<close>

lemma getTensors_wraps: "fst (getTensors (2 ^ 31 - 1) 1 (demo_tensors 1)) = Inl OutOfBounds"
  by (simp add: getTensors_def st_throw_if_app demo_tensors_def new_tensor_batch_def wrap32_def)

end
