(* ===== verification/Batch_Memory.thy ===== *)
theory Batch_Memory
  imports Buffer_Blocks Mem_Requirements Tensor_Batch
begin

text \<open>
  The memory of the two batches: requirements, construction and destruction
  (\<open>ImageBatchVarShape.cpp\<close> and \<open>TensorBatch.cpp\<close>). \<open>capacity * sizeof\<close> is computed in
  \<open>size_t\<close> and stored in \<open>int64_t\<close>, which for an \<open>int\<close> capacity is the plain product.
\<close>

section \<open>Image batches\<close>

text \<open>\<open>sizeof\<close> of \<open>NVCVImageBufferStrided\<close>, of a format and of a handle; all are aligned to 8.\<close>

definition sizeof_ImageBufferStrided :: int where
  "sizeof_ImageBufferStrided = 8 + 6 * 24"

record NVCVImageBatchVarShapeRequirements =
  ibr_capacity :: int
  ibr_alignBytes :: int
  ibr_mem :: NVCVRequirements

definition ImageBatch_CalcRequirements :: "int \<Rightarrow> NVCVImageBatchVarShapeRequirements result" where
  "ImageBatch_CalcRequirements capacity =
     (let align = RoundUpNextPowerOfTwo 32 (lcm 8 (lcm 8 8)) in
      throw_if (align > NVCV_MAX_MEM_REQUIREMENTS_BLOCK_SIZE) NVCV_ERROR_INVALID_ARGUMENT
     (bind_result (AddBuffer (cudaMem Requirements_Init) (capacity * sizeof_ImageBufferStrided) align) (\<lambda>c.
      bind_result (AddBuffer c (capacity * 8) align) (\<lambda>c.
      bind_result (AddBuffer (hostMem Requirements_Init) (capacity * sizeof_ImageBufferStrided) align) (\<lambda>h.
      bind_result (AddBuffer h (capacity * 8) align) (\<lambda>h.
      bind_result (AddBuffer h (capacity * 8) align) (\<lambda>h.
      Inr \<lparr>ibr_capacity = capacity, ibr_alignBytes = align,
           ibr_mem = Requirements_Init\<lparr>cudaMem := c, hostMem := h\<rparr>\<rparr>)))))))"

text \<open>
  The buffers in the order of their allocation: device images, host images, device formats, host
  formats, handles. The assertions after the host buffers test the device buffers once more.
\<close>

definition image_batch_buffers :: "int \<Rightarrow> buffer list" where
  "image_batch_buffers capacity =
     [(NVCV_RESOURCE_MEM_CUDA, capacity * sizeof_ImageBufferStrided, 0), (NVCV_RESOURCE_MEM_HOST, capacity * sizeof_ImageBufferStrided, 0),
      (NVCV_RESOURCE_MEM_CUDA, capacity * 8, 2), (NVCV_RESOURCE_MEM_HOST, capacity * 8, 2), (NVCV_RESOURCE_MEM_HOST, capacity * 8, 4)]"

definition ImageBatch_ctor :: "NVCVImageBatchVarShapeRequirements \<Rightarrow> 's IAllocator \<Rightarrow> cudaError \<Rightarrow> (ptr list, 's) st" where
  "ImageBatch_ctor reqs alloc event = construct_buffers alloc (ibr_alignBytes reqs) (image_batch_buffers (ibr_capacity reqs)) event"

text \<open>The images go first. An exception that leaves a destructor ends the process.\<close>

definition ImageBatch_dtor :: "NVCVImageBatchVarShapeRequirements \<Rightarrow> 's IAllocator \<Rightarrow> ptr list \<Rightarrow> (unit, ImageBatch \<times> 's) st" where
  "ImageBatch_dtor reqs alloc ps = (\<lambda>(b, s). case clear_batch b of
     (Inl _, b') \<Rightarrow> (Inl Terminated, (b', s))
   | (Inr _, b') \<Rightarrow> (Inr (), (b', free_buffers alloc (ibr_alignBytes reqs) (image_batch_buffers (ibr_capacity reqs)) ps s)))"

section \<open>Tensor batches\<close>

definition sizeof_BatchElement :: int where
  "sizeof_BatchElement = 256"

record NVCVTensorBatchRequirements =
  tbr_capacity :: int
  tbr_alignBytes :: int
  tbr_mem :: NVCVRequirements

definition TensorBatch_CalcRequirements :: "int \<Rightarrow> NVCVTensorBatchRequirements result" where
  "TensorBatch_CalcRequirements capacity =
     (let align = RoundUpNextPowerOfTwo 32 128 in
      throw_if (align > NVCV_MAX_MEM_REQUIREMENTS_BLOCK_SIZE) NVCV_ERROR_INVALID_ARGUMENT
     (bind_result (AddBuffer (cudaMem Requirements_Init) (capacity * sizeof_BatchElement) align) (\<lambda>c.
      bind_result (AddBuffer (hostPinnedMem Requirements_Init) (capacity * sizeof_BatchElement) align) (\<lambda>p.
      bind_result (AddBuffer (hostMem Requirements_Init) (capacity * sizeof_BatchElement) align) (\<lambda>h.
      Inr \<lparr>tbr_capacity = capacity, tbr_alignBytes = align,
           tbr_mem = \<lparr>cudaMem = c, hostMem = h, hostPinnedMem = p\<rparr>\<rparr>)))))"

text \<open>Device buffer, pinned buffer and handles, all of the same size.\<close>

definition tensor_batch_buffers :: "int \<Rightarrow> buffer list" where
  "tensor_batch_buffers capacity =
     [(NVCV_RESOURCE_MEM_CUDA, capacity * sizeof_BatchElement, 0), (NVCV_RESOURCE_MEM_HOST_PINNED, capacity * sizeof_BatchElement, 1),
      (NVCV_RESOURCE_MEM_HOST, capacity * sizeof_BatchElement, 2)]"

definition TensorBatch_ctor :: "NVCVTensorBatchRequirements \<Rightarrow> 's IAllocator \<Rightarrow> cudaError \<Rightarrow> (ptr list, 's) st" where
  "TensorBatch_ctor reqs alloc event = construct_buffers alloc (tbr_alignBytes reqs) (tensor_batch_buffers (tbr_capacity reqs)) event"

definition TensorBatch_dtor :: "NVCVTensorBatchRequirements \<Rightarrow> 's IAllocator \<Rightarrow> ptr list \<Rightarrow> (unit, TensorBatch \<times> 's) st" where
  "TensorBatch_dtor reqs alloc ps = (\<lambda>(b, s). case drop_tensors [0..<nat (tb_numTensors b)] b of
     (Inl _, b') \<Rightarrow> (Inl Terminated, (b', s))
   | (Inr _, b') \<Rightarrow> (Inr (), (b', free_buffers alloc (tbr_alignBytes reqs) (tensor_batch_buffers (tbr_capacity reqs)) ps s)))"

section \<open>No memory is lost\<close>

lemma batch_kinds: "kinds_ok (image_batch_buffers n)" "kinds_ok (tensor_batch_buffers n)"
  by (simp_all add: kinds_ok_def kind_ok_def image_batch_buffers_def tensor_batch_buffers_def)

text \<open>
  Property C22: batches own their memory. With an allocator that keeps its contract, a constructor
  that throws, whichever allocation or event creation failed, leaves exactly the blocks in use that
  were in use before; one that returns has added blocks that were not in use, and a destructor that
  returns releases exactly them.
\<close>

theorem batch_memory_balanced:
  assumes "honest used alloc"
  shows "(case ImageBatch_ctor ireqs alloc event s of
       (Inl e, s') \<Rightarrow> e = AssertFailed \<or> used s' = used s
     | (Inr ps, s') \<Rightarrow> length ps = 5 \<and> used s \<subseteq> used s' \<and>
         (case ImageBatch_dtor ireqs alloc ps (b, s') of (Inl e, _) \<Rightarrow> e = Terminated | (Inr _, (_, s'')) \<Rightarrow> used s'' = used s))
    \<and> (case TensorBatch_ctor treqs alloc event s of
       (Inl e, s') \<Rightarrow> e = AssertFailed \<or> used s' = used s
     | (Inr ps, s') \<Rightarrow> length ps = 3 \<and> used s \<subseteq> used s' \<and>
         (case TensorBatch_dtor treqs alloc ps (tb, s') of (Inl e, _) \<Rightarrow> e = Terminated | (Inr _, (_, s'')) \<Rightarrow> used s'' = used s))"
  using construct_buffers_live [OF assms batch_kinds(1), where align = "ibr_alignBytes ireqs" and event = event and s = s, of "ibr_capacity ireqs"]
    construct_buffers_live [OF assms batch_kinds(2), where align = "tbr_alignBytes treqs" and event = event and s = s, of "tbr_capacity treqs"]
  by (auto simp: ImageBatch_ctor_def ImageBatch_dtor_def TensorBatch_ctor_def TensorBatch_dtor_def image_batch_buffers_def
      tensor_batch_buffers_def split: prod.splits sum.splits)

section \<open>The requirements are what is allocated\<close>

definition mem_of :: "int \<Rightarrow> NVCVRequirements \<Rightarrow> NVCVMemRequirements" where
  "mem_of k r = (if k = NVCV_RESOURCE_MEM_HOST then hostMem r else if k = NVCV_RESOURCE_MEM_CUDA then cudaMem r else hostPinnedMem r)"

definition buffer_bytes :: "int \<Rightarrow> buffer list \<Rightarrow> int" where
  "buffer_bytes k bs = sum_list (map (\<lambda>b. fst (snd b)) (filter (\<lambda>b. fst b = k) bs))"

lemma align_values: "RoundUpNextPowerOfTwo 32 (lcm 8 (lcm 8 8)) = 8" "RoundUpNextPowerOfTwo 32 128 = 128"
  by code_simp+

lemma DivUp_exact: "0 < a \<Longrightarrow> DivUp (q * a) a = q"
proof -
  assume a: "0 < a"
  then have "(q * a + (a - 1)) div a = q + (a - 1) div a" by simp
  also have "(a - 1) div a = 0" using a by simp
  finally show ?thesis by (simp add: DivUp_def)
qed

text \<open>Only blocks of one size, \<open>c\<close> of them: adding a buffer of a multiple of that size keeps the count exact.\<close>

definition only :: "nat \<Rightarrow> int \<Rightarrow> NVCVMemRequirements \<Rightarrow> bool" where
  "only k c m \<longleftrightarrow> wf_mem m \<and> numBlocks m ! k = c \<and> mem_bytes m = c * 2 ^ k"

lemma AddBuffer_only:
  assumes "only k c m" "k < 32" "0 \<le> q" "c + q \<le> INT64_MAX" "sz = q * 2 ^ k" "a = 2 ^ k"
  shows "\<exists>m'. AddBuffer m sz a = Inr m' \<and> only k (c + q) m'"
proof -
  let ?m = "m\<lparr>numBlocks := (numBlocks m)[k := c + q]\<rparr>"
  have m: "wf_mem m" "numBlocks m ! k = c" "mem_bytes m = c * 2 ^ k" using assms(1) by (simp_all add: only_def)
  have k: "k < NVCV_MAX_MEM_REQUIREMENTS_LOG2_BLOCK_SIZE" using assms(2) by (simp add: NVCV_MAX_MEM_REQUIREMENTS_LOG2_BLOCK_SIZE_def)
  then have v: "valid_block a" using assms(6) by (auto simp: valid_block_def)
  have sz: "0 \<le> sz" "DivUp \<bar>sz\<bar> (2 ^ k) = q" "DivUp sz (2 ^ k) = q"
    using assms(3,5) DivUp_exact [of "2 ^ k" q] by (simp_all add: abs_of_nonneg)
  have ok: "AddBuffer m sz a = Inr ?m" unfolding assms(6) AddBuffer_block [OF k] Let_def m(2) sz(2) using sz(1) assms(4) by simp
  have "mem_bytes ?m = c * 2 ^ k + q * 2 ^ k" using AddBuffer_bytes [OF m(1) ok v sz(1)] m(3) assms(6) sz(3) by simp
  then have "only k (c + q) ?m" using AddBuffer_wf [OF m(1) ok v] m(1) k by (simp add: only_def wf_mem_def distrib_right)
  then show ?thesis using ok by blast
qed

lemma only_Init: "k < 32 \<Longrightarrow> only k 0 (cudaMem Requirements_Init)" "k < 32 \<Longrightarrow> only k 0 (hostMem Requirements_Init)"
  "k < 32 \<Longrightarrow> only k 0 (hostPinnedMem Requirements_Init)"
proof -
  assume k: "k < 32"
  have "mem_bytes mem_zero = 0" by (simp add: mem_bytes_def mem_zero_def NVCV_MAX_MEM_REQUIREMENTS_LOG2_BLOCK_SIZE_def eval_nat_numeral)
  then have "only k 0 mem_zero" using k
    by (simp add: only_def) (simp add: mem_zero_def NVCV_MAX_MEM_REQUIREMENTS_LOG2_BLOCK_SIZE_def)
  then show "only k 0 (cudaMem Requirements_Init)" "only k 0 (hostMem Requirements_Init)" "only k 0 (hostPinnedMem Requirements_Init)"
    by (simp_all add: Requirements_Init_def)
qed

lemma image_batch_requirements:
  assumes "0 \<le> n" "n < 2 ^ 31"
  shows "\<exists>r. ImageBatch_CalcRequirements n = Inr r \<and> ibr_capacity r = n
    \<and> (\<forall>k. kind_ok k \<longrightarrow> mem_bytes (mem_of k (ibr_mem r)) = buffer_bytes k (image_batch_buffers n))"
proof -
  let ?z = "n * sizeof_ImageBufferStrided"
  have q: "0 \<le> n * 19" "0 + n * 19 \<le> INT64_MAX" "0 + n * 19 + n \<le> INT64_MAX" "0 + n * 19 + n + n \<le> INT64_MAX"
    using assms by (simp_all add: INT64_MAX_def)
  have e: "(3 :: nat) < 32" "?z = n * 19 * 2 ^ 3" "n * 8 = n * 2 ^ 3" "(8 :: int) = 2 ^ 3" by (simp_all add: sizeof_ImageBufferStrided_def)
  obtain c where c: "AddBuffer (cudaMem Requirements_Init) ?z 8 = Inr c" "only 3 (0 + n * 19) c"
    using AddBuffer_only [OF only_Init(1) [OF e(1)] e(1) q(1,2) e(2,4)] by blast
  obtain d where d: "AddBuffer c (n * 8) 8 = Inr d" "only 3 (0 + n * 19 + n) d"
    using AddBuffer_only [OF c(2) e(1) assms(1) q(3) e(3,4)] by blast
  obtain h where h: "AddBuffer (hostMem Requirements_Init) ?z 8 = Inr h" "only 3 (0 + n * 19) h"
    using AddBuffer_only [OF only_Init(2) [OF e(1)] e(1) q(1,2) e(2,4)] by blast
  obtain i where i: "AddBuffer h (n * 8) 8 = Inr i" "only 3 (0 + n * 19 + n) i"
    using AddBuffer_only [OF h(2) e(1) assms(1) q(3) e(3,4)] by blast
  obtain j where j: "AddBuffer i (n * 8) 8 = Inr j" "only 3 (0 + n * 19 + n + n) j"
    using AddBuffer_only [OF i(2) e(1) assms(1) q(4) e(3,4)] by blast
  have "ImageBatch_CalcRequirements n = Inr \<lparr>ibr_capacity = n, ibr_alignBytes = 8, ibr_mem = Requirements_Init\<lparr>cudaMem := d, hostMem := j\<rparr>\<rparr>"
    unfolding ImageBatch_CalcRequirements_def align_values Let_def using c(1) d(1) h(1) i(1) j(1)
    by (simp add: NVCV_MAX_MEM_REQUIREMENTS_BLOCK_SIZE_def NVCV_MAX_MEM_REQUIREMENTS_LOG2_BLOCK_SIZE_def)
  moreover have "mem_bytes d = n * 160" "mem_bytes j = n * 168" "mem_bytes (hostPinnedMem Requirements_Init) = 0"
    using d(2) j(2) only_Init(3) [of 3] by (simp_all add: only_def)
  ultimately show ?thesis
    by (auto simp: kind_ok_def mem_of_def buffer_bytes_def image_batch_buffers_def sizeof_ImageBufferStrided_def)
qed

lemma tensor_batch_requirements:
  assumes "0 \<le> n" "n < 2 ^ 31"
  shows "\<exists>r. TensorBatch_CalcRequirements n = Inr r \<and> tbr_capacity r = n
    \<and> (\<forall>k. kind_ok k \<longrightarrow> mem_bytes (mem_of k (tbr_mem r)) = buffer_bytes k (tensor_batch_buffers n))"
proof -
  let ?z = "n * sizeof_BatchElement"
  have q: "0 \<le> n * 2" "0 + n * 2 \<le> INT64_MAX" using assms by (simp_all add: INT64_MAX_def)
  have e: "(7 :: nat) < 32" "?z = n * 2 * 2 ^ 7" "(128 :: int) = 2 ^ 7" by (simp_all add: sizeof_BatchElement_def)
  obtain c where c: "AddBuffer (cudaMem Requirements_Init) ?z 128 = Inr c" "only 7 (0 + n * 2) c"
    using AddBuffer_only [OF only_Init(1) [OF e(1)] e(1) q e(2,3)] by blast
  obtain p where p: "AddBuffer (hostPinnedMem Requirements_Init) ?z 128 = Inr p" "only 7 (0 + n * 2) p"
    using AddBuffer_only [OF only_Init(3) [OF e(1)] e(1) q e(2,3)] by blast
  obtain h where h: "AddBuffer (hostMem Requirements_Init) ?z 128 = Inr h" "only 7 (0 + n * 2) h"
    using AddBuffer_only [OF only_Init(2) [OF e(1)] e(1) q e(2,3)] by blast
  have "TensorBatch_CalcRequirements n = Inr \<lparr>tbr_capacity = n, tbr_alignBytes = 128,
      tbr_mem = \<lparr>cudaMem = c, hostMem = h, hostPinnedMem = p\<rparr>\<rparr>"
    unfolding TensorBatch_CalcRequirements_def align_values Let_def using c(1) p(1) h(1)
    by (simp add: NVCV_MAX_MEM_REQUIREMENTS_BLOCK_SIZE_def NVCV_MAX_MEM_REQUIREMENTS_LOG2_BLOCK_SIZE_def)
  moreover have "mem_bytes c = n * 256" "mem_bytes p = n * 256" "mem_bytes h = n * 256"
    using c(2) p(2) h(2) by (simp_all add: only_def)
  ultimately show ?thesis
    by (auto simp: kind_ok_def mem_of_def buffer_bytes_def tensor_batch_buffers_def sizeof_BatchElement_def)
qed

text \<open>
  Property C39: the requirements of a batch are what it allocates. For every capacity the calculation
  succeeds, and for each kind of memory the bytes it announces are the sum of the sizes of the
  buffers of that kind that the constructor asks the allocator for.
\<close>

theorem batch_requirements_exact:
  assumes "0 \<le> n" "n < 2 ^ 31"
  shows "(\<exists>r. ImageBatch_CalcRequirements n = Inr r
      \<and> (\<forall>k. kind_ok k \<longrightarrow> mem_bytes (mem_of k (ibr_mem r)) = buffer_bytes k (image_batch_buffers (ibr_capacity r))))
    \<and> (\<exists>r. TensorBatch_CalcRequirements n = Inr r
      \<and> (\<forall>k. kind_ok k \<longrightarrow> mem_bytes (mem_of k (tbr_mem r)) = buffer_bytes k (tensor_batch_buffers (tbr_capacity r))))"
  using image_batch_requirements [OF assms] tensor_batch_requirements [OF assms] by metis

theorem batch_requirements_exact_witness:
  "\<exists>r. ImageBatch_CalcRequirements 10 = Inr r \<and> mem_bytes (cudaMem (ibr_mem r)) = buffer_bytes 1 (image_batch_buffers (ibr_capacity r))"
proof -
  have "(0 :: int) \<le> 10" "(10 :: int) < 2 ^ 31" by simp_all
  from batch_requirements_exact [OF this] obtain r where "ImageBatch_CalcRequirements 10 = Inr r"
    "\<forall>k. kind_ok k \<longrightarrow> mem_bytes (mem_of k (ibr_mem r)) = buffer_bytes k (image_batch_buffers (ibr_capacity r))" by blast
  then show ?thesis by (intro exI [of _ r]) (auto simp: kind_ok_def mem_of_def dest: spec [of _ 1])
qed

section \<open>Examples\<close>

definition two_tensors :: NVCVTensorBatchRequirements where
  "two_tensors = \<lparr>tbr_capacity = 2, tbr_alignBytes = 128, tbr_mem = Requirements_Init\<rparr>"

theorem batch_memory_balanced_witness:
  "\<exists>s'. TensorBatch_ctor two_tensors list_allocator cudaSuccess [] = (Inr [256, 512, 768], s')
     \<and> TensorBatch_dtor two_tensors list_allocator [256, 512, 768] (demo_tensors 2, s') = (Inr (), (demo_tensors 2, []))"
proof -
  have c: "TensorBatch_ctor two_tensors list_allocator cudaSuccess [] = (Inr [256, 512, 768], [(0, 768), (2, 512), (1, 256)])" by code_simp
  have "drop_tensors [0..<nat (tb_numTensors (demo_tensors 2))] (demo_tensors 2) = (Inr (), demo_tensors 2)"
    by (simp add: demo_tensors_def new_tensor_batch_def)
  then have d: "\<exists>s''. TensorBatch_dtor two_tensors list_allocator [256, 512, 768] (demo_tensors 2, [(0, 768), (2, 512), (1, 256)]) =
      (Inr (), (demo_tensors 2, s''))" by (simp add: TensorBatch_dtor_def)
  then show ?thesis using c batch_memory_balanced [OF list_allocator_honest, where treqs = two_tensors and event = cudaSuccess and s = "[]"
      and tb = "demo_tensors 2"] by auto
qed

text \<open>A negative capacity gives requirements of no memory.\<close>

lemma negative_capacity_accepted:
  "\<exists>r. ImageBatch_CalcRequirements (- 1) = Inr r \<and> ibr_capacity r = -1 \<and> mem_bytes (hostMem (ibr_mem r)) = 0"
  "\<exists>r. TensorBatch_CalcRequirements (- 1) = Inr r \<and> tbr_capacity r = -1 \<and> mem_bytes (cudaMem (tbr_mem r)) = 0"
proof -
  have "case ImageBatch_CalcRequirements (- 1) of Inr r \<Rightarrow> ibr_capacity r = -1 \<and> mem_bytes (hostMem (ibr_mem r)) = 0 | Inl _ \<Rightarrow> False"
    "case TensorBatch_CalcRequirements (- 1) of Inr r \<Rightarrow> tbr_capacity r = -1 \<and> mem_bytes (cudaMem (tbr_mem r)) = 0 | Inl _ \<Rightarrow> False"
    by code_simp+
  then show "\<exists>r. ImageBatch_CalcRequirements (- 1) = Inr r \<and> ibr_capacity r = -1 \<and> mem_bytes (hostMem (ibr_mem r)) = 0"
    "\<exists>r. TensorBatch_CalcRequirements (- 1) = Inr r \<and> tbr_capacity r = -1 \<and> mem_bytes (cudaMem (tbr_mem r)) = 0"
    by (auto split: sum.splits)
qed

end
