(* ===== verification/Workspace.thy ===== *)
theory Workspace
  imports Int_Math Bitfield Allocators
begin

text \<open>
  The scratch memory of the operators (\<open>src/cvcuda/include/cvcuda/Workspace.hpp\<close>,
  \<open>src/cvcuda/priv/WorkspaceEstimator.hpp\<close> and \<open>WorkspaceAllocator.hpp\<close>): an estimator adds up
  what an operator will ask for, the workspace is allocated from that estimate, and an allocator
  hands it out piece by piece. Sizes and addresses are 64-bit words; a count of elements of a
  type is given with the size and the alignment of the type.
\<close>

section \<open>Alignment\<close>

definition AlignDown :: "u64 \<Rightarrow> u64 \<Rightarrow> u64" where
  "AlignDown value alignment = value AND - alignment"

definition AlignUp :: "u64 \<Rightarrow> u64 \<Rightarrow> u64" where
  "AlignUp value alignment = AlignDown (value + (alignment - 1)) alignment"

section \<open>Requirements\<close>

record WorkspaceMemRequirements =
  wr_size :: u64
  wr_alignment :: u64

record WorkspaceRequirements =
  wq_hostMem :: WorkspaceMemRequirements
  wq_pinnedMem :: WorkspaceMemRequirements
  wq_cudaMem :: WorkspaceMemRequirements

definition MaxMemReq :: "WorkspaceMemRequirements \<Rightarrow> WorkspaceMemRequirements \<Rightarrow> WorkspaceMemRequirements result" where
  "MaxMemReq a b =
     nvcv_assert (wr_size a = 0 \<or> 0 < wr_alignment a)
    (nvcv_assert (wr_size b = 0 \<or> 0 < wr_alignment b)
    (let al = (if wr_alignment b > wr_alignment a then wr_alignment b else wr_alignment a);
         sz = (if wr_size b > wr_size a then wr_size b else wr_size a)
     in nvcv_assert (al AND (al - 1) = 0) (Inr \<lparr>wr_size = AlignUp sz al, wr_alignment = al\<rparr>)))"

definition MaxWorkspaceReq :: "WorkspaceRequirements \<Rightarrow> WorkspaceRequirements \<Rightarrow> WorkspaceRequirements result" where
  "MaxWorkspaceReq a b =
     bind_result (MaxMemReq (wq_hostMem a) (wq_hostMem b)) (\<lambda>h.
     bind_result (MaxMemReq (wq_pinnedMem a) (wq_pinnedMem b)) (\<lambda>p.
     bind_result (MaxMemReq (wq_cudaMem a) (wq_cudaMem b)) (\<lambda>c.
     Inr \<lparr>wq_hostMem = h, wq_pinnedMem = p, wq_cudaMem = c\<rparr>)))"

definition align_req :: "WorkspaceMemRequirements \<Rightarrow> WorkspaceMemRequirements" where
  "align_req r = r\<lparr>wr_size := AlignUp (wr_size r) (wr_alignment r)\<rparr>"

definition AlignUp_req :: "WorkspaceRequirements \<Rightarrow> WorkspaceRequirements" where
  "AlignUp_req ws = \<lparr>wq_hostMem = align_req (wq_hostMem ws), wq_pinnedMem = align_req (wq_pinnedMem ws),
     wq_cudaMem = align_req (wq_cudaMem ws)\<rparr>"

section \<open>The estimator\<close>

text \<open>A request: the number of elements, size and alignment of their type, and the alignment asked for.\<close>

record request =
  rq_count :: u64
  rq_sizeof :: u64
  rq_alignof :: u64
  rq_alignment :: u64

definition est_add :: "request \<Rightarrow> WorkspaceMemRequirements \<Rightarrow> WorkspaceMemRequirements" where
  "est_add rq req =
     \<lparr>wr_size = AlignUp (wr_size req) (rq_alignment rq) + AlignUp (rq_count rq * rq_sizeof rq) (rq_alignment rq),
      wr_alignment = (if rq_alignment rq > wr_alignment req then rq_alignment rq else wr_alignment req)\<rparr>"

text \<open>The host part starts with the alignment of \<open>std::max_align_t\<close>, which is 16.\<close>

definition WorkspaceEstimator :: WorkspaceRequirements where
  "WorkspaceEstimator = \<lparr>wq_hostMem = \<lparr>wr_size = 0, wr_alignment = 16\<rparr>,
     wq_pinnedMem = \<lparr>wr_size = 0, wr_alignment = 256\<rparr>, wq_cudaMem = \<lparr>wr_size = 0, wr_alignment = 256\<rparr>\<rparr>"

definition est_addHost :: "request \<Rightarrow> WorkspaceRequirements \<Rightarrow> WorkspaceRequirements" where
  "est_addHost rq e = e\<lparr>wq_hostMem := est_add rq (wq_hostMem e)\<rparr>"

definition est_addPinned :: "request \<Rightarrow> WorkspaceRequirements \<Rightarrow> WorkspaceRequirements" where
  "est_addPinned rq e = e\<lparr>wq_pinnedMem := est_add rq (wq_pinnedMem e)\<rparr>"

definition est_addCuda :: "request \<Rightarrow> WorkspaceRequirements \<Rightarrow> WorkspaceRequirements" where
  "est_addCuda rq e = e\<lparr>wq_cudaMem := est_add rq (wq_cudaMem e)\<rparr>"

definition est_add_where :: "bool \<Rightarrow> bool \<Rightarrow> bool \<Rightarrow> request \<Rightarrow> WorkspaceRequirements \<Rightarrow> WorkspaceRequirements" where
  "est_add_where host pinned cuda rq e =
     (let e = (if host then est_addHost rq e else e);
          e = (if pinned then est_addPinned rq e else e)
      in if cuda then est_addCuda rq e else e)"

section \<open>The allocator\<close>

text \<open>
  The event is 0 when the memory has none. The calls to the CUDA runtime are recorded in the order
  in which they are made; their outcomes are a parameter.
\<close>

type_synonym stream = nat

datatype event_call = WaitEvent stream u64 | Synchronize u64 | RecordEvent u64 stream

record WorkspaceMem =
  wm_req :: WorkspaceMemRequirements
  wm_data :: ptr
  wm_ready :: u64

record WorkspaceMemAllocator =
  wa_mem :: WorkspaceMem
  wa_offset :: u64
  wa_acquired :: bool
  wa_released :: bool
  wa_acquireStream :: "stream option"
  wa_releaseStream :: "stream option"
  wa_calls :: "event_call list"

type_synonym 'a ws_op = "('a, WorkspaceMemAllocator) st"

definition WorkspaceMemAllocator_ctor :: "WorkspaceMem \<Rightarrow> stream option \<Rightarrow> stream option \<Rightarrow> WorkspaceMemAllocator" where
  "WorkspaceMemAllocator_ctor mem acq rel =
     \<lparr>wa_mem = mem, wa_offset = 0, wa_acquired = False, wa_released = False, wa_acquireStream = acq,
      wa_releaseStream = rel, wa_calls = []\<rparr>"

definition event_call :: "(event_call \<Rightarrow> cudaError) \<Rightarrow> event_call \<Rightarrow> unit ws_op" where
  "event_call cuda c = (\<lambda>a. (if cuda c \<noteq> cudaSuccess then Inl (Throw NVCV_ERROR_INTERNAL) else Inr (),
     a\<lparr>wa_calls := wa_calls a @ [c]\<rparr>))"

definition ws_acquire :: "(event_call \<Rightarrow> cudaError) \<Rightarrow> stream option \<Rightarrow> unit ws_op" where
  "ws_acquire cuda stream = (\<lambda>a.
     st_throw_if (wa_acquired a) LogicError
    (st_throw_if (wa_released a) LogicError
    (st_bind
       (if wm_ready (wa_mem a) \<noteq> 0
        then event_call cuda (case stream of Some s \<Rightarrow> WaitEvent s (wm_ready (wa_mem a)) | None \<Rightarrow> Synchronize (wm_ready (wa_mem a)))
        else st_return ())
       (\<lambda>_ a. (Inr (), a\<lparr>wa_acquired := True\<rparr>)))) a)"

definition ws_get :: "(event_call \<Rightarrow> cudaError) \<Rightarrow> request \<Rightarrow> ptr ws_op" where
  "ws_get cuda rq = (\<lambda>a.
     st_throw_if (\<not> rq_alignof rq \<le> rq_alignment rq) AssertFailed
    (st_throw_if (wa_released a) LogicError
    (st_bind (if \<not> wa_acquired a \<and> rq_count rq > 0 then ws_acquire cuda (wa_acquireStream a) else st_return ())
    (\<lambda>_. st_throw_if (wm_data (wa_mem a) AND (rq_alignment rq - 1) \<noteq> 0) (Throw NVCV_ERROR_INVALID_ARGUMENT)
    (\<lambda>a.
       let offset = AlignUp (wa_offset a) (rq_alignment rq);
           ret = wm_data (wa_mem a) + offset;
           real_size = AlignUp (rq_count rq * rq_sizeof rq) (rq_alignment rq);
           offset = offset + real_size
       in if offset > wr_size (wm_req (wa_mem a)) then (Inl (Throw NVCV_ERROR_OUT_OF_MEMORY), a)
          else (Inr ret, a\<lparr>wa_offset := offset\<rparr>))))) a)"

definition ws_release :: "(event_call \<Rightarrow> cudaError) \<Rightarrow> stream option \<Rightarrow> unit ws_op" where
  "ws_release cuda stream = (\<lambda>a.
     st_throw_if (wa_released a) LogicError
    (st_bind
       (if wm_ready (wa_mem a) \<noteq> 0 \<and> wa_offset a \<noteq> 0
        then st_throw_if (\<not> wa_acquired a) AssertFailed
          (case stream of Some s \<Rightarrow> event_call cuda (RecordEvent (wm_ready (wa_mem a)) s) | None \<Rightarrow> st_return ())
        else st_return ())
       (\<lambda>_ a. (Inr (), a\<lparr>wa_released := True\<rparr>))) a)"

definition WorkspaceMemAllocator_dtor :: "(event_call \<Rightarrow> cudaError) \<Rightarrow> unit ws_op" where
  "WorkspaceMemAllocator_dtor cuda = (\<lambda>a. if \<not> wa_released a then ws_release cuda (wa_releaseStream a) a else (Inr (), a))"

text \<open>The pieces of a list of requests, in order.\<close>

fun get_all :: "(event_call \<Rightarrow> cudaError) \<Rightarrow> request list \<Rightarrow> ptr list ws_op" where
  "get_all cuda [] = st_return []"
| "get_all cuda (rq # rqs) =
     st_bind (ws_get cuda rq) (\<lambda>p. st_bind (get_all cuda rqs) (\<lambda>ps. st_return (p # ps)))"

section \<open>Alignment over the integers\<close>

lemma uint_exp64: "k < 64 \<Longrightarrow> uint (2 ^ k :: u64) = 2 ^ k"
proof -
  assume k: "k < 64"
  then have "(2 :: int) ^ k < 2 ^ 64" by (intro power_strict_increasing) auto
  then show ?thesis using uint_word_of_int_eq [of "2 ^ k", where 'a = 64] k by (simp add: take_bit_int_eq_self)
qed

lemma uint_AlignDown: "k < 64 \<Longrightarrow> uint (AlignDown v (2 ^ k)) = uint v div 2 ^ k * 2 ^ k"
proof -
  have "v AND - (2 ^ k) = v AND NOT (mask k)" by (simp add: not_eq_complement mask_eq_exp_minus_1)
  also have "\<dots> = push_bit k (drop_bit k v)" by (rule bit_word_eqI) (auto simp: bit_simps)
  finally have d: "AlignDown v (2 ^ k) = push_bit k (drop_bit k v)" by (simp add: AlignDown_def)
  have "uint v div 2 ^ k * 2 ^ k \<le> uint v" by (simp add: minus_mod_eq_div_mult [symmetric])
  then have "take_bit 64 (uint v div 2 ^ k * 2 ^ k) = uint v div 2 ^ k * 2 ^ k"
    using uint_bounded [of v] by (intro take_bit_int_eq_self) (auto simp: pos_imp_zdiv_nonneg_iff intro: le_less_trans)
  moreover have "take_bit 64 (uint v) = uint v" using uint_bounded [of v] by (intro take_bit_int_eq_self) auto
  ultimately show ?thesis
    unfolding d by (simp only: unsigned_push_bit_eq unsigned_drop_bit_eq push_bit_eq_mult [where 'a = int] drop_bit_eq_div [where 'a = int] len_num0 len_bit0 len_num1 len_bit1)
      simp
qed

lemma uint_AlignUp:
  assumes "k < 64" "RoundUp (uint v) (2 ^ k) < 2 ^ 64"
  shows "uint (AlignUp v (2 ^ k)) = RoundUp (uint v) (2 ^ k)"
proof -
  let ?r = "RoundUp (uint v) (2 ^ k)"
  have "uint v \<le> ?r" by (rule RoundUp_ge) simp
  obtain q where q: "?r = 2 ^ k * q" using RoundUp_dvd [of "2 ^ k" "uint v"] by (auto simp: dvd_def)
  obtain p where p: "(2 :: int) ^ 64 = 2 ^ k * p" using assms(1) by (metis le_imp_power_dvd dvd_def less_imp_le)
  have "q < p" using assms(2) unfolding q p by simp
  then have "2 ^ k * (q + 1) \<le> 2 ^ k * p" by (intro mult_left_mono) auto
  then have b: "uint v + (2 ^ k - 1) < 2 ^ 64" using \<open>uint v \<le> ?r\<close> unfolding q p by (simp add: algebra_simps)
  have "uint (2 ^ k - 1 :: u64) = 2 ^ k - 1" using assms(1) uint_exp64 [of k] by (subst uint_minus_simple_alt [THEN iffD1]) (auto simp: word_le_def)
  then have "uint (v + (2 ^ k - 1)) = uint v + 2 ^ k - 1"
    using b by (subst uint_add_lem [THEN iffD1]) (auto simp: algebra_simps)
  then show ?thesis using uint_AlignDown [OF assms(1)] by (simp add: AlignUp_def RoundUp_def)
qed

section \<open>Estimates suffice\<close>

definition power64 :: "u64 \<Rightarrow> bool" where
  "power64 a \<longleftrightarrow> (\<exists>k<64. a = 2 ^ k)"

definition bytes :: "request \<Rightarrow> int" where
  "bytes rq = uint (rq_count rq) * uint (rq_sizeof rq)"

definition request_ok :: "request \<Rightarrow> bool" where
  "request_ok rq \<longleftrightarrow> power64 (rq_alignment rq) \<and> rq_alignof rq \<le> rq_alignment rq"

text \<open>The offsets at which the pieces start, and the offset behind the last one, without overflow.\<close>

definition place :: "int \<Rightarrow> request \<Rightarrow> int" where
  "place o1 rq = RoundUp o1 (uint (rq_alignment rq))"

definition behind :: "int \<Rightarrow> request \<Rightarrow> int" where
  "behind o1 rq = place o1 rq + RoundUp (bytes rq) (uint (rq_alignment rq))"

fun places :: "int \<Rightarrow> request list \<Rightarrow> int list" where
  "places o1 [] = []"
| "places o1 (rq # rqs) = place o1 rq # places (behind o1 rq) rqs"

definition total_bytes :: "int \<Rightarrow> request list \<Rightarrow> int" where
  "total_bytes o1 rqs = foldl behind o1 rqs"

lemma total_bytes_simps [simp]:
  "total_bytes o1 [] = o1" "total_bytes o1 (rq # rqs) = total_bytes (behind o1 rq) rqs"
  by (simp_all add: total_bytes_def)

lemma bytes_nonneg: "0 \<le> bytes rq"
  by (simp add: bytes_def)

lemma request_alignment:
  assumes "request_ok rq"
  obtains k where "k < 64" "rq_alignment rq = 2 ^ k" "uint (rq_alignment rq) = 2 ^ k" "0 < uint (rq_alignment rq)"
  using assms uint_exp64 by (auto simp: request_ok_def power64_def)

lemma behind_bounds:
  assumes "request_ok rq"
  shows "o1 \<le> place o1 rq" "place o1 rq + bytes rq \<le> behind o1 rq" "uint (rq_alignment rq) dvd place o1 rq"
  using request_alignment [OF assms] RoundUp_ge by (fastforce simp: place_def behind_def)+

lemma total_bytes_ge: "\<forall>rq \<in> set rqs. request_ok rq \<Longrightarrow> o1 \<le> total_bytes o1 rqs"
proof (induction rqs arbitrary: o1)
  case (Cons rq rqs)
  have "o1 \<le> behind o1 rq" using behind_bounds [of rq o1] bytes_nonneg [of rq] Cons.prems by simp
  with Cons.IH [of "behind o1 rq"] Cons.prems show ?case by simp
qed simp

text \<open>One request: the words compute what the integers say.\<close>

lemma request_words:
  assumes "request_ok rq" "0 \<le> uint o1" "behind (uint o1) rq < 2 ^ 64"
  shows "uint (AlignUp o1 (rq_alignment rq)) = place (uint o1) rq"
    and "uint (AlignUp o1 (rq_alignment rq) + AlignUp (rq_count rq * rq_sizeof rq) (rq_alignment rq)) = behind (uint o1) rq"
proof -
  obtain k where k: "k < 64" "rq_alignment rq = 2 ^ k" "uint (rq_alignment rq) = 2 ^ k" using request_alignment [OF assms(1)] .
  note b = behind_bounds [OF assms(1), of "uint o1"] bytes_nonneg [of rq] uint_ge_0 [of o1]
  have r: "bytes rq \<le> RoundUp (bytes rq) (2 ^ k)" by (rule RoundUp_ge) simp
  then have lim: "bytes rq < 2 ^ 64" "RoundUp (bytes rq) (2 ^ k) < 2 ^ 64" "place (uint o1) rq < 2 ^ 64"
    using b assms(3) unfolding behind_def k(3) by linarith+
  show 1: "uint (AlignUp o1 (rq_alignment rq)) = place (uint o1) rq"
    using uint_AlignUp [OF k(1), of o1] lim(3) unfolding place_def k(3) by (simp add: k(2))
  have "uint (rq_count rq * rq_sizeof rq) = bytes rq"
    using lim(1) by (subst uint_mult_lem [THEN iffD1]) (simp_all add: bytes_def)
  then have 2: "uint (AlignUp (rq_count rq * rq_sizeof rq) (rq_alignment rq)) = RoundUp (bytes rq) (2 ^ k)"
    using uint_AlignUp [OF k(1), of "rq_count rq * rq_sizeof rq"] lim(2) by (simp add: k(2))
  show "uint (AlignUp o1 (rq_alignment rq) + AlignUp (rq_count rq * rq_sizeof rq) (rq_alignment rq)) = behind (uint o1) rq"
    using assms(3) 1 2 by (subst uint_add_lem [THEN iffD1]) (simp_all add: behind_def k(3))
qed

lemma estimate_words:
  assumes "\<forall>rq \<in> set rqs. request_ok rq" "total_bytes (uint (wr_size req)) rqs < 2 ^ 64"
  shows "uint (wr_size (fold est_add rqs req)) = total_bytes (uint (wr_size req)) rqs"
  using assms
proof (induction rqs arbitrary: req)
  case (Cons rq rqs)
  have "behind (uint (wr_size req)) rq < 2 ^ 64"
    using Cons.prems total_bytes_ge [of rqs "behind (uint (wr_size req)) rq"] by simp
  then have "uint (wr_size (est_add rq req)) = behind (uint (wr_size req)) rq"
    using request_words(2) [of rq "wr_size req"] Cons.prems(1) by (simp add: est_add_def)
  then show ?case using Cons.IH [of "est_add rq req"] Cons.prems by simp
qed simp

text \<open>The alignment of an estimate is the largest of all, and a multiple of each.\<close>

lemma power64_dvd: "power64 a \<Longrightarrow> power64 b \<Longrightarrow> a \<le> b \<Longrightarrow> uint a dvd uint b"
  using uint_exp64 by (auto simp: power64_def word_le_def power_increasing_iff intro!: le_imp_power_dvd)

lemma estimate_alignment:
  assumes "\<forall>rq \<in> set rqs. request_ok rq" "power64 (wr_alignment req)"
  shows "power64 (wr_alignment (fold est_add rqs req)) \<and> wr_alignment req \<le> wr_alignment (fold est_add rqs req)
    \<and> (\<forall>rq \<in> set rqs. rq_alignment rq \<le> wr_alignment (fold est_add rqs req))"
  using assms
proof (induction rqs arbitrary: req)
  case (Cons rq rqs)
  have "power64 (wr_alignment (est_add rq req))" "rq_alignment rq \<le> wr_alignment (est_add rq req)"
    "wr_alignment req \<le> wr_alignment (est_add rq req)"
    using Cons.prems by (auto simp: est_add_def request_ok_def)
  then show ?case using Cons.IH [of "est_add rq req"] Cons.prems by (auto intro: order_trans)
qed simp

text \<open>Taking one piece, and all of them.\<close>

lemma aligned_base: "power64 a \<Longrightarrow> p AND (a - 1) = 0 \<longleftrightarrow> uint a dvd uint p"
proof -
  assume "power64 a"
  then obtain k where k: "k < 64" "a = 2 ^ k" by (auto simp: power64_def)
  have "p AND (a - 1) = take_bit k p" by (simp add: k(2) take_bit_eq_mask mask_eq_exp_minus_1)
  moreover have "uint (take_bit k p) = uint p mod 2 ^ k" unfolding unsigned_take_bit_eq by (rule take_bit_eq_mod)
  ultimately show ?thesis using uint_exp64 [OF k(1)] by (metis dvd_eq_mod_eq_0 k(2) uint_0_iff)
qed

definition all_succeed :: "(event_call \<Rightarrow> cudaError) \<Rightarrow> bool" where
  "all_succeed cuda \<longleftrightarrow> (\<forall>c. cuda c = cudaSuccess)"

lemma acquire_ok:
  assumes "all_succeed cuda" "\<not> wa_released a" "\<not> wa_acquired a"
  shows "\<exists>cs. ws_acquire cuda st a = (Inr (), a\<lparr>wa_acquired := True, wa_calls := wa_calls a @ cs\<rparr>)"
proof (cases "wm_ready (wa_mem a) = 0")
  case True
  then show ?thesis using assms by (intro exI [of _ "[]"]) (simp add: ws_acquire_def)
next
  case False
  then show ?thesis using assms
    by (cases a) (auto simp: ws_acquire_def event_call_def all_succeed_def)
qed

lemma get_ok:
  assumes "all_succeed cuda" "request_ok rq" "\<not> wa_released a" "uint (rq_alignment rq) dvd uint (wm_data (wa_mem a))"
    and fits: "behind (uint (wa_offset a)) rq \<le> uint (wr_size (wm_req (wa_mem a)))"
  shows "\<exists>a'. ws_get cuda rq a = (Inr (wm_data (wa_mem a) + AlignUp (wa_offset a) (rq_alignment rq)), a')
    \<and> uint (wa_offset a') = behind (uint (wa_offset a)) rq \<and> wa_mem a' = wa_mem a \<and> \<not> wa_released a'"
proof -
  have "behind (uint (wa_offset a)) rq < 2 ^ 64" using fits uint_bounded [of "wr_size (wm_req (wa_mem a))"] by simp
  note w = request_words [OF assms(2) _ this]
  have base: "wm_data (wa_mem a) AND (rq_alignment rq - 1) = 0"
    using assms(2,4) aligned_base by (simp add: request_ok_def)
  let ?new = "AlignUp (wa_offset a) (rq_alignment rq) + AlignUp (rq_count rq * rq_sizeof rq) (rq_alignment rq)"
  have room: "\<not> ?new > wr_size (wm_req (wa_mem a))" using w(2) fits by (simp add: word_less_def)
  have al: "rq_alignof rq \<le> rq_alignment rq" using assms(2) by (simp add: request_ok_def)
  show ?thesis
  proof (cases "\<not> wa_acquired a \<and> rq_count rq > 0")
    case True
    then obtain cs where q: "ws_acquire cuda (wa_acquireStream a) a = (Inr (), a\<lparr>wa_acquired := True, wa_calls := wa_calls a @ cs\<rparr>)"
      using acquire_ok assms(1,3) by blast
    then show ?thesis using True q al assms(3) base room w(2) by (simp add: ws_get_def Let_def)
  next
    case False
    then show ?thesis using al assms(3) base room w(2) by (auto simp: ws_get_def Let_def)
  qed
qed

lemma get_all_ok:
  assumes "all_succeed cuda" "\<forall>rq \<in> set rqs. request_ok rq \<and> uint (rq_alignment rq) dvd uint (wm_data (wa_mem a))"
    and "\<not> wa_released a" "total_bytes (uint (wa_offset a)) rqs \<le> uint (wr_size (wm_req (wa_mem a)))"
    and "uint (wm_data (wa_mem a)) + uint (wr_size (wm_req (wa_mem a))) < 2 ^ 64"
  shows "\<exists>ps a'. get_all cuda rqs a = (Inr ps, a')
    \<and> map uint ps = map (\<lambda>x. uint (wm_data (wa_mem a)) + x) (places (uint (wa_offset a)) rqs)"
  using assms
proof (induction rqs arbitrary: a)
  case (Cons rq rqs)
  let ?o = "uint (wa_offset a)"
  have r: "request_ok rq" "uint (rq_alignment rq) dvd uint (wm_data (wa_mem a))" using Cons.prems by simp_all
  have fits: "behind ?o rq \<le> uint (wr_size (wm_req (wa_mem a)))"
    using Cons.prems total_bytes_ge [of rqs "behind ?o rq"] by auto
  obtain a' where a': "ws_get cuda rq a = (Inr (wm_data (wa_mem a) + AlignUp (wa_offset a) (rq_alignment rq)), a')"
    "uint (wa_offset a') = behind ?o rq" "wa_mem a' = wa_mem a" "\<not> wa_released a'"
    using get_ok [OF Cons.prems(1) r(1) Cons.prems(3) r(2) fits] by blast
  have "place ?o rq \<le> behind ?o rq" using behind_bounds(2) [OF r(1), of ?o] bytes_nonneg [of rq] by simp
  moreover have "uint (AlignUp (wa_offset a) (rq_alignment rq)) = place ?o rq"
    using request_words(1) [OF r(1)] fits uint_bounded [of "wr_size (wm_req (wa_mem a))"] by simp
  ultimately have "uint (wm_data (wa_mem a) + AlignUp (wa_offset a) (rq_alignment rq)) = uint (wm_data (wa_mem a)) + place ?o rq"
    using fits Cons.prems(5) by (subst uint_add_lem [THEN iffD1]) simp_all
  moreover obtain ps a'' where "get_all cuda rqs a' = (Inr ps, a'')"
    "map uint ps = map (\<lambda>x. uint (wm_data (wa_mem a)) + x) (places (behind ?o rq) rqs)"
    using Cons.IH [of a'] Cons.prems a' by auto
  ultimately show ?case using a'(1) by simp
qed simp

text \<open>Places in order: behind the pieces before, and inside the total.\<close>

lemma length_places [simp]: "length (places o1 rqs) = length rqs"
  by (induction rqs arbitrary: o1) auto

lemma places_ordered:
  assumes "\<forall>rq \<in> set rqs. request_ok rq" "j < length rqs"
  shows "o1 \<le> places o1 rqs ! j \<and> uint (rq_alignment (rqs ! j)) dvd places o1 rqs ! j
    \<and> places o1 rqs ! j + bytes (rqs ! j) \<le> total_bytes o1 rqs
    \<and> (\<forall>i<j. places o1 rqs ! i + bytes (rqs ! i) \<le> places o1 rqs ! j)"
  using assms
proof (induction rqs arbitrary: o1 j)
  case (Cons rq rqs)
  note b = behind_bounds [of rq o1] bytes_nonneg [of rq] total_bytes_ge [of rqs "behind o1 rq"]
  show ?case
  proof (cases j)
    case 0
    then show ?thesis using b Cons.prems by simp
  next
    case (Suc n)
    have ih: "behind o1 rq \<le> places (behind o1 rq) rqs ! n" "uint (rq_alignment (rqs ! n)) dvd places (behind o1 rq) rqs ! n"
      "places (behind o1 rq) rqs ! n + bytes (rqs ! n) \<le> total_bytes (behind o1 rq) rqs"
      "\<forall>i<n. places (behind o1 rq) rqs ! i + bytes (rqs ! i) \<le> places (behind o1 rq) rqs ! n"
      using Cons.IH [of n "behind o1 rq"] Cons.prems Suc by auto
    have "\<forall>i<Suc n. places o1 (rq # rqs) ! i + bytes ((rq # rqs) ! i) \<le> places o1 (rq # rqs) ! Suc n"
    proof (intro allI impI)
      fix i assume "i < Suc n"
      then show "places o1 (rq # rqs) ! i + bytes ((rq # rqs) ! i) \<le> places o1 (rq # rqs) ! Suc n"
        using ih b Cons.prems by (cases i) auto
    qed
    then show ?thesis using Suc ih b Cons.prems by auto
  qed
qed simp

definition covers :: "WorkspaceMemRequirements \<Rightarrow> WorkspaceMemRequirements \<Rightarrow> bool" where
  "covers r e \<longleftrightarrow> power64 (wr_alignment r) \<and> wr_alignment e \<le> wr_alignment r \<and> wr_size e \<le> wr_size r"

text \<open>
  Property C14: an operator that estimates what it will ask for gets it. If memory is provided that
  covers what the estimator asks for, every request succeeds, whatever the order and the sizes:
  each pointer has the requested alignment, its piece lies in the provided memory, and the pieces
  do not overlap. The sizes must not add up to 2^64 or more.
\<close>

theorem estimate_suffices:
  assumes "\<forall>rq \<in> set rqs. request_ok rq" "power64 base" "total_bytes 0 rqs < 2 ^ 64"
    and "covers (wm_req mem) (fold est_add rqs \<lparr>wr_size = 0, wr_alignment = base\<rparr>)"
    and "wm_data mem AND (wr_alignment (wm_req mem) - 1) = 0" "uint (wm_data mem) + uint (wr_size (wm_req mem)) < 2 ^ 64"
    and "all_succeed cuda"
  shows "\<exists>ps a. get_all cuda rqs (WorkspaceMemAllocator_ctor mem acq rel) = (Inr ps, a) \<and> length ps = length rqs
    \<and> (\<forall>j<length rqs. uint (rq_alignment (rqs ! j)) dvd uint (ps ! j)
         \<and> uint (wm_data mem) \<le> uint (ps ! j)
         \<and> uint (ps ! j) + bytes (rqs ! j) \<le> uint (wm_data mem) + uint (wr_size (wm_req mem))
         \<and> (\<forall>i<j. uint (ps ! i) + bytes (rqs ! i) \<le> uint (ps ! j)))"
proof -
  let ?a = "WorkspaceMemAllocator_ctor mem acq rel" and ?d = "uint (wm_data mem)"
  have size: "total_bytes 0 rqs \<le> uint (wr_size (wm_req mem))"
    using estimate_words [OF assms(1), of "\<lparr>wr_size = 0, wr_alignment = base\<rparr>"] assms(3,4) by (simp add: covers_def word_le_def)
  have al: "power64 (wr_alignment (wm_req mem))" "\<forall>rq \<in> set rqs. rq_alignment rq \<le> wr_alignment (wm_req mem)"
    using estimate_alignment [OF assms(1), of "\<lparr>wr_size = 0, wr_alignment = base\<rparr>"] assms(2,4)
    by (auto simp: covers_def intro: order_trans)
  have "uint (wr_alignment (wm_req mem)) dvd ?d" using aligned_base [OF al(1)] assms(5) by simp
  then have dvd: "\<forall>rq \<in> set rqs. uint (rq_alignment rq) dvd ?d"
    using al power64_dvd assms(1) by (meson dvd_trans request_ok_def)
  then obtain ps a where ps: "get_all cuda rqs ?a = (Inr ps, a)" "map uint ps = map (\<lambda>x. ?d + x) (places 0 rqs)"
    using get_all_ok [of cuda rqs ?a] assms(1,6,7) size by (auto simp: WorkspaceMemAllocator_ctor_def)
  have l: "length ps = length rqs" using arg_cong [OF ps(2), of length] by simp
  have n: "uint (ps ! j) = ?d + places 0 rqs ! j" if "j < length rqs" for j
    using arg_cong [OF ps(2), of "\<lambda>xs. xs ! j"] that l by simp
  have in_total: "places 0 rqs ! j + bytes (rqs ! j) \<le> uint (wr_size (wm_req mem))" if "j < length rqs" for j
    using places_ordered [OF assms(1) that, of 0] size by linarith
  show ?thesis
    using ps(1) l n dvd places_ordered [OF assms(1), of _ 0] in_total by (intro exI [of _ ps] exI [of _ a]) (auto intro: dvd_add)
qed

lemma power64_pos: "power64 a \<Longrightarrow> 0 < a \<and> a AND (a - 1) = 0"
proof -
  assume "power64 a"
  then obtain k where k: "k < 64" "a = 2 ^ k" by (auto simp: power64_def)
  have "a AND (a - 1) = take_bit k (2 ^ k)" by (simp only: k(2) take_bit_eq_mask mask_eq_exp_minus_1)
  also have "\<dots> = 0" by (simp add: take_bit_eq_mod)
  finally show ?thesis using uint_exp64 [OF k(1)] k by (simp add: word_less_def)
qed

definition req_ok :: "WorkspaceMemRequirements \<Rightarrow> bool" where
  "req_ok r \<longleftrightarrow> power64 (wr_alignment r) \<and> uint (wr_size r) \<le> 2 ^ 63 \<and> uint (wr_alignment r) < 2 ^ 63"

definition reqs_rel :: "(WorkspaceMemRequirements \<Rightarrow> WorkspaceMemRequirements \<Rightarrow> bool) \<Rightarrow> WorkspaceRequirements \<Rightarrow> WorkspaceRequirements \<Rightarrow> bool" where
  "reqs_rel R a b \<longleftrightarrow> R (wq_hostMem a) (wq_hostMem b) \<and> R (wq_pinnedMem a) (wq_pinnedMem b) \<and> R (wq_cudaMem a) (wq_cudaMem b)"

lemma AlignUp_ge:
  assumes "power64 a" "uint a < 2 ^ 63" "uint v \<le> 2 ^ 63"
  shows "v \<le> AlignUp v a"
proof -
  obtain k where k: "k < 64" "a = 2 ^ k" using assms(1) by (auto simp: power64_def)
  have u: "uint a = 2 ^ k" using uint_exp64 [OF k(1)] k(2) by simp
  have "RoundUp (uint v) (2 ^ k) < 2 ^ 64" using RoundUp_less [of "2 ^ k" "uint v"] assms(2,3) u by simp
  from uint_AlignUp [OF k(1) this] show ?thesis using RoundUp_ge [of "2 ^ k" "uint v"] k(2) by (simp add: word_le_def)
qed

lemma MaxMemReq_ok:
  assumes "req_ok r" "req_ok s"
  shows "\<exists>m. MaxMemReq r s = Inr m \<and> covers m r \<and> covers m s"
proof -
  define al where "al = (if wr_alignment s > wr_alignment r then wr_alignment s else wr_alignment r)"
  define sz where "sz = (if wr_size s > wr_size r then wr_size s else wr_size r)"
  have o: "power64 al" "uint al < 2 ^ 63" "uint sz \<le> 2 ^ 63" using assms by (auto simp: req_ok_def al_def sz_def)
  have le: "wr_size r \<le> sz" "wr_size s \<le> sz" "wr_alignment r \<le> al" "wr_alignment s \<le> al" by (auto simp: al_def sz_def)
  have p: "0 < wr_alignment r" "0 < wr_alignment s" using assms power64_pos by (auto simp: req_ok_def)
  have "MaxMemReq r s = Inr \<lparr>wr_size = AlignUp sz al, wr_alignment = al\<rparr>"
    using p power64_pos [OF o(1)] unfolding MaxMemReq_def Let_def al_def [symmetric] sz_def [symmetric]
    by (simp only: simp_thms nvcv_assert_simps)
  then show ?thesis using o(1) le AlignUp_ge [OF o] by (auto simp: covers_def intro: order_trans)
qed

text \<open>
  Memory for several operators. The maximum of two requirements whose alignments are
  powers of two and whose sizes can be rounded up in 64 bits covers both, in each kind of memory.
\<close>

theorem MaxWorkspaceReq_covers:
  assumes "reqs_rel (\<lambda>r s. req_ok r \<and> req_ok s) a b"
  shows "\<exists>m. MaxWorkspaceReq a b = Inr m \<and> reqs_rel covers m a \<and> reqs_rel covers m b"
proof -
  obtain h p c where "MaxMemReq (wq_hostMem a) (wq_hostMem b) = Inr h" "MaxMemReq (wq_pinnedMem a) (wq_pinnedMem b) = Inr p"
    "MaxMemReq (wq_cudaMem a) (wq_cudaMem b) = Inr c"
    and "covers h (wq_hostMem a)" "covers h (wq_hostMem b)" "covers p (wq_pinnedMem a)" "covers p (wq_pinnedMem b)"
    "covers c (wq_cudaMem a)" "covers c (wq_cudaMem b)"
    using assms MaxMemReq_ok unfolding reqs_rel_def by meson
  then show ?thesis by (simp add: MaxWorkspaceReq_def reqs_rel_def)
qed

text \<open>Two pieces: 100 bytes at any address, then 10 numbers of 8 bytes at multiples of 16.\<close>

definition demo_requests :: "request list" where
  "demo_requests = [\<lparr>rq_count = 100, rq_sizeof = 1, rq_alignof = 1, rq_alignment = 1\<rparr>,
     \<lparr>rq_count = 10, rq_sizeof = 8, rq_alignof = 8, rq_alignment = 16\<rparr>]"

definition demo_memory :: WorkspaceMem where
  "demo_memory = \<lparr>wm_req = fold est_add demo_requests \<lparr>wr_size = 0, wr_alignment = 256\<rparr>, wm_data = 4096, wm_ready = 7\<rparr>"

lemma power64_numerals: "power64 1" "power64 16" "power64 256"
  unfolding power64_def by (rule exI [of _ 0], simp) (rule exI [of _ 4], simp, rule exI [of _ 8], simp)

lemma demo_memory: "wm_req demo_memory = \<lparr>wr_size = 192, wr_alignment = 256\<rparr>" "wm_data demo_memory = 4096"
  by (simp_all add: demo_memory_def demo_requests_def est_add_def AlignUp_def AlignDown_def)

lemma demo_requests_ok: "list_all request_ok demo_requests" "total_bytes 0 demo_requests = 192"
  by (simp_all add: demo_requests_def request_ok_def power64_numerals behind_def place_def bytes_def RoundUp_def)

theorem estimate_suffices_witness:
  "\<exists>ps a. get_all (\<lambda>_. cudaSuccess) demo_requests (WorkspaceMemAllocator_ctor demo_memory None None) = (Inr ps, a)
     \<and> length ps = 2 \<and> 16 dvd uint (ps ! 1) \<and> uint (ps ! 0) + 100 \<le> uint (ps ! 1)"
proof -
  have "covers (wm_req demo_memory) (fold est_add demo_requests \<lparr>wr_size = 0, wr_alignment = 256\<rparr>)"
    using demo_memory power64_numerals by (simp add: demo_memory_def covers_def)
  moreover have "\<forall>rq \<in> set demo_requests. request_ok rq" using demo_requests_ok(1) by (simp add: list_all_iff)
  ultimately have "\<exists>ps a. get_all (\<lambda>_. cudaSuccess) demo_requests (WorkspaceMemAllocator_ctor demo_memory None None) = (Inr ps, a)
     \<and> length ps = length demo_requests \<and> (\<forall>j<length demo_requests. uint (rq_alignment (demo_requests ! j)) dvd uint (ps ! j)
         \<and> uint (wm_data demo_memory) \<le> uint (ps ! j)
         \<and> uint (ps ! j) + bytes (demo_requests ! j) \<le> uint (wm_data demo_memory) + uint (wr_size (wm_req demo_memory))
         \<and> (\<forall>i<j. uint (ps ! i) + bytes (demo_requests ! i) \<le> uint (ps ! j)))"
    using demo_requests_ok(2) demo_memory power64_numerals(3)
    by (intro estimate_suffices [where base = 256]) (simp_all add: all_succeed_def)
  then obtain ps a where "get_all (\<lambda>_. cudaSuccess) demo_requests (WorkspaceMemAllocator_ctor demo_memory None None) = (Inr ps, a)"
    "length ps = length demo_requests" and j: "\<forall>j<length demo_requests. uint (rq_alignment (demo_requests ! j)) dvd uint (ps ! j)
         \<and> (\<forall>i<j. uint (ps ! i) + bytes (demo_requests ! i) \<le> uint (ps ! j))"
    by blast
  moreover have "16 dvd uint (ps ! 1)" "uint (ps ! 0) + 100 \<le> uint (ps ! 1)"
    using j [rule_format, of 1] by (auto simp: demo_requests_def bytes_def)
  ultimately show ?thesis by (auto simp: demo_requests_def)
qed

theorem MaxWorkspaceReq_covers_witness:
  "\<exists>m. MaxWorkspaceReq (est_addCuda (hd demo_requests) WorkspaceEstimator) WorkspaceEstimator = Inr m
     \<and> wr_alignment (wq_cudaMem m) \<ge> 256 \<and> wr_size (wq_cudaMem m) \<ge> 100"
proof -
  have "reqs_rel (\<lambda>r s. req_ok r \<and> req_ok s) (est_addCuda (hd demo_requests) WorkspaceEstimator) WorkspaceEstimator"
    by (simp add: reqs_rel_def req_ok_def power64_numerals est_addCuda_def est_add_def WorkspaceEstimator_def demo_requests_def
        AlignUp_def AlignDown_def)
  from MaxWorkspaceReq_covers [OF this] show ?thesis
    by (auto simp: reqs_rel_def covers_def est_addCuda_def est_add_def WorkspaceEstimator_def demo_requests_def AlignUp_def AlignDown_def)
qed

section \<open>Protocol and limits\<close>

text \<open>Whatever is called and whatever fails, a piece is only handed out after the memory was acquired.\<close>

datatype ws_call = Get request | Acquire "stream option" | Release "stream option"

fun after_ws_call :: "(event_call \<Rightarrow> cudaError) \<Rightarrow> ws_call \<Rightarrow> WorkspaceMemAllocator \<Rightarrow> WorkspaceMemAllocator" where
  "after_ws_call cuda (Get rq) a = snd (ws_get cuda rq a)"
| "after_ws_call cuda (Acquire s) a = snd (ws_acquire cuda s a)"
| "after_ws_call cuda (Release s) a = snd (ws_release cuda s a)"

definition acquired_first :: "WorkspaceMemAllocator \<Rightarrow> bool" where
  "acquired_first a \<longleftrightarrow> (wa_offset a \<noteq> 0 \<longrightarrow> wa_acquired a)"

lemma acquired_first_acquire: "acquired_first a \<Longrightarrow> acquired_first (snd (ws_acquire cuda s a))"
  by (auto simp: acquired_first_def ws_acquire_def event_call_def st_throw_if_app st_bind_def)

lemma acquire_sets: "ws_acquire cuda s a = (Inr (), a') \<Longrightarrow> wa_acquired a' \<and> wa_offset a' = wa_offset a"
  by (auto simp: ws_acquire_def event_call_def st_throw_if_app st_bind_def split: if_splits)


lemma AlignUp_zero: "AlignUp 0 a = 0"
proof -
  have "- a = NOT (a - 1)" by (simp add: not_diff_distrib minus_eq_not_plus_1)
  then show ?thesis by (simp add: AlignUp_def AlignDown_def)
qed

lemma acquired_first_get:
  assumes "acquired_first a"
  shows "acquired_first (snd (ws_get cuda rq a))"
proof (cases "\<not> wa_acquired a \<and> rq_count rq > 0")
  case True
  obtain r a' where q: "ws_acquire cuda (wa_acquireStream a) a = (r, a')" by (cases "ws_acquire cuda (wa_acquireStream a) a")
  then have "acquired_first a'" "r = Inr () \<longrightarrow> wa_acquired a'"
    using acquired_first_acquire [OF assms, of cuda "wa_acquireStream a"] acquire_sets by auto
  then show ?thesis using True q assms
    by (cases r) (auto simp: ws_get_def st_throw_if_app Let_def acquired_first_def split: if_splits)
next
  case False
  then show ?thesis using assms
    by (auto simp: ws_get_def st_throw_if_app Let_def acquired_first_def AlignUp_zero word_gt_0 split: if_splits)
qed

lemma acquired_first_release: "acquired_first a \<Longrightarrow> acquired_first (snd (ws_release cuda s a))"
  by (auto simp: acquired_first_def ws_release_def event_call_def st_throw_if_app st_bind_def split: option.splits)

lemma acquired_first_calls: "acquired_first a \<Longrightarrow> acquired_first (fold (after_ws_call cuda) cs a)"
proof (induction cs arbitrary: a)
  case (Cons c cs)
  have "acquired_first (after_ws_call cuda c a)"
    using Cons.prems acquired_first_get acquired_first_acquire acquired_first_release by (cases c) simp_all
  then show ?case using Cons.IH by simp
qed simp

lemma destructor_never_asserts:
  "fst (WorkspaceMemAllocator_dtor cuda (fold (after_ws_call cuda) cs (WorkspaceMemAllocator_ctor mem acq rel))) \<noteq> Inl AssertFailed"
proof -
  have "acquired_first (fold (after_ws_call cuda) cs (WorkspaceMemAllocator_ctor mem acq rel))"
    by (rule acquired_first_calls) (simp add: acquired_first_def WorkspaceMemAllocator_ctor_def)
  then show ?thesis
    by (auto simp: WorkspaceMemAllocator_dtor_def ws_release_def acquired_first_def event_call_def st_throw_if_app st_bind_def
        split: option.splits)
qed

text \<open>
  The byte count is a product of 64-bit words: 2^61 elements of 8 bytes are 0 bytes, and the
  request succeeds on memory of any size.
\<close>

lemma count_overflow_accepted:
  "fst (ws_get (\<lambda>_. cudaSuccess) \<lparr>rq_count = 2 ^ 61, rq_sizeof = 8, rq_alignof = 8, rq_alignment = 8\<rparr>
     (WorkspaceMemAllocator_ctor demo_memory None None)) = Inr 4096"
  by (simp add: ws_get_def ws_acquire_def event_call_def st_throw_if_app WorkspaceMemAllocator_ctor_def demo_memory AlignUp_def
      AlignDown_def demo_memory_def demo_requests_def est_add_def)

end
