(* ===== verification/Workspace_Memory.thy ===== *)
theory Workspace_Memory
  imports Buffer_Blocks Workspace
begin

text \<open>
  Allocation and ownership of workspaces (\<open>AllocateWorkspace\<close> and \<open>UniqueWorkspace\<close> of
  \<open>src/cvcuda/include/cvcuda/Workspace.hpp\<close>) on the resource allocators of a public allocator handle
  (\<open>src/nvcv/src/include/nvcv/alloc/Allocator.hpp\<close>), and the three allocators over one workspace.
\<close>

section \<open>Resource allocators\<close>

text \<open>
  \<open>get\<close> is \<open>nvcvAllocatorGet\<close> on the handle of the allocator. Sizes and alignments are converted
  from \<open>size_t\<close> to the signed types of the allocation functions.
\<close>

definition MemAllocatorWithKind :: "int \<Rightarrow> 's NVCVResourceAllocator \<Rightarrow> 's NVCVResourceAllocator result" where
  "MemAllocatorWithKind kind r = throw_if (ra_resType r \<noteq> kind) NVCV_ERROR_INVALID_ARGUMENT (Inr r)"

definition Allocator_get :: "(int \<Rightarrow> 's NVCVResourceAllocator result) \<Rightarrow> int \<Rightarrow> 's NVCVResourceAllocator result" where
  "Allocator_get get kind = bind_result (get kind) (MemAllocatorWithKind kind)"

definition MemAllocator_alloc :: "'s NVCVResourceAllocator \<Rightarrow> u64 \<Rightarrow> u64 \<Rightarrow> (ptr, 's) st" where
  "MemAllocator_alloc r sz align =
     (case ra_fnAlloc r of None \<Rightarrow> st_fail OutOfBounds | Some f \<Rightarrow> f (wrap64 (uint sz)) (wrap32 (uint align)))"

definition MemAllocator_free :: "'s NVCVResourceAllocator \<Rightarrow> ptr \<Rightarrow> u64 \<Rightarrow> u64 \<Rightarrow> (unit, 's) st" where
  "MemAllocator_free r p sz align =
     (case ra_fnFree r of None \<Rightarrow> st_fail OutOfBounds | Some f \<Rightarrow> (\<lambda>s. (Inr (), f p (wrap64 (uint sz)) (wrap32 (uint align)) s)))"

section \<open>Workspaces and their owners\<close>

record Workspace =
  ws_hostMem :: WorkspaceMem
  ws_pinnedMem :: WorkspaceMem
  ws_cudaMem :: WorkspaceMem

definition no_mem :: WorkspaceMem where
  "no_mem = \<lparr>wm_req = \<lparr>wr_size = 0, wr_alignment = 0\<rparr>, wm_data = 0, wm_ready = 0\<rparr>"

definition no_workspace :: Workspace where
  "no_workspace = \<lparr>ws_hostMem = no_mem, ws_pinnedMem = no_mem, ws_cudaMem = no_mem\<rparr>"

text \<open>The deleter returns the workspace as it leaves it; an empty one is \<open>None\<close>.\<close>

record 's UniqueWorkspace =
  uw_impl :: Workspace
  uw_del :: "(Workspace \<Rightarrow> (Workspace, 's) st) option"

definition empty_owner :: "'s UniqueWorkspace" where
  "empty_owner = \<lparr>uw_impl = no_workspace, uw_del = None\<rparr>"

text \<open>\<open>reset\<close> is \<open>noexcept\<close>: an exception of the deleter ends the process.\<close>

definition owner_reset :: "'s UniqueWorkspace \<Rightarrow> ('s UniqueWorkspace, 's) st" where
  "owner_reset u = (case uw_del u of
     None \<Rightarrow> st_return u
   | Some del \<Rightarrow> (\<lambda>s. case del (uw_impl u) s of (Inl _, s') \<Rightarrow> (Inl Terminated, s') | (Inr _, s') \<Rightarrow> (Inr empty_owner, s')))"

text \<open>Move assignment between the owners at \<open>i\<close> and \<open>j\<close>, which may be the same: swap, then reset the source.\<close>

definition owner_move_assign :: "nat \<Rightarrow> nat \<Rightarrow> 's UniqueWorkspace list \<Rightarrow> ('s UniqueWorkspace list, 's) st" where
  "owner_move_assign i j us =
     (let us = us[i := us ! j, j := us ! i] in st_bind (owner_reset (us ! j)) (\<lambda>u. st_return (us[j := u])))"

section \<open>Allocation\<close>

text \<open>\<open>sync\<close>: the outcome of \<open>cudaEventSynchronize\<close> on an event.\<close>

definition delete_mem :: "(int \<Rightarrow> 's NVCVResourceAllocator result) \<Rightarrow> (u64 \<Rightarrow> cudaError) \<Rightarrow> int \<Rightarrow> WorkspaceMem \<Rightarrow> (WorkspaceMem, 's) st" where
  "delete_mem get sync kind m =
     (if wm_data m = 0 then st_return m
      else st_throw_if (wm_ready m \<noteq> 0 \<and> sync (wm_ready m) \<noteq> cudaSuccess) RuntimeError
        (st_bind (st_lift (Allocator_get get kind)) (\<lambda>r.
         st_bind (MemAllocator_free r (wm_data m) (wr_size (wm_req m)) (wr_alignment (wm_req m))) (\<lambda>_.
         st_return (m\<lparr>wm_data := 0\<rparr>)))))"

definition delete_workspace :: "(int \<Rightarrow> 's NVCVResourceAllocator result) \<Rightarrow> (u64 \<Rightarrow> cudaError) \<Rightarrow> Workspace \<Rightarrow> (Workspace, 's) st" where
  "delete_workspace get sync ws =
     st_bind (delete_mem get sync NVCV_RESOURCE_MEM_HOST (ws_hostMem ws)) (\<lambda>h.
     st_bind (delete_mem get sync NVCV_RESOURCE_MEM_HOST_PINNED (ws_pinnedMem ws)) (\<lambda>p.
     st_bind (delete_mem get sync NVCV_RESOURCE_MEM_CUDA (ws_cudaMem ws)) (\<lambda>c.
     st_return \<lparr>ws_hostMem = h, ws_pinnedMem = p, ws_cudaMem = c\<rparr>)))"

definition alloc_mem :: "(int \<Rightarrow> 's NVCVResourceAllocator result) \<Rightarrow> int \<Rightarrow> WorkspaceMemRequirements \<Rightarrow> (WorkspaceMem, 's) st" where
  "alloc_mem get kind req =
     (if wr_size req \<noteq> 0
      then st_bind (st_lift (Allocator_get get kind)) (\<lambda>r.
           st_bind (MemAllocator_alloc r (wr_size req) (wr_alignment req)) (\<lambda>p. st_return (no_mem\<lparr>wm_req := req, wm_data := p\<rparr>)))
      else st_return (no_mem\<lparr>wm_req := req\<rparr>))"

text \<open>The \<open>catch\<close>: what was allocated is deleted and the exception is passed on.\<close>

definition abandon :: "(int \<Rightarrow> 's NVCVResourceAllocator result) \<Rightarrow> (u64 \<Rightarrow> cudaError) \<Rightarrow> Workspace \<Rightarrow> failure \<Rightarrow> ('a, 's) st" where
  "abandon get sync ws e = st_bind (delete_workspace get sync ws) (\<lambda>_. st_fail e)"

definition AllocateWorkspace :: "(int \<Rightarrow> 's NVCVResourceAllocator result) \<Rightarrow> (u64 \<Rightarrow> cudaError) \<Rightarrow> WorkspaceRequirements \<Rightarrow> ('s UniqueWorkspace, 's) st" where
  "AllocateWorkspace get sync req s =
     (let h0 = no_mem\<lparr>wm_req := wq_hostMem req\<rparr>; p0 = no_mem\<lparr>wm_req := wq_pinnedMem req\<rparr>; c0 = no_mem\<lparr>wm_req := wq_cudaMem req\<rparr> in
      case alloc_mem get NVCV_RESOURCE_MEM_HOST (wq_hostMem req) s of
        (Inl e, s) \<Rightarrow> abandon get sync \<lparr>ws_hostMem = h0, ws_pinnedMem = p0, ws_cudaMem = c0\<rparr> e s
      | (Inr h, s) \<Rightarrow>
      (case alloc_mem get NVCV_RESOURCE_MEM_HOST_PINNED (wq_pinnedMem req) s of
        (Inl e, s) \<Rightarrow> abandon get sync \<lparr>ws_hostMem = h, ws_pinnedMem = p0, ws_cudaMem = c0\<rparr> e s
      | (Inr p, s) \<Rightarrow>
      (case alloc_mem get NVCV_RESOURCE_MEM_CUDA (wq_cudaMem req) s of
        (Inl e, s) \<Rightarrow> abandon get sync \<lparr>ws_hostMem = h, ws_pinnedMem = p, ws_cudaMem = c0\<rparr> e s
      | (Inr c, s) \<Rightarrow>
          (Inr \<lparr>uw_impl = \<lparr>ws_hostMem = h, ws_pinnedMem = p, ws_cudaMem = c\<rparr>, uw_del = Some (delete_workspace get sync)\<rparr>, s))))"

section \<open>The three allocators over a workspace\<close>

record WorkspaceAllocator =
  wsa_hostMem :: WorkspaceMemAllocator
  wsa_pinnedMem :: WorkspaceMemAllocator
  wsa_cudaMem :: WorkspaceMemAllocator

definition WorkspaceAllocator_ctor :: "Workspace \<Rightarrow> WorkspaceAllocator" where
  "WorkspaceAllocator_ctor ws =
     \<lparr>wsa_hostMem = WorkspaceMemAllocator_ctor (ws_hostMem ws) None None,
      wsa_pinnedMem = WorkspaceMemAllocator_ctor (ws_pinnedMem ws) None None,
      wsa_cudaMem = WorkspaceMemAllocator_ctor (ws_cudaMem ws) None None\<rparr>"

definition getHost :: "(event_call \<Rightarrow> cudaError) \<Rightarrow> request \<Rightarrow> (ptr, WorkspaceAllocator) st" where
  "getHost cuda rq = (\<lambda>w. let (r, a) = ws_get cuda rq (wsa_hostMem w) in (r, w\<lparr>wsa_hostMem := a\<rparr>))"

definition getPinned :: "(event_call \<Rightarrow> cudaError) \<Rightarrow> request \<Rightarrow> (ptr, WorkspaceAllocator) st" where
  "getPinned cuda rq = (\<lambda>w. let (r, a) = ws_get cuda rq (wsa_pinnedMem w) in (r, w\<lparr>wsa_pinnedMem := a\<rparr>))"

definition getCuda :: "(event_call \<Rightarrow> cudaError) \<Rightarrow> request \<Rightarrow> (ptr, WorkspaceAllocator) st" where
  "getCuda cuda rq = (\<lambda>w. let (r, a) = ws_get cuda rq (wsa_cudaMem w) in (r, w\<lparr>wsa_cudaMem := a\<rparr>))"

section \<open>No memory is lost\<close>

text \<open>What is asked of the allocator behind the handle: an allocator of each kind that keeps its contract.\<close>

definition kind_served :: "('s \<Rightarrow> (int \<times> ptr) set) \<Rightarrow> (int \<Rightarrow> 's NVCVResourceAllocator result) \<Rightarrow> int \<Rightarrow> bool" where
  "kind_served used get k \<longleftrightarrow> (\<exists>r al fr. get k = Inr r \<and> ra_resType r = k \<and> ra_fnAlloc r = Some al \<and> ra_fnFree r = Some fr
     \<and> serves used k al fr)"

definition mem_blocks :: "int \<Rightarrow> WorkspaceMem \<Rightarrow> (int \<times> ptr) set" where
  "mem_blocks k m = (if wm_data m = 0 then {} else {(k, wm_data m)})"

lemma delete_mem_ok:
  assumes "kind_served used get k" "wm_ready m = 0" "mem_blocks k m \<subseteq> used s"
  shows "\<exists>s'. delete_mem get sync k m s = (Inr (m\<lparr>wm_data := 0\<rparr>), s') \<and> used s' = used s - mem_blocks k m"
proof (cases "wm_data m = 0")
  case False
  obtain r al fr where r: "get k = Inr r" "ra_resType r = k" "ra_fnFree r = Some fr" "serves used k al fr"
    using assms(1) by (auto simp: kind_served_def)
  have "used (fr (wm_data m) sz a s) = used s - mem_blocks k m" for sz a
    using serves_free [OF r(4), of "wm_data m" s sz a] assms(3) False by (simp add: mem_blocks_def)
  then show ?thesis using r False assms(2)
    by (simp add: delete_mem_def st_throw_if_app Allocator_get_def MemAllocatorWithKind_def MemAllocator_free_def)
qed (simp add: delete_mem_def mem_blocks_def)

lemma alloc_mem_ok:
  assumes "kind_served used get k"
  shows "case alloc_mem get k req s of
     (Inl e, s') \<Rightarrow> used s' = used s
   | (Inr m, s') \<Rightarrow> wm_req m = req \<and> wm_ready m = 0 \<and> used s' = used s \<union> mem_blocks k m \<and> used s \<inter> mem_blocks k m = {}"
proof (cases "wr_size req = 0")
  case False
  obtain r al fr where r: "get k = Inr r" "ra_resType r = k" "ra_fnAlloc r = Some al" "serves used k al fr"
    using assms by (auto simp: kind_served_def)
  obtain q s1 where q: "al (wrap64 (uint (wr_size req))) (wrap32 (uint (wr_alignment req))) s = (q, s1)" by (metis surj_pair)
  then show ?thesis using False r serves_fails [OF r(4)] serves_block [OF r(4)] serves_null [OF r(4)]
    by (cases q) (auto simp: alloc_mem_def Allocator_get_def MemAllocatorWithKind_def MemAllocator_alloc_def no_mem_def mem_blocks_def)
qed (simp add: alloc_mem_def mem_blocks_def no_mem_def)

definition workspace_blocks :: "Workspace \<Rightarrow> (int \<times> ptr) set" where
  "workspace_blocks ws = mem_blocks 0 (ws_hostMem ws) \<union> mem_blocks 2 (ws_pinnedMem ws) \<union> mem_blocks 1 (ws_cudaMem ws)"

definition not_ready :: "Workspace \<Rightarrow> bool" where
  "not_ready ws \<longleftrightarrow> wm_ready (ws_hostMem ws) = 0 \<and> wm_ready (ws_pinnedMem ws) = 0 \<and> wm_ready (ws_cudaMem ws) = 0"

lemma delete_workspace_ok:
  assumes k: "kind_served used get 0" "kind_served used get 1" "kind_served used get 2"
    and ws: "not_ready ws" "workspace_blocks ws \<subseteq> used s"
  shows "\<exists>ws' s'. delete_workspace get sync ws s = (Inr ws', s') \<and> used s' = used s - workspace_blocks ws"
proof -
  have r: "wm_ready (ws_hostMem ws) = 0" "wm_ready (ws_pinnedMem ws) = 0" "wm_ready (ws_cudaMem ws) = 0"
    using ws(1) by (simp_all add: not_ready_def)
  have h0: "mem_blocks 0 (ws_hostMem ws) \<subseteq> used s" using ws(2) by (auto simp: workspace_blocks_def)
  obtain s1 where 1: "delete_mem get sync 0 (ws_hostMem ws) s = (Inr ((ws_hostMem ws)\<lparr>wm_data := 0\<rparr>), s1)"
    "used s1 = used s - mem_blocks 0 (ws_hostMem ws)"
    using delete_mem_ok [OF k(1) r(1) h0] by blast
  have "mem_blocks 2 (ws_pinnedMem ws) \<subseteq> used s1" using ws(2) 1(2) by (auto simp: workspace_blocks_def mem_blocks_def split: if_splits)
  then obtain s2 where 2: "delete_mem get sync 2 (ws_pinnedMem ws) s1 = (Inr ((ws_pinnedMem ws)\<lparr>wm_data := 0\<rparr>), s2)"
    "used s2 = used s1 - mem_blocks 2 (ws_pinnedMem ws)"
    using delete_mem_ok [OF k(3) r(2)] by blast
  have "mem_blocks 1 (ws_cudaMem ws) \<subseteq> used s2"
    using ws(2) 1(2) 2(2) by (auto simp: workspace_blocks_def mem_blocks_def split: if_splits)
  then obtain s3 where 3: "delete_mem get sync 1 (ws_cudaMem ws) s2 = (Inr ((ws_cudaMem ws)\<lparr>wm_data := 0\<rparr>), s3)"
    "used s3 = used s2 - mem_blocks 1 (ws_cudaMem ws)"
    using delete_mem_ok [OF k(2) r(3)] by blast
  have "used s3 = used s - workspace_blocks ws" using 1(2) 2(2) 3(2) by (auto simp: workspace_blocks_def)
  then show ?thesis using 1(1) 2(1) 3(1) by (simp add: delete_workspace_def)
qed

lemma abandon_ok:
  assumes "kind_served used get 0" "kind_served used get 1" "kind_served used get 2"
    and "not_ready ws" "used s = L \<union> workspace_blocks ws" "L \<inter> workspace_blocks ws = {}"
  shows "\<exists>s'. abandon get sync ws e s = (Inl e, s') \<and> used s' = L"
proof -
  obtain ws' s' where "delete_workspace get sync ws s = (Inr ws', s')" "used s' = used s - workspace_blocks ws"
    using delete_workspace_ok [OF assms(1-4), where s = s] assms(5) by blast
  then show ?thesis using assms(5,6) by (auto simp: abandon_def)
qed

lemma AllocateWorkspace_ok:
  fixes used :: "'s \<Rightarrow> (int \<times> ptr) set"
  assumes k: "kind_served used get 0" "kind_served used get 1" "kind_served used get 2"
  shows "case AllocateWorkspace get sync req s of
     (Inl e, s') \<Rightarrow> used s' = used s
   | (Inr u, s') \<Rightarrow> uw_del u = Some (delete_workspace get sync) \<and> not_ready (uw_impl u)
       \<and> used s' = used s \<union> workspace_blocks (uw_impl u) \<and> used s \<inter> workspace_blocks (uw_impl u) = {}
       \<and> wm_req (ws_hostMem (uw_impl u)) = wq_hostMem req \<and> wm_req (ws_pinnedMem (uw_impl u)) = wq_pinnedMem req
       \<and> wm_req (ws_cudaMem (uw_impl u)) = wq_cudaMem req"
proof -
  let ?h0 = "no_mem\<lparr>wm_req := wq_hostMem req\<rparr>" and ?p0 = "no_mem\<lparr>wm_req := wq_pinnedMem req\<rparr>" and ?c0 = "no_mem\<lparr>wm_req := wq_cudaMem req\<rparr>"
  have empty [simp]: "wm_data ?h0 = 0" "wm_data ?p0 = 0" "wm_data ?c0 = 0" "wm_ready ?h0 = 0" "wm_ready ?p0 = 0" "wm_ready ?c0 = 0"
    by (simp_all add: no_mem_def)
  note blocks = workspace_blocks_def mem_blocks_def not_ready_def
  obtain q1 s1 where 1: "alloc_mem get 0 (wq_hostMem req) s = (q1, s1)" by (metis surj_pair)
  show ?thesis
  proof (cases q1)
    case (Inl e)
    have "used s1 = used s" using alloc_mem_ok [OF k(1), where req = "wq_hostMem req" and s = s] 1 Inl by simp
    then obtain s4 where "abandon get sync \<lparr>ws_hostMem = ?h0, ws_pinnedMem = ?p0, ws_cudaMem = ?c0\<rparr> e s1 = (Inl e :: 's UniqueWorkspace result, s4)" "used s4 = used s"
      using abandon_ok [OF k, of "\<lparr>ws_hostMem = ?h0, ws_pinnedMem = ?p0, ws_cudaMem = ?c0\<rparr>" s1 "used s" sync e]
      by (auto simp: blocks)
    then show ?thesis using 1 Inl by (simp add: AllocateWorkspace_def)
  next
    case h: (Inr h)
    have h': "wm_req h = wq_hostMem req" "wm_ready h = 0" "used s1 = used s \<union> mem_blocks 0 h" "used s \<inter> mem_blocks 0 h = {}"
      using alloc_mem_ok [OF k(1), where req = "wq_hostMem req" and s = s] 1 h by simp_all
    obtain q2 s2 where 2: "alloc_mem get 2 (wq_pinnedMem req) s1 = (q2, s2)" by (metis surj_pair)
    show ?thesis
    proof (cases q2)
      case (Inl e)
      have "used s2 = used s1" using alloc_mem_ok [OF k(3), where req = "wq_pinnedMem req" and s = s1] 2 Inl by simp
      then obtain s4 where "abandon get sync \<lparr>ws_hostMem = h, ws_pinnedMem = ?p0, ws_cudaMem = ?c0\<rparr> e s2 = (Inl e :: 's UniqueWorkspace result, s4)" "used s4 = used s"
        using abandon_ok [OF k, of "\<lparr>ws_hostMem = h, ws_pinnedMem = ?p0, ws_cudaMem = ?c0\<rparr>" s2 "used s" sync e] h'
        by (auto simp: workspace_blocks_def not_ready_def mem_blocks_def [of _ ?p0] mem_blocks_def [of _ ?c0])
      then show ?thesis using 1 h 2 Inl by (simp add: AllocateWorkspace_def)
    next
      case p: (Inr p)
      have p': "wm_req p = wq_pinnedMem req" "wm_ready p = 0" "used s2 = used s1 \<union> mem_blocks 2 p" "used s1 \<inter> mem_blocks 2 p = {}"
        using alloc_mem_ok [OF k(3), where req = "wq_pinnedMem req" and s = s1] 2 p by simp_all
      obtain q3 s3 where 3: "alloc_mem get 1 (wq_cudaMem req) s2 = (q3, s3)" by (metis surj_pair)
      show ?thesis
      proof (cases q3)
        case (Inl e)
        have "used s3 = used s2" using alloc_mem_ok [OF k(2), where req = "wq_cudaMem req" and s = s2] 3 Inl by simp
        moreover have "used s2 = used s \<union> (mem_blocks 0 h \<union> mem_blocks 2 p)" "used s \<inter> (mem_blocks 0 h \<union> mem_blocks 2 p) = {}"
          using h'(3,4) p'(3,4) by blast+
        ultimately obtain s4 where "abandon get sync \<lparr>ws_hostMem = h, ws_pinnedMem = p, ws_cudaMem = ?c0\<rparr> e s3 = (Inl e :: 's UniqueWorkspace result, s4)" "used s4 = used s"
          using abandon_ok [OF k, of "\<lparr>ws_hostMem = h, ws_pinnedMem = p, ws_cudaMem = ?c0\<rparr>" s3 "used s" sync e] h'(2) p'(2)
          by (auto simp: workspace_blocks_def not_ready_def mem_blocks_def [of _ ?c0])
        then show ?thesis using 1 h 2 p 3 Inl by (simp add: AllocateWorkspace_def)
      next
        case c: (Inr c)
        have "wm_req c = wq_cudaMem req" "wm_ready c = 0" "used s3 = used s2 \<union> mem_blocks 1 c" "used s2 \<inter> mem_blocks 1 c = {}"
          using alloc_mem_ok [OF k(2), where req = "wq_cudaMem req" and s = s2] 3 c by simp_all
        then show ?thesis using 1 h 2 p 3 c h' p' by (auto simp: AllocateWorkspace_def workspace_blocks_def not_ready_def)
      qed
    qed
  qed
qed


section \<open>Estimates can be allocated\<close>

text \<open>
  The operators round the sizes of an estimate up to its alignments before they ask for the
  workspace: then the arguments pass the checks of the allocator.
\<close>

lemma aligned_estimate_accepted:
  assumes "power64 (wr_alignment r)" "uint (wr_alignment r) < 2 ^ 31" "uint (wr_size r) + uint (wr_alignment r) < 2 ^ 63"
  shows "checked_alloc f (wrap64 (uint (wr_size (align_req r)))) (wrap32 (uint (wr_alignment r))) s
    = f (uint (wr_size (align_req r))) (uint (wr_alignment r)) s"
proof -
  obtain k where k: "k < 64" "wr_alignment r = 2 ^ k" using assms(1) by (auto simp: power64_def)
  have a: "uint (wr_alignment r) = 2 ^ k" using uint_exp64 [OF k(1)] k(2) by simp
  let ?n = "RoundUp (uint (wr_size r)) (2 ^ k)"
  have le: "?n < 2 ^ 63" "0 \<le> ?n"
    using RoundUp_less [of "2 ^ k" "uint (wr_size r)", simplified] RoundUp_ge [of "2 ^ k" "uint (wr_size r)", simplified]
      assms(3) a uint_ge_0 [of "wr_size r"] by linarith+
  then have sz: "uint (wr_size (align_req r)) = ?n"
    using uint_AlignUp [OF k(1), of "wr_size r"] k(2) by (simp add: align_req_def)
  have dvd: "2 ^ k dvd ?n" by (rule RoundUp_dvd)
  have "RoundUp (RoundUp (uint (wr_size r)) (2 ^ k)) (2 ^ k) = RoundUp (uint (wr_size r)) (2 ^ k)"
    using RoundUp_fixed [of "2 ^ k" ?n] dvd by simp
  moreover have "wrap32 (2 ^ k) = 2 ^ k" using assms(2) a by (intro wrap32_id) (simp_all add: order_trans [of _ 0])
  ultimately show ?thesis using le a sz by (simp add: checked_alloc_def st_throw_if_app IsPowerOfTwo_exp)
qed

text \<open>Without that step they can fail: 100 bytes in the CUDA part have the alignment 256.\<close>

lemma plain_estimate_rejected:
  "fst (checked_alloc f (wrap64 (uint (wr_size (wq_cudaMem (est_addCuda (hd demo_requests) WorkspaceEstimator)))))
     (wrap32 (uint (wr_alignment (wq_cudaMem (est_addCuda (hd demo_requests) WorkspaceEstimator))))) s)
   = Inl (Throw NVCV_ERROR_INVALID_ARGUMENT)"
  by (simp add: checked_alloc_def st_throw_if_app est_addCuda_def est_add_def WorkspaceEstimator_def demo_requests_def
      AlignUp_def AlignDown_def IsPowerOfTwo_def RoundUp_def)

section \<open>Owners at work\<close>

text \<open>Blocks by number: the memory is the list of blocks in use; CUDA memory runs out after two blocks.\<close>

definition numbered_alloc :: "int \<Rightarrow> ((int \<times> ptr) list) alloc_fn" where
  "numbered_alloc k sz align s =
     (let p = word_of_nat (4096 * Suc (length s)) in
      if p = 0 \<or> (k, p) \<in> set s \<or> (k = 1 \<and> 2 < length s) then (Inl (Throw NVCV_ERROR_OUT_OF_MEMORY), s) else (Inr p, (k, p) # s))"

definition numbered_free :: "int \<Rightarrow> ((int \<times> ptr) list) free_fn" where
  "numbered_free k p sz align s = filter (\<lambda>b. b \<noteq> (k, p) \<or> p = 0) s"

definition numbered_get :: "int \<Rightarrow> ((int \<times> ptr) list) NVCVResourceAllocator result" where
  "numbered_get k = Inr \<lparr>ra_resType = k, ra_fnAlloc = Some (checked_alloc (numbered_alloc k)), ra_fnFree = Some (numbered_free k), ra_cleanup = None\<rparr>"

lemma numbered_served: "kind_served set numbered_get k"
proof -
  have "serves set k (numbered_alloc k) (numbered_free k)"
    by (auto simp: serves_def numbered_alloc_def numbered_free_def Let_def)
  then show ?thesis using checked_alloc_serves by (fastforce simp: kind_served_def numbered_get_def)
qed

definition demo_reqs :: WorkspaceRequirements where
  "demo_reqs = \<lparr>wq_hostMem = \<lparr>wr_size = 64, wr_alignment = 16\<rparr>, wq_pinnedMem = \<lparr>wr_size = 0, wr_alignment = 256\<rparr>,
     wq_cudaMem = \<lparr>wr_size = 512, wr_alignment = 256\<rparr>\<rparr>"

text \<open>A workspace of host and CUDA memory; with two blocks in use, there is no CUDA memory left.\<close>

lemma demo_allocate:
  "AllocateWorkspace numbered_get sync demo_reqs [] =
     (Inr \<lparr>uw_impl = \<lparr>ws_hostMem = no_mem\<lparr>wm_req := wq_hostMem demo_reqs, wm_data := 4096\<rparr>,
        ws_pinnedMem = no_mem\<lparr>wm_req := wq_pinnedMem demo_reqs\<rparr>, ws_cudaMem = no_mem\<lparr>wm_req := wq_cudaMem demo_reqs, wm_data := 8192\<rparr>\<rparr>,
        uw_del = Some (delete_workspace numbered_get sync)\<rparr>, [(1, 8192), (0, 4096)])"
  "fst (AllocateWorkspace numbered_get sync demo_reqs [(1, 8192), (0, 4096)]) = Inl (Throw NVCV_ERROR_OUT_OF_MEMORY)"
  by (simp_all add: AllocateWorkspace_def alloc_mem_def Allocator_get_def MemAllocatorWithKind_def MemAllocator_alloc_def numbered_get_def
      numbered_alloc_def checked_alloc_def st_throw_if_app demo_reqs_def Let_def IsPowerOfTwo_def RoundUp_def abandon_def
      delete_workspace_def delete_mem_def MemAllocator_free_def numbered_free_def no_mem_def)


text \<open>Moving an owner to itself resets it: the workspace it held is released.\<close>

lemma self_move_releases:
  assumes "i < length us" "uw_del (us ! i) = Some del" "del (uw_impl (us ! i)) s = (Inr ws, s')"
  shows "owner_move_assign i i us s = (Inr (us[i := empty_owner]), s')"
  using assms by (simp add: owner_move_assign_def owner_reset_def)

text \<open>A CUDA error while the deleter waits for the event ends the process, since \<open>reset\<close> is \<open>noexcept\<close>.\<close>

lemma failed_wait_terminates:
  assumes "wm_data (ws_hostMem ws) \<noteq> 0" "wm_ready (ws_hostMem ws) \<noteq> 0" "sync (wm_ready (ws_hostMem ws)) \<noteq> cudaSuccess"
  shows "fst (owner_reset \<lparr>uw_impl = ws, uw_del = Some (delete_workspace get sync)\<rparr> s) = Inl Terminated"
  using assms by (simp add: owner_reset_def delete_workspace_def delete_mem_def st_throw_if_app)

text \<open>Requests go to the part of the workspace they name, and the other parts stay as they are.\<close>

lemma get_parts:
  "wsa_pinnedMem (snd (getHost cuda rq w)) = wsa_pinnedMem w" "wsa_cudaMem (snd (getHost cuda rq w)) = wsa_cudaMem w"
  "fst (getCuda cuda rq w) = fst (ws_get cuda rq (wsa_cudaMem w))" "wsa_hostMem (snd (getCuda cuda rq w)) = wsa_hostMem w"
  "fst (getPinned cuda rq w) = fst (ws_get cuda rq (wsa_pinnedMem w))" "wsa_cudaMem (snd (getPinned cuda rq w)) = wsa_cudaMem w"
  by (simp_all add: getHost_def getCuda_def getPinned_def split_beta)

end
