(* ===== verification/Array_Object.thy ===== *)
theory Array_Object
  imports Buffer_Blocks Image_Object
begin

text \<open>
  Arrays (\<open>src/nvcv/src/priv/Array.cpp\<close> and \<open>ArrayWrapData.cpp\<close>): a run of elements of one data
  type in memory of the host or of the device, with a capacity fixed when it is made and a length
  that can change. Wrapped arrays are on memory of the user.
\<close>

section \<open>Array data\<close>

abbreviation (input) "NVCV_ARRAY_BUFFER_NONE \<equiv> (0 :: int)"
abbreviation (input) "NVCV_ARRAY_BUFFER_CUDA \<equiv> (0x11 :: int)"
abbreviation (input) "NVCV_ARRAY_BUFFER_HOST \<equiv> (0x24 :: int)"
abbreviation (input) "NVCV_ARRAY_BUFFER_HOST_PINNED \<equiv> (0x28 :: int)"

text \<open>The buffer union has one member, the strided buffer; its fields are inlined.\<close>

record NVCVArrayData =
  ad_dtype :: u64
  ad_length :: int
  ad_capacity :: int
  ad_bufferType :: int
  ad_stride :: int
  ad_basePtr :: ptr

record NVCVArrayRequirements =
  arr_dtype :: u64
  arr_capacity :: int
  arr_stride :: int
  arr_alignBytes :: int
  arr_mem :: NVCVRequirements

definition ResourceToBufferType :: "int \<Rightarrow> int result" where
  "ResourceToBufferType target =
     (if target = NVCV_RESOURCE_MEM_CUDA then Inr NVCV_ARRAY_BUFFER_CUDA
      else if target = NVCV_RESOURCE_MEM_HOST then Inr NVCV_ARRAY_BUFFER_HOST
      else if target = NVCV_RESOURCE_MEM_HOST_PINNED then Inr NVCV_ARRAY_BUFFER_HOST_PINNED
      else Inl (Throw NVCV_ERROR_INVALID_ARGUMENT))"

section \<open>Requirements\<close>

definition array_align :: "u64 \<Rightarrow> int \<Rightarrow> int \<Rightarrow> int result" where
  "array_align dtype userAlign target =
     (if userAlign = 0 then
        throw_if (\<not> kind_ok target) NVCV_ERROR_INVALID_ARGUMENT
       (bind_result (dt_alignment dtype) (\<lambda>align.
        bind_result (dt_strideBytes dtype) (\<lambda>stride.
        Inr (wrap32 (lcm align (RoundUpNextPowerOfTwo 32 stride))))))
      else
        throw_if (\<not> IsPowerOfTwo userAlign) NVCV_ERROR_INVALID_ARGUMENT
       (bind_result (dt_alignment dtype) (\<lambda>a. Inr (wrap32 (lcm userAlign a)))))"

text \<open>The memory requirements of one kind: read, and with a buffer added.\<close>

definition array_mem :: "NVCVRequirements \<Rightarrow> int \<Rightarrow> NVCVMemRequirements" where
  "array_mem reqs target = (if target = NVCV_RESOURCE_MEM_CUDA then cudaMem reqs
     else if target = NVCV_RESOURCE_MEM_HOST then hostMem reqs else hostPinnedMem reqs)"

definition Array_CalcRequirements :: "device \<Rightarrow> int \<Rightarrow> u64 \<Rightarrow> int \<Rightarrow> int \<Rightarrow> NVCVArrayRequirements result" where
  "Array_CalcRequirements cuda capacity dtype userAlign target =
     bind_result (check_value (cudaGetDevice cuda)) (\<lambda>dev.
     bind_result (array_align dtype userAlign target) (\<lambda>align.
     bind_result (dt_strideBytes dtype) (\<lambda>stride.
     let mem = Requirements_Init; bytes = wrap64 (stride * capacity) in
     bind_result
       (if target = NVCV_RESOURCE_MEM_CUDA then
          bind_result (AddBuffer (cudaMem mem) bytes align) (\<lambda>m. Inr (mem\<lparr>cudaMem := m\<rparr>))
        else if target = NVCV_RESOURCE_MEM_HOST then
          bind_result (AddBuffer (hostMem mem) bytes align) (\<lambda>m. Inr (mem\<lparr>hostMem := m\<rparr>))
        else if target = NVCV_RESOURCE_MEM_HOST_PINNED then
          bind_result (AddBuffer (hostPinnedMem mem) bytes align) (\<lambda>m. Inr (mem\<lparr>hostPinnedMem := m\<rparr>))
        else Inl (Throw NVCV_ERROR_INVALID_ARGUMENT))
       (\<lambda>mem. Inr \<lparr>arr_dtype = dtype, arr_capacity = capacity, arr_stride = stride, arr_alignBytes = align, arr_mem = mem\<rparr>))))"

section \<open>Allocated arrays\<close>

record 's Array =
  ar_alloc :: "'s IAllocator"
  ar_reqs :: NVCVArrayRequirements
  ar_target :: int
  ar_data :: NVCVArrayData
  ar_memBuffer :: ptr

definition Array_exportData :: "'s Array \<Rightarrow> NVCVArrayData result" where
  "Array_exportData ar =
     bind_result (ResourceToBufferType (ar_target ar)) (\<lambda>ty.
     Inr \<lparr>ad_dtype = arr_dtype (ar_reqs ar), ad_length = ad_length (ar_data ar), ad_capacity = arr_capacity (ar_reqs ar),
          ad_bufferType = ty, ad_stride = arr_stride (ar_reqs ar), ad_basePtr = ar_memBuffer ar\<rparr>)"

text \<open>\<open>old\<close> is what the data member holds before it is first written.\<close>

definition Array_ctor :: "NVCVArrayData \<Rightarrow> NVCVArrayRequirements \<Rightarrow> 's IAllocator \<Rightarrow> int \<Rightarrow> ('s Array, 's) st" where
  "Array_ctor old reqs alloc target =
     st_throw_if (\<not> kind_ok target) (Throw NVCV_ERROR_INVALID_ARGUMENT)
    (st_bind (st_lift (CalcTotalSizeBytes (array_mem (arr_mem reqs) target))) (\<lambda>bufSize.
     st_bind (alloc_kind alloc target bufSize (arr_alignBytes reqs)) (\<lambda>buffer.
     st_throw_if (buffer = 0) AssertFailed
    (let ar = \<lparr>ar_alloc = alloc, ar_reqs = reqs, ar_target = target, ar_data = old, ar_memBuffer = buffer\<rparr> in
     st_bind (st_lift (Array_exportData ar)) (\<lambda>data.
     st_return (ar\<lparr>ar_data := data\<lparr>ad_length := 0\<rparr>\<rparr>))))))"

definition Array_dtor :: "'s Array \<Rightarrow> 's \<Rightarrow> 's result" where
  "Array_dtor ar s =
     (if kind_ok (ar_target ar) then
        bind_result (CalcTotalSizeBytes (array_mem (arr_mem (ar_reqs ar)) (ar_target ar))) (\<lambda>n.
          Inr (free_kind (ar_alloc ar) (ar_target ar) (ar_memBuffer ar) n (arr_alignBytes (ar_reqs ar)) s))
      else Inr s)"

definition Array_length :: "'s Array \<Rightarrow> int" where
  "Array_length ar = ad_length (ar_data ar)"

definition Array_resize :: "int \<Rightarrow> 's Array \<Rightarrow> 's Array" where
  "Array_resize len ar =
     (if len \<le> arr_capacity (ar_reqs ar) then ar\<lparr>ar_data := (ar_data ar)\<lparr>ad_length := len\<rparr>\<rparr> else ar)"

section \<open>Wrapped arrays\<close>

text \<open>
  What \<open>cudaPointerGetAttributes\<close> says of a pointer, a parameter (CUDA 11 and later); the memory
  types are those of \<open>cudaMemoryType\<close>.
\<close>

datatype cudaMemoryType = cudaMemoryTypeUnregistered | cudaMemoryTypeHost | cudaMemoryTypeDevice | cudaMemoryTypeManaged

definition ValidateArrayBuffer :: "(ptr \<Rightarrow> cudaError \<times> cudaMemoryType) \<Rightarrow> NVCVArrayData \<Rightarrow> int result" where
  "ValidateArrayBuffer attributes data =
     throw_if (ad_basePtr data = 0) NVCV_ERROR_INVALID_ARGUMENT
    (let (err, ty) = attributes (ad_basePtr data) in
     if err = cudaSuccess \<and> ty = cudaMemoryTypeUnregistered then Inr NVCV_RESOURCE_MEM_HOST
     else if err = cudaSuccess \<and> (ty = cudaMemoryTypeDevice \<or> ty = cudaMemoryTypeManaged) then Inr NVCV_RESOURCE_MEM_CUDA
     else if err = cudaSuccess \<and> ty = cudaMemoryTypeHost then Inr NVCV_RESOURCE_MEM_HOST_PINNED
     else Inl (Throw NVCV_ERROR_INVALID_ARGUMENT))"

record ArrayWrapData =
  aw_data :: NVCVArrayData
  aw_target :: int
  aw_cleanup :: ptr
  aw_ctxCleanup :: ptr

definition ArrayWrapData_ctor :: "(ptr \<Rightarrow> cudaError \<times> cudaMemoryType) \<Rightarrow> NVCVArrayData \<Rightarrow> ptr \<Rightarrow> ptr \<Rightarrow> ArrayWrapData result" where
  "ArrayWrapData_ctor attributes data cleanup ctx =
     bind_result (ValidateArrayBuffer attributes data) (\<lambda>target.
       Inr \<lparr>aw_data = data, aw_target = target, aw_cleanup = cleanup, aw_ctxCleanup = ctx\<rparr>)"

text \<open>The value of the destructor is the list of cleanup calls made.\<close>

definition ArrayWrapData_dtor :: "ArrayWrapData \<Rightarrow> (ptr \<times> ptr \<times> NVCVArrayData) list" where
  "ArrayWrapData_dtor w = (if aw_cleanup w \<noteq> 0 then [(aw_cleanup w, aw_ctxCleanup w, aw_data w)] else [])"

definition ArrayWrapData_exportData :: "ArrayWrapData \<Rightarrow> NVCVArrayData" where
  "ArrayWrapData_exportData w = aw_data w"

definition ArrayWrapData_resize :: "int \<Rightarrow> ArrayWrapData \<Rightarrow> ArrayWrapData" where
  "ArrayWrapData_resize len w =
     (if len \<le> ad_capacity (aw_data w) then w\<lparr>aw_data := (aw_data w)\<lparr>ad_length := len\<rparr>\<rparr> else w)"


text \<open>The resize of the C interface (\<open>Array.cpp\<close>), on a valid handle.\<close>

definition nvcvArrayResize :: "int \<Rightarrow> 's Array \<Rightarrow> 's Array result" where
  "nvcvArrayResize len ar =
     throw_if (len > arr_capacity (ar_reqs ar)) NVCV_ERROR_INVALID_ARGUMENT (Inr (Array_resize len ar))"

section \<open>Access to array data\<close>

text \<open>
  The views of \<open>ArrayData.hpp\<close> differ in the kinds they accept; the access object
  (\<open>ArrayDataAccess.hpp\<close>) is made for one of them.
\<close>

datatype array_view = AnyArray | CudaArray | HostArray | HostPinnedArray

definition IsCompatibleKind :: "array_view \<Rightarrow> int \<Rightarrow> bool" where
  "IsCompatibleKind v kind =
     (case v of
        AnyArray \<Rightarrow> kind \<noteq> NVCV_ARRAY_BUFFER_NONE
      | CudaArray \<Rightarrow> kind AND NVCV_ARRAY_BUFFER_CUDA \<noteq> 0
      | HostArray \<Rightarrow> kind AND NVCV_ARRAY_BUFFER_HOST \<noteq> 0
      | HostPinnedArray \<Rightarrow> kind = NVCV_ARRAY_BUFFER_HOST_PINNED)"

record ArrayDataAccess =
  aa_data :: NVCVArrayData
  aa_length :: int
  aa_idxShift :: int
  aa_memShift :: int

text \<open>Pointers are compared as addresses; their difference is signed.\<close>

definition ArrayDataAccess_ctor :: "NVCVArrayData \<Rightarrow> int \<Rightarrow> ptr \<Rightarrow> ArrayDataAccess result" where
  "ArrayDataAccess_ctor data len_arg start_arg =
     (let len = if len_arg = 0 then ad_length data else len_arg;
          start = if start_arg = 0 then ad_basePtr data else start_arg;
          memLineRange = sint (start - ad_basePtr data);
          itrEnd = ad_basePtr data + word_of_int (ad_stride data * ad_capacity data) in
      throw_if (\<not> (start \<noteq> 0 \<and> ad_basePtr data \<le> start \<and> start < itrEnd)) NVCV_ERROR_INVALID_ARGUMENT
     (if ad_stride data = 0 then Inl DivisionByZero
      else let itrAt = memLineRange sdiv ad_stride data in
        throw_if (\<not> wrap64 (itrAt + len) \<le> ad_capacity data) NVCV_ERROR_INVALID_ARGUMENT
          (Inr \<lparr>aa_data = data, aa_length = len, aa_idxShift = itrAt, aa_memShift = memLineRange smod ad_stride data\<rparr>)))"

definition ArrayDataAccess_Create :: "array_view \<Rightarrow> NVCVArrayData \<Rightarrow> int \<Rightarrow> ptr \<Rightarrow> ArrayDataAccess option result" where
  "ArrayDataAccess_Create v data len start =
     (if IsCompatibleKind v (ad_bufferType data)
      then bind_result (ArrayDataAccess_ctor data len start) (\<lambda>a. Inr (Some a)) else Inr None)"

definition aa_sampleData :: "ArrayDataAccess \<Rightarrow> int \<Rightarrow> ptr result" where
  "aa_sampleData a n =
     throw_if (wrap64 (n + aa_idxShift a) \<ge> aa_length a) NVCV_ERROR_INVALID_ARGUMENT
       (Inr (ad_basePtr (aa_data a) + word_of_int (ad_stride (aa_data a) * aa_idxShift a) + word_of_int (aa_memShift a)))"

definition aa_ptr :: "ArrayDataAccess \<Rightarrow> ptr result" where
  "aa_ptr a =
     (if aa_idxShift a > 0 then
        throw_if (aa_idxShift a \<ge> aa_length a) NVCV_ERROR_INVALID_ARGUMENT
          (Inr (ad_basePtr (aa_data a) + word_of_int (ad_stride (aa_data a) * aa_idxShift a) + word_of_int (aa_memShift a)))
      else Inr (ad_basePtr (aa_data a)))"

section \<open>What an array keeps\<close>

text \<open>
  An array is well formed when its exported data repeats its requirements, its length is within
  the capacity, and the element at any index below the capacity lies within the bytes that were
  allocated for it.
\<close>

definition array_bytes :: "'s Array \<Rightarrow> int" where
  "array_bytes ar = projr (CalcTotalSizeBytes (array_mem (arr_mem (ar_reqs ar)) (ar_target ar)))"

definition wf_array :: "'s Array \<Rightarrow> bool" where
  "wf_array ar \<longleftrightarrow> Array_exportData ar = Inr (ar_data ar) \<and> Array_length ar \<le> arr_capacity (ar_reqs ar)
     \<and> ar_memBuffer ar \<noteq> 0 \<and> 0 < arr_stride (ar_reqs ar)
     \<and> arr_stride (ar_reqs ar) * arr_capacity (ar_reqs ar) \<le> array_bytes ar
     \<and> dt_strideBytes (arr_dtype (ar_reqs ar)) = Inr (arr_stride (ar_reqs ar))"

lemma export_resize:
  assumes "Array_exportData ar = Inr (ar_data ar)"
  shows "Array_exportData (Array_resize n ar) = Inr (ar_data (Array_resize n ar))"
proof -
  obtain ty where "ResourceToBufferType (ar_target ar) = Inr ty" and d: "ar_data ar =
    \<lparr>ad_dtype = arr_dtype (ar_reqs ar), ad_length = ad_length (ar_data ar), ad_capacity = arr_capacity (ar_reqs ar),
      ad_bufferType = ty, ad_stride = arr_stride (ar_reqs ar), ad_basePtr = ar_memBuffer ar\<rparr>"
    using assms unfolding Array_exportData_def bind_result_eq_Inr by auto
  moreover have "(ar_data ar)\<lparr>ad_length := n\<rparr> = \<lparr>ad_dtype = arr_dtype (ar_reqs ar), ad_length = n,
      ad_capacity = arr_capacity (ar_reqs ar), ad_bufferType = ty, ad_stride = arr_stride (ar_reqs ar), ad_basePtr = ar_memBuffer ar\<rparr>"
    by (subst d) simp
  ultimately show ?thesis using assms by (simp add: Array_resize_def Array_exportData_def)
qed

lemma resize_parts [simp]:
  "ar_reqs (Array_resize n ar) = ar_reqs ar" "ar_target (Array_resize n ar) = ar_target ar"
  "ar_memBuffer (Array_resize n ar) = ar_memBuffer ar" "ar_alloc (Array_resize n ar) = ar_alloc ar"
  "array_bytes (Array_resize n ar) = array_bytes ar"
  "Array_length (Array_resize n ar) = (if n \<le> arr_capacity (ar_reqs ar) then n else Array_length ar)"
  by (simp_all add: Array_resize_def array_bytes_def Array_length_def)

lemma wf_array_resize: "wf_array ar \<Longrightarrow> wf_array (Array_resize n ar)"
  using export_resize [of ar n] by (simp add: wf_array_def)

lemma array_element_inside:
  assumes "wf_array ar" "0 \<le> i" "i < Array_length ar"
  shows "0 \<le> i * arr_stride (ar_reqs ar)" "(i + 1) * arr_stride (ar_reqs ar) \<le> array_bytes ar"
proof -
  have w: "0 < arr_stride (ar_reqs ar)" "i + 1 \<le> arr_capacity (ar_reqs ar)"
    "arr_stride (ar_reqs ar) * arr_capacity (ar_reqs ar) \<le> array_bytes ar" using assms by (auto simp: wf_array_def)
  show "0 \<le> i * arr_stride (ar_reqs ar)" using w assms(2) by simp
  have "(i + 1) * arr_stride (ar_reqs ar) \<le> arr_capacity (ar_reqs ar) * arr_stride (ar_reqs ar)"
    using w by (intro mult_right_mono) auto
  then show "(i + 1) * arr_stride (ar_reqs ar) \<le> array_bytes ar" using w(3) by (simp add: mult.commute)
qed


section \<open>Construction\<close>

lemma array_align_bound: "array_align dtype ua target = Inr al \<Longrightarrow> al < 2 ^ 31"
proof -
  have "wrap32 x < 2 ^ 31" for x by (simp add: wrap32_def)
  then show "array_align dtype ua target = Inr al \<Longrightarrow> al < 2 ^ 31"
    by (auto simp: array_align_def result_simps split: if_splits)
qed

lemma Init_zero: "cudaMem Requirements_Init = mem_zero" "hostMem Requirements_Init = mem_zero"
  "hostPinnedMem Requirements_Init = mem_zero"
  by (simp_all add: Requirements_Init_def)

text \<open>The inputs: elements that have a size, a capacity that is not negative, no wrap in the product.\<close>

definition array_inputs_ok :: "int \<Rightarrow> u64 \<Rightarrow> bool" where
  "array_inputs_ok capacity dtype \<longleftrightarrow> 0 \<le> capacity
     \<and> (case dt_strideBytes dtype of Inr st \<Rightarrow> 0 < st \<and> st * capacity < 2 ^ 63 | Inl e \<Rightarrow> False)"

lemma array_requirements:
  assumes "Array_CalcRequirements cuda capacity dtype ua target = Inr reqs" "array_inputs_ok capacity dtype"
  shows "kind_ok target \<and> arr_capacity reqs = capacity \<and> arr_dtype reqs = dtype \<and> dt_strideBytes dtype = Inr (arr_stride reqs)
    \<and> 0 < arr_stride reqs \<and> AddBuffer mem_zero (arr_stride reqs * capacity) (arr_alignBytes reqs) = Inr (array_mem (arr_mem reqs) target)
    \<and> arr_alignBytes reqs < 2 ^ 31"
proof -
  obtain st where st: "dt_strideBytes dtype = Inr st" "0 < st" "0 \<le> st * capacity" "st * capacity < 2 ^ 63"
    using assms(2) by (auto simp: array_inputs_ok_def split: sum.splits)
  then have w: "wrap64 (st * capacity) = st * capacity" by (intro wrap64_id) auto
  obtain dev al where "check_value (cudaGetDevice cuda) = Inr dev" and al: "array_align dtype ua target = Inr al"
    using assms(1) unfolding Array_CalcRequirements_def bind_result_eq_Inr by blast
  then show ?thesis using assms(1) st(1,2) array_align_bound [OF al]
    by (auto simp: Array_CalcRequirements_def Let_def w Init_zero kind_ok_def array_mem_def result_simps split: if_splits)
qed

lemma array_total:
  assumes "AddBuffer mem_zero n al = Inr m" "al < 2 ^ 31" "0 \<le> n" "n < 2 ^ 63" "CalcTotalSizeBytes m = Inr tot"
  shows "n \<le> tot"
proof -
  have "valid_block al" using AddBuffer_rejects [of al mem_zero n] assms(1,2) by fastforce
  then obtain k where k: "al = 2 ^ k" "k < 32" by (auto simp: valid_block_def NVCV_MAX_MEM_REQUIREMENTS_LOG2_BLOCK_SIZE_def)
  let ?v = "DivUp n (2 ^ k)"
  have m: "m = mem_single k ?v" using AddBuffer_single [of k 0 n m] assms(1,3) k by (simp add: mem_single_zero)
  have "n \<le> ?v * 2 ^ k" "?v * 2 ^ k < n + 2 ^ k" using DivUp_bounds [of "2 ^ k" n] by simp_all
  moreover have "0 \<le> ?v" using assms(3) by (simp add: DivUp_nonneg)
  moreover have "(2 :: int) ^ k \<le> 2 ^ 31" using k(2) by (intro power_increasing) auto
  ultimately show ?thesis using CalcTotalSizeBytes_single [of ?v k tot] assms(4,5) k(2) m by simp
qed

lemma Array_ctor_outcome:
  assumes "Array_ctor old reqs a target s = (Inr ar, s')"
  obtains tot buf data where "kind_ok target" "CalcTotalSizeBytes (array_mem (arr_mem reqs) target) = Inr tot"
    "alloc_kind a target tot (arr_alignBytes reqs) s = (Inr buf, s')" "buf \<noteq> 0"
    "Array_exportData \<lparr>ar_alloc = a, ar_reqs = reqs, ar_target = target, ar_data = old, ar_memBuffer = buf\<rparr> = Inr data"
    "ar = \<lparr>ar_alloc = a, ar_reqs = reqs, ar_target = target, ar_data = data\<lparr>ad_length := 0\<rparr>, ar_memBuffer = buf\<rparr>"
  using assms that
  by (auto simp: Array_ctor_def st_throw_if_app st_bind_Inr Let_def split: if_splits)


lemma Array_ctor_wf:
  assumes "Array_CalcRequirements cuda capacity dtype ua target = Inr reqs" "array_inputs_ok capacity dtype"
    and c: "Array_ctor old reqs a target s = (Inr ar, s')"
  shows "wf_array ar \<and> Array_length ar = 0 \<and> ar_reqs ar = reqs"
proof -
  note r = array_requirements [OF assms(1,2)]
  obtain tot buf data where k: "CalcTotalSizeBytes (array_mem (arr_mem reqs) target) = Inr tot" "buf \<noteq> 0"
    and e: "Array_exportData \<lparr>ar_alloc = a, ar_reqs = reqs, ar_target = target, ar_data = old, ar_memBuffer = buf\<rparr> = Inr data"
    and ar: "ar = \<lparr>ar_alloc = a, ar_reqs = reqs, ar_target = target, ar_data = data\<lparr>ad_length := 0\<rparr>, ar_memBuffer = buf\<rparr>"
    using Array_ctor_outcome [OF c] by metis
  have b: "0 \<le> arr_stride reqs * capacity" "arr_stride reqs * capacity < 2 ^ 63" "0 \<le> capacity"
    using assms(2) r by (auto simp: array_inputs_ok_def)
  have "arr_stride reqs * capacity \<le> tot" using array_total [OF _ _ b(1,2) k(1)] r by blast
  then show ?thesis using r k e b(3) by (auto simp: ar wf_array_def Array_exportData_def Array_length_def array_bytes_def result_simps)
qed

text \<open>Any number of resizes.\<close>

abbreviation resizes :: "int list \<Rightarrow> 's Array \<Rightarrow> 's Array" where
  "resizes ns ar \<equiv> fold Array_resize ns ar"

lemma resizes_wf: "wf_array ar \<Longrightarrow> wf_array (resizes ns ar)"
  by (induction ns arbitrary: ar) (auto simp: wf_array_resize)

lemma resizes_parts [simp]:
  "ar_reqs (resizes ns ar) = ar_reqs ar" "ar_target (resizes ns ar) = ar_target ar"
  "ar_memBuffer (resizes ns ar) = ar_memBuffer ar" "ar_alloc (resizes ns ar) = ar_alloc ar"
  "array_bytes (resizes ns ar) = array_bytes ar"
  by (induction ns arbitrary: ar) auto

lemma Array_ctor_fails_live:
  assumes "honest live a" "Array_ctor old reqs a target s = (Inl e, s')"
  shows "live s' = live s"
proof (cases "kind_ok target")
  case k: True
  note sv = honest_serves [OF assms(1) k]
  have x: "\<exists>d. Array_exportData \<lparr>ar_alloc = a, ar_reqs = reqs, ar_target = target, ar_data = old, ar_memBuffer = buf\<rparr> = Inr d" for buf
    using k by (auto simp: Array_exportData_def ResourceToBufferType_def kind_ok_def)
  show ?thesis
  proof (cases "CalcTotalSizeBytes (array_mem (arr_mem reqs) target)")
    case tot: (Inr tot)
    obtain b s1 where al: "alloc_kind a target tot (arr_alignBytes reqs) s = (b, s1)" by (cases "alloc_kind a target tot (arr_alignBytes reqs) s")
    show ?thesis
    proof (cases b)
      case (Inl e')
      then have "s' = s1" using assms(2) k tot al by (simp add: Array_ctor_def)
      then show ?thesis using serves_fails [OF sv] al Inl by blast
    next
      case (Inr buf)
      obtain d where "Array_exportData \<lparr>ar_alloc = a, ar_reqs = reqs, ar_target = target, ar_data = old, ar_memBuffer = buf\<rparr> = Inr d"
        using x by blast
      then have "buf = 0 \<and> s' = s1" using assms(2) k tot al Inr
        by (cases "buf = 0") (auto simp: Array_ctor_def st_bind_def Let_def)
      then show ?thesis using serves_null [OF sv] al Inr by blast
    qed
  qed (use assms(2) k in \<open>auto simp: Array_ctor_def st_bind_def\<close>)
qed (use assms(2) in \<open>auto simp: Array_ctor_def\<close>)

section \<open>Properties\<close>

text \<open>
  Property C23: an array made from the requirements computed for it stays well formed. After any
  sequence of resizes, whatever lengths they ask for, the exported data repeats the array's element
  type, capacity and buffer, the length does not exceed the capacity, and every element below the
  length lies inside the bytes that were allocated.
\<close>

theorem array_well_formed:
  assumes "Array_CalcRequirements cuda capacity dtype ua target = Inr reqs" "array_inputs_ok capacity dtype"
    and "Array_ctor old reqs a target s = (Inr ar, s')"
  shows "wf_array (resizes ns ar) \<and> Array_length (resizes ns ar) \<le> capacity
    \<and> (\<forall>i. 0 \<le> i \<and> i < Array_length (resizes ns ar) \<longrightarrow>
         0 \<le> i * arr_stride reqs \<and> (i + 1) * arr_stride reqs \<le> array_bytes ar)"
proof -
  have w: "wf_array ar" "ar_reqs ar = reqs" using Array_ctor_wf [OF assms] by blast+
  have c: "arr_capacity reqs = capacity" using array_requirements [OF assms(1,2)] by blast
  show ?thesis using resizes_wf [OF w(1), of ns] array_element_inside [OF resizes_wf [OF w(1)], of _ ns] w(2) c
    by (auto simp: wf_array_def)
qed

text \<open>
  An array gives back what it took. With an allocator that keeps its contract, a
  constructor that fails leaves the blocks in use as they were, and so does the destructor of an
  array that was constructed, after any sequence of resizes.
\<close>

theorem array_memory_balanced:
  assumes "honest live a"
  shows "case Array_ctor old reqs a target s of
      (Inl e, s') \<Rightarrow> live s' = live s
    | (Inr ar, s') \<Rightarrow> live s' = insert (target, ar_memBuffer ar) (live s) \<and> (target, ar_memBuffer ar) \<notin> live s
        \<and> (\<exists>s''. Array_dtor (resizes ns ar) s' = Inr s'' \<and> live s'' = live s)"
proof -
  obtain r s' where c: "Array_ctor old reqs a target s = (r, s')" by (cases "Array_ctor old reqs a target s")
  show ?thesis
  proof (cases r)
    case (Inr ar)
    obtain tot buf data where k: "kind_ok target" "CalcTotalSizeBytes (array_mem (arr_mem reqs) target) = Inr tot"
      "alloc_kind a target tot (arr_alignBytes reqs) s = (Inr buf, s')" "buf \<noteq> 0"
      and ar: "ar = \<lparr>ar_alloc = a, ar_reqs = reqs, ar_target = target, ar_data = data\<lparr>ad_length := 0\<rparr>, ar_memBuffer = buf\<rparr>"
      using Array_ctor_outcome c Inr by metis
    note sv = honest_serves [OF assms k(1)]
    have b: "(target, buf) \<notin> live s" "live s' = insert (target, buf) (live s)" using serves_block [OF sv k(3,4)] by auto
    have "live (free_kind a target buf tot (arr_alignBytes reqs) s') = live s" using serves_free [OF sv, of buf s'] b k(4) by auto
    then show ?thesis using c Inr b k by (auto simp: ar Array_dtor_def)
  next
    case (Inl e)
    then show ?thesis using Array_ctor_fails_live [OF assms] c by simp
  qed
qed


section \<open>Views\<close>

text \<open>A buffer that does not wrap around the address space.\<close>

definition addressable :: "NVCVArrayData \<Rightarrow> bool" where
  "addressable d \<longleftrightarrow> 0 < ad_stride d \<and> 0 \<le> ad_capacity d \<and> uint (ad_basePtr d) + ad_stride d * ad_capacity d < 2 ^ 63"

definition in_array :: "NVCVArrayData \<Rightarrow> ptr \<Rightarrow> bool" where
  "in_array d p \<longleftrightarrow> uint (ad_basePtr d) \<le> uint p \<and> uint p < uint (ad_basePtr d) + ad_stride d * ad_capacity d"

lemma uint_small_word: "0 \<le> n \<Longrightarrow> n < 2 ^ 63 \<Longrightarrow> uint (word_of_int n :: ptr) = n"
  by (simp add: uint_word_of_int)

text \<open>The two shifts add up to the distance of the start.\<close>

lemma view_shifts:
  assumes "ArrayDataAccess_ctor d len st = Inr a" "addressable d"
  defines "start \<equiv> if st = 0 then ad_basePtr d else st"
  shows "aa_data a = d \<and> in_array d start \<and> 0 \<le> aa_idxShift a
    \<and> ad_stride d * aa_idxShift a + aa_memShift a = uint start - uint (ad_basePtr d)
    \<and> aa_idxShift a * ad_stride d \<le> uint start - uint (ad_basePtr d)
    \<and> wrap64 (aa_idxShift a + aa_length a) \<le> ad_capacity d \<and> aa_length a = (if len = 0 then ad_length d else len)"
proof -
  let ?r = "uint start - uint (ad_basePtr d)"
  have g: "ad_basePtr d \<le> start" "start < ad_basePtr d + word_of_int (ad_stride d * ad_capacity d)" "ad_stride d \<noteq> 0"
    and a: "a = \<lparr>aa_data = d, aa_length = if len = 0 then ad_length d else len,
      aa_idxShift = sint (start - ad_basePtr d) sdiv ad_stride d, aa_memShift = sint (start - ad_basePtr d) smod ad_stride d\<rparr>"
    and c: "wrap64 (aa_idxShift a + aa_length a) \<le> ad_capacity d"
    using assms(1) unfolding ArrayDataAccess_ctor_def Let_def start_def by (auto simp: result_simps split: if_splits)
  have p: "0 < ad_stride d" "0 \<le> ad_capacity d" "uint (ad_basePtr d) + ad_stride d * ad_capacity d < 2 ^ 63"
    using assms(2) by (auto simp: addressable_def)
  then have n: "0 \<le> ad_stride d * ad_capacity d" "0 \<le> uint (ad_basePtr d)" by simp_all
  then have "uint (word_of_int (ad_stride d * ad_capacity d) :: ptr) = ad_stride d * ad_capacity d"
    using p(3) n by (intro uint_small_word) linarith+
  then have e: "uint (ad_basePtr d + word_of_int (ad_stride d * ad_capacity d)) = uint (ad_basePtr d) + ad_stride d * ad_capacity d"
    using p(3) n by (simp add: uint_plus_if' del: of_int_mult)
  have i: "in_array d start" using g(1,2) e by (simp add: in_array_def word_le_def word_less_def)
  have u: "uint (start - ad_basePtr d) = ?r" using g(1) by (simp add: uint_minus_simple_alt)
  have r: "0 \<le> ?r" "?r < 2 ^ 63" using i p(3) n unfolding in_array_def by linarith+
  have "sint (start - ad_basePtr d) = ?r" using u r by (simp add: sint_uint signed_take_bit_int_eq_self)
  moreover have "?r sdiv ad_stride d = ?r div ad_stride d" "?r smod ad_stride d = ?r mod ad_stride d"
    using r p(1) by (simp_all add: signed_divide_int_def signed_modulo_int_def sgn_if minus_div_mult_eq_mod [symmetric])
  moreover have "?r div ad_stride d * ad_stride d \<le> ?r" using p(1) by (simp add: minus_mod_eq_div_mult [symmetric])
  ultimately show ?thesis using i c a r p(1) by (simp add: pos_imp_zdiv_nonneg_iff)
qed

lemma view_address:
  assumes "ArrayDataAccess_ctor d len st = Inr a" "addressable d"
  shows "ad_basePtr (aa_data a) + word_of_int (ad_stride (aa_data a) * aa_idxShift a) + word_of_int (aa_memShift a)
    = (if st = 0 then ad_basePtr d else st)"
proof -
  note v = view_shifts [OF assms]
  have "ad_basePtr d + word_of_int (ad_stride d * aa_idxShift a) + word_of_int (aa_memShift a)
      = ad_basePtr d + word_of_int (ad_stride d * aa_idxShift a + aa_memShift a)" by simp
  also have "\<dots> = ad_basePtr d + word_of_int (uint (if st = 0 then ad_basePtr d else st) - uint (ad_basePtr d))" using v by simp
  also have "\<dots> = (if st = 0 then ad_basePtr d else st)" by simp
  finally show ?thesis using v by simp
qed


text \<open>
  Property C40: no pointer that an access object hands out leaves the array. On a buffer that does
  not wrap around, an access object made with any length and start address keeps its first element
  inside, does not extend beyond the capacity, and both \<open>ptr\<close> and \<open>sampleData\<close>, at every
  index they accept, return an address inside the buffer.
\<close>

theorem array_view_in_bounds:
  assumes "ArrayDataAccess_Create v d len st = Inr (Some a)" "addressable d"
  shows "IsCompatibleKind v (ad_bufferType d) \<and> 0 \<le> aa_idxShift a \<and> wrap64 (aa_idxShift a + aa_length a) \<le> ad_capacity d
    \<and> (\<forall>n p. aa_sampleData a n = Inr p \<longrightarrow> in_array d p)
    \<and> (\<forall>p. aa_ptr a = Inr p \<longrightarrow> in_array d p)"
proof -
  have c: "ArrayDataAccess_ctor d len st = Inr a" "IsCompatibleKind v (ad_bufferType d)"
    using assms(1) by (auto simp: ArrayDataAccess_Create_def result_simps split: if_splits)
  note s = view_shifts [OF c(1) assms(2)] view_address [OF c(1) assms(2)]
  have b: "in_array d (ad_basePtr d)" using s(1) by (auto simp: in_array_def)
  show ?thesis using s b c(2) by (auto simp: aa_sampleData_def aa_ptr_def result_simps split: if_splits)
qed

text \<open>Four elements of 6 bytes at address 4096; a view of two of them from the second on.\<close>

definition four_elements :: NVCVArrayData where
  "four_elements = \<lparr>ad_dtype = 0, ad_length = 3, ad_capacity = 4, ad_bufferType = NVCV_ARRAY_BUFFER_HOST,
     ad_stride = 6, ad_basePtr = 4096\<rparr>"

definition second_element :: ArrayDataAccess where
  "second_element = \<lparr>aa_data = four_elements, aa_length = 2, aa_idxShift = 1, aa_memShift = 0\<rparr>"

lemma second_element_view: "ArrayDataAccess_Create HostArray four_elements 2 4102 = Inr (Some second_element)"
  by code_simp

lemma four_elements_addressable: "addressable four_elements"
  by (simp add: addressable_def four_elements_def)

theorem array_view_in_bounds_witness:
  "aa_ptr second_element = Inr 4102 \<and> in_array four_elements 4102"
proof -
  have p: "aa_ptr second_element = Inr 4102" by code_simp
  then show ?thesis using array_view_in_bounds [OF second_element_view four_elements_addressable] by blast
qed

text \<open>
  The index does not enter the address: \<open>sampleData\<close> returns the start of the view for every index.
  A view that starts at or behind its own length cannot be read, and one that starts within the
  first element yields the start of the array instead. The buffer kinds of host memory and of
  pinned host memory share a bit, so the host view accepts both.
\<close>

lemma sampleData_ignores_index: "aa_sampleData a m = Inr p \<Longrightarrow> aa_sampleData a n = Inr q \<Longrightarrow> p = q"
  by (auto simp: aa_sampleData_def result_simps)

lemma late_view_unreadable:
  "bind_result (ArrayDataAccess_ctor four_elements 1 4102) aa_ptr = Inl (Throw NVCV_ERROR_INVALID_ARGUMENT)"
  by code_simp

lemma shift_dropped: "bind_result (ArrayDataAccess_ctor four_elements 2 4098) aa_ptr = Inr 4096"
  by code_simp

lemma host_view_of_pinned: "IsCompatibleKind HostArray NVCV_ARRAY_BUFFER_HOST_PINNED" "\<not> IsCompatibleKind CudaArray NVCV_ARRAY_BUFFER_HOST"
  by code_simp+

section \<open>Examples\<close>

text \<open>Five bytes (data type 171798626433, unsigned 8 bit) in host memory.\<close>

definition five_bytes :: NVCVArrayRequirements where
  "five_bytes = \<lparr>arr_dtype = 171798626433, arr_capacity = 5, arr_stride = 1, arr_alignBytes = 1,
     arr_mem = Requirements_Init\<lparr>hostMem := mem_single 0 5\<rparr>\<rparr>"

lemma five_bytes_requirements: "Array_CalcRequirements usual_device 5 171798626433 0 NVCV_RESOURCE_MEM_HOST = Inr five_bytes"
proof -
  have "array_align 171798626433 0 NVCV_RESOURCE_MEM_HOST = Inr 1" "AddBuffer mem_zero 5 1 = Inr (mem_single 0 5)" by code_simp+
  then show ?thesis
    by (simp add: Array_CalcRequirements_def usual_device_def check_value_def nv12_types Let_def Init_zero five_bytes_def)
qed

lemma five_bytes_inputs: "array_inputs_ok 5 171798626433"
  by (simp add: array_inputs_ok_def nv12_types)

definition five_array :: "((int \<times> ptr) list) Array" where
  "five_array = \<lparr>ar_alloc = list_allocator, ar_reqs = five_bytes, ar_target = NVCV_RESOURCE_MEM_HOST,
     ar_data = \<lparr>ad_dtype = 171798626433, ad_length = 0, ad_capacity = 5, ad_bufferType = NVCV_ARRAY_BUFFER_HOST, ad_stride = 1, ad_basePtr = 256\<rparr>,
     ar_memBuffer = 256\<rparr>"

lemma five_array_ctor:
  "Array_ctor old five_bytes list_allocator NVCV_RESOURCE_MEM_HOST [] = (Inr five_array, [(0, 256)])"
proof -
  have "CalcTotalSizeBytes (mem_single 0 5) = Inr 5" by code_simp
  moreover have "allocHostMem list_allocator 5 1 [] = (Inr 256, [(0, 256)])" by code_simp
  ultimately show ?thesis
    by (simp add: Array_ctor_def kind_ok_def array_mem_def five_bytes_def alloc_kind_def Array_exportData_def
        ResourceToBufferType_def Let_def five_array_def)
qed

theorem array_well_formed_witness:
  "Array_length (resizes [3, 9, - 2, 4] five_array) = 4 \<and> wf_array (resizes [3, 9, - 2, 4] five_array)"
proof -
  have "Array_length (resizes [3, 9, - 2, 4] five_array) = 4" by code_simp
  then show ?thesis using array_well_formed [OF five_bytes_requirements five_bytes_inputs five_array_ctor] by blast
qed

theorem array_memory_balanced_witness:
  "\<exists>s''. Array_dtor (resizes [3] five_array) [(0, 256)] = Inr s'' \<and> set s'' = {}"
  using array_memory_balanced [OF list_allocator_honest, where old = undefined and reqs = five_bytes and target = 0 and s = "[]" and ns = "[3]"]
  by (simp add: five_array_ctor)

text \<open>
  What is not checked: a capacity below zero gives an array without memory, a negative length is
  accepted (the C interface promises an error for values outside the valid range, and gives it for
  large ones only), a wrapped array may start with any length, and the product of capacity and
  stride wraps.
\<close>

lemma negative_lengths_accepted:
  "nvcvArrayResize (- 2) five_array = Inr (Array_resize (- 2) five_array)" "Array_length (Array_resize (- 2) five_array) = - 2"
  by (simp_all add: nvcvArrayResize_def five_array_def five_bytes_def)

lemma huge_capacity_wraps:
  "map_sum id arr_mem (Array_CalcRequirements usual_device (2 ^ 61) (MAKE_DATA_TYPE NVCV_DATA_KIND_FLOAT NVCV_PACKING_X64) 8 NVCV_RESOURCE_MEM_HOST)
     = Inr Requirements_Init"
proof -
  have t: "dt_alignment (MAKE_DATA_TYPE NVCV_DATA_KIND_FLOAT NVCV_PACKING_X64) = Inr 8" "dt_strideBytes (MAKE_DATA_TYPE NVCV_DATA_KIND_FLOAT NVCV_PACKING_X64) = Inr 8"
    "IsPowerOfTwo 8" "wrap32 (lcm 8 8) = 8" "wrap64 (8 * 2 ^ 61) = 0" "AddBuffer mem_zero 0 8 = Inr mem_zero" by code_simp+
  show ?thesis using t by (simp add: Array_CalcRequirements_def array_align_def usual_device_def check_value_def Let_def Init_zero)
qed

lemma wrapped_length_unchecked:
  "attributes (ad_basePtr d) = (cudaSuccess, cudaMemoryTypeDevice) \<Longrightarrow> ad_basePtr d \<noteq> 0 \<Longrightarrow>
     ArrayWrapData_ctor attributes d f c = Inr \<lparr>aw_data = d, aw_target = NVCV_RESOURCE_MEM_CUDA, aw_cleanup = f, aw_ctxCleanup = c\<rparr>"
  by (simp add: ArrayWrapData_ctor_def ValidateArrayBuffer_def)

end
