(* ===== verification/Text_Buffers.thy ===== *)
theory Text_Buffers
  imports Nvcv_Prelude "HOL-Library.Sublist"
begin

text \<open>
  C strings in buffers of fixed size: the functions of \<open>src/nvcv/util/String.cpp\<close> that the name
  functions of the library are built on. A buffer is the list of its characters; a string ends at
  its first null character, and reading a string where there is none leaves the buffer.
\<close>

section \<open>Strings in memory\<close>

abbreviation NUL :: char where "NUL \<equiv> CHR 0x00"

definition c_string :: "char list \<Rightarrow> string result" where
  "c_string b = in_bounds (NUL \<in> set b) (Inr (takeWhile (\<lambda>c. c \<noteq> NUL) b))"

definition store_at :: "char list \<Rightarrow> nat \<Rightarrow> char list \<Rightarrow> char list result" where
  "store_at b off xs = in_bounds (off + length xs \<le> length b) (Inr (take off b @ xs @ drop (off + length xs) b))"

definition memmove :: "char list \<Rightarrow> nat \<Rightarrow> nat \<Rightarrow> nat \<Rightarrow> char list result" where
  "memmove b dst src n = in_bounds (src + n \<le> length b) (store_at b dst (take n (drop src b)))"

text \<open>\<open>snprintf\<close> of a text that is already formatted: at most \<open>n - 1\<close> characters and the null.\<close>

definition snprintf :: "char list \<Rightarrow> nat \<Rightarrow> nat \<Rightarrow> string \<Rightarrow> char list result" where
  "snprintf b off n text = (if n = 0 then Inr b else store_at b off (take (n - 1) text @ [NUL]))"

fun strstr :: "string \<Rightarrow> string \<Rightarrow> nat option" where
  "strstr [] what = (if what = [] then Some 0 else None)"
| "strstr (c # s) what = (if take (length what) (c # s) = what then Some 0 else map_option Suc (strstr s what))"

section \<open>Replacing inside a buffer\<close>

text \<open>
  One replacement, at \<open>found\<close>. \<open>wp\<close> is \<open>writePos\<close> (its null is offset 0, which no comparison
  prefers), \<open>rs\<close> is \<open>replaceSize\<close>, which shrinks when the buffer ends. The result has both and the
  number of characters moved.
\<close>

definition replace_step :: "string \<Rightarrow> string \<Rightarrow> nat \<Rightarrow> nat \<Rightarrow> nat \<Rightarrow> nat \<Rightarrow> char list \<Rightarrow> (nat \<times> nat \<times> char list) result" where
  "replace_step what rep endPos wp rs found b =
     bind_result
       (if found + rs \<le> endPos then
          bind_result (c_string (drop (found + length what) b)) (\<lambda>rest.
          let wp = found + rs; sizeOfRest = (if wp + length rest > endPos then endPos - wp else length rest) in
          nvcv_assert (wp \<le> endPos)
         (nvcv_assert (wp + sizeOfRest \<le> endPos + 1)
         (bind_result (memmove b wp (found + length what) sizeOfRest) (\<lambda>b. Inr (wp, sizeOfRest, b)))))
        else Inr (wp, 0, b))
       (\<lambda>(wp, sizeOfRest, b).
         let rs = (if found + rs > endPos then endPos - found else rs) in
         nvcv_assert (found \<le> endPos)
        (nvcv_assert (found + rs \<le> endPos + 1)
        (bind_result (store_at b found (take rs rep)) (\<lambda>b.
         bind_result (store_at b (max (found + rs) (wp + sizeOfRest)) [NUL]) (\<lambda>b. Inr (wp, rs, b))))))"

text \<open>The loop, with fuel: \<open>None\<close> when that runs out.\<close>

fun replace_loop :: "nat \<Rightarrow> string \<Rightarrow> string \<Rightarrow> nat \<Rightarrow> nat \<Rightarrow> nat \<Rightarrow> nat \<Rightarrow> nat \<Rightarrow> char list \<Rightarrow> char list result option" where
  "replace_loop 0 what rep endPos strSize start wp rs b = None"
| "replace_loop (Suc fuel) what rep endPos strSize start wp rs b =
     (if \<not> start < strSize then Some (Inr b)
      else case c_string (drop start b) of
        Inl e \<Rightarrow> Some (Inl e)
      | Inr s \<Rightarrow>
          case strstr s what of
            None \<Rightarrow> Some (Inr b)
          | Some i \<Rightarrow>
              case replace_step what rep endPos wp rs (start + i) b of
                Inl e \<Rightarrow> Some (Inl e)
              | Inr (wp', rs', b') \<Rightarrow> replace_loop fuel what rep endPos strSize (start + rs) wp' rs' b')"

text \<open>A null pointer is \<open>None\<close>; the buffer itself is not null.\<close>

definition ReplaceAllInline :: "nat \<Rightarrow> char list \<Rightarrow> int \<Rightarrow> string option \<Rightarrow> string option \<Rightarrow> char list result option" where
  "ReplaceAllInline fuel b bufferSize what_arg replace_arg =
     (case (what_arg, replace_arg) of
        (Some what, Some rep) \<Rightarrow>
          if bufferSize \<le> 0 then Some (Inr b)
          else (case c_string b of
              Inl e \<Rightarrow> Some (Inl e)
            | Inr s \<Rightarrow> replace_loop fuel what rep (nat bufferSize - 1) (length s) 0 0 (length rep) b)
      | _ \<Rightarrow> Some (Inr b))"

text \<open>
  A \<open>BufferOStream\<close> that is written to and destroyed: a \<open>strstreambuf\<close> takes what fits and drops
  the rest, the final null included.
\<close>

definition BufferOStream :: "char list \<Rightarrow> nat \<Rightarrow> string \<Rightarrow> char list result" where
  "BufferOStream b len text = store_at b 0 (take len (text @ [NUL]))"

section \<open>Strings that a buffer holds\<close>

definition holds :: "char list \<Rightarrow> string \<Rightarrow> bool" where
  "holds b s \<longleftrightarrow> NUL \<notin> set s \<and> (\<exists>junk. b = s @ NUL # junk)"

lemma c_string_holds: "c_string b = Inr s \<longleftrightarrow> holds b s"
proof
  assume "c_string b = Inr s"
  then have b: "NUL \<in> set b" "s = takeWhile (\<lambda>c. c \<noteq> NUL) b" by (auto simp: c_string_def result_simps)
  then have "dropWhile (\<lambda>c. c \<noteq> NUL) b \<noteq> []" by (auto simp: dropWhile_eq_Nil_conv)
  moreover have "hd (dropWhile (\<lambda>c. c \<noteq> NUL) b) = NUL" using hd_dropWhile calculation by blast
  ultimately have "b = s @ NUL # tl (dropWhile (\<lambda>c. c \<noteq> NUL) b)"
    using takeWhile_dropWhile_id [of "\<lambda>c. c \<noteq> NUL" b] b(2) by (metis list.collapse)
  moreover have "NUL \<notin> set s" using b(2) by (auto dest: set_takeWhileD)
  ultimately show "holds b s" by (auto simp: holds_def)
next
  assume "holds b s"
  then obtain j where "b = s @ NUL # j" "NUL \<notin> set s" by (auto simp: holds_def)
  moreover from this have "takeWhile (\<lambda>c. c \<noteq> NUL) (s @ NUL # j) = s" by (subst takeWhile_append2) auto
  ultimately show "c_string b = Inr s" by (simp add: c_string_def)
qed

lemma holds_drop: "holds b s \<Longrightarrow> k \<le> length s \<Longrightarrow> holds (drop k b) (drop k s)"
  by (auto simp: holds_def dest: in_set_dropD)

lemma holds_length: "holds b s \<Longrightarrow> length s < length b"
  by (auto simp: holds_def)

lemma holdsI: "b = s @ NUL # j \<Longrightarrow> NUL \<notin> set s \<Longrightarrow> holds b s"
  by (auto simp: holds_def)

lemma strstr_Some: "strstr s what = Some i \<Longrightarrow> \<exists>r. s = take i s @ what @ r \<and> i + length what \<le> length s"
proof (induction s what arbitrary: i rule: strstr.induct)
  case (2 c s what)
  show ?case
  proof (cases "take (length what) (c # s) = what")
    case True
    then have "i = 0" "c # s = what @ drop (length what) (c # s)" using 2(2) append_take_drop_id [of "length what" "c # s"] by auto
    then show ?thesis using True by (metis append_Nil length_append le_add1 plus_nat.add_0 take0)
  next
    case False
    then obtain k where k: "i = Suc k" "strstr s what = Some k" using 2(2) by auto
    obtain r where r: "s = take k s @ what @ r" "k + length what \<le> length s" using 2(1) [OF False k(2)] by auto
    have "c # s = take i (c # s) @ what @ r" unfolding k(1) take_Suc_Cons append_Cons using r(1) by (rule arg_cong)
    then show ?thesis using r(2) k(1) by auto
  qed
qed (auto split: if_splits)

lemma strstr_None: "strstr s what = None \<longleftrightarrow> \<not> sublist what s"
proof (induction s what rule: strstr.induct)
  case (2 c s what)
  have p: "take (length what) (c # s) = what \<longleftrightarrow> prefix what (c # s)"
    by (metis append_eq_conv_conj append_take_drop_id prefix_def)
  show ?case using 2 p by (auto simp: sublist_Cons_right)
qed simp


section \<open>Replacing in strings\<close>

text \<open>What one step does to the string: the new string is cut where the buffer ends.\<close>

definition text_step :: "string \<Rightarrow> string \<Rightarrow> nat \<Rightarrow> nat \<Rightarrow> nat \<Rightarrow> string \<Rightarrow> string" where
  "text_step what rep endPos rs found s =
     take endPos (take found s @ take rs rep @ drop (found + length what) s)"

fun text_loop :: "nat \<Rightarrow> string \<Rightarrow> string \<Rightarrow> nat \<Rightarrow> nat \<Rightarrow> nat \<Rightarrow> nat \<Rightarrow> string \<Rightarrow> string option" where
  "text_loop 0 what rep endPos strSize start rs s = None"
| "text_loop (Suc fuel) what rep endPos strSize start rs s =
     (if \<not> start < strSize then Some s
      else case strstr (drop start s) what of
        None \<Rightarrow> Some s
      | Some i \<Rightarrow> text_loop fuel what rep endPos strSize (start + rs) (min rs (endPos - (start + i)))
          (text_step what rep endPos rs (start + i) s))"

lemma store_at_app: "length xs = length ys \<Longrightarrow> store_at (p @ xs @ r) (length p) ys = Inr (p @ ys @ r)"
  by (simp add: store_at_def)

text \<open>One step on a buffer is the step on its string, and stays inside the buffer.\<close>

lemma replace_step_room:
  assumes "b = p @ what @ r @ NUL # j" "NUL \<notin> set r" "rs \<le> length rep" "length p + rs \<le> endPos"
    and "length p + length what + length r \<le> endPos" "endPos < length b"
  shows "\<exists>j' n. replace_step what rep endPos wp rs (length p) b
      = Inr (length p + rs, rs, p @ take rs rep @ take n r @ NUL # j') \<and> n = min (length r) (endPos - (length p + rs))
      \<and> length (p @ take rs rep @ take n r @ NUL # j') = length b"
proof -
  define n where "n = min (length r) (endPos - (length p + rs))"
  have d: "drop (length p + length what) b = r @ NUL # j" using assms(1) by simp
  have c: "c_string (r @ NUL # j) = Inr r" using assms(2) by (simp add: c_string_holds holdsI)
  have n: "(if length p + rs + length r > endPos then endPos - (length p + rs) else length r) = n" "length p + rs + n \<le> endPos"
    using assms(4) by (auto simp: n_def)
  define b1 where "b1 = take (length p + rs) b @ take n r @ drop (length p + rs + n) b"
  have m: "memmove b (length p + rs) (length p + length what) n = Inr b1"
  proof -
    have "n \<le> length r" "length p + length what + n \<le> length b" "length p + rs + n \<le> length b"
      using n(2) assms(1,6) by (auto simp: n_def)
    then show ?thesis unfolding memmove_def store_at_def b1_def d by simp
  qed
  have l1: "length b1 = length b" using n(2) assms(6) by (simp add: b1_def n_def)
  have s1: "store_at b1 (length p) (take rs rep) = Inr (p @ take rs rep @ take n r @ drop (length p + rs + n) b)"
  proof -
    have k: "length p + rs \<le> length b" "length (take rs rep) = rs" using n(2) assms(3,6) by auto
    have "take (length p) b = p" using assms(1) by simp
    then have "take (length p) b1 = p" using k(1) by (simp add: b1_def min_absorb1)
    moreover have "drop (length p + rs) b1 = take n r @ drop (length p + rs + n) b" using k(1) by (simp add: b1_def)
    ultimately show ?thesis using k l1 by (simp add: store_at_def)
  qed
  let ?x = "p @ take rs rep @ take n r" and ?rest = "drop (length p + rs + n) b"
  have lx: "length ?x = length p + rs + n" using assms(3) by (simp add: n_def)
  obtain c cs where r: "?rest = c # cs" using n(2) assms(6) by (cases ?rest) auto
  have s2: "store_at (?x @ ?rest) (length p + rs + n) [NUL] = Inr (?x @ NUL # cs)"
    using store_at_app [of "[c]" "[NUL]" ?x cs] unfolding lx r by simp
  have "length cs = length b - Suc (length p + rs + n)" using arg_cong [OF r, of length] by simp
  then have "length (?x @ NUL # cs) = length b" using lx n(2) assms(6) by simp
  moreover have "replace_step what rep endPos wp rs (length p) b = Inr (length p + rs, rs, ?x @ NUL # cs)"
    using assms(4) n m s1 s2 by (simp add: replace_step_def Let_def d c max_def)
  ultimately show ?thesis by (intro exI [of _ cs] exI [of _ n]) (simp add: n_def)
qed

lemma replace_step_cut:
  assumes "b = p @ what @ r @ NUL # j" "rs \<le> length rep" "endPos < length p + rs" "wp \<le> endPos"
    and "length p + length what + length r \<le> endPos" "endPos < length b"
  shows "\<exists>j'. replace_step what rep endPos wp rs (length p) b
      = Inr (wp, endPos - length p, p @ take (endPos - length p) rep @ NUL # j')
      \<and> length (p @ take (endPos - length p) rep @ NUL # j') = length b"
proof -
  let ?rs = "endPos - length p"
  let ?x = "p @ take ?rs rep" and ?rest = "drop endPos b"
  have le: "length p \<le> endPos" "?rs \<le> length rep" using assms(2,3,5) by auto
  have s1: "store_at b (length p) (take ?rs rep) = Inr (?x @ ?rest)"
    using assms(1,6) le by (simp add: store_at_def)
  have lx: "length ?x = endPos" using le by simp
  obtain c cs where r: "?rest = c # cs" using assms(6) by (cases ?rest) auto
  have s2: "store_at (?x @ ?rest) endPos [NUL] = Inr (?x @ NUL # cs)"
    using store_at_app [of "[c]" "[NUL]" ?x cs] unfolding lx r by simp
  have "length cs = length b - Suc endPos" using arg_cong [OF r, of length] by simp
  then have "length (?x @ NUL # cs) = length b" using lx assms(6) by simp
  moreover have "replace_step what rep endPos wp rs (length p) b = Inr (wp, ?rs, ?x @ NUL # cs)"
  proof -
    have "max endPos wp = endPos" using assms(4) by simp
    then show ?thesis using assms(3) le s1 s2 by (simp add: replace_step_def Let_def)
  qed
  ultimately show ?thesis by auto
qed

lemma replace_step_text:
  assumes "holds b s" "length s \<le> endPos" "endPos < length b" "NUL \<notin> set rep" "rs \<le> length rep" "wp \<le> endPos"
    and "s = p @ what @ r" "f = length p"
  shows "\<exists>wp' b'. replace_step what rep endPos wp rs f b = Inr (wp', min rs (endPos - f), b')
    \<and> holds b' (text_step what rep endPos rs f s) \<and> length b' = length b \<and> wp' \<le> endPos"
proof -
  obtain j where b: "b = p @ what @ r @ NUL # j" and z: "NUL \<notin> set p" "NUL \<notin> set r"
    using assms(1,7) by (auto simp: holds_def)
  have l: "length p + length what + length r \<le> endPos" using assms(2,7) by simp
  have zr: "NUL \<notin> set (take k rep)" "NUL \<notin> set (take k r)" for k using assms(4) z(2) by (auto dest: in_set_takeD)
  show ?thesis
  proof (cases "f + rs \<le> endPos")
    case True
    let ?n = "min (length r) (endPos - (length p + rs))"
    obtain j' where s: "replace_step what rep endPos wp rs (length p) b = Inr (length p + rs, rs, p @ take rs rep @ take ?n r @ NUL # j')"
      "length (p @ take rs rep @ take ?n r @ NUL # j') = length b"
      using replace_step_room [OF b z(2) assms(5) _ l assms(3)] True assms(8) by auto
    have "text_step what rep endPos rs f s = p @ take rs rep @ take ?n r"
    proof -
      have "min (endPos - length p) rs = rs" "min (length rep) rs = rs" using True assms(5,8) by auto
      moreover have "length p \<le> endPos" "take (endPos - (length p + rs)) r = take ?n r" using l by (simp_all add: min_def)
      ultimately show ?thesis using assms(7,8) by (simp add: text_step_def min.commute)
    qed
    then have "holds (p @ take rs rep @ take ?n r @ NUL # j') (text_step what rep endPos rs f s)"
      using z zr by (intro holdsI [where j = j']) auto
    then show ?thesis using s True assms(8) by (intro exI [of _ "length p + rs"] exI [of _ "p @ take rs rep @ take ?n r @ NUL # j'"]) auto
  next
    case False
    let ?rs = "endPos - length p"
    obtain j' where s: "replace_step what rep endPos wp rs (length p) b = Inr (wp, ?rs, p @ take ?rs rep @ NUL # j')"
      "length (p @ take ?rs rep @ NUL # j') = length b"
      using replace_step_cut [OF b assms(5) _ assms(6) l assms(3)] False assms(8) by auto
    have "text_step what rep endPos rs f s = p @ take ?rs rep"
      using False assms(5,7,8) l by (simp add: text_step_def min_def)
    then have "holds (p @ take ?rs rep @ NUL # j') (text_step what rep endPos rs f s)"
      using z zr by (intro holdsI [where j = j']) auto
    then show ?thesis using s False assms(6,8) by (intro exI [of _ wp] exI [of _ "p @ take ?rs rep @ NUL # j'"]) auto
  qed
qed


lemma text_step_length:
  assumes "f + length what \<le> length s" "rs \<le> length rep"
  shows "length (text_step what rep endPos rs f s) = min endPos (length s - length what + rs)"
proof -
  have "length (take f s @ take rs rep @ drop (f + length what) s) = length s - length what + rs" using assms by simp
  then show ?thesis by (simp only: text_step_def length_take min.commute)
qed

lemma found_split:
  assumes "strstr (drop start s) what = Some i" "start \<le> length s"
  shows "s = take (start + i) s @ what @ drop (start + i + length what) s" "start + i + length what \<le> length s"
proof -
  obtain r where r: "drop start s = take i (drop start s) @ what @ r" "i + length what \<le> length (drop start s)"
    using strstr_Some [OF assms(1)] by blast
  have "s = take start s @ drop start s" by simp
  also have "\<dots> = take start s @ take i (drop start s) @ what @ r" using r(1) by simp
  finally have s: "s = take (start + i) s @ what @ r" by (simp add: take_add)
  show l: "start + i + length what \<le> length s" using r(2) assms(2) by simp
  have "drop (start + i + length what) (take (start + i) s @ what @ r) = r" using l by simp
  then have "drop (start + i + length what) s = r" using s by metis
  then show "s = take (start + i) s @ what @ drop (start + i + length what) s" using s by simp
qed

lemma replace_loop_text:
  assumes "holds b s" "length s \<le> endPos" "endPos < length b" "NUL \<notin> set rep" "rs \<le> length rep" "wp \<le> endPos"
    and "strSize \<le> endPos" "start < strSize \<longrightarrow> start \<le> length s"
    and "text_loop fuel what rep endPos strSize start rs s = Some s'"
  shows "\<exists>b'. replace_loop fuel what rep endPos strSize start wp rs b = Some (Inr b')
    \<and> holds b' s' \<and> length b' = length b \<and> length s' \<le> endPos"
  using assms
proof (induction fuel arbitrary: start rs s b wp)
  case (Suc fuel)
  show ?case
  proof (cases "start < strSize")
    case True
    then have st: "start \<le> length s" using Suc.prems(8) by simp
    have c: "c_string (drop start b) = Inr (drop start s)" using holds_drop [OF Suc.prems(1) st] by (simp add: c_string_holds)
    show ?thesis
    proof (cases "strstr (drop start s) what")
      case None
      then show ?thesis using Suc.prems c True by simp
    next
      case (Some i)
      let ?f = "start + i" and ?rs = "min rs (endPos - (start + i))"
      note sp = found_split [OF Some st]
      have f: "?f = length (take ?f s)" using sp(2) by simp
      obtain wp' b' where w: "replace_step what rep endPos wp rs ?f b = Inr (wp', ?rs, b')"
        "holds b' (text_step what rep endPos rs ?f s)" "length b' = length b" "wp' \<le> endPos"
        using replace_step_text [OF Suc.prems(1-6) sp(1) f] by blast
      have t: "text_loop fuel what rep endPos strSize (start + rs) ?rs (text_step what rep endPos rs ?f s) = Some s'"
        using Suc.prems(9) True Some by simp
      have "length (text_step what rep endPos rs ?f s) = min endPos (length s - length what + rs)"
        using text_step_length sp(2) Suc.prems(5) by blast
      then have "length (text_step what rep endPos rs ?f s) \<le> endPos"
        "start + rs < strSize \<longrightarrow> start + rs \<le> length (text_step what rep endPos rs ?f s)"
        using sp(2) Suc.prems(7) by auto
      from Suc.IH [OF w(2) this(1) _ Suc.prems(4) _ w(4) Suc.prems(7) this(2) t] w Suc.prems(3,5)
      show ?thesis using True c Some by auto
    qed
  qed (use Suc.prems in auto)
qed simp

lemma text_loop_ends:
  assumes "what \<noteq> []" "length s \<le> endPos" "rs \<le> length rep" "strSize \<le> endPos" "start < strSize \<longrightarrow> start \<le> length s"
    and "(if rs = 0 then length s else strSize - start) < fuel"
  shows "\<exists>s'. text_loop fuel what rep endPos strSize start rs s = Some s'"
  using assms
proof (induction fuel arbitrary: start rs s)
  case (Suc fuel)
  show ?case
  proof (cases "start < strSize")
    case less: True
    then have st: "start \<le> length s" using Suc.prems(5) by simp
    show ?thesis
    proof (cases "strstr (drop start s) what")
      case (Some i)
      let ?f = "start + i" and ?rs = "min rs (endPos - (start + i))"
      let ?s = "text_step what rep endPos rs ?f s"
      note sp = found_split(2) [OF Some st]
      have w: "0 < length what" using Suc.prems(1) by simp
      have l: "length ?s = min endPos (length s - length what + rs)" using text_step_length sp Suc.prems(3) by blast
      have "?f < endPos" using sp w Suc.prems(2) by linarith
      then have z: "?rs = 0 \<longleftrightarrow> rs = 0" by auto
      have "(if ?rs = 0 then length ?s else strSize - (start + rs)) < fuel"
      proof (cases "rs = 0")
        case True
        then have "length ?s < length s" using l w sp by linarith
        then show ?thesis using Suc.prems(6) True by simp
      next
        case False
        then have "?rs \<noteq> 0" using z by simp
        moreover have "strSize - (start + rs) < fuel" using Suc.prems(6) less False by simp
        ultimately show ?thesis by (simp only: if_False)
      qed
      moreover have "start + rs < strSize \<longrightarrow> start + rs \<le> length ?s" using l sp Suc.prems(4) by auto
      ultimately have "\<exists>s'. text_loop fuel what rep endPos strSize (start + rs) ?rs ?s = Some s'"
        using Suc.IH [of ?s ?rs "start + rs"] Suc.prems(1,3,4) l by auto
      then show ?thesis using less Some by simp
    qed (use less in simp)
  qed simp
qed simp

text \<open>An empty replacement: the search never leaves the start, so every occurrence goes.\<close>

lemma text_loop_erases:
  assumes "what \<noteq> []" "length s \<le> strSize" "text_loop fuel what [] endPos strSize 0 0 s = Some s'"
  shows "\<not> sublist what s'"
  using assms(2,3)
proof (induction fuel arbitrary: s)
  case (Suc fuel)
  show ?case
  proof (cases "strstr s what")
    case None
    then show ?thesis using Suc.prems strstr_None [of s what] by (auto simp del: strstr_None split: if_splits)
  next
    case (Some i)
    then have "i + length what \<le> length s" using strstr_Some by blast
    then have "length (text_step what [] endPos 0 i s) \<le> strSize"
      using text_step_length [of i what s 0 "[]" endPos] Suc.prems(1) by simp
    moreover have "0 < strSize" using \<open>i + length what \<le> length s\<close> assms(1) Suc.prems(1) by (cases what) auto
    ultimately show ?thesis using Suc.IH [of "text_step what [] endPos 0 i s"] Suc.prems(2) Some by simp
  qed
qed simp

section \<open>Properties\<close>

text \<open>
  Property C21: replacing inside a buffer is safe and ends. For a buffer that holds a string within
  its size, a pattern that is not empty and any replacement, the loop stops after at most as many
  steps as the string has characters, no assertion fails and no access leaves the buffer; the buffer
  then holds the string that the same loop computes on strings, again within its size, and no
  occurrence of the pattern is left where the replacement is empty.
\<close>

theorem ReplaceAllInline_safe:
  assumes "holds b s" "int (length s) < bufferSize" "bufferSize \<le> int (length b)" "what \<noteq> []" "NUL \<notin> set rep" "length s < fuel"
  shows "\<exists>b' s'. ReplaceAllInline fuel b bufferSize (Some what) (Some rep) = Some (Inr b') \<and> length b' = length b
    \<and> text_loop fuel what rep (nat bufferSize - 1) (length s) 0 (length rep) s = Some s' \<and> holds b' s'
    \<and> int (length s') < bufferSize \<and> (rep = [] \<longrightarrow> \<not> sublist what s')"
proof -
  let ?E = "nat bufferSize - 1"
  have e: "length s \<le> ?E" "?E < length b" "0 < bufferSize" using assms(2,3) by auto
  have "(if length rep = 0 then length s else length s - 0) < fuel" using assms(6) by simp
  then obtain s' where t: "text_loop fuel what rep ?E (length s) 0 (length rep) s = Some s'"
    using text_loop_ends [OF assms(4) e(1) le_refl e(1)] by blast
  obtain b' where b: "replace_loop fuel what rep ?E (length s) 0 0 (length rep) b = Some (Inr b')" "holds b' s'"
    "length b' = length b" "length s' \<le> ?E"
    using replace_loop_text [OF assms(1) e(1,2) assms(5) le_refl _ e(1) _ t] by auto
  have "rep = [] \<longrightarrow> \<not> sublist what s'" using text_loop_erases [OF assms(4) le_refl] t by auto
  moreover have "c_string b = Inr s" using assms(1) by (simp add: c_string_holds)
  ultimately show ?thesis using t b e by (intro exI [of _ b'] exI [of _ s']) (auto simp: ReplaceAllInline_def)
qed

definition format_text :: "char list" where
  "format_text = ''<NVCV_CSS_420,NVCV_CSS_NONE>'' @ [NUL]"

theorem ReplaceAllInline_safe_witness:
  "\<exists>b'. ReplaceAllInline 29 format_text 29 (Some ''NVCV_CSS_'') (Some []) = Some (Inr b') \<and> holds b' ''<420,NONE>''"
proof -
  have h: "holds format_text ''<NVCV_CSS_420,NVCV_CSS_NONE>''" by (auto simp: holds_def format_text_def)
  have t: "text_loop 29 ''NVCV_CSS_'' [] (nat 29 - 1) (length ''<NVCV_CSS_420,NVCV_CSS_NONE>'') 0 (length []) ''<NVCV_CSS_420,NVCV_CSS_NONE>''
      = Some ''<420,NONE>''" by code_simp
  have s: "int (length ''<NVCV_CSS_420,NVCV_CSS_NONE>'') < 29" "29 \<le> int (length format_text)" "''NVCV_CSS_'' \<noteq> []"
    "NUL \<notin> set []" "length ''<NVCV_CSS_420,NVCV_CSS_NONE>'' < 29" by (simp_all add: format_text_def)
  show ?thesis using ReplaceAllInline_safe [OF h s] t by auto
qed

text \<open>
  What it does not do. A replacement that is longer than the gap to the next occurrence makes the
  search stop early, one that contains the pattern is replaced again, and an empty pattern with an
  empty replacement never ends. A stream that fills its buffer leaves it without a final null.
\<close>

lemma later_occurrence_left:
  "ReplaceAllInline 5 (''aa'' @ replicate 6 NUL) 8 (Some ''a'') (Some ''bbb'') = Some (Inr (''bbba'' @ replicate 4 NUL))"
  by code_simp

lemma replacement_replaced:
  "ReplaceAllInline 5 (''xxa'' @ replicate 5 NUL) 8 (Some ''a'') (Some ''aa'') = Some (Inr (''xxaaa'' @ replicate 3 NUL))"
  by code_simp

lemma empty_pattern_hangs: "replace_loop fuel [] [] 2 2 0 0 0 [CHR ''a'', CHR ''b'', NUL] = None"
  "ReplaceAllInline fuel [CHR ''a'', CHR ''b'', NUL] 3 (Some []) (Some []) = None"
proof -
  have s: "replace_step [] [] 2 wp 0 0 [CHR ''a'', CHR ''b'', NUL] = Inr (0, 0, [CHR ''a'', CHR ''b'', NUL])" for wp by code_simp
  have c: "c_string [CHR ''a'', CHR ''b'', NUL] = Inr [CHR ''a'', CHR ''b'']" by code_simp
  show r: "replace_loop fuel [] [] 2 2 0 0 0 [CHR ''a'', CHR ''b'', NUL] = None"
    by (induction fuel) (simp_all add: s c)
  then show "ReplaceAllInline fuel [CHR ''a'', CHR ''b'', NUL] 3 (Some []) (Some []) = None" by (simp add: ReplaceAllInline_def c numeral_2_eq_2)
qed

lemma full_stream_unterminated:
  "bind_result (BufferOStream (replicate 4 NUL) 4 ''name'') c_string = Inl OutOfBounds"
  by code_simp

lemma BufferOStream_terminated:
  "NUL \<notin> set text \<Longrightarrow> length text < len \<Longrightarrow> len \<le> length b \<Longrightarrow> \<exists>b'. BufferOStream b len text = Inr b' \<and> holds b' text"
  by (auto simp: BufferOStream_def store_at_def holds_def)

end
