(* ===== verification/Status_Errors.thy ===== *)
theory Status_Errors
  imports Text_Buffers
begin

text \<open>
  How errors travel. Inside the library an error is an exception with a status code and a message
  (\<open>src/nvcv/src/priv/Exception.cpp\<close>); the C interface catches it, keeps code and message for the
  thread and returns the code (\<open>priv/Status.cpp\<close>, \<open>Status.cpp\<close>); the C++ interface turns the code
  back into an exception (\<open>include/nvcv/Exception.hpp\<close>, \<open>detail/CheckError.hpp\<close>). Texts are
  already formatted. A call gives its outcome and the state of the thread.
\<close>

section \<open>Names and the state of a thread\<close>

fun GetName :: "NVCVStatus \<Rightarrow> string" where
  "GetName NVCV_SUCCESS = ''NVCV_SUCCESS''"
| "GetName NVCV_ERROR_NOT_IMPLEMENTED = ''NVCV_ERROR_NOT_IMPLEMENTED''"
| "GetName NVCV_ERROR_INVALID_ARGUMENT = ''NVCV_ERROR_INVALID_ARGUMENT''"
| "GetName NVCV_ERROR_INVALID_IMAGE_FORMAT = ''NVCV_ERROR_INVALID_IMAGE_FORMAT''"
| "GetName NVCV_ERROR_INVALID_OPERATION = ''NVCV_ERROR_INVALID_OPERATION''"
| "GetName NVCV_ERROR_DEVICE = ''NVCV_ERROR_DEVICE''"
| "GetName NVCV_ERROR_NOT_READY = ''NVCV_ERROR_NOT_READY''"
| "GetName NVCV_ERROR_OUT_OF_MEMORY = ''NVCV_ERROR_OUT_OF_MEMORY''"
| "GetName NVCV_ERROR_INTERNAL = ''NVCV_ERROR_INTERNAL''"
| "GetName NVCV_ERROR_NOT_COMPATIBLE = ''NVCV_ERROR_NOT_COMPATIBLE''"
| "GetName NVCV_ERROR_OVERFLOW = ''NVCV_ERROR_OVERFLOW''"
| "GetName NVCV_ERROR_UNDERFLOW = ''NVCV_ERROR_UNDERFLOW''"

abbreviation (input) "NVCV_MAX_STATUS_MESSAGE_LENGTH \<equiv> (256 :: nat)"

text \<open>The members that errors use; the message has 256 characters.\<close>

record CoreTLS =
  lastErrorStatus :: NVCVStatus
  lastErrorMessage :: "char list"

section \<open>The exception of the library\<close>

text \<open>The buffer has 322 characters, all null at first; \<open>pe_put\<close> is where the stream writes next.\<close>

abbreviation (input) "sizeof_m_buffer \<equiv> NVCV_MAX_STATUS_MESSAGE_LENGTH + 64 + 2"

record PrivException =
  pe_code :: NVCVStatus
  pe_buffer :: "char list"
  pe_put :: nat

definition Exception_fmt :: "NVCVStatus \<Rightarrow> string \<Rightarrow> PrivException result" where
  "Exception_fmt code text =
     bind_result (snprintf (replicate sizeof_m_buffer NUL) 0 (sizeof_m_buffer - 1) (GetName code @ '': '')) (\<lambda>b.
     bind_result (c_string b) (\<lambda>s.
     bind_result (snprintf b (length s) (sizeof_m_buffer - length s - 1) text) (\<lambda>b.
     bind_result (c_string b) (\<lambda>s.
     Inr \<lparr>pe_code = code, pe_buffer = b, pe_put = length s\<rparr>))))"

definition Exception_code :: "NVCVStatus \<Rightarrow> PrivException result" where
  "Exception_code code = Exception_fmt code []"

text \<open>Streaming: the buffer takes what fits, and the rest is dropped.\<close>

definition Exception_stream :: "string \<Rightarrow> PrivException \<Rightarrow> PrivException result" where
  "Exception_stream text e =
     (let out = take (sizeof_m_buffer - pe_put e) text in
      bind_result (store_at (pe_buffer e) (pe_put e) out) (\<lambda>b. Inr (e\<lparr>pe_buffer := b, pe_put := pe_put e + length out\<rparr>)))"

text \<open>The message starts behind the first colon and a blank; the result is its offset.\<close>

definition Exception_msg :: "PrivException \<Rightarrow> nat result" where
  "Exception_msg e =
     (let b = pe_buffer e; n = length (takeWhile (\<lambda>c. c \<noteq> CHR '':'' \<and> c \<noteq> NUL) b) in
      in_bounds (n < length b) (nvcv_assert (b ! n = CHR '':'') (Inr (n + 2))))"

section \<open>The last error of a thread\<close>

text \<open>What can arrive in a catch clause. A public exception must not come out of the library.\<close>

datatype cpp_exception =
    PublicError
  | PrivError PrivException
  | InvalidArgument string
  | BadAlloc
  | StdException string
  | OtherException

definition set_error :: "NVCVStatus \<Rightarrow> string \<Rightarrow> CoreTLS \<Rightarrow> CoreTLS result" where
  "set_error st text tls =
     (let errorMessageLen = NVCV_MAX_STATUS_MESSAGE_LENGTH - 1 in
      bind_result (snprintf (lastErrorMessage tls) 0 errorMessageLen text) (\<lambda>b.
      bind_result (store_at b errorMessageLen [NUL]) (\<lambda>b.
      Inr (tls\<lparr>lastErrorStatus := st, lastErrorMessage := b\<rparr>))))"

definition priv_SetThreadError :: "cpp_exception option \<Rightarrow> CoreTLS \<Rightarrow> CoreTLS result" where
  "priv_SetThreadError ex tls =
     (case ex of
        None \<Rightarrow> set_error NVCV_SUCCESS ''success'' tls
      | Some PublicError \<Rightarrow> Inl AssertFailed
      | Some (PrivError e) \<Rightarrow>
          bind_result (Exception_msg e) (\<lambda>n.
          bind_result (c_string (drop n (pe_buffer e))) (\<lambda>text. set_error (pe_code e) text tls))
      | Some (InvalidArgument what) \<Rightarrow> set_error NVCV_ERROR_INVALID_ARGUMENT what tls
      | Some BadAlloc \<Rightarrow> set_error NVCV_ERROR_OUT_OF_MEMORY ''Not enough space for resource allocation'' tls
      | Some (StdException what) \<Rightarrow> set_error NVCV_ERROR_INTERNAL what tls
      | Some OtherException \<Rightarrow> set_error NVCV_ERROR_INTERNAL ''Unexpected error'' tls)"

text \<open>The output buffer, with the length the caller gives it; null is \<open>None\<close>.\<close>

definition PeekAtLastThreadError :: "(char list \<times> int) option \<Rightarrow> CoreTLS \<Rightarrow> (NVCVStatus \<times> char list) result" where
  "PeekAtLastThreadError out tls =
     (case out of
        None \<Rightarrow> Inr (lastErrorStatus tls, [])
      | Some (b, len) \<Rightarrow>
          if len > 0 then
            bind_result (c_string (lastErrorMessage tls)) (\<lambda>text.
            bind_result (snprintf b 0 (nat len) text) (\<lambda>b. Inr (lastErrorStatus tls, b)))
          else Inr (lastErrorStatus tls, b))"

definition GetLastThreadError :: "(char list \<times> int) option \<Rightarrow> CoreTLS \<Rightarrow> (NVCVStatus \<times> char list \<times> CoreTLS) result" where
  "GetLastThreadError out tls =
     bind_result (PeekAtLastThreadError out tls) (\<lambda>(st, b).
     bind_result (priv_SetThreadError None tls) (\<lambda>tls. Inr (st, b, tls)))"

text \<open>The body of a C function either ends or throws.\<close>

definition priv_ProtectCall :: "cpp_exception + unit \<Rightarrow> CoreTLS \<Rightarrow> (NVCVStatus \<times> CoreTLS) result" where
  "priv_ProtectCall body tls =
     (case body of
        Inr _ \<Rightarrow> Inr (NVCV_SUCCESS, tls)
      | Inl e \<Rightarrow>
          bind_result (priv_SetThreadError (Some e) tls) (\<lambda>tls.
          bind_result (PeekAtLastThreadError None tls) (\<lambda>(st, _). Inr (st, tls))))"

definition nvcvSetThreadStatus :: "NVCVStatus \<Rightarrow> string option \<Rightarrow> CoreTLS \<Rightarrow> CoreTLS result" where
  "nvcvSetThreadStatus status fmt tls =
     bind_result (case fmt of Some text \<Rightarrow> Exception_fmt status text | None \<Rightarrow> Exception_code status) (\<lambda>e.
     bind_result (priv_ProtectCall (Inl (PrivError e)) tls) (\<lambda>(ret, tls).
     nvcv_assert (ret = status) (Inr tls)))"

section \<open>The exception of the C++ interface\<close>

record PubException =
  pb_code :: NVCVStatus
  pb_buffer :: "char list"
  pb_msg :: nat

text \<open>
  \<open>old\<close> is the uninitialised buffer. The name is shorter than the buffer, so the message pointer is
  always set. A null format is passed on to \<open>vsnprintf\<close>, which reads through it.
\<close>

definition doSetMessage :: "NVCVStatus \<Rightarrow> string option \<Rightarrow> char list \<Rightarrow> PubException result" where
  "doSetMessage code fmt old =
     bind_result (snprintf old 0 sizeof_m_buffer (GetName code @ '': '')) (\<lambda>b.
     let nwritten = length (GetName code @ '': '') in
     bind_result
       (if nwritten < sizeof_m_buffer then
          (case fmt of None \<Rightarrow> Inl OutOfBounds | Some text \<Rightarrow> snprintf b nwritten (sizeof_m_buffer - nwritten) text)
        else Inr b) (\<lambda>b.
     bind_result (store_at b (sizeof_m_buffer - 1) [NUL]) (\<lambda>b.
     Inr \<lparr>pb_code = code, pb_buffer = b, pb_msg = nwritten\<rparr>)))"

definition PubException_ctor :: "NVCVStatus \<Rightarrow> string option \<Rightarrow> char list \<Rightarrow> CoreTLS \<Rightarrow> (PubException \<times> CoreTLS) result" where
  "PubException_ctor code fmt old tls =
     bind_result (nvcvSetThreadStatus code fmt tls) (\<lambda>tls.
     bind_result (doSetMessage code fmt old) (\<lambda>e. Inr (e, tls)))"

definition ThrowException :: "NVCVStatus \<Rightarrow> char list \<Rightarrow> char list \<Rightarrow> CoreTLS \<Rightarrow> (PubException \<times> CoreTLS) result" where
  "ThrowException status old_msg old tls =
     bind_result (GetLastThreadError (Some (old_msg, int NVCV_MAX_STATUS_MESSAGE_LENGTH)) tls) (\<lambda>(tmp, msg, tls).
     nvcv_assert (tmp = status)
    (bind_result (c_string msg) (\<lambda>text.
     bind_result (doSetMessage status (Some text) old) (\<lambda>e. Inr (e, tls)))))"

text \<open>The exception thrown, if any.\<close>

definition CheckThrow :: "NVCVStatus \<Rightarrow> char list \<Rightarrow> char list \<Rightarrow> CoreTLS \<Rightarrow> (PubException option \<times> CoreTLS) result" where
  "CheckThrow status old_msg old tls =
     (if status \<noteq> NVCV_SUCCESS
      then bind_result (ThrowException status old_msg old tls) (\<lambda>(e, tls). Inr (Some e, tls))
      else Inr (None, tls))"

text \<open>Callbacks of the user that are called by the library protect themselves the same way.\<close>

datatype user_exception = UserError PubException | UserInvalidArgument string | UserBadAlloc | UserStdException string | UserOther

definition pub_SetThreadError :: "user_exception option \<Rightarrow> CoreTLS \<Rightarrow> CoreTLS result" where
  "pub_SetThreadError ex tls =
     (case ex of
        None \<Rightarrow> nvcvSetThreadStatus NVCV_SUCCESS None tls
      | Some (UserError e) \<Rightarrow>
          bind_result (c_string (drop (pb_msg e) (pb_buffer e))) (\<lambda>text. nvcvSetThreadStatus (pb_code e) (Some text) tls)
      | Some (UserInvalidArgument what) \<Rightarrow> nvcvSetThreadStatus NVCV_ERROR_INVALID_ARGUMENT (Some what) tls
      | Some UserBadAlloc \<Rightarrow> nvcvSetThreadStatus NVCV_ERROR_OUT_OF_MEMORY (Some ''Not enough space for resource allocation'') tls
      | Some (UserStdException what) \<Rightarrow> nvcvSetThreadStatus NVCV_ERROR_INTERNAL (Some what) tls
      | Some UserOther \<Rightarrow> nvcvSetThreadStatus NVCV_ERROR_INTERNAL (Some ''Unexpected error'') tls)"

definition pub_ProtectCall :: "user_exception + unit \<Rightarrow> CoreTLS \<Rightarrow> (NVCVStatus \<times> CoreTLS) result" where
  "pub_ProtectCall body tls =
     (case body of
        Inr _ \<Rightarrow> Inr (NVCV_SUCCESS, tls)
      | Inl e \<Rightarrow>
          bind_result (pub_SetThreadError (Some e) tls) (\<lambda>tls.
          bind_result (PeekAtLastThreadError None tls) (\<lambda>(st, _). Inr (st, tls))))"

section \<open>What the buffers hold\<close>

lemma snprintf_eq:
  assumes "0 < n" "off + n \<le> length b"
  shows "snprintf b off n text = Inr (take off b @ take (n - 1) text @ NUL # drop (off + length (take (n - 1) text) + 1) b)"
proof -
  have "off + length (take (n - 1) text @ [NUL]) \<le> length b" using assms by auto
  then show ?thesis using assms(1) by (simp add: snprintf_def store_at_def)
qed

lemma c_string_app: "NUL \<notin> set s \<Longrightarrow> c_string (s @ NUL # r) = Inr s"
  by (simp add: c_string_holds holdsI)

lemma GetName_facts: "length (GetName st) \<le> 31" "NUL \<notin> set (GetName st)" "CHR '':'' \<notin> set (GetName st)"
  by (cases st; simp)+

text \<open>An exception whose buffer holds the name of its code, a colon and a text, and nulls behind.\<close>

definition padded :: "string \<Rightarrow> char list" where
  "padded s = s @ replicate (322 - length s) NUL"

lemma padded_split: "length s < 322 \<Longrightarrow> padded s = s @ NUL # replicate (321 - length s) NUL"
  by (simp add: padded_def replicate_Suc [symmetric] Suc_diff_le del: replicate_Suc)

lemma length_padded: "length s \<le> 322 \<Longrightarrow> length (padded s) = 322"
  by (simp add: padded_def)

lemma c_string_padded: "NUL \<notin> set s \<Longrightarrow> length s < 322 \<Longrightarrow> c_string (padded s) = Inr s"
  by (simp add: padded_split c_string_app)

lemma drop_padded: "length s \<le> n \<Longrightarrow> drop n (padded s) = replicate (322 - n) NUL"
  by (simp add: padded_def)

lemma snprintf_padded:
  assumes "0 < n" "length s + n \<le> 322"
  shows "snprintf (padded s) (length s) n text = Inr (padded (s @ take (n - 1) text))"
proof -
  let ?t = "take (n - 1) text"
  have l: "length s + n \<le> length (padded s)" "length (s @ ?t) < 322" "length s \<le> length s + length ?t + 1"
    using assms length_padded [of s] by auto
  show ?thesis
    unfolding snprintf_eq [OF assms(1) l(1)] padded_split [OF l(2)] drop_padded [OF l(3)]
    by (simp add: padded_def diff_diff_left)
qed

definition exc_text :: "NVCVStatus \<Rightarrow> string \<Rightarrow> PrivException" where
  "exc_text code t = (let s = GetName code @ '': '' @ t in \<lparr>pe_code = code, pe_buffer = padded s, pe_put = length s\<rparr>)"

lemma Exception_fmt_text:
  assumes "NUL \<notin> set t"
  shows "Exception_fmt code t = Inr (exc_text code (take (318 - length (GetName code)) t))"
proof -
  let ?n = "GetName code @ '': ''"
  have n: "length ?n \<le> 33" "NUL \<notin> set ?n" using GetName_facts [of code] by auto
  have "snprintf (replicate 322 NUL) 0 321 ?n = Inr (padded ?n)"
    using snprintf_padded [of 321 "[]" ?n] n(1) by (simp add: padded_def)
  moreover have "c_string (padded ?n) = Inr ?n" using n by (intro c_string_padded) auto
  moreover have "snprintf (padded ?n) (length ?n) (322 - length ?n - 1) t = Inr (padded (?n @ take (320 - length ?n) t))"
    using snprintf_padded [of "322 - length ?n - 1" ?n t] n(1) by simp
  moreover have "c_string (padded (?n @ take (320 - length ?n) t)) = Inr (?n @ take (320 - length ?n) t)"
    using n assms by (intro c_string_padded) (auto dest: in_set_takeD)
  ultimately show ?thesis by (simp add: Exception_fmt_def exc_text_def Let_def)
qed

lemma Exception_stream_text:
  assumes "length (GetName code) + 2 + length t + length u \<le> 322"
  shows "Exception_stream u (exc_text code t) = Inr (exc_text code (t @ u))"
proof -
  let ?s = "GetName code @ '': '' @ t"
  have l: "length ?s + length u \<le> 322" using assms by simp
  then have "store_at (padded ?s) (length ?s) u = Inr (padded (?s @ u))"
    using length_padded [of ?s] by (simp add: store_at_def padded_def)
  then show ?thesis using l by (simp add: Exception_stream_def exc_text_def Let_def)
qed

lemma Exception_msg_text:
  assumes "length (GetName code) + 2 + length t \<le> 322"
  shows "Exception_msg (exc_text code t) = Inr (length (GetName code) + 2)"
proof -
  have "takeWhile (\<lambda>c. c \<noteq> CHR '':'' \<and> c \<noteq> NUL) (GetName code @ CHR '':'' # r) = GetName code" for r
    using GetName_facts [of code] by (subst takeWhile_append2) auto
  then show ?thesis by (simp add: Exception_msg_def exc_text_def padded_def Let_def)
qed

lemma Exception_read:
  assumes "length (GetName code) + 2 + length t \<le> 322" "NUL \<notin> set t"
  shows "c_string (drop (length (GetName code) + 2) (pe_buffer (exc_text code t))) =
    (if length (GetName code) + 2 + length t < 322 then Inr t else Inl OutOfBounds)"
proof -
  have "drop (length (GetName code) + 2) (pe_buffer (exc_text code t)) = t @ replicate (322 - (length (GetName code) + 2 + length t)) NUL"
    by (simp add: exc_text_def padded_def Let_def)
  moreover have "c_string (t @ replicate (Suc k) NUL) = Inr t" for k using assms(2) c_string_app by simp
  moreover have "c_string t = Inl OutOfBounds" using assms(2) by (simp add: c_string_def)
  ultimately show ?thesis using assms(1) by (cases "322 - (length (GetName code) + 2 + length t)") auto
qed

text \<open>The state of a thread after an error.\<close>

definition wf_tls :: "CoreTLS \<Rightarrow> bool" where
  "wf_tls tls \<longleftrightarrow> length (lastErrorMessage tls) = 256"

lemma set_error_text:
  assumes "wf_tls tls" "NUL \<notin> set t"
  obtains tls' where "set_error st t tls = Inr tls'" "wf_tls tls'" "lastErrorStatus tls' = st"
    "c_string (lastErrorMessage tls') = Inr (take 254 t)"
proof -
  let ?b = "take 254 t @ NUL # drop (length (take 254 t) + 1) (lastErrorMessage tls)"
  have l: "length (lastErrorMessage tls) = 256" using assms(1) by (simp add: wf_tls_def)
  have s: "snprintf (lastErrorMessage tls) 0 255 t = Inr ?b" using snprintf_eq [of 255 0 "lastErrorMessage tls" t] l by simp
  have lb: "length ?b = 256" using l by (simp add: min_def)
  have st: "store_at ?b 255 [NUL] = Inr (take 255 ?b @ [NUL])" using lb by (simp add: store_at_def)
  have "take 255 ?b @ [NUL] = take 254 t @ NUL # (take (254 - length (take 254 t)) (drop (length (take 254 t) + 1) (lastErrorMessage tls)) @ [NUL])"
    by (simp add: take_Cons' min_def)
  then have "c_string (take 255 ?b @ [NUL]) = Inr (take 254 t)"
    using assms(2) c_string_app [of "take 254 t"] by (auto dest: in_set_takeD)
  moreover have "length (take 255 ?b @ [NUL]) = 256" using lb by simp
  ultimately show ?thesis using s st
    by (intro that [of "tls\<lparr>lastErrorStatus := st, lastErrorMessage := take 255 ?b @ [NUL]\<rparr>"])
      (simp_all add: set_error_def Let_def wf_tls_def)
qed

lemma protect_text:
  assumes "wf_tls tls" "NUL \<notin> set t" "length (GetName code) + 2 + length t < 322"
  obtains tls' where "priv_ProtectCall (Inl (PrivError (exc_text code t))) tls = Inr (code, tls')" "wf_tls tls'"
    "lastErrorStatus tls' = code" "c_string (lastErrorMessage tls') = Inr (take 254 t)"
proof -
  obtain tls' where s: "set_error code t tls = Inr tls'" "wf_tls tls'" "lastErrorStatus tls' = code"
    "c_string (lastErrorMessage tls') = Inr (take 254 t)" using set_error_text [OF assms(1,2)] by blast
  have "pe_code (exc_text code t) = code" by (simp add: exc_text_def Let_def)
  then have "priv_SetThreadError (Some (PrivError (exc_text code t))) tls = Inr tls'"
    using s(1) assms(3) Exception_msg_text [of code t] Exception_read [OF _ assms(2), of code] by (simp add: priv_SetThreadError_def)
  then show ?thesis using that s by (simp add: priv_ProtectCall_def PeekAtLastThreadError_def)
qed

lemma nvcvSetThreadStatus_text:
  assumes "wf_tls tls" "NUL \<notin> set t" "length t \<le> 254"
  obtains tls' where "nvcvSetThreadStatus code (Some t) tls = Inr tls'" "wf_tls tls'" "lastErrorStatus tls' = code"
    "c_string (lastErrorMessage tls') = Inr t"
proof -
  have n: "length (GetName code) \<le> 31" by (rule GetName_facts)
  then have l: "length (GetName code) + 2 + length t < 322" "take (318 - length (GetName code)) t = t" "take 254 t = t"
    using assms(3) by auto
  from protect_text [OF assms(1,2) l(1)] obtain tls' where p: "priv_ProtectCall (Inl (PrivError (exc_text code t))) tls = Inr (code, tls')"
    "wf_tls tls'" "lastErrorStatus tls' = code" "c_string (lastErrorMessage tls') = Inr t" unfolding l(3) by blast
  have "Exception_fmt code t = Inr (exc_text code t)" using Exception_fmt_text [OF assms(2), of code] unfolding l(2) .
  then have "nvcvSetThreadStatus code (Some t) tls = Inr tls'" using p(1) by (simp add: nvcvSetThreadStatus_def)
  then show ?thesis using that p by blast
qed

lemma GetLast_text:
  assumes "wf_tls tls" "c_string (lastErrorMessage tls) = Inr t" "length b = 256" "length t \<le> 254"
  obtains b' tls' where "GetLastThreadError (Some (b, int 256)) tls = Inr (lastErrorStatus tls, b', tls')"
    "c_string b' = Inr t" "wf_tls tls'" "lastErrorStatus tls' = NVCV_SUCCESS" "c_string (lastErrorMessage tls') = Inr ''success''"
proof -
  have z: "NUL \<notin> set t" using assms(2) by (simp add: c_string_holds holds_def)
  have p: "snprintf b 0 256 t = Inr (t @ NUL # drop (length t + 1) b)" using snprintf_eq [of 256 0 b t] assms(3,4) by simp
  obtain tls' where s: "set_error NVCV_SUCCESS ''success'' tls = Inr tls'" "wf_tls tls'" "lastErrorStatus tls' = NVCV_SUCCESS"
    "c_string (lastErrorMessage tls') = Inr (take 254 ''success'')" using set_error_text [OF assms(1), of "''success''"] by auto
  have "GetLastThreadError (Some (b, int 256)) tls = Inr (lastErrorStatus tls, t @ NUL # drop (length t + 1) b, tls')"
    using p s(1) assms(2) by (simp add: GetLastThreadError_def PeekAtLastThreadError_def priv_SetThreadError_def)
  then show ?thesis using that c_string_app [OF z] s by simp
qed

lemma doSetMessage_text:
  assumes "length old = 322" "NUL \<notin> set t" "length t \<le> 254"
  obtains e where "doSetMessage code (Some t) old = Inr e" "pb_code e = code"
    "c_string (pb_buffer e) = Inr (GetName code @ '': '' @ t)" "c_string (drop (pb_msg e) (pb_buffer e)) = Inr t"
proof -
  let ?n = "GetName code @ '': ''"
  have n: "length ?n \<le> 33" "NUL \<notin> set ?n" using GetName_facts [of code] by auto
  define b1 where "b1 = ?n @ NUL # drop (length ?n + 1) old"
  have s1: "snprintf old 0 322 ?n = Inr b1" using snprintf_eq [of 322 0 old ?n] n(1) assms(1) by (simp add: b1_def)
  have l1: "length b1 = 322" using n(1) assms(1) by (simp add: b1_def)
  define r where "r = drop (length ?n + length t + 1) b1"
  have s2: "snprintf b1 (length ?n) (322 - length ?n) t = Inr (?n @ t @ NUL # r)"
    using snprintf_eq [of "322 - length ?n" "length ?n" b1 t] n(1) assms(3) l1 by (simp add: b1_def r_def)
  have "length r = 322 - (length ?n + length t + 1)" "0 < length r" using l1 n(1) assms(3) by (simp_all add: r_def)
  then obtain r' c where r: "r = r' @ [c]" "length (?n @ t @ NUL # r') = 321" using n(1) assms(3)
    by (cases r rule: rev_cases) auto
  have s3: "store_at (?n @ t @ NUL # r) 321 [NUL] = Inr (?n @ t @ NUL # r' @ [NUL])"
    using store_at_app [of "[c]" "[NUL]" "?n @ t @ NUL # r'" "[]"] unfolding r(2) by (simp add: r(1))
  let ?e = "\<lparr>pb_code = code, pb_buffer = ?n @ t @ NUL # r' @ [NUL], pb_msg = length ?n\<rparr>"
  have "doSetMessage code (Some t) old = Inr ?e" using s1 s2 s3 n(1) by (simp add: doSetMessage_def Let_def)
  moreover have "c_string (pb_buffer ?e) = Inr (GetName code @ '': '' @ t)"
    using c_string_app [of "?n @ t" "r' @ [NUL]"] n(2) assms(2) by simp
  moreover have "c_string (drop (pb_msg ?e) (pb_buffer ?e)) = Inr t" using c_string_app [OF assms(2)] by simp
  ultimately show ?thesis using that by simp
qed

section \<open>Properties\<close>

text \<open>
  Property C20: an error crosses the C interface unchanged. An exception of the library with any
  error code, whose text was partly formatted and partly streamed and fits its buffer, is caught and
  its code returned; the check of that code throws a public exception with the same code and with
  the text, of which 254 characters are kept, and leaves the thread without an error. Thrown from a
  callback of the user, that exception arrives in the library with code and text again.
\<close>

theorem error_crosses_interface:
  assumes "code \<noteq> NVCV_SUCCESS" "NUL \<notin> set t" "NUL \<notin> set u" "length t + length u \<le> 287"
    and "wf_tls tls" "length old_msg = 256" "length old = 322"
  shows "\<exists>e0 e1 tls1 pub tls2 tls3. Exception_fmt code t = Inr e0 \<and> Exception_stream u e0 = Inr e1
    \<and> priv_ProtectCall (Inl (PrivError e1)) tls = Inr (code, tls1)
    \<and> CheckThrow code old_msg old tls1 = Inr (Some pub, tls2) \<and> pb_code pub = code
    \<and> c_string (drop (pb_msg pub) (pb_buffer pub)) = Inr (take 254 (t @ u))
    \<and> c_string (pb_buffer pub) = Inr (GetName code @ '': '' @ take 254 (t @ u))
    \<and> lastErrorStatus tls2 = NVCV_SUCCESS \<and> c_string (lastErrorMessage tls2) = Inr ''success''
    \<and> pub_ProtectCall (Inl (UserError pub)) tls2 = Inr (code, tls3)
    \<and> c_string (lastErrorMessage tls3) = Inr (take 254 (t @ u))"
proof -
  let ?m = "take 254 (t @ u)"
  have n: "length (GetName code) \<le> 31" by (rule GetName_facts)
  then have f: "Exception_fmt code t = Inr (exc_text code t)" "Exception_stream u (exc_text code t) = Inr (exc_text code (t @ u))"
    using Exception_fmt_text [OF assms(2), of code] Exception_stream_text [of code t u] assms(4) by auto
  have z: "NUL \<notin> set (t @ u)" "NUL \<notin> set ?m" "length ?m \<le> 254"
    using assms(2,3) by (auto dest!: in_set_takeD)
  have "length (GetName code) + 2 + length (t @ u) < 322" using n assms(4) by simp
  from protect_text [OF assms(5) z(1) this] obtain tls1 where p: "priv_ProtectCall (Inl (PrivError (exc_text code (t @ u)))) tls = Inr (code, tls1)"
    "wf_tls tls1" "lastErrorStatus tls1 = code" "c_string (lastErrorMessage tls1) = Inr ?m" by blast
  obtain b' tls2 where g: "GetLastThreadError (Some (old_msg, int 256)) tls1 = Inr (lastErrorStatus tls1, b', tls2)" "c_string b' = Inr ?m"
    "wf_tls tls2" "lastErrorStatus tls2 = NVCV_SUCCESS" "c_string (lastErrorMessage tls2) = Inr ''success''"
    using GetLast_text [OF p(2,4) assms(6) z(3)] by blast
  obtain pub where e: "doSetMessage code (Some ?m) old = Inr pub" "pb_code pub = code"
    "c_string (pb_buffer pub) = Inr (GetName code @ '': '' @ ?m)" "c_string (drop (pb_msg pub) (pb_buffer pub)) = Inr ?m"
    using doSetMessage_text [OF assms(7) z(2,3)] by blast
  have c: "CheckThrow code old_msg old tls1 = Inr (Some pub, tls2)"
    using g(1,2) e(1) p(3) assms(1) by (simp add: CheckThrow_def ThrowException_def)
  obtain tls3 where u: "nvcvSetThreadStatus code (Some ?m) tls2 = Inr tls3" "lastErrorStatus tls3 = code"
    "c_string (lastErrorMessage tls3) = Inr ?m" using nvcvSetThreadStatus_text [OF g(3) z(2,3)] by blast
  have "pub_ProtectCall (Inl (UserError pub)) tls2 = Inr (code, tls3)"
    using u e(2,4) by (simp add: pub_ProtectCall_def pub_SetThreadError_def PeekAtLastThreadError_def)
  then show ?thesis using f p(1) c e(2-4) g(4,5) u(3) by blast
qed

definition fresh_thread :: CoreTLS where
  "fresh_thread = \<lparr>lastErrorStatus = NVCV_SUCCESS, lastErrorMessage = replicate 256 NUL\<rparr>"

theorem error_crosses_interface_witness:
  "\<exists>e0 e1 tls1 pub tls2. Exception_fmt NVCV_ERROR_OVERFLOW ''size '' = Inr e0 \<and> Exception_stream ''42'' e0 = Inr e1
    \<and> priv_ProtectCall (Inl (PrivError e1)) fresh_thread = Inr (NVCV_ERROR_OVERFLOW, tls1)
    \<and> CheckThrow NVCV_ERROR_OVERFLOW (replicate 256 NUL) (replicate 322 NUL) tls1 = Inr (Some pub, tls2)
    \<and> c_string (pb_buffer pub) = Inr ''NVCV_ERROR_OVERFLOW: size 42''"
proof -
  have h: "NVCV_ERROR_OVERFLOW \<noteq> NVCV_SUCCESS" "NUL \<notin> set ''size ''" "NUL \<notin> set ''42''" "length ''size '' + length ''42'' \<le> 287"
    "wf_tls fresh_thread" "length (replicate 256 NUL) = 256" "length (replicate 322 NUL) = 322"
    by (simp_all add: wf_tls_def fresh_thread_def)
  show ?thesis using error_crosses_interface [OF h] by fastforce
qed

text \<open>
  Limits: a streamed text that fills the buffer overwrites the last null, and copying the message
  then reads behind the buffer. The public exception without a format string, its default argument,
  passes a null pointer to \<open>vsnprintf\<close>.
\<close>

lemma full_message_overruns:
  assumes "NUL \<notin> set u" "length (GetName code) + 2 + length u = 322"
  shows "bind_result (Exception_code code) (\<lambda>e. bind_result (Exception_stream u e) (\<lambda>e. priv_SetThreadError (Some (PrivError e)) tls))
    = Inl OutOfBounds"
proof -
  have "Exception_code code = Inr (exc_text code [])" using Exception_fmt_text [of "[]" code] by (simp add: Exception_code_def)
  moreover have "Exception_stream u (exc_text code []) = Inr (exc_text code u)" using Exception_stream_text [of code "[]" u] assms(2) by simp
  ultimately show ?thesis
    using Exception_msg_text [of code u] Exception_read [OF _ assms(1), of code] assms(2) by (simp add: priv_SetThreadError_def)
qed

lemma default_message_faults: "length old = 322 \<Longrightarrow> doSetMessage code None old = Inl OutOfBounds"
  using snprintf_eq [of 322 0 old "GetName code @ '': ''"] GetName_facts(1) [of code] by (simp add: doSetMessage_def Let_def)

end
