(* ===== verification/Spec2Isabelle.thy ===== *)
theory Spec2Isabelle
  imports Core_Object Image_Format_Codes Border_Operator Batch_Memory Workspace_Memory Array_Object Status_Errors
begin

text \<open>
  A verification library for CV-CUDA (the port to MUSA).

  \<^bold>\<open>The program.\<close> CV-CUDA is a C++ library of image operators on the GPU. Its core
  (\<open>src/nvcv\<close>) defines the containers: images, tensors, arrays and batches of them, whose memory comes
  from allocators, whose element types are packed into 64-bit codes, and which the C interface hands
  out as handles. Its operators (\<open>src/cvcuda\<close>) export the memory of such containers as strided data,
  check it, wrap it for the device and launch kernels. Calls go down from the operators through
  the access objects to the exported data and from there to the private objects of the core; errors
  come back as C++ exceptions, which the C interface turns into a status code and the C++
  interface on top of it into exceptions again. The development follows this order from below.

  \<^bold>\<open>Foundations.\<close>
  \<^item> \<open>Nvcv_Prelude\<close>: the status codes of \<open>Status.h\<close>; an operation that may throw, fail an assertion or
    read out of bounds is a value of the sum type \<open>result\<close>, a stateful one a function \<open>st\<close> that also
    returns the state; machine integers as \<open>64 word\<close>, or as \<open>int\<close> with \<open>wrap32\<close> and \<open>wrap64\<close> written
    out where C++ computes in a signed type.
  \<^item> \<open>Int_Math\<close> (\<open>nvcv/util/Math.hpp\<close>): rounding and logarithms of machine integers; the bit-smearing
    loop computes the least power of two.
  \<^item> \<open>Bitfield\<close>, \<open>Color_Spec\<close>, \<open>Packing_Tables\<close>, \<open>Data_Layout\<close>, \<open>Image_Format\<close>, \<open>Image_Format_Codes\<close>
    (\<open>Bitfield.hpp\<close>, \<open>ColorSpec.cpp\<close>, \<open>DataLayout.cpp\<close>, \<open>ImageFormat.cpp\<close>, \<open>DataType.cpp\<close> under
    \<open>nvcv/src/priv\<close>, and the encoding macros of the public headers): colour specifications,
    swizzles, packings, data types and image formats as 64-bit codes. The interface \<open>field\<close> states what
    a bit field promises (read after write, independent fields); accessors of colour specifications and of
    formats are interpretations of it. The lemmas show that what is encoded is what is read back, for each
    plane and for formats with extra channels, and that four-character codes identify formats.

  \<^bold>\<open>Objects and handles.\<close>
  \<^item> \<open>Lock_Free_Stack\<close> (\<open>LockFreeStack.hpp\<close>): the step relation interleaves the atomic steps of any number
    of threads; its runs refine an abstract stack (every pop and push takes effect at one step), by a
    simulation over an invariant on who owns which node. The interface \<open>node_stack\<close> is its
    sequential contract.
  \<^item> \<open>Handle_Manager\<close> (\<open>HandleManager.hpp\<close>, \<open>HandleManagerImpl.hpp\<close>): pools of resources, handles that
    carry a generation, reference counts. The invariant \<open>manager_inv\<close> is kept by every
    operation; an object lives exactly as long as it is referenced, a stale handle is detected. The
    interface \<open>refcounted\<close> gives the contract of reference counting to the clients.
  \<^item> \<open>Core_Object\<close> (\<open>Version.hpp\<close>, \<open>ICoreObject.hpp\<close>, \<open>SharedCoreObj.hpp\<close>): versions, resolution of handles,
    owning pointers; counts always equal the number of owners.

  \<^bold>\<open>Containers.\<close>
  \<^item> \<open>Mem_Requirements\<close>, \<open>Allocators\<close>, \<open>Buffer_Blocks\<close> (\<open>Requirements.cpp\<close>, \<open>IAllocator.cpp\<close>,
    \<open>DefaultAllocator.cpp\<close>, \<open>CustomAllocator.cpp\<close>): how much memory of which kind, who allocates it, and the
    release of what was taken when a later allocation fails. The functions of the C library and of
    the CUDA run time are parameters.
  \<^item> \<open>Tensor_Layout\<close>, \<open>Tensor_Reshape\<close>, \<open>Tensor_Wrap\<close>, \<open>Tensor_Data\<close> (\<open>TensorLayout.cpp\<close>, \<open>TensorShape.cpp\<close>,
    \<open>TensorData.cpp\<close>, \<open>Tensor.cpp\<close>, \<open>TensorWrapDataStrided.cpp\<close>): layouts and their parts, tensors with their
    strides, reshaping, validation of foreign buffers. Every element lies in the buffer, two
    elements never overlap, and a reshaped tensor has the same elements in the same order.
  \<^item> \<open>Image_Object\<close> (\<open>Image.cpp\<close>): images and their planes.
  \<^item> \<open>Image_Batch\<close>, \<open>Tensor_Batch\<close>, \<open>Batch_Memory\<close> (\<open>ImageBatchVarShape.cpp\<close>, \<open>TensorBatch.cpp\<close>): batches with
    a dirty range that is copied to the device when they are exported. The invariants say that the
    exported batch shows the images or tensors it holds, and that it owns one reference to each.
  \<^item> \<open>Workspace\<close>, \<open>Workspace_Memory\<close> (\<open>Workspace.hpp\<close>, \<open>WorkspaceEstimator.hpp\<close>, \<open>WorkspaceAllocator.hpp\<close> of
    \<open>cvcuda\<close>): scratch memory. A sequence of requests that was estimated is served, in
    bounds and without overlap.
  \<^item> \<open>Array_Object\<close> (\<open>Array.cpp\<close>, \<open>ArrayWrapData.cpp\<close>, \<open>ArrayDataAccess.hpp\<close>): arrays and their views.
  \<^item> \<open>Text_Buffers\<close>, \<open>Status_Errors\<close> (\<open>String.cpp\<close>, \<open>Exception.cpp\<close>, \<open>Status.cpp\<close>, \<open>Exception.hpp\<close>): strings in
    fixed buffers, exceptions, the last error of a thread and its way through the C interface.

  \<^bold>\<open>Operators.\<close>
  \<^item> \<open>Device_Access\<close> (\<open>TensorWrap.hpp\<close>, \<open>BorderWrap.hpp\<close> of \<open>cuda_tools\<close>): addresses computed on the device, with the
    width of the stride type, and the index arithmetic of the five border types, equal to a reference
    that reflects at the nearer end until the index is inside.
  \<^item> \<open>Tensor_Access\<close> (\<open>TensorLayoutInfo.hpp\<close>, \<open>TensorShapeInfo.hpp\<close>, \<open>TensorDataAccess.hpp\<close>): which dimensions are
    samples, rows, columns and channels, and the pointers that host code computes from them.
  \<^item> \<open>Kernels\<close> (\<open>legacy/CvCudaUtils.cuh\<close>): memory as bytes, threads of a launch, a device that runs them
    in an order of its own choice, and \<open>divUp\<close> with its rounding to float.
  \<^item> \<open>Image_Operators\<close> (\<open>legacy/flip.cu\<close>, \<open>custom_crop.cu\<close>, \<open>center_crop.cu\<close>, \<open>copy_make_border.cu\<close>,
    \<open>CvCudaLegacyHelpers.cpp\<close>): each operator from its checks to its kernel.
  \<^item> \<open>Operator_Correctness\<close>, \<open>Border_Operator\<close>: the interface \<open>image_operator\<close> states what an operator
    promises: on operands that fit it succeeds, each pixel of its region has the specified
    value, no other byte changes. It is interpreted on the four operators; independence of the order
    of threads is proved once inside it.

  \<^bold>\<open>Recursion and bounds.\<close> Loops are structural or have a measure, and so does \<open>ReplaceAllInline\<close> through
  fuel that its refinement lemma shows to be enough for every pattern that is not empty; the mutual
  recursion of \<open>CreateFirst\<close> and \<open>CreateLast\<close>, which does not end for the smallest integer, is a partial
  function whose divergence is proved. The correctness of the operators is stated for
  images that \<open>launchable\<close> admits: the sizes for which \<open>divUp\<close> is exact in float (below \<open>2 ^ 24\<close>) and the
  grid is within the limits of the device. Kernels of the four operators have no barriers and no
  shared memory, so a thread is one step and a schedule a permutation of the threads.

  \<^bold>\<open>Findings.\<close> Where the code departs from its documentation or its evident aim, a lemma of the theory
  that models it exhibits the case, and the properties carry the hypothesis that excludes it. Among
  them: \<open>divUp_misses_column\<close>, \<open>two_channel_flip_faults\<close>, \<open>flip_sizes_unchecked\<close>,
  \<open>center_crop_larger_than_input\<close>, \<open>no_image_accepted\<close>, \<open>failed_push_leaks\<close>, \<open>set_same_tensor_destroys\<close>,
  \<open>sampleData_ignores_index\<close>, \<open>count_overflow_accepted\<close>, \<open>reflect_overflow\<close>, \<open>later_occurrence_left\<close>,
  \<open>full_message_overruns\<close>.

  \<^bold>\<open>Not modelled.\<close>
  \<^item> Operators whose content is arithmetic in float or half (filters, resizing, warping, colour
    conversion, normalisation, statistics, matching, drawing): the library used here has no
    theory of IEEE rounding, and a model over the reals would not be this code. The variants of
    the four operators on image batches of varying shape.
  \<^item> The memory model of the C++ atomics: steps of the stack are sequentially consistent. Streams
    are executed at once; CUDA calls are parameters by their outcomes.
  \<^item> Stream output and names of enumerators, logging, the C++ wrappers that only own a handle, the
    C functions that only check their pointers, Python bindings, tests, benchmarks, samples.
  \<^item> The copies of the sources for MUSA (\<open>priv_musa\<close>, \<open>include_musa\<close>, \<open>cuda_tools_musa\<close>), which repeat the
    CUDA sources with other names of the run-time functions.
\<close>

end
